(* ===== verification/Prelude.thy ===== *)
theory Prelude
  imports Complex_Main
    "HOL-Library.Char_ord" "HOL-Library.List_Lexorder" "HOL-Library.Product_Lexorder"
    "HOL-Library.Multiset" "HOL-Library.Sublist" "HOL-Library.AList"
begin

text \<open>
  Shared vocabulary of the ComplyLayer development.

  \<^item> \<open>mapE\<close>: a Python comprehension whose body may raise (left to right, first error wins);
  \<^item> character classes and string helpers of Python's \<open>str\<close>, on the Latin-1 range that
    \<^typ>\<open>char\<close> covers;
  \<^item> decimal rendering of integers (\<open>str(n)\<close>) and \<open>int.bit_length\<close>;
  \<^item> dictionaries as association lists with Python's insertion-order update.

  Errors are values of the left summand of \<open>'e + 'a\<close> everywhere.
\<close>

named_theorems py_simps \<open>unfolding rules of the modelled Python built-ins\<close>
named_theorems inv_intros \<open>preservation rules of the component invariants\<close>


section \<open>Computations that may raise\<close>

type_synonym ('e, 'a) result = "'e + 'a"

fun is_ok :: "'e + 'a \<Rightarrow> bool" where
  "is_ok (Inl _) = False"
| "is_ok (Inr _) = True"

lemma is_ok_iff: "is_ok r \<longleftrightarrow> (\<exists>x. r = Inr x)"
  by (cases r) auto

lemma not_is_ok_iff: "\<not> is_ok r \<longleftrightarrow> (\<exists>e. r = Inl e)"
  by (cases r) auto

text \<open>Running the rest of a computation only when the first part did not raise.\<close>

definition bindE :: "'e + 'a \<Rightarrow> ('a \<Rightarrow> 'e + 'b) \<Rightarrow> 'e + 'b" where
  "bindE r f = (case r of Inl e \<Rightarrow> Inl e | Inr x \<Rightarrow> f x)"

lemma bindE_simps [simp]:
  "bindE (Inl e) f = Inl e"
  "bindE (Inr x) f = f x"
  by (simp_all add: bindE_def)

lemma bindE_cong [fundef_cong]:
  "r = r' \<Longrightarrow> (\<And>x. r' = Inr x \<Longrightarrow> f x = f' x) \<Longrightarrow> bindE r f = bindE r' f'"
  by (cases r') (auto simp: bindE_def)

lemma bindE_assoc: "bindE (bindE r f) g = bindE r (\<lambda>x. bindE (f x) g)"
  by (cases r) simp_all

lemma bindE_eq_Inr [simp]: "bindE r f = Inr y \<longleftrightarrow> (\<exists>x. r = Inr x \<and> f x = Inr y)"
  by (cases r) auto

lemma bindE_eq_Inl: "bindE r f = Inl e \<longleftrightarrow> r = Inl e \<or> (\<exists>x. r = Inr x \<and> f x = Inl e)"
  by (cases r) auto

fun mapE :: "('a \<Rightarrow> 'e + 'b) \<Rightarrow> 'a list \<Rightarrow> 'e + 'b list" where
  "mapE f [] = Inr []"
| "mapE f (x # xs) =
     (case f x of
        Inl e \<Rightarrow> Inl e
      | Inr y \<Rightarrow> (case mapE f xs of Inl e \<Rightarrow> Inl e | Inr ys \<Rightarrow> Inr (y # ys)))"

lemma mapE_cong [fundef_cong]:
  assumes "xs = ys" and "\<And>x. x \<in> set ys \<Longrightarrow> f x = g x"
  shows "mapE f xs = mapE g ys"
  using assms(2) unfolding assms(1)
  by (induction ys) (auto split: sum.splits)

lemma mapE_Inr_iff:
  "mapE f xs = Inr ys \<longleftrightarrow> list_all2 (\<lambda>x y. f x = Inr y) xs ys"
proof (induction xs arbitrary: ys)
  case Nil
  then show ?case by auto
next
  case (Cons x xs)
  show ?case
  proof (cases "mapE f xs")
    case (Inl e)
    with Cons.IH have "\<not> list_all2 (\<lambda>x y. f x = Inr y) xs zs" for zs by simp
    with Inl show ?thesis by (auto simp: list_all2_Cons1 split: sum.splits)
  next
    case (Inr zs)
    with Cons.IH have "list_all2 (\<lambda>x y. f x = Inr y) xs ws \<longleftrightarrow> zs = ws" for ws by simp
    with Inr show ?thesis by (cases ys; cases "f x") auto
  qed
qed

lemma mapE_length: "mapE f xs = Inr ys \<Longrightarrow> length ys = length xs"
  by (auto simp: mapE_Inr_iff dest: list_all2_lengthD)

lemma mapE_in_set:
  assumes "mapE f xs = Inr ys" and "y \<in> set ys"
  obtains x where "x \<in> set xs" and "f x = Inr y"
proof -
  from assms have "\<exists>x \<in> set xs. f x = Inr y"
    unfolding mapE_Inr_iff by (induction rule: list_all2_induct) auto
  then show thesis using that by blast
qed

lemma mapE_InlE:
  assumes "mapE f xs = Inl e"
  obtains x where "x \<in> set xs" and "f x = Inl e"
proof -
  from assms have "\<exists>x \<in> set xs. f x = Inl e"
    by (induction xs) (auto split: sum.splits)
  then show thesis using that by blast
qed

lemma mapE_all_ok: "(\<And>x. x \<in> set xs \<Longrightarrow> is_ok (f x)) \<Longrightarrow> is_ok (mapE f xs)"
  by (induction xs) (auto simp: is_ok_iff split: sum.splits, fastforce+)


section \<open>Characters and strings\<close>

definition ord_c :: "char \<Rightarrow> nat" where
  "ord_c c = of_char c"

definition isascii_c :: "char \<Rightarrow> bool" where
  "isascii_c c \<longleftrightarrow> ord_c c < 128"

definition isspace_c :: "char \<Rightarrow> bool" where
  "isspace_c c \<longleftrightarrow>
     (let n = ord_c c in (9 \<le> n \<and> n \<le> 13) \<or> (28 \<le> n \<and> n \<le> 32) \<or> n = 133 \<or> n = 160)"

definition is_ascii_alpha :: "char \<Rightarrow> bool" where
  "is_ascii_alpha c \<longleftrightarrow>
     (let n = ord_c c in (65 \<le> n \<and> n \<le> 90) \<or> (97 \<le> n \<and> n \<le> 122))"

definition is_ascii_digit :: "char \<Rightarrow> bool" where
  "is_ascii_digit c \<longleftrightarrow> (let n = ord_c c in 48 \<le> n \<and> n \<le> 57)"

text \<open>Latin-1 letters outside ASCII, and the superscript digits and fractions that
  \<open>str.isalnum\<close> accepts as numeric.\<close>

definition is_latin1_alpha :: "char \<Rightarrow> bool" where
  "is_latin1_alpha c \<longleftrightarrow>
     (let n = ord_c c
      in n = 170 \<or> n = 181 \<or> n = 186 \<or> (192 \<le> n \<and> n \<le> 255 \<and> n \<noteq> 215 \<and> n \<noteq> 247))"

definition isalpha_c :: "char \<Rightarrow> bool" where
  "isalpha_c c \<longleftrightarrow> is_ascii_alpha c \<or> is_latin1_alpha c"

definition isalnum_c :: "char \<Rightarrow> bool" where
  "isalnum_c c \<longleftrightarrow>
     isalpha_c c \<or> is_ascii_digit c \<or>
     ord_c c \<in> {178, 179, 185, 188, 189, 190}"

lemmas char_class_defs =
  ord_c_def isascii_c_def isspace_c_def is_ascii_alpha_def is_ascii_digit_def
  is_latin1_alpha_def isalpha_c_def isalnum_c_def

text \<open>\<open>source.startswith(w, i)\<close>.\<close>

definition starts_at :: "string \<Rightarrow> string \<Rightarrow> nat \<Rightarrow> bool" where
  "starts_at src w i \<longleftrightarrow> i + length w \<le> length src \<and> take (length w) (drop i src) = w"

lemma starts_at_drop: "i \<le> length src \<Longrightarrow> starts_at src w i \<longleftrightarrow> prefix w (drop i src)"
proof
  show "prefix w (drop i src)" if "starts_at src w i"
    using that take_is_prefix [of "length w" "drop i src"] by (simp add: starts_at_def)
  show "starts_at src w i" if "i \<le> length src" "prefix w (drop i src)"
    using that prefix_length_le [OF that(2)] by (auto simp: starts_at_def prefix_def)
qed

text \<open>\<open>text.strip()\<close>.\<close>

definition py_strip :: "string \<Rightarrow> string" where
  "py_strip s = rev (dropWhile isspace_c (rev (dropWhile isspace_c s)))"

lemma length_py_strip: "length (py_strip s) \<le> length s"
  using length_dropWhile_le [of isspace_c "rev (dropWhile isspace_c s)"]
    length_dropWhile_le [of isspace_c s]
  by (simp add: py_strip_def)

text \<open>\<open>needle in hay\<close> on strings.\<close>

fun str_contains :: "string \<Rightarrow> string \<Rightarrow> bool" where
  "str_contains [] n = (n = [])"
| "str_contains (c # cs) n = (prefix n (c # cs) \<or> str_contains cs n)"

lemma str_contains_iff: "str_contains h n \<longleftrightarrow> sublist n h"
  by (induction h) (auto simp: sublist_Cons_right)

text \<open>\<open>sep.join(parts)\<close>.\<close>

fun str_join :: "string \<Rightarrow> string list \<Rightarrow> string" where
  "str_join sep [] = ''''"
| "str_join sep [x] = x"
| "str_join sep (x # y # ys) = x @ sep @ str_join sep (y # ys)"

lemma set_str_join: "set (str_join sep xs) \<subseteq> set sep \<union> (\<Union>x \<in> set xs. set x)"
  by (induction sep xs rule: str_join.induct) auto

lemma str_join_nonempty: "xs \<noteq> [] \<Longrightarrow> (\<And>x. x \<in> set xs \<Longrightarrow> x \<noteq> []) \<Longrightarrow> str_join sep xs \<noteq> []"
  by (induction sep xs rule: str_join.induct) auto


section \<open>Integers\<close>

definition digit_char :: "nat \<Rightarrow> char" where
  "digit_char d = char_of (48 + d)"

lemma digit_char_values [simp]:
  "digit_char 0 = CHR ''0''" "digit_char 1 = CHR ''1''" "digit_char (Suc 0) = CHR ''1''"
  "digit_char 2 = CHR ''2''" "digit_char 3 = CHR ''3''" "digit_char 4 = CHR ''4''"
  "digit_char 5 = CHR ''5''" "digit_char 6 = CHR ''6''" "digit_char 7 = CHR ''7''"
  "digit_char 8 = CHR ''8''" "digit_char 9 = CHR ''9''"
  by code_simp+

fun str_of_nat :: "nat \<Rightarrow> string" where
  "str_of_nat n = (if n < 10 then [digit_char n] else str_of_nat (n div 10) @ [digit_char (n mod 10)])"

declare str_of_nat.simps [simp del]

definition str_of_int :: "int \<Rightarrow> string" where
  "str_of_int i = (if i < 0 then CHR ''-'' # str_of_nat (nat (- i)) else str_of_nat (nat i))"

lemma ord_digit_char: "d < 10 \<Longrightarrow> ord_c (digit_char d) = 48 + d"
  by (simp add: ord_c_def digit_char_def)

lemma is_ascii_digit_digit_char: "d < 10 \<Longrightarrow> is_ascii_digit (digit_char d)"
  by (simp add: is_ascii_digit_def ord_digit_char)

lemma str_of_nat_digits: "\<forall>c \<in> set (str_of_nat n). is_ascii_digit c"
proof (induction n rule: str_of_nat.induct)
  case (1 n)
  then show ?case
    by (subst str_of_nat.simps) (auto simp: is_ascii_digit_digit_char)
qed

lemma str_of_nat_nonempty [simp]: "str_of_nat n \<noteq> []"
  by (subst str_of_nat.simps) simp

lemma length_str_of_nat_le: "n < 10 ^ k \<Longrightarrow> 0 < k \<Longrightarrow> length (str_of_nat n) \<le> k"
proof (induction k arbitrary: n)
  case 0
  then show ?case by simp
next
  case (Suc k)
  show ?case
  proof (cases "n < 10")
    case True
    then show ?thesis by (subst str_of_nat.simps) simp
  next
    case False
    with Suc.prems have "n div 10 < 10 ^ k" "0 < k"
      by (auto simp: less_mult_imp_div_less mult.commute intro: Nat.gr0I)
    with Suc.IH have "length (str_of_nat (n div 10)) \<le> k" by blast
    with False show ?thesis by (subst str_of_nat.simps) simp
  qed
qed

lemma str_of_nat_upper: "n < 10 ^ length (str_of_nat n)"
proof (induction n rule: str_of_nat.induct)
  case (1 n)
  show ?case
  proof (cases "n < 10")
    case True
    then show ?thesis by (subst str_of_nat.simps) simp
  next
    case False
    with "1.IH" have "n div 10 < 10 ^ length (str_of_nat (n div 10))" by simp
    then have "n < 10 * 10 ^ length (str_of_nat (n div 10))" by linarith
    with False show ?thesis by (subst str_of_nat.simps) simp
  qed
qed

text \<open>\<open>int.bit_length\<close>: the number of bits of the absolute value.\<close>

fun bit_length_nat :: "nat \<Rightarrow> nat" where
  "bit_length_nat n = (if n = 0 then 0 else Suc (bit_length_nat (n div 2)))"

declare bit_length_nat.simps [simp del]

definition bit_length :: "int \<Rightarrow> nat" where
  "bit_length i = bit_length_nat (nat \<bar>i\<bar>)"

lemma bit_length_nat_le_iff: "bit_length_nat n \<le> k \<longleftrightarrow> n < 2 ^ k"
proof (induction n arbitrary: k rule: bit_length_nat.induct)
  case (1 n)
  show ?case
  proof (cases "n = 0")
    case True
    then show ?thesis by (simp add: bit_length_nat.simps)
  next
    case False
    show ?thesis
    proof (cases k)
      case 0
      with False show ?thesis by (subst bit_length_nat.simps) simp
    next
      case (Suc j)
      from False "1.IH" have "bit_length_nat (n div 2) \<le> j \<longleftrightarrow> n div 2 < 2 ^ j" by simp
      moreover have "n div 2 < 2 ^ j \<longleftrightarrow> n < 2 ^ Suc j"
        by (simp add: div_less_iff_less_mult mult.commute)
      ultimately show ?thesis using False Suc by (subst bit_length_nat.simps) simp
    qed
  qed
qed

lemma bit_length_le_iff: "bit_length i \<le> k \<longleftrightarrow> \<bar>i\<bar> < 2 ^ k"
  by (simp add: bit_length_def bit_length_nat_le_iff nat_less_iff flip: of_nat_power)

lemma abs_less_bit_length: "\<bar>i\<bar> < 2 ^ bit_length i"
  using bit_length_le_iff [of i "bit_length i"] by simp

lemma bit_length_mult: "bit_length (a * b) \<le> bit_length a + bit_length b"
proof -
  have "\<bar>a * b\<bar> < 2 ^ bit_length a * 2 ^ bit_length b"
    using mult_strict_mono [OF abs_less_bit_length abs_less_bit_length, of a b]
    by (simp add: abs_mult)
  then show ?thesis by (simp add: bit_length_le_iff power_add)
qed


section \<open>Dictionaries\<close>

text \<open>A Python \<open>dict\<close> keeps insertion order and an update keeps the key's place:
  \<^const>\<open>AList.update\<close> on an association list.\<close>

type_synonym 'v dict = "(string \<times> 'v) list"

definition dict_put :: "string \<Rightarrow> 'v \<Rightarrow> 'v dict \<Rightarrow> 'v dict" where
  "dict_put k v d = AList.update k v d"

fun dict_of :: "'v dict \<Rightarrow> (string \<times> 'v) list \<Rightarrow> 'v dict" where
  "dict_of d [] = d"
| "dict_of d ((k, v) # kvs) = dict_of (dict_put k v d) kvs"

lemma map_of_dict_put [simp]: "map_of (dict_put k v d) = (map_of d)(k \<mapsto> v)"
  by (simp add: dict_put_def update_conv')

lemma map_of_dict_of: "map_of (dict_of d kvs) = map_of d ++ map_of (rev kvs)"
  by (induction d kvs rule: dict_of.induct) (auto simp: map_add_def fun_eq_iff split: option.splits)

lemma distinct_dict_put: "distinct (map fst d) \<Longrightarrow> distinct (map fst (dict_put k v d))"
  by (simp add: dict_put_def distinct_update)

lemma dict_of_append: "dict_of d (xs @ ys) = dict_of (dict_of d xs) ys"
  by (induction d xs rule: dict_of.induct) auto

lemma dict_of_distinct:
  assumes "distinct (map fst (d @ kvs))"
  shows "dict_of d kvs = d @ kvs"
  using assms
proof (induction d kvs rule: dict_of.induct)
  case (2 d k v kvs)
  then have "k \<notin> fst ` set d" by auto
  then have "dict_put k v d = d @ [(k, v)]"
    by (induction d) (auto simp: dict_put_def)
  with 2 show ?case by simp
qed simp

text \<open>Texts of the program that leave Latin-1 are written as their UTF-8 bytes.\<close>

definition em_dash :: string where "em_dash = [CHR 0xE2, CHR 0x80, CHR 0x94]"

text \<open>A list sorted by an injective key is determined by its set of elements.\<close>

lemma sorted_key_unique:
  assumes "sorted (map f xs)" "sorted (map f ys)" "distinct (map f xs)" "distinct (map f ys)"
    and "set xs = set ys"
  shows "xs = ys"
proof -
  have "map f xs = map f ys"
    using assms by (intro sorted_distinct_set_unique) auto
  moreover have "inj_on f (set xs \<union> set ys)" using assms(3,5) by (simp add: distinct_map)
  ultimately show ?thesis by (rule map_inj_on)
qed

text \<open>What a step relation keeps, all its runs keep; and a log it only appends to.\<close>

locale step_invariant =
  fixes step :: "'s \<Rightarrow> 's \<Rightarrow> bool" and inv :: "'s \<Rightarrow> bool"
  assumes keeps: "inv s \<Longrightarrow> step s s' \<Longrightarrow> inv s'"
begin

lemma run_keeps: "step\<^sup>*\<^sup>* s s' \<Longrightarrow> inv s \<Longrightarrow> inv s'"
  by (induction rule: rtranclp_induct) (auto intro: keeps)

lemma run_relates:
  assumes "step\<^sup>*\<^sup>* s s'" and "inv s" and "\<And>x. R x x" and "\<And>x y z. R x y \<Longrightarrow> R y z \<Longrightarrow> R x z"
    and "\<And>x y. inv x \<Longrightarrow> step x y \<Longrightarrow> R x y"
  shows "R s s'"
  using assms(1,2)
proof (induction rule: rtranclp_induct)
  case (step y z)
  then show ?case using run_keeps assms(4,5) by blast
qed (rule assms(3))

end

locale growing_log = step_invariant +
  fixes log :: "'s \<Rightarrow> 'x list"
  assumes grows: "inv s \<Longrightarrow> step s s' \<Longrightarrow> prefix (log s) (log s')"
begin

lemma run_grows: "step\<^sup>*\<^sup>* s s' \<Longrightarrow> inv s \<Longrightarrow> prefix (log s) (log s')"
  by (rule run_relates [where R = "\<lambda>s s'. prefix (log s) (log s')"]) (auto intro: grows prefix_order.trans)

end

lemma find_first: "P r \<Longrightarrow> \<forall>u \<in> set us. \<not> P u \<Longrightarrow> List.find P (us @ r # vs) = Some r"
  by (induction us) auto

end
