(* ===== verification/Py_Values.thy ===== *)
theory Py_Values
  imports Prelude
begin

text \<open>
  The values a rule can meet. \<open>FactValue\<close> in \<open>src/complylayer/dsl/interpreter.py\<close> is
  \<open>int | str | bool | tuple\<close>, but a fact comes out of a JSON body and a constant out of
  \<open>ast.parse\<close>, so the interpreter can be handed any of the values below; its checks are
  what keep the others out of arithmetic. Finite floats are rationals. The built-ins the
  interpreter applies to them are \<open>==\<close>, \<open>bool(_)\<close>, \<open>in\<close> and \<open>type(_).__name__\<close>.
\<close>

datatype pyval =
    PNone
  | PEllipsis
  | PBool bool
  | PInt int
  | PFloat rat
  | PComplex rat rat
  | PStr string
  | PBytes string
  | PTuple "pyval list"
  | PList "pyval list"
  | PDict "(string \<times> pyval) list"

text \<open>\<open>bool\<close>, \<open>int\<close>, \<open>float\<close> and \<open>complex\<close> compare by numeric value.\<close>

fun num_parts :: "pyval \<Rightarrow> (rat \<times> rat) option" where
  "num_parts (PBool b) = Some (if b then 1 else 0, 0)"
| "num_parts (PInt i) = Some (of_int i, 0)"
| "num_parts (PFloat r) = Some (r, 0)"
| "num_parts (PComplex r i) = Some (r, i)"
| "num_parts _ = None"

fun py_eq :: "pyval \<Rightarrow> pyval \<Rightarrow> bool"
  and py_eqs :: "pyval list \<Rightarrow> pyval list \<Rightarrow> bool"
  and py_items_in :: "(string \<times> pyval) list \<Rightarrow> (string \<times> pyval) list \<Rightarrow> bool"
where
  "py_eq PNone w = (w = PNone)"
| "py_eq PEllipsis w = (w = PEllipsis)"
| "py_eq (PBool b) w = (num_parts w = num_parts (PBool b))"
| "py_eq (PInt i) w = (num_parts w = num_parts (PInt i))"
| "py_eq (PFloat r) w = (num_parts w = num_parts (PFloat r))"
| "py_eq (PComplex r i) w = (num_parts w = num_parts (PComplex r i))"
| "py_eq (PStr s) w = (w = PStr s)"
| "py_eq (PBytes s) w = (w = PBytes s)"
| "py_eq (PTuple xs) w = (case w of PTuple ys \<Rightarrow> py_eqs xs ys | _ \<Rightarrow> False)"
| "py_eq (PList xs) w = (case w of PList ys \<Rightarrow> py_eqs xs ys | _ \<Rightarrow> False)"
| "py_eq (PDict xs) w =
     (case w of PDict ys \<Rightarrow> length xs = length ys \<and> py_items_in xs ys | _ \<Rightarrow> False)"
| "py_eqs [] [] = True"
| "py_eqs (x # xs) (y # ys) = (py_eq x y \<and> py_eqs xs ys)"
| "py_eqs _ _ = False"
| "py_items_in [] d = True"
| "py_items_in ((k, v) # kvs) d =
     (case map_of d k of None \<Rightarrow> False | Some w \<Rightarrow> py_eq v w \<and> py_items_in kvs d)"

fun truthy :: "pyval \<Rightarrow> bool" where
  "truthy PNone = False"
| "truthy PEllipsis = True"
| "truthy (PBool b) = b"
| "truthy (PInt i) = (i \<noteq> 0)"
| "truthy (PFloat r) = (r \<noteq> 0)"
| "truthy (PComplex r i) = (r \<noteq> 0 \<or> i \<noteq> 0)"
| "truthy (PStr s) = (s \<noteq> [])"
| "truthy (PBytes s) = (s \<noteq> [])"
| "truthy (PTuple xs) = (xs \<noteq> [])"
| "truthy (PList xs) = (xs \<noteq> [])"
| "truthy (PDict xs) = (xs \<noteq> [])"

fun type_name :: "pyval \<Rightarrow> string" where
  "type_name PNone = ''NoneType''"
| "type_name PEllipsis = ''ellipsis''"
| "type_name (PBool _) = ''bool''"
| "type_name (PInt _) = ''int''"
| "type_name (PFloat _) = ''float''"
| "type_name (PComplex _ _) = ''complex''"
| "type_name (PStr _) = ''str''"
| "type_name (PBytes _) = ''bytes''"
| "type_name (PTuple _) = ''tuple''"
| "type_name (PList _) = ''list''"
| "type_name (PDict _) = ''dict''"

text \<open>Exceptions. \<open>RuleEvaluationError\<close> is the only one \<open>engine.evaluation\<close> catches; the
  others are Python's own and escape it.\<close>

datatype eval_reason =
    UnknownFact string
  | StepBudgetExceeded nat
  | Uncomparable string string
  | NotANumber string
  | ResultTooLarge nat nat
  | CannotDivideByZero
  | CannotTakeRemainderByZero
  | CannotEvaluate string
  | NotAvailable string
  | NotAWindow pyval
  | MustBeWholeNumber string
  | NotADate string
  | NeedsADate
  | NeedsAList
  | VelocityUnavailable string

datatype exn =
    RuleEvaluationError eval_reason
  | TypeError
  | ValueError
  | KeyError
  | AttributeError

text \<open>\<open>left in right\<close> for a tuple or a string on the right. A string on the right and
  anything but a string on the left is Python's \<open>TypeError\<close>.\<close>

fun py_contains :: "pyval \<Rightarrow> pyval \<Rightarrow> exn + bool" where
  "py_contains v (PTuple ws) = Inr (list_ex (py_eq v) ws)"
| "py_contains (PStr s) (PStr t) = Inr (str_contains t s)"
| "py_contains _ _ = Inl TypeError"

text \<open>\<open>_is_number\<close>: an \<open>int\<close> that is not a \<open>bool\<close>.\<close>

fun is_number :: "pyval \<Rightarrow> bool" where
  "is_number (PInt _) = True"
| "is_number _ = False"

lemma is_number_iff: "is_number v \<longleftrightarrow> (\<exists>i. v = PInt i)"
  by (cases v) auto

lemma py_eq_refl_list:
  "(\<And>v. v \<in> set vs \<Longrightarrow> py_eq v v) \<Longrightarrow> py_eqs vs vs"
  by (induction vs) auto

lemma py_eq_sym_num: "num_parts v \<noteq> None \<Longrightarrow> py_eq v w = py_eq w v"
  by (cases v; cases w) auto


section \<open>Numbers in text\<close>

text \<open>\<open>int(text)\<close> for decimal text: surrounding space, one sign, digits with single
  underscores between them.\<close>

definition digit_value :: "char \<Rightarrow> int" where
  "digit_value c = int (ord_c c) - 48"

fun parse_digits :: "int \<Rightarrow> string \<Rightarrow> int option" where
  "parse_digits acc [] = Some acc"
| "parse_digits acc (c # cs) =
     (if is_ascii_digit c then parse_digits (acc * 10 + digit_value c) cs
      else if c = CHR ''_'' then
        (case cs of d # ds \<Rightarrow> if is_ascii_digit d then parse_digits (acc * 10 + digit_value d) ds else None
                  | [] \<Rightarrow> None)
      else None)"

definition parse_unsigned :: "string \<Rightarrow> int option" where
  "parse_unsigned s =
     (case s of c # cs \<Rightarrow> if is_ascii_digit c then parse_digits 0 s else None | [] \<Rightarrow> None)"

definition parse_int :: "string \<Rightarrow> int option" where
  "parse_int s =
     (case py_strip s of
        [] \<Rightarrow> None
      | c # cs \<Rightarrow>
          if c = CHR ''-'' then map_option uminus (parse_unsigned cs)
          else if c = CHR ''+'' then parse_unsigned cs
          else parse_unsigned (c # cs))"

lemma digit_value_digit_char: "d < 10 \<Longrightarrow> digit_value (digit_char d) = int d"
  by (simp add: digit_value_def ord_digit_char)

lemma parse_digits_snoc:
  assumes "\<forall>c \<in> set xs. is_ascii_digit c" and "is_ascii_digit d"
  shows "parse_digits acc (xs @ [d]) = map_option (\<lambda>v. v * 10 + digit_value d) (parse_digits acc xs)"
  using assms by (induction xs arbitrary: acc) auto

lemma parse_digits_str_of_nat: "parse_digits 0 (str_of_nat n) = Some (int n)"
proof (induction n rule: str_of_nat.induct)
  case (1 n)
  show ?case
  proof (cases "n < 10")
    case True
    then show ?thesis
      by (simp add: str_of_nat.simps [of n] is_ascii_digit_digit_char digit_value_digit_char)
  next
    case False
    then have "parse_digits 0 (str_of_nat n) = Some (int (n div 10) * 10 + int (n mod 10))"
      using "1.IH" parse_digits_snoc [OF str_of_nat_digits, of "digit_char (n mod 10)" 0 "n div 10"]
      by (simp add: str_of_nat.simps [of n] is_ascii_digit_digit_char digit_value_digit_char)
    moreover have "int (n div 10) * 10 + int (n mod 10) = int n"
      using div_mult_mod_eq [of n 10] by linarith
    ultimately show ?thesis by simp
  qed
qed

lemma parse_unsigned_str_of_nat: "parse_unsigned (str_of_nat n) = Some (int n)"
proof (cases "str_of_nat n")
  case (Cons c cs)
  then have "is_ascii_digit c" using str_of_nat_digits [of n] by simp
  with Cons show ?thesis using parse_digits_str_of_nat [of n] by (simp add: parse_unsigned_def)
qed simp

lemma py_strip_no_space: "\<forall>c \<in> set s. \<not> isspace_c c \<Longrightarrow> py_strip s = s"
  by (metis dropWhile_eq_self_iff hd_in_set py_strip_def rev_rev_ident set_rev)

lemma digit_facts:
  "is_ascii_digit c \<Longrightarrow> \<not> isspace_c c" "is_ascii_digit c \<Longrightarrow> c \<noteq> CHR ''-''"
  "is_ascii_digit c \<Longrightarrow> c \<noteq> CHR ''+''" "is_ascii_digit c \<Longrightarrow> c \<noteq> CHR '':''"
  by (auto simp: char_class_defs Let_def)

lemma str_of_int_chars: "c \<in> set (str_of_int i) \<Longrightarrow> is_ascii_digit c \<or> c = CHR ''-''"
  using str_of_nat_digits by (auto simp: str_of_int_def split: if_splits)

lemma parse_int_str_of_int: "parse_int (str_of_int i) = Some i"
proof -
  have "py_strip (str_of_int i) = str_of_int i"
    by (rule py_strip_no_space) (auto dest!: str_of_int_chars simp: digit_facts, simp add: char_class_defs)
  moreover obtain c cs where c: "str_of_nat (nat i) = c # cs" "is_ascii_digit c"
    using str_of_nat_digits [of "nat i"] by (cases "str_of_nat (nat i)") auto
  ultimately show ?thesis
    using parse_unsigned_str_of_nat [of "nat i"] parse_unsigned_str_of_nat [of "nat (- i)"] digit_facts [OF c(2)]
    by (auto simp: parse_int_def str_of_int_def)
qed

end
