(* ===== verification/Dsl_Ast.thy ===== *)
theory Dsl_Ast
  imports Py_Values
begin

text \<open>
  The abstract syntax \<open>ast.parse(_, mode='eval')\<close> produces, the bounds of
  \<open>src/complylayer/dsl/limits.py\<close> and the error catalogue of
  \<open>src/complylayer/dsl/errors.py\<close>.

  Every node class the validator names has its own constructor; any other class is
  \<open>Other\<close> with the class name and the child nodes in field order, which is all the code
  ever asks of it (its name, its children). Names, lists, tuples, attributes and
  subscripts carry the \<open>Load\<close> context as an implicit child.
\<close>

datatype boolop = And | Or

datatype unaryop = Not_op | USub | UAdd | Invert

datatype operator =
    Add | Sub | Mult | Mod | FloorDiv
  | Div | Pow | LShift | RShift | BitOr | BitXor | BitAnd | MatMult

datatype cmpop = Eq | NotEq | Lt | LtE | Gt | GtE | In | NotIn | Is | IsNot

datatype expr =
    Constant pyval
  | Name string
  | BoolOp boolop "expr list"
  | UnaryOp unaryop expr
  | BinOp expr operator expr
  | Compare expr "cmpop list" "expr list"
  | Call expr "expr list" "keyword list"
  | List_e "expr list"
  | Tuple_e "expr list"
  | Attribute expr string
  | Subscript expr expr
  | Other string "expr list"
and keyword = Keyword (kw_arg: "string option") (kw_value: expr)

fun unaryop_name :: "unaryop \<Rightarrow> string" where
  "unaryop_name Not_op = ''Not''"
| "unaryop_name USub = ''USub''"
| "unaryop_name UAdd = ''UAdd''"
| "unaryop_name Invert = ''Invert''"

fun operator_name :: "operator \<Rightarrow> string" where
  "operator_name Add = ''Add''"
| "operator_name Sub = ''Sub''"
| "operator_name Mult = ''Mult''"
| "operator_name Mod = ''Mod''"
| "operator_name FloorDiv = ''FloorDiv''"
| "operator_name Div = ''Div''"
| "operator_name Pow = ''Pow''"
| "operator_name LShift = ''LShift''"
| "operator_name RShift = ''RShift''"
| "operator_name BitOr = ''BitOr''"
| "operator_name BitXor = ''BitXor''"
| "operator_name BitAnd = ''BitAnd''"
| "operator_name MatMult = ''MatMult''"

fun cmpop_name :: "cmpop \<Rightarrow> string" where
  "cmpop_name Eq = ''Eq''"
| "cmpop_name NotEq = ''NotEq''"
| "cmpop_name Lt = ''Lt''"
| "cmpop_name LtE = ''LtE''"
| "cmpop_name Gt = ''Gt''"
| "cmpop_name GtE = ''GtE''"
| "cmpop_name In = ''In''"
| "cmpop_name NotIn = ''NotIn''"
| "cmpop_name Is = ''Is''"
| "cmpop_name IsNot = ''IsNot''"

text \<open>How many nodes \<open>ast.walk\<close> yields below and including a node; the enclosing
  \<open>Expression\<close> adds one (\<open>tree_nodes\<close>).\<close>

fun node_count :: "expr \<Rightarrow> nat" where
  "node_count (Constant c) = 1"
| "node_count (Name n) = 2"
| "node_count (BoolOp b es) = 2 + sum_list (map node_count es)"
| "node_count (UnaryOp u e) = 2 + node_count e"
| "node_count (BinOp l b r) = 2 + node_count l + node_count r"
| "node_count (Compare l ops es) =
     1 + length ops + node_count l + sum_list (map node_count es)"
| "node_count (Call f as ks) =
     1 + node_count f + sum_list (map node_count as)
       + sum_list (map (\<lambda>k. case k of Keyword _ e \<Rightarrow> Suc (node_count e)) ks)"
| "node_count (List_e es) = 2 + sum_list (map node_count es)"
| "node_count (Tuple_e es) = 2 + sum_list (map node_count es)"
| "node_count (Attribute e a) = 2 + node_count e"
| "node_count (Subscript e i) = 2 + node_count e + node_count i"
| "node_count (Other k es) = 1 + sum_list (map node_count es)"

definition tree_nodes :: "expr \<Rightarrow> nat" where
  "tree_nodes e = Suc (node_count e)"

lemma node_count_pos [simp]: "0 < node_count e"
  by (cases e) auto

text \<open>\<open>limits.py\<close>.\<close>

definition MAX_SOURCE_CHARS :: nat where "MAX_SOURCE_CHARS = 2000"

definition MAX_NESTING_DEPTH :: nat where "MAX_NESTING_DEPTH = 20"

definition MAX_UNARY_RUN :: nat where "MAX_UNARY_RUN = 5"

definition MAX_NODES :: nat where "MAX_NODES = 200"

definition MAX_STEPS :: nat where "MAX_STEPS = 1000"

lemmas limit_defs =
  MAX_SOURCE_CHARS_def MAX_NESTING_DEPTH_def MAX_UNARY_RUN_def MAX_NODES_def MAX_STEPS_def

text \<open>One constructor per function of the catalogue that builds a \<open>RuleSyntaxError\<close>, with
  the arguments its message quotes. \<open>AttributeAccess\<close> carries the node whose text the
  message repeats.\<close>

datatype rule_syntax_error =
    AttributeAccess expr
  | SubscriptUsed
  | UnknownFunction string
  | IndirectCall
  | ConstructNotAllowed string
  | StatementNotExpression
  | EmptyRule
  | TooLong nat nat
  | TooDeep nat
  | TooManyOperators nat
  | TooComplex nat nat
  | Malformed string
  | UnknownKeyword string string
  | ReservedName string
  | NonAsciiName string
  | WrongArity string nat nat
  | DuplicateKeyword string string
  | BadLiteral pyval
  | NonNumericOperand
  | DivisionByZero
  | NotACondition
  | NumberTooLarge nat nat
  | TooMuchInput nat
  | NonAsciiSource char

end
