(* ===== verification/Dsl_Validator.thy ===== *)
theory Dsl_Validator
  imports Dsl_Ast
begin

text \<open>
  The allowlist validator (\<open>src/complylayer/dsl/validator.py\<close>) and the function table it
  consults (\<open>SPECS\<close> in \<open>src/complylayer/dsl/functions.py\<close>).

  \<open>visit\<close> follows \<open>ast.NodeVisitor\<close>: the checks of one node in the source's order, then
  its fields in field order, the first complaint winning. \<open>node_ok\<close> is the same policy
  read off a single node; the main result of this theory is that the visitor accepts a
  tree exactly when every node of it is locally fine, so nothing outside the grammar can
  hide at any depth.
\<close>


section \<open>The function table\<close>

record function_spec =
  spec_name :: string
  positional :: nat
  spec_keywords :: "string list"

definition velocity_keywords :: "string list" where
  "velocity_keywords =
     [''window'', ''min_amount_minor'', ''max_amount_minor'', ''transaction_type'']"

definition SPECS :: "(string \<times> function_spec) list" where
  "SPECS =
     [(''velocity_count'', \<lparr>spec_name = ''velocity_count'', positional = 0, spec_keywords = velocity_keywords\<rparr>),
      (''velocity_sum'', \<lparr>spec_name = ''velocity_sum'', positional = 0, spec_keywords = velocity_keywords\<rparr>),
      (''days_since'', \<lparr>spec_name = ''days_since'', positional = 1, spec_keywords = []\<rparr>),
      (''in_list'', \<lparr>spec_name = ''in_list'', positional = 2, spec_keywords = []\<rparr>),
      (''hour_of_day'', \<lparr>spec_name = ''hour_of_day'', positional = 0, spec_keywords = []\<rparr>),
      (''abs'', \<lparr>spec_name = ''abs'', positional = 1, spec_keywords = []\<rparr>),
      (''min'', \<lparr>spec_name = ''min'', positional = 2, spec_keywords = []\<rparr>),
      (''max'', \<lparr>spec_name = ''max'', positional = 2, spec_keywords = []\<rparr>),
      (''percent_of'', \<lparr>spec_name = ''percent_of'', positional = 2, spec_keywords = []\<rparr>)]"

definition ALLOWED_FUNCTIONS :: "string list" where
  "ALLOWED_FUNCTIONS = map fst SPECS"


section \<open>Checks on one node\<close>

definition MAX_NUMBER_DIGITS :: nat where "MAX_NUMBER_DIGITS = 40"

text \<open>\<open>_ASCII_IDENTIFIER\<close>: \<open>[A-Za-z][A-Za-z0-9_]*\Z\<close>.\<close>

definition ident_char :: "char \<Rightarrow> bool" where
  "ident_char c \<longleftrightarrow> is_ascii_alpha c \<or> is_ascii_digit c \<or> c = CHR ''_''"

fun ascii_identifier :: "string \<Rightarrow> bool" where
  "ascii_identifier [] = False"
| "ascii_identifier (c # cs) = (is_ascii_alpha c \<and> list_all ident_char cs)"

definition visit_Name :: "string \<Rightarrow> rule_syntax_error option" where
  "visit_Name n =
     (if ascii_identifier n then None
      else if list_all isascii_c n then Some (ReservedName n)
      else Some (NonAsciiName n))"

fun visit_Constant :: "pyval \<Rightarrow> rule_syntax_error option" where
  "visit_Constant (PBool b) = None"
| "visit_Constant (PStr s) = None"
| "visit_Constant (PInt i) =
     (let digits = length (str_of_nat (nat \<bar>i\<bar>))
      in if digits > MAX_NUMBER_DIGITS then Some (NumberTooLarge digits MAX_NUMBER_DIGITS) else None)"
| "visit_Constant v = Some (BadLiteral v)"

fun unaryop_allowed :: "unaryop \<Rightarrow> bool" where
  "unaryop_allowed Not_op = True"
| "unaryop_allowed USub = True"
| "unaryop_allowed _ = False"

fun operator_allowed :: "operator \<Rightarrow> bool" where
  "operator_allowed Add = True"
| "operator_allowed Sub = True"
| "operator_allowed Mult = True"
| "operator_allowed Mod = True"
| "operator_allowed FloorDiv = True"
| "operator_allowed _ = False"

fun cmpop_allowed :: "cmpop \<Rightarrow> bool" where
  "cmpop_allowed Is = False"
| "cmpop_allowed IsNot = False"
| "cmpop_allowed _ = True"

fun visit_op :: "('o \<Rightarrow> bool) \<Rightarrow> ('o \<Rightarrow> string) \<Rightarrow> 'o \<Rightarrow> rule_syntax_error option" where
  "visit_op ok nm op = (if ok op then None else Some (ConstructNotAllowed (nm op)))"

fun bad_operand :: "expr \<Rightarrow> bool" where
  "bad_operand (Constant v) = (\<not> is_number v)"
| "bad_operand (List_e _) = True"
| "bad_operand (Tuple_e _) = True"
| "bad_operand _ = False"

fun divides_by_zero :: "operator \<Rightarrow> expr \<Rightarrow> bool" where
  "divides_by_zero FloorDiv (Constant v) = (v = PInt 0)"
| "divides_by_zero Mod (Constant v) = (v = PInt 0)"
| "divides_by_zero _ _ = False"

fun check_keywords ::
  "string \<Rightarrow> function_spec \<Rightarrow> string list \<Rightarrow> keyword list \<Rightarrow> rule_syntax_error option" where
  "check_keywords n spec seen [] = None"
| "check_keywords n spec seen (Keyword None e # ks) = Some (ConstructNotAllowed ''Starred'')"
| "check_keywords n spec seen (Keyword (Some a) e # ks) =
     (if a \<notin> set (spec_keywords spec) then Some (UnknownKeyword n a)
      else if a \<in> set seen then Some (DuplicateKeyword n a)
      else check_keywords n spec (a # seen) ks)"


section \<open>The visitor\<close>

fun first_err :: "'e option list \<Rightarrow> 'e option" where
  "first_err [] = None"
| "first_err (Some e # xs) = Some e"
| "first_err (None # xs) = first_err xs"

fun visit :: "expr \<Rightarrow> rule_syntax_error option" where
  "visit (Constant v) = visit_Constant v"
| "visit (Name n) = visit_Name n"
| "visit (BoolOp b es) = first_err (map visit es)"
| "visit (UnaryOp u e) = first_err [visit_op unaryop_allowed unaryop_name u, visit e]"
| "visit (BinOp l op r) =
     first_err
       [if bad_operand l \<or> bad_operand r then Some NonNumericOperand else None,
        if divides_by_zero op r then Some DivisionByZero else None,
        visit l, visit_op operator_allowed operator_name op, visit r]"
| "visit (Compare l ops es) =
     first_err (visit l # map (visit_op cmpop_allowed cmpop_name) ops @ map visit es)"
| "visit (Call f as ks) =
     (case f of
        Attribute _ _ \<Rightarrow> Some (AttributeAccess f)
      | Name n \<Rightarrow>
          (case map_of SPECS n of
             None \<Rightarrow> Some (UnknownFunction n)
           | Some spec \<Rightarrow>
               first_err
                 ([if length as \<noteq> positional spec
                   then Some (WrongArity n (length as) (positional spec)) else None,
                   check_keywords n spec [] ks, visit f]
                  @ map visit as @ map (\<lambda>k. case k of Keyword _ e \<Rightarrow> visit e) ks))
      | _ \<Rightarrow> Some IndirectCall)"
| "visit (List_e es) = first_err (map visit es)"
| "visit (Tuple_e es) = first_err (map visit es)"
| "visit (Attribute e a) = Some (AttributeAccess (Attribute e a))"
| "visit (Subscript e i) = Some SubscriptUsed"
| "visit (Other k es) = Some (ConstructNotAllowed k)"

fun is_constant :: "expr \<Rightarrow> bool" where
  "is_constant (Constant _) = True"
| "is_constant _ = False"

definition validate :: "expr \<Rightarrow> rule_syntax_error + expr" where
  "validate tree =
     (case visit tree of
        Some e \<Rightarrow> Inl e
      | None \<Rightarrow> if is_constant tree then Inl NotACondition else Inr tree)"


section \<open>The policy on a single node\<close>

text \<open>All expression nodes below and including a node.\<close>

fun subexprs :: "expr \<Rightarrow> expr list" where
  "subexprs (Constant v) = [Constant v]"
| "subexprs (Name n) = [Name n]"
| "subexprs (BoolOp b es) = BoolOp b es # concat (map subexprs es)"
| "subexprs (UnaryOp u e) = UnaryOp u e # subexprs e"
| "subexprs (BinOp l op r) = BinOp l op r # subexprs l @ subexprs r"
| "subexprs (Compare l ops es) = Compare l ops es # subexprs l @ concat (map subexprs es)"
| "subexprs (Call f as ks) =
     Call f as ks # subexprs f @ concat (map subexprs as)
       @ concat (map (\<lambda>k. case k of Keyword _ e \<Rightarrow> subexprs e) ks)"
| "subexprs (List_e es) = List_e es # concat (map subexprs es)"
| "subexprs (Tuple_e es) = Tuple_e es # concat (map subexprs es)"
| "subexprs (Attribute e a) = Attribute e a # subexprs e"
| "subexprs (Subscript e i) = Subscript e i # subexprs e @ subexprs i"
| "subexprs (Other k es) = Other k es # concat (map subexprs es)"

definition call_ok :: "string \<Rightarrow> nat \<Rightarrow> keyword list \<Rightarrow> bool" where
  "call_ok n arity ks \<longleftrightarrow>
     (\<exists>spec. map_of SPECS n = Some spec \<and> arity = positional spec \<and>
        (\<exists>names. map (\<lambda>k. case k of Keyword a _ \<Rightarrow> a) ks = map Some names \<and>
           distinct names \<and> set names \<subseteq> set (spec_keywords spec)))"

definition operand_ok :: "expr \<Rightarrow> bool" where
  "operand_ok e \<longleftrightarrow>
     (case e of Constant v \<Rightarrow> (case v of PInt _ \<Rightarrow> True | _ \<Rightarrow> False) | List_e _ \<Rightarrow> False | Tuple_e _ \<Rightarrow> False | _ \<Rightarrow> True)"

fun node_ok :: "expr \<Rightarrow> bool" where
  "node_ok (Constant v) = (case v of PBool _ \<Rightarrow> True | PStr _ \<Rightarrow> True
      | PInt i \<Rightarrow> \<bar>i\<bar> < 10 ^ MAX_NUMBER_DIGITS | _ \<Rightarrow> False)"
| "node_ok (Name n) = ascii_identifier n"
| "node_ok (BoolOp b es) = True"
| "node_ok (UnaryOp u e) = unaryop_allowed u"
| "node_ok (BinOp l op r) =
     (operator_allowed op \<and> operand_ok l \<and> operand_ok r \<and> \<not> (op \<in> {FloorDiv, Mod} \<and> r = Constant (PInt 0)))"
| "node_ok (Compare l ops es) = list_all cmpop_allowed ops"
| "node_ok (Call f as ks) = (case f of Name n \<Rightarrow> call_ok n (length as) ks | _ \<Rightarrow> False)"
| "node_ok (List_e es) = True"
| "node_ok (Tuple_e es) = True"
| "node_ok (Attribute e a) = False"
| "node_ok (Subscript e i) = False"
| "node_ok (Other k es) = False"


section \<open>Helper lemmas\<close>

lemma operand_ok_iff [simp]: "operand_ok e \<longleftrightarrow> \<not> bad_operand e"
  by (cases e) (auto simp: operand_ok_def split: pyval.splits)

lemma divides_by_zero_iff: "divides_by_zero op r \<longleftrightarrow> op \<in> {FloorDiv, Mod} \<and> r = Constant (PInt 0)"
  by (cases "(op, r)" rule: divides_by_zero.cases) auto

lemma first_err_None [simp]: "first_err xs = None \<longleftrightarrow> (\<forall>x \<in> set xs. x = None)"
  by (induction xs rule: first_err.induct) auto

lemma visit_op_None [simp]: "visit_op ok nm op = None \<longleftrightarrow> ok op"
  by simp

lemma digits_iff: "length (str_of_nat n) \<le> k \<longleftrightarrow> n < 10 ^ k" if "0 < k"
  using that str_of_nat_upper [of n] length_str_of_nat_le [of n k]
    power_increasing [of "length (str_of_nat n)" k "10::nat"]
  by (auto simp: not_le elim!: order_less_le_trans)

lemma visit_Constant_None: "visit_Constant v = None \<longleftrightarrow> node_ok (Constant v)"
proof (cases v)
  case (PInt i)
  have "length (str_of_nat (nat \<bar>i\<bar>)) \<le> MAX_NUMBER_DIGITS \<longleftrightarrow> nat \<bar>i\<bar> < 10 ^ MAX_NUMBER_DIGITS"
    by (rule digits_iff) (simp add: MAX_NUMBER_DIGITS_def)
  also have "\<dots> \<longleftrightarrow> \<bar>i\<bar> < 10 ^ MAX_NUMBER_DIGITS"
    by (simp add: nat_less_iff)
  finally show ?thesis using PInt by (simp add: Let_def flip: not_le)
qed auto

lemma check_keywords_None:
  "check_keywords n spec seen ks = None \<longleftrightarrow>
     (\<exists>names. map (\<lambda>k. case k of Keyword a _ \<Rightarrow> a) ks = map Some names \<and>
        distinct names \<and> set names \<subseteq> set (spec_keywords spec) \<and> set names \<inter> set seen = {})"
proof (induction n spec seen ks rule: check_keywords.induct)
  case (3 n spec seen a e ks)
  let ?nm = "map (\<lambda>k. case k of Keyword a _ \<Rightarrow> a)"
  show ?case
  proof (cases "a \<in> set (spec_keywords spec) \<and> a \<notin> set seen")
    case True
    with 3 show ?thesis by (auto simp: Cons_eq_map_conv map_eq_Cons_conv)
  next
    case False
    then show ?thesis by (auto simp: Cons_eq_map_conv)
  qed
qed auto

lemma call_ok_iff:
  "call_ok n arity ks \<longleftrightarrow>
     (\<exists>spec. map_of SPECS n = Some spec \<and> arity = positional spec \<and>
        check_keywords n spec [] ks = None)"
  by (simp add: call_ok_def check_keywords_None)

lemma self_in_subexprs [simp]: "e \<in> set (subexprs e)"
  by (cases e) auto

lemma visit_Call_None:
  assumes "visit f = None \<longleftrightarrow> (\<forall>n \<in> set (subexprs f). node_ok n)"
    and "\<And>e. e \<in> set as \<Longrightarrow> visit e = None \<longleftrightarrow> (\<forall>n \<in> set (subexprs e). node_ok n)"
    and "\<And>k. k \<in> set ks \<Longrightarrow>
           visit (kw_value k) = None \<longleftrightarrow> (\<forall>n \<in> set (subexprs (kw_value k)). node_ok n)"
  shows "visit (Call f as ks) = None \<longleftrightarrow> (\<forall>n \<in> set (subexprs (Call f as ks)). node_ok n)"
proof (cases "\<exists>n. f = Name n")
  case True
  then obtain n where f: "f = Name n" by blast
  have kw: "(\<forall>k \<in> set ks. visit (kw_value k) = None) \<longleftrightarrow>
      (\<forall>k \<in> set ks. \<forall>n \<in> set (subexprs (kw_value k)). node_ok n)"
    using assms(3) by simp
  have arg: "(\<forall>x \<in> set as. visit x = None) \<longleftrightarrow> (\<forall>x \<in> set as. \<forall>n \<in> set (subexprs x). node_ok n)"
    using assms(2) by simp
  show ?thesis
  proof (cases "map_of SPECS n")
    case None
    with f show ?thesis by (simp add: call_ok_iff)
  next
    case (Some spec)
    have "visit (Call f as ks) = None \<longleftrightarrow>
        length as = positional spec \<and> check_keywords n spec [] ks = None \<and> visit f = None \<and>
        (\<forall>x \<in> set as. visit x = None) \<and> (\<forall>k \<in> set ks. visit (kw_value k) = None)"
      using f Some by (auto simp: ball_Un keyword.case_eq_if)
    also have "\<dots> \<longleftrightarrow> (\<forall>n \<in> set (subexprs (Call f as ks)). node_ok n)"
      using f Some assms(1) unfolding kw arg by (auto simp: call_ok_iff ball_Un keyword.case_eq_if)
    finally show ?thesis .
  qed
next
  case False
  then show ?thesis by (cases f) auto
qed

text \<open>The visitor agrees with the node policy on every tree.\<close>

lemma visit_None_iff: "visit e = None \<longleftrightarrow> (\<forall>n \<in> set (subexprs e). node_ok n)"
proof (induction e rule: subexprs.induct)
  case (1 v)
  then show ?case by (simp add: visit_Constant_None del: node_ok.simps)
next
  case (6 l ops es)
  then show ?case by (auto simp: list_all_iff ball_Un)
next
  case (7 f as ks)
  have "visit (kw_value k) = None \<longleftrightarrow> (\<forall>n \<in> set (subexprs (kw_value k)). node_ok n)"
    if "k \<in> set ks" for k
    using "7.IH"(3) [OF that, of "kw_arg k" "kw_value k"] by simp
  with "7.IH"(1,2) show ?case by (rule visit_Call_None)
qed (auto simp: divides_by_zero_iff visit_Name_def ball_Un)

lemma validate_Inr_iff:
  "validate e = Inr t \<longleftrightarrow> t = e \<and> \<not> is_constant e \<and> (\<forall>n \<in> set (subexprs e). node_ok n)"
  by (auto simp: validate_def visit_None_iff [symmetric] split: option.splits)

end
