(* ===== verification/Dsl_Interpreter.thy ===== *)
theory Dsl_Interpreter
  imports Dsl_Validator
begin

text \<open>
  The interpreter (\<open>src/complylayer/dsl/interpreter.py\<close>): a walk over the tree that ticks a
  step counter at every node and resolves names only in the fact mapping.

  A computation is a \<open>run\<close>: it takes the step counter and returns the value or the
  exception together with the new counter, which survives an exception (the engine reads
  \<open>interpreter.steps\<close> after catching one). The model covers unvalidated trees too, since
  \<open>backtest\<close> interprets a tree that was only parsed: the fall-through branches of the
  source (any operator that is not named is \<open>%\<close>, any comparison that is not named is
  \<open>>=\<close>) are kept.

  \<open>denote\<close> is the reference semantics without a counter. \<open>eval_node\<close> refines it as long
  as the budget covers the node count, which is what \<open>parse\<close> guarantees.
\<close>


section \<open>Runs\<close>

type_synonym 'a run = "nat \<Rightarrow> (exn + 'a) \<times> nat"

definition ret :: "'a \<Rightarrow> 'a run" where
  "ret x = (\<lambda>s. (Inr x, s))"

definition lift_run :: "exn + 'a \<Rightarrow> 'a run" where
  "lift_run r = (\<lambda>s. (r, s))"

definition bind_run :: "'a run \<Rightarrow> ('a \<Rightarrow> 'b run) \<Rightarrow> 'b run" where
  "bind_run m f = (\<lambda>s. case m s of (Inl e, s') \<Rightarrow> (Inl e, s') | (Inr x, s') \<Rightarrow> f x s')"

lemma bind_run_cong [fundef_cong]:
  "m = m' \<Longrightarrow> (\<And>x. f x = f' x) \<Longrightarrow> bind_run m f = bind_run m' f'"
  by (simp add: bind_run_def fun_eq_iff split: prod.splits sum.splits)

definition tick :: "nat \<Rightarrow> unit run" where
  "tick max_steps = (\<lambda>s.
     let steps = Suc s
     in if steps > max_steps then (Inl (RuleEvaluationError (StepBudgetExceeded max_steps)), steps)
        else (Inr (), steps))"


section \<open>Operations on values\<close>

type_synonym py_function = "pyval list \<Rightarrow> (string \<times> pyval) list \<Rightarrow> exn + pyval"

record evaluation_context =
  ctx_facts :: "string \<rightharpoonup> pyval"
  ctx_functions :: "string \<rightharpoonup> py_function"

definition MAX_RESULT_BITS :: nat where "MAX_RESULT_BITS = 512"

definition eval_error :: "eval_reason \<Rightarrow> exn + 'a" where
  "eval_error r = Inl (RuleEvaluationError r)"

definition read_fact :: "evaluation_context \<Rightarrow> string \<Rightarrow> exn + pyval" where
  "read_fact ctx n =
     (case ctx_facts ctx n of Some v \<Rightarrow> Inr v | None \<Rightarrow> eval_error (UnknownFact n))"

fun apply_unary :: "unaryop \<Rightarrow> pyval \<Rightarrow> exn + pyval" where
  "apply_unary Not_op v = Inr (PBool (\<not> truthy v))"
| "apply_unary _ v =
     (case v of PInt i \<Rightarrow> Inr (PInt (- i)) | _ \<Rightarrow> eval_error (NotANumber (type_name v)))"

definition guard_magnitude :: "int \<Rightarrow> exn + int" where
  "guard_magnitude n =
     (if bit_length n > MAX_RESULT_BITS
      then eval_error (ResultTooLarge (bit_length n) MAX_RESULT_BITS) else Inr n)"

definition guarded_multiply :: "int \<Rightarrow> int \<Rightarrow> exn + int" where
  "guarded_multiply l r =
     (let bits = bit_length l + bit_length r
      in if bits > MAX_RESULT_BITS then eval_error (ResultTooLarge bits MAX_RESULT_BITS)
         else Inr (l * r))"

fun arith_op :: "operator \<Rightarrow> int \<Rightarrow> int \<Rightarrow> exn + int" where
  "arith_op Add l r = Inr (l + r)"
| "arith_op Sub l r = Inr (l - r)"
| "arith_op Mult l r = guarded_multiply l r"
| "arith_op FloorDiv l r = (if r = 0 then eval_error CannotDivideByZero else Inr (l div r))"
| "arith_op _ l r = (if r = 0 then eval_error CannotTakeRemainderByZero else Inr (l mod r))"

definition apply_binop :: "operator \<Rightarrow> pyval \<Rightarrow> pyval \<Rightarrow> exn + pyval" where
  "apply_binop op left right =
     (case left of
        PInt l \<Rightarrow>
          (case right of
             PInt r \<Rightarrow> bindE (arith_op op l r) (\<lambda>n. bindE (guard_magnitude n) (\<lambda>m. Inr (PInt m)))
           | _ \<Rightarrow> eval_error (NotANumber (type_name right)))
      | _ \<Rightarrow> eval_error (NotANumber (type_name left)))"

text \<open>Ordering operators, on integers or on strings. Anything that is not \<open><\<close>, \<open><=\<close>
  or \<open>>\<close> falls through to \<open>>=\<close>.\<close>

fun order_by :: "cmpop \<Rightarrow> 'a::linorder \<Rightarrow> 'a \<Rightarrow> bool" where
  "order_by Lt a b = (a < b)"
| "order_by LtE a b = (a \<le> b)"
| "order_by Gt a b = (a > b)"
| "order_by _ a b = (a \<ge> b)"

fun is_str :: "pyval \<Rightarrow> bool" where
  "is_str (PStr _) = True"
| "is_str _ = False"

definition same_orderable_kind :: "pyval \<Rightarrow> pyval \<Rightarrow> bool" where
  "same_orderable_kind l r \<longleftrightarrow> (is_number l \<and> is_number r) \<or> (is_str l \<and> is_str r)"

definition compare_values :: "cmpop \<Rightarrow> pyval \<Rightarrow> pyval \<Rightarrow> exn + bool" where
  "compare_values op left right =
     (if op = Eq then Inr (py_eq left right)
      else if op = NotEq then Inr (\<not> py_eq left right)
      else if \<not> same_orderable_kind left right
      then eval_error (Uncomparable (type_name left) (type_name right))
      else
        (case (left, right) of
           (PInt l, PInt r) \<Rightarrow> Inr (order_by op l r)
         | (PStr l, PStr r) \<Rightarrow> Inr (order_by op l r)
         | _ \<Rightarrow> Inl TypeError))"

fun is_container :: "pyval \<Rightarrow> bool" where
  "is_container (PTuple _) = True"
| "is_container (PStr _) = True"
| "is_container _ = False"

definition compare_op :: "cmpop \<Rightarrow> pyval \<Rightarrow> pyval \<Rightarrow> exn + bool" where
  "compare_op op left right =
     (if op = In \<or> op = NotIn then
        (if is_container right
         then bindE (py_contains left right) (\<lambda>c. Inr (if op = In then c else \<not> c))
         else eval_error (Uncomparable (type_name left) (type_name right)))
      else compare_values op left right)"


section \<open>The interpreter\<close>

fun eval_node :: "nat \<Rightarrow> evaluation_context \<Rightarrow> expr \<Rightarrow> pyval run"
  and eval_and :: "nat \<Rightarrow> evaluation_context \<Rightarrow> expr list \<Rightarrow> bool run"
  and eval_or :: "nat \<Rightarrow> evaluation_context \<Rightarrow> expr list \<Rightarrow> bool run"
  and eval_compare :: "nat \<Rightarrow> evaluation_context \<Rightarrow> pyval \<Rightarrow> cmpop list \<Rightarrow> expr list \<Rightarrow> bool run"
  and eval_all :: "nat \<Rightarrow> evaluation_context \<Rightarrow> expr list \<Rightarrow> pyval list run"
  and eval_keywords ::
    "nat \<Rightarrow> evaluation_context \<Rightarrow> (string \<times> pyval) list \<Rightarrow> keyword list \<Rightarrow> (string \<times> pyval) list run"
where
  "eval_node mx ctx (Constant v) = bind_run (tick mx) (\<lambda>_. ret v)"
| "eval_node mx ctx (Name n) = bind_run (tick mx) (\<lambda>_. lift_run (read_fact ctx n))"
| "eval_node mx ctx (BoolOp b es) =
     bind_run (tick mx) (\<lambda>_.
     bind_run (if b = And then eval_and mx ctx es else eval_or mx ctx es) (\<lambda>c. ret (PBool c)))"
| "eval_node mx ctx (UnaryOp u e) =
     bind_run (tick mx) (\<lambda>_.
     bind_run (eval_node mx ctx e) (\<lambda>v. lift_run (apply_unary u v)))"
| "eval_node mx ctx (Compare l ops es) =
     bind_run (tick mx) (\<lambda>_.
     bind_run (eval_node mx ctx l) (\<lambda>v.
     bind_run (eval_compare mx ctx v ops es) (\<lambda>c. ret (PBool c))))"
| "eval_node mx ctx (BinOp l op r) =
     bind_run (tick mx) (\<lambda>_.
     bind_run (eval_node mx ctx l) (\<lambda>v.
     bind_run (eval_node mx ctx r) (\<lambda>w. lift_run (apply_binop op v w))))"
| "eval_node mx ctx (Call f as ks) =
     bind_run (tick mx) (\<lambda>_.
       (case f of
          Name n \<Rightarrow>
            (case ctx_functions ctx n of
               None \<Rightarrow> lift_run (eval_error (NotAvailable n))
             | Some fn \<Rightarrow>
                 bind_run (eval_all mx ctx as) (\<lambda>args.
                 bind_run (eval_keywords mx ctx [] ks) (\<lambda>kwargs. lift_run (fn args kwargs))))
        | _ \<Rightarrow> lift_run (Inl AttributeError)))"
| "eval_node mx ctx (List_e es) =
     bind_run (tick mx) (\<lambda>_. bind_run (eval_all mx ctx es) (\<lambda>vs. ret (PTuple vs)))"
| "eval_node mx ctx (Tuple_e es) =
     bind_run (tick mx) (\<lambda>_. bind_run (eval_all mx ctx es) (\<lambda>vs. ret (PTuple vs)))"
| "eval_node mx ctx (Attribute e a) =
     bind_run (tick mx) (\<lambda>_. lift_run (eval_error (CannotEvaluate ''Attribute'')))"
| "eval_node mx ctx (Subscript e i) =
     bind_run (tick mx) (\<lambda>_. lift_run (eval_error (CannotEvaluate ''Subscript'')))"
| "eval_node mx ctx (Other k es) =
     bind_run (tick mx) (\<lambda>_. lift_run (eval_error (CannotEvaluate k)))"

| "eval_and mx ctx [] = ret True"
| "eval_and mx ctx (e # es) =
     bind_run (eval_node mx ctx e) (\<lambda>v. if truthy v then eval_and mx ctx es else ret False)"

| "eval_or mx ctx [] = ret False"
| "eval_or mx ctx (e # es) =
     bind_run (eval_node mx ctx e) (\<lambda>v. if truthy v then ret True else eval_or mx ctx es)"

| "eval_compare mx ctx left [] [] = ret True"
| "eval_compare mx ctx left (op # ops) (e # es) =
     bind_run (eval_node mx ctx e) (\<lambda>right.
     bind_run (lift_run (compare_op op left right)) (\<lambda>c.
       if c then eval_compare mx ctx right ops es else ret False))"
| "eval_compare mx ctx left [] (e # es) = lift_run (Inl ValueError)"
| "eval_compare mx ctx left (op # ops) [] = lift_run (Inl ValueError)"

| "eval_all mx ctx [] = ret []"
| "eval_all mx ctx (e # es) =
     bind_run (eval_node mx ctx e) (\<lambda>v. bind_run (eval_all mx ctx es) (\<lambda>vs. ret (v # vs)))"

| "eval_keywords mx ctx kwargs [] = ret kwargs"
| "eval_keywords mx ctx kwargs (Keyword (Some a) e # ks) =
     bind_run (eval_node mx ctx e) (\<lambda>v. eval_keywords mx ctx (dict_put a v kwargs) ks)"
| "eval_keywords mx ctx kwargs (Keyword None e # ks) = eval_keywords mx ctx kwargs ks"

text \<open>\<open>Interpreter.run\<close> on a fresh interpreter, with the step count the caller can read
  afterwards, and the module's \<open>evaluate\<close>.\<close>

definition interpreter_run :: "nat \<Rightarrow> evaluation_context \<Rightarrow> expr \<Rightarrow> (exn + bool) \<times> nat" where
  "interpreter_run mx ctx tree =
     (case eval_node mx ctx tree 0 of
        (Inl e, steps) \<Rightarrow> (Inl e, steps)
      | (Inr v, steps) \<Rightarrow> (Inr (truthy v), steps))"

definition evaluate :: "expr \<Rightarrow> evaluation_context \<Rightarrow> nat \<Rightarrow> exn + bool" where
  "evaluate tree ctx mx = fst (interpreter_run mx ctx tree)"


section \<open>Reference semantics\<close>

fun denote :: "evaluation_context \<Rightarrow> expr \<Rightarrow> exn + pyval"
  and denote_and :: "evaluation_context \<Rightarrow> expr list \<Rightarrow> exn + bool"
  and denote_or :: "evaluation_context \<Rightarrow> expr list \<Rightarrow> exn + bool"
  and denote_compare :: "evaluation_context \<Rightarrow> pyval \<Rightarrow> cmpop list \<Rightarrow> expr list \<Rightarrow> exn + bool"
  and denote_all :: "evaluation_context \<Rightarrow> expr list \<Rightarrow> exn + pyval list"
  and denote_keywords ::
    "evaluation_context \<Rightarrow> (string \<times> pyval) list \<Rightarrow> keyword list \<Rightarrow> exn + (string \<times> pyval) list"
where
  "denote ctx (Constant v) = Inr v"
| "denote ctx (Name n) = read_fact ctx n"
| "denote ctx (BoolOp b es) =
     bindE (if b = And then denote_and ctx es else denote_or ctx es) (\<lambda>c. Inr (PBool c))"
| "denote ctx (UnaryOp u e) = bindE (denote ctx e) (apply_unary u)"
| "denote ctx (Compare l ops es) =
     bindE (denote ctx l) (\<lambda>v. bindE (denote_compare ctx v ops es) (\<lambda>c. Inr (PBool c)))"
| "denote ctx (BinOp l op r) =
     bindE (denote ctx l) (\<lambda>v. bindE (denote ctx r) (apply_binop op v))"
| "denote ctx (Call f as ks) =
     (case f of
        Name n \<Rightarrow>
          (case ctx_functions ctx n of
             None \<Rightarrow> eval_error (NotAvailable n)
           | Some fn \<Rightarrow>
               bindE (denote_all ctx as) (\<lambda>args. bindE (denote_keywords ctx [] ks) (fn args)))
      | _ \<Rightarrow> Inl AttributeError)"
| "denote ctx (List_e es) = bindE (denote_all ctx es) (\<lambda>vs. Inr (PTuple vs))"
| "denote ctx (Tuple_e es) = bindE (denote_all ctx es) (\<lambda>vs. Inr (PTuple vs))"
| "denote ctx (Attribute e a) = eval_error (CannotEvaluate ''Attribute'')"
| "denote ctx (Subscript e i) = eval_error (CannotEvaluate ''Subscript'')"
| "denote ctx (Other k es) = eval_error (CannotEvaluate k)"

| "denote_and ctx [] = Inr True"
| "denote_and ctx (e # es) =
     bindE (denote ctx e) (\<lambda>v. if truthy v then denote_and ctx es else Inr False)"

| "denote_or ctx [] = Inr False"
| "denote_or ctx (e # es) =
     bindE (denote ctx e) (\<lambda>v. if truthy v then Inr True else denote_or ctx es)"

| "denote_compare ctx left [] [] = Inr True"
| "denote_compare ctx left (op # ops) (e # es) =
     bindE (denote ctx e) (\<lambda>right.
     bindE (compare_op op left right) (\<lambda>c.
       if c then denote_compare ctx right ops es else Inr False))"
| "denote_compare ctx left [] (e # es) = Inl ValueError"
| "denote_compare ctx left (op # ops) [] = Inl ValueError"

| "denote_all ctx [] = Inr []"
| "denote_all ctx (e # es) =
     bindE (denote ctx e) (\<lambda>v. bindE (denote_all ctx es) (\<lambda>vs. Inr (v # vs)))"

| "denote_keywords ctx kwargs [] = Inr kwargs"
| "denote_keywords ctx kwargs (Keyword (Some a) e # ks) =
     bindE (denote ctx e) (\<lambda>v. denote_keywords ctx (dict_put a v kwargs) ks)"
| "denote_keywords ctx kwargs (Keyword None e # ks) = denote_keywords ctx kwargs ks"


section \<open>The budget and the reference semantics\<close>

text \<open>\<open>runs_as mx n m d\<close>: with room for \<open>n\<close> more steps, \<open>m\<close> computes \<open>d\<close> in at most \<open>n\<close>.\<close>

definition runs_as :: "nat \<Rightarrow> nat \<Rightarrow> 'a run \<Rightarrow> exn + 'a \<Rightarrow> bool" where
  "runs_as mx n m d \<longleftrightarrow> (\<forall>s. s + n \<le> mx \<longrightarrow> (\<exists>k \<le> n. m s = (d, s + k)))"

lemma runs_as_ret: "runs_as mx n (ret x) (Inr x)"
  by (auto simp: runs_as_def ret_def)

lemma runs_as_lift: "runs_as mx n (lift_run r) r"
  by (auto simp: runs_as_def lift_run_def)

lemma runs_as_bind:
  assumes "runs_as mx n m d" and "\<And>x. d = Inr x \<Longrightarrow> runs_as mx n' (f x) (g x)"
  shows "runs_as mx (n + n') (bind_run m f) (bindE d g)"
  unfolding runs_as_def
proof (intro allI impI)
  fix s assume le: "s + (n + n') \<le> mx"
  then have "s + n \<le> mx" by simp
  with assms(1) obtain k where k: "k \<le> n" "m s = (d, s + k)" unfolding runs_as_def by blast
  show "\<exists>j \<le> n + n'. bind_run m f s = (bindE d g, s + j)"
  proof (cases d)
    case (Inl e)
    with k show ?thesis by (intro exI [of _ k]) (auto simp: bind_run_def)
  next
    case (Inr x)
    from le k have "s + k + n' \<le> mx" by simp
    with assms(2) [OF Inr] obtain j where "j \<le> n'" "f x (s + k) = (g x, s + k + j)"
      unfolding runs_as_def by auto
    with k Inr show ?thesis by (intro exI [of _ "k + j"]) (auto simp: bind_run_def)
  qed
qed

lemma runs_as_mono: "runs_as mx n m d \<Longrightarrow> n \<le> n' \<Longrightarrow> runs_as mx n' m d"
  unfolding runs_as_def by (meson add_left_mono order_trans)

lemma runs_as_tick:
  assumes "runs_as mx n (f ()) d"
  shows "runs_as mx (Suc n) (bind_run (tick mx) f) d"
  unfolding runs_as_def
proof (intro allI impI)
  fix s assume le: "s + Suc n \<le> mx"
  with assms obtain k where "k \<le> n" "f () (Suc s) = (d, Suc s + k)"
    unfolding runs_as_def by (metis add_Suc_shift)
  with le show "\<exists>k \<le> Suc n. bind_run (tick mx) f s = (d, s + k)"
    by (intro exI [of _ "Suc k"]) (auto simp: bind_run_def tick_def Let_def)
qed

lemma runs_as_bind_le:
  assumes "runs_as mx n m d" and "\<And>x. d = Inr x \<Longrightarrow> runs_as mx n' (f x) (g x)" and "n + n' \<le> k"
  shows "runs_as mx k (bind_run m f) (bindE d g)"
  using runs_as_mono [OF runs_as_bind [OF assms(1,2)] assms(3)] .

lemma runs_as_tick_le: "runs_as mx n (f ()) d \<Longrightarrow> n < k \<Longrightarrow> runs_as mx k (bind_run (tick mx) f) d"
  using runs_as_mono [OF runs_as_tick, of mx n f d k] by simp

lemma runs_as_if_ret:
  "(c \<Longrightarrow> runs_as mx n m d) \<Longrightarrow> runs_as mx n (if c then m else ret y) (if c then d else Inr y)"
  "(\<not> c \<Longrightarrow> runs_as mx n m d) \<Longrightarrow> runs_as mx n (if c then ret y else m) (if c then Inr y else d)"
  by (simp_all add: runs_as_ret)

lemmas runs_as_intros =
  runs_as_ret [where n = 0] runs_as_lift [where n = 0] runs_as_tick_le runs_as_bind_le runs_as_if_ret

definition keywords_count :: "keyword list \<Rightarrow> nat" where
  "keywords_count ks = sum_list (map (\<lambda>k. case k of Keyword _ e \<Rightarrow> Suc (node_count e)) ks)"

lemma eval_runs_as_denote:
  "runs_as mx (node_count e) (eval_node mx ctx e) (denote ctx e)"
  "runs_as mx (sum_list (map node_count es)) (eval_and mx ctx es) (denote_and ctx es)"
  "runs_as mx (sum_list (map node_count es)) (eval_or mx ctx es) (denote_or ctx es)"
  "runs_as mx (sum_list (map node_count es)) (eval_compare mx ctx v ops es) (denote_compare ctx v ops es)"
  "runs_as mx (sum_list (map node_count es)) (eval_all mx ctx es) (denote_all ctx es)"
  "runs_as mx (keywords_count ks) (eval_keywords mx ctx kw ks) (denote_keywords ctx kw ks)"
proof (induction mx ctx e and mx ctx es and mx ctx es and mx ctx v ops es and mx ctx es and mx ctx kw ks
    rule: eval_node_eval_and_eval_or_eval_compare_eval_all_eval_keywords.induct)
  case (3 mx ctx b es)
  let ?n = "sum_list (map node_count es)"
  have "runs_as mx ?n (if b = And then eval_and mx ctx es else eval_or mx ctx es)
      (if b = And then denote_and ctx es else denote_or ctx es)"
    using 3 by (cases b) auto
  then show ?case
    by (auto intro!: runs_as_tick_le runs_as_bind_le [where n' = 0] runs_as_ret)
next
  case (7 mx ctx f as ks)
  show ?case
  proof (cases f)
    case (Name n)
    then show ?thesis
      using 7 [OF Name]
      by (auto intro!: runs_as_tick_le [where n = "sum_list (map node_count as) + (keywords_count ks + 0)"]
          runs_as_lift runs_as_bind_le
          simp: keywords_count_def split: option.split)
  qed (auto intro!: runs_as_tick_le [where n = 0] runs_as_lift)
next
  case (19 mx ctx v e es)
  then show ?case by (auto intro: runs_as_lift)
next
  case (25 mx ctx kw e ks)
  then show ?case by (auto simp: keywords_count_def elim: runs_as_mono)
qed (auto simp: keywords_count_def intro!: runs_as_intros)

lemma interpreter_run_denote:
  assumes "node_count tree \<le> mx"
  obtains k where "k \<le> node_count tree"
    and "interpreter_run mx ctx tree = (bindE (denote ctx tree) (\<lambda>v. Inr (truthy v)), k)"
proof -
  from assms eval_runs_as_denote(1) [of mx tree ctx]
  obtain k where "k \<le> node_count tree" "eval_node mx ctx tree 0 = (denote ctx tree, k)"
    unfolding runs_as_def by (metis add_0)
  then show thesis
    using that [of k] by (cases "denote ctx tree") (auto simp: interpreter_run_def)
qed


section \<open>What a rule can observe\<close>

text \<open>The names a rule reads as facts, and the names it calls.\<close>

fun fact_names :: "expr \<Rightarrow> string list" where
  "fact_names (Constant v) = []"
| "fact_names (Name n) = [n]"
| "fact_names (BoolOp b es) = concat (map fact_names es)"
| "fact_names (UnaryOp u e) = fact_names e"
| "fact_names (BinOp l op r) = fact_names l @ fact_names r"
| "fact_names (Compare l ops es) = fact_names l @ concat (map fact_names es)"
| "fact_names (Call f as ks) =
     concat (map fact_names as) @ concat (map (\<lambda>k. case k of Keyword _ e \<Rightarrow> fact_names e) ks)"
| "fact_names (List_e es) = concat (map fact_names es)"
| "fact_names (Tuple_e es) = concat (map fact_names es)"
| "fact_names (Attribute e a) = []"
| "fact_names (Subscript e i) = []"
| "fact_names (Other k es) = []"

definition same_facts_on :: "string set \<Rightarrow> evaluation_context \<Rightarrow> evaluation_context \<Rightarrow> bool" where
  "same_facts_on N c d \<longleftrightarrow> ctx_functions c = ctx_functions d \<and> (\<forall>n \<in> N. ctx_facts c n = ctx_facts d n)"

lemma same_facts_on_subset: "same_facts_on N c d \<Longrightarrow> M \<subseteq> N \<Longrightarrow> same_facts_on M c d"
  by (auto simp: same_facts_on_def)

lemma same_facts_on_Un:
  "same_facts_on (M \<union> N) c d \<longleftrightarrow> same_facts_on M c d \<and> same_facts_on N c d"
  by (auto simp: same_facts_on_def)

definition keywords_names :: "keyword list \<Rightarrow> string list" where
  "keywords_names ks = concat (map (\<lambda>k. case k of Keyword _ e \<Rightarrow> fact_names e) ks)"

text \<open>Evaluation depends on the facts a rule names and on nothing else in the mapping.\<close>

lemma denote_cong:
  "same_facts_on (set (fact_names e)) c d \<Longrightarrow> denote c e = denote d e"
  "same_facts_on (\<Union>e \<in> set es. set (fact_names e)) c d \<Longrightarrow> denote_and c es = denote_and d es"
  "same_facts_on (\<Union>e \<in> set es. set (fact_names e)) c d \<Longrightarrow> denote_or c es = denote_or d es"
  "same_facts_on (\<Union>e \<in> set es. set (fact_names e)) c d \<Longrightarrow>
     denote_compare c v ops es = denote_compare d v ops es"
  "same_facts_on (\<Union>e \<in> set es. set (fact_names e)) c d \<Longrightarrow> denote_all c es = denote_all d es"
  "same_facts_on (set (keywords_names ks)) c d \<Longrightarrow> denote_keywords c kw ks = denote_keywords d kw ks"
proof (induction c e and c es and c es and c v ops es and c es and c kw ks
    rule: denote_denote_and_denote_or_denote_compare_denote_all_denote_keywords.induct)
  case (2 c n)
  then show ?case by (simp add: same_facts_on_def read_fact_def)
next
  case (7 c f as ks)
  from "7.prems" have "ctx_functions c = ctx_functions d" by (simp add: same_facts_on_def)
  with 7 show ?case
    by (auto simp: same_facts_on_Un keywords_names_def split: expr.splits option.splits
        intro!: bindE_cong)
qed (auto simp: same_facts_on_Un keywords_names_def intro!: bindE_cong)

lemma evaluate_denote:
  "node_count tree \<le> mx \<Longrightarrow> evaluate tree ctx mx = bindE (denote ctx tree) (\<lambda>v. Inr (truthy v))"
  by (metis interpreter_run_denote evaluate_def fst_conv)

end
