(* ===== verification/Dsl_Functions.thy ===== *)
theory Dsl_Functions
  imports Dsl_Interpreter
begin

text \<open>
  The functions a rule may call (\<open>src/complylayer/dsl/functions.py\<close>), bound to one
  transaction's data sources by \<open>build\<close>.

  A Python call \<open>f(*args, **kwargs)\<close> first binds the arguments to the parameters
  (\<open>bind_params\<close>); an argument that does not fit is a \<open>TypeError\<close>, which is not a
  \<open>RuleEvaluationError\<close>. The velocity provider is an interface (\<open>VelocityProvider\<close>), a
  record of its two methods here. \<open>datetime.fromisoformat\<close> is a parameter: it maps a text
  to a date-time or fails with \<open>ValueError\<close> (\<open>None\<close>). A date-time is its local clock
  reading in microseconds and its offset from UTC, if it has one; \<open>now\<close> is the instant in
  microseconds since the epoch, in UTC. No fact is a \<open>datetime\<close> object, because facts are
  decoded from JSON, so that branch of \<open>days_since\<close> has no counterpart.
\<close>


section \<open>Argument binding\<close>

type_synonym signature = "(string \<times> pyval option) list"

definition bind_params :: "signature \<Rightarrow> pyval list \<Rightarrow> (string \<times> pyval) list \<Rightarrow> exn + pyval list" where
  "bind_params sig args kwargs =
     (if length args > length sig
         \<or> (\<exists>k \<in> set (map fst kwargs). k \<notin> set (map fst (drop (length args) sig)))
      then Inl TypeError
      else
        bindE
          (mapE (\<lambda>(n, d). case map_of kwargs n of
                    Some v \<Rightarrow> Inr v
                  | None \<Rightarrow> (case d of Some v \<Rightarrow> Inr v | None \<Rightarrow> Inl TypeError))
             (drop (length args) sig))
          (\<lambda>rest. Inr (args @ rest)))"

definition call_python :: "signature \<Rightarrow> (pyval list \<Rightarrow> exn + pyval) \<Rightarrow> py_function" where
  "call_python sig body args kwargs = bindE (bind_params sig args kwargs) body"


section \<open>The implementations\<close>

definition WINDOW_SECONDS :: "(string \<times> int) list" where
  "WINDOW_SECONDS =
     [(''1m'', 60), (''5m'', 300), (''15m'', 900), (''1h'', 3600), (''6h'', 21600),
      (''24h'', 86400), (''7d'', 604800), (''30d'', 2592000)]"

record velocity_provider =
  vp_count :: "int \<Rightarrow> pyval \<Rightarrow> pyval \<Rightarrow> pyval \<Rightarrow> exn + pyval"
  vp_total :: "int \<Rightarrow> pyval \<Rightarrow> pyval \<Rightarrow> pyval \<Rightarrow> exn + pyval"

definition window_seconds :: "pyval \<Rightarrow> exn + int" where
  "window_seconds w =
     (case w of
        PStr s \<Rightarrow> (case map_of WINDOW_SECONDS s of Some n \<Rightarrow> Inr n | None \<Rightarrow> eval_error (NotAWindow w))
      | _ \<Rightarrow> eval_error (NotAWindow w))"

definition whole_number :: "pyval \<Rightarrow> string \<Rightarrow> exn + int" where
  "whole_number v label =
     (case v of PInt i \<Rightarrow> Inr i | _ \<Rightarrow> eval_error (MustBeWholeNumber label))"

fun velocity_count :: "velocity_provider \<Rightarrow> pyval list \<Rightarrow> exn + pyval" where
  "velocity_count vp [window, min_a, max_a, kind] =
     bindE (window_seconds window) (\<lambda>s. vp_count vp s min_a max_a kind)"
| "velocity_count vp _ = Inl TypeError"

fun velocity_sum :: "velocity_provider \<Rightarrow> pyval list \<Rightarrow> exn + pyval" where
  "velocity_sum vp [window, min_a, max_a, kind] =
     bindE (window_seconds window) (\<lambda>s. vp_total vp s min_a max_a kind)"
| "velocity_sum vp _ = Inl TypeError"

record py_datetime =
  local_us :: int
  utcoffset_us :: "int option"

definition US_PER_DAY :: int where "US_PER_DAY = 86400000000"

text \<open>A naive date-time is taken to be UTC.\<close>

definition instant :: "py_datetime \<Rightarrow> int" where
  "instant d = (case utcoffset_us d of None \<Rightarrow> local_us d | Some off \<Rightarrow> local_us d - off)"

fun days_since :: "(string \<Rightarrow> py_datetime option) \<Rightarrow> int \<Rightarrow> pyval list \<Rightarrow> exn + pyval" where
  "days_since fromisoformat now [timestamp] =
     (case timestamp of
        PStr s \<Rightarrow>
          (case fromisoformat s of
             None \<Rightarrow> eval_error (NotADate s)
           | Some moment \<Rightarrow> Inr (PInt ((now - instant moment) div US_PER_DAY)))
      | _ \<Rightarrow> eval_error NeedsADate)"
| "days_since fromisoformat now _ = Inl TypeError"

fun in_list :: "pyval list \<Rightarrow> exn + pyval" where
  "in_list [v, candidates] =
     (if is_container candidates
      then bindE (py_contains v candidates) (\<lambda>b. Inr (PBool b))
      else eval_error NeedsAList)"
| "in_list _ = Inl TypeError"

fun hour_of_day :: "int \<Rightarrow> pyval list \<Rightarrow> exn + pyval" where
  "hour_of_day now [] = Inr (PInt ((now mod US_PER_DAY) div 3600000000))"
| "hour_of_day now _ = Inl TypeError"

fun percent_of :: "pyval list \<Rightarrow> exn + pyval" where
  "percent_of [amount, percent] =
     bindE (whole_number amount ''amount'') (\<lambda>a.
     bindE (whole_number percent ''percent'') (\<lambda>p. Inr (PInt (a * p div 100))))"
| "percent_of _ = Inl TypeError"

fun abs_fn :: "pyval list \<Rightarrow> exn + pyval" where
  "abs_fn [v] = bindE (whole_number v ''value'') (\<lambda>i. Inr (PInt \<bar>i\<bar>))"
| "abs_fn _ = Inl TypeError"

fun min_fn :: "pyval list \<Rightarrow> exn + pyval" where
  "min_fn [a, b] =
     bindE (whole_number a ''value'') (\<lambda>i. bindE (whole_number b ''value'') (\<lambda>j. Inr (PInt (min i j))))"
| "min_fn _ = Inl TypeError"

fun max_fn :: "pyval list \<Rightarrow> exn + pyval" where
  "max_fn [a, b] =
     bindE (whole_number a ''value'') (\<lambda>i. bindE (whole_number b ''value'') (\<lambda>j. Inr (PInt (max i j))))"
| "max_fn _ = Inl TypeError"

definition velocity_sig :: signature where
  "velocity_sig =
     [(''window'', None), (''min_amount_minor'', Some PNone),
      (''max_amount_minor'', Some PNone), (''transaction_type'', Some PNone)]"

definition build_table ::
  "(string \<Rightarrow> py_datetime option) \<Rightarrow> velocity_provider \<Rightarrow> int \<Rightarrow>
     (string \<times> (signature \<times> (pyval list \<Rightarrow> exn + pyval))) list" where
  "build_table fromisoformat vp now =
     [(''velocity_count'', (velocity_sig, velocity_count vp)),
      (''velocity_sum'', (velocity_sig, velocity_sum vp)),
      (''days_since'', ([(''timestamp'', None)], days_since fromisoformat now)),
      (''in_list'', ([(''value'', None), (''candidates'', None)], in_list)),
      (''hour_of_day'', ([], hour_of_day now)),
      (''abs'', ([(''value'', None)], abs_fn)),
      (''min'', ([(''a'', None), (''b'', None)], min_fn)),
      (''max'', ([(''a'', None), (''b'', None)], max_fn)),
      (''percent_of'', ([(''amount'', None), (''percent'', None)], percent_of))]"

definition build ::
  "(string \<Rightarrow> py_datetime option) \<Rightarrow> velocity_provider \<Rightarrow> int \<Rightarrow> string \<rightharpoonup> py_function" where
  "build fromisoformat vp now n =
     (case map_of (build_table fromisoformat vp now) n of
        None \<Rightarrow> None
      | Some (sig, body) \<Rightarrow> Some (call_python sig body))"


section \<open>The table matches the validator's\<close>

lemma build_table_names: "map fst (build_table fi vp now) = ALLOWED_FUNCTIONS"
  by (simp add: build_table_def ALLOWED_FUNCTIONS_def SPECS_def)

lemma dom_build: "dom (build fi vp now) = set ALLOWED_FUNCTIONS"
proof -
  have "dom (build fi vp now) = dom (map_of (build_table fi vp now))"
    by (auto simp: build_def dom_def split: option.splits prod.splits)
  then show ?thesis
    by (simp add: dom_map_of_conv_image_fst build_table_names [symmetric, of fi vp now])
qed

lemma bind_params_exact:
  "length args = length sig \<Longrightarrow> bind_params sig args [] = Inr args"
  by (simp add: bind_params_def)

lemma bind_params_error: "bind_params sig args kwargs = Inl e \<Longrightarrow> e = TypeError"
  by (auto simp: bind_params_def bindE_eq_Inl elim!: mapE_InlE split: if_splits option.splits)

lemma bind_params_length:
  "bind_params sig args kwargs = Inr vs \<Longrightarrow> length vs = length sig"
  by (auto simp: bind_params_def dest!: mapE_length split: if_splits)

text \<open>Binding a velocity call: exactly the window is missing or present.\<close>

lemma bind_velocity:
  assumes "set (map fst kwargs) \<subseteq> set velocity_keywords"
  shows "bind_params velocity_sig [] kwargs =
    (case map_of kwargs ''window'' of
       None \<Rightarrow> Inl TypeError
     | Some w \<Rightarrow>
         Inr [w,
              case map_of kwargs ''min_amount_minor'' of None \<Rightarrow> PNone | Some v \<Rightarrow> v,
              case map_of kwargs ''max_amount_minor'' of None \<Rightarrow> PNone | Some v \<Rightarrow> v,
              case map_of kwargs ''transaction_type'' of None \<Rightarrow> PNone | Some v \<Rightarrow> v])"
proof -
  from assms have "\<not> (\<exists>k \<in> set (map fst kwargs). k \<notin> set (map fst velocity_sig))"
    by (auto simp: velocity_sig_def velocity_keywords_def)
  then show ?thesis
    by (simp add: bind_params_def velocity_sig_def split: option.split)
qed

text \<open>Which exceptions a call can raise.\<close>

definition benign :: "exn + 'a \<Rightarrow> bool" where
  "benign r \<longleftrightarrow> (\<forall>e. r = Inl e \<longrightarrow> e = TypeError \<or> (\<exists>x. e = RuleEvaluationError x \<and> (\<forall>k. x \<noteq> CannotEvaluate k)))"

lemma benign_simps [simp]: "benign (Inr x)" "benign (Inl TypeError)"
  by (simp_all add: benign_def)

lemma benign_eval_error [simp]: "benign (eval_error x) \<longleftrightarrow> (\<forall>k. x \<noteq> CannotEvaluate k)"
  by (auto simp: benign_def eval_error_def)

lemma benign_bindE: "benign r \<Longrightarrow> (\<And>x. r = Inr x \<Longrightarrow> benign (f x)) \<Longrightarrow> benign (bindE r f)"
  by (cases r) (auto simp: benign_def)

lemma benign_py_contains [simp]: "benign (py_contains v w)"
  by (induction v w rule: py_contains.induct) auto

definition benign_provider :: "velocity_provider \<Rightarrow> bool" where
  "benign_provider vp \<longleftrightarrow> (\<forall>s a b c. benign (vp_count vp s a b c) \<and> benign (vp_total vp s a b c))"

lemma benign_window_seconds [simp]: "benign (window_seconds w)"
  by (auto simp: window_seconds_def split: pyval.splits option.splits)

lemma benign_whole_number [simp]: "benign (whole_number v l)"
  by (auto simp: whole_number_def split: pyval.splits)

lemma benign_bodies:
  "benign_provider vp \<Longrightarrow> benign (velocity_count vp vs)"
  "benign_provider vp \<Longrightarrow> benign (velocity_sum vp vs)"
  "benign (days_since fi now vs)"
  "benign (in_list vs)"
  "benign (hour_of_day now vs)"
  "benign (abs_fn vs)"
  "benign (min_fn vs)"
  "benign (max_fn vs)"
  "benign (percent_of vs)"
proof -
  show "benign_provider vp \<Longrightarrow> benign (velocity_count vp vs)"
    by (induction vp vs rule: velocity_count.induct) (auto simp: benign_provider_def intro!: benign_bindE)
  show "benign_provider vp \<Longrightarrow> benign (velocity_sum vp vs)"
    by (induction vp vs rule: velocity_sum.induct) (auto simp: benign_provider_def intro!: benign_bindE)
  show "benign (days_since fi now vs)"
    by (induction fi now vs rule: days_since.induct) (auto split: pyval.splits option.splits)
  show "benign (in_list vs)"
    by (induction vs rule: in_list.induct) (auto intro!: benign_bindE)
  show "benign (hour_of_day now vs)"
    by (induction now vs rule: hour_of_day.induct) auto
  show "benign (abs_fn vs)"
    by (induction vs rule: abs_fn.induct) (auto intro!: benign_bindE)
  show "benign (min_fn vs)"
    by (induction vs rule: min_fn.induct) (auto intro!: benign_bindE)
  show "benign (max_fn vs)"
    by (induction vs rule: max_fn.induct) (auto intro!: benign_bindE)
  show "benign (percent_of vs)"
    by (induction vs rule: percent_of.induct) (auto intro!: benign_bindE)
qed

lemma benign_build:
  assumes "benign_provider vp" and "build fi vp now n = Some fn"
  shows "benign (fn args kwargs)"
proof -
  from assms(2) obtain sig body where "map_of (build_table fi vp now) n = Some (sig, body)"
    and fn: "fn = call_python sig body"
    by (auto simp: build_def split: option.splits)
  then have "(n, sig, body) \<in> set (build_table fi vp now)" by (simp add: map_of_SomeD)
  then have "benign (body vs)" for vs
    using assms(1) by (auto simp: build_table_def benign_bodies)
  moreover have "benign (bind_params sig args kwargs)"
    using bind_params_error unfolding benign_def by blast
  ultimately show ?thesis by (simp add: fn call_python_def benign_bindE)
qed


section \<open>Errors of a validated rule\<close>

text \<open>\<open>ast.parse\<close> gives a comparison as many operators as comparators.\<close>

fun wf_node :: "expr \<Rightarrow> bool" where
  "wf_node (Compare l ops es) = (length ops = length es)"
| "wf_node _ = True"

definition wf_tree :: "expr \<Rightarrow> bool" where
  "wf_tree e \<longleftrightarrow> (\<forall>n \<in> set (subexprs e). wf_node n)"

definition benign_context :: "evaluation_context \<Rightarrow> bool" where
  "benign_context ctx \<longleftrightarrow>
     (\<forall>n fn args kwargs. ctx_functions ctx n = Some fn \<longrightarrow> benign (fn args kwargs))"

lemma benign_read_fact [simp]: "benign (read_fact ctx n)"
  by (auto simp: read_fact_def split: option.splits)

lemma benign_apply_unary [simp]: "benign (apply_unary u v)"
  by (cases u) (auto split: pyval.splits)

lemma benign_guard_magnitude [simp]: "benign (guard_magnitude n)"
  by (auto simp: guard_magnitude_def)

lemma benign_arith_op [simp]: "benign (arith_op op l r)"
  by (cases op) (auto simp: guarded_multiply_def Let_def)

lemma benign_apply_binop [simp]: "benign (apply_binop op v w)"
  by (auto simp: apply_binop_def split: pyval.splits intro!: benign_bindE)

lemma benign_compare_op [simp]: "benign (compare_op op v w)"
  by (auto simp: compare_op_def compare_values_def split: pyval.splits intro!: benign_bindE)

definition tree_ok :: "expr \<Rightarrow> bool" where
  "tree_ok e \<longleftrightarrow> (\<forall>n \<in> set (subexprs e). node_ok n \<and> wf_node n)"

lemma tree_ok_simps:
  "tree_ok (BoolOp b es) \<longleftrightarrow> (\<forall>e \<in> set es. tree_ok e)"
  "tree_ok (UnaryOp u e) \<longleftrightarrow> unaryop_allowed u \<and> tree_ok e"
  "tree_ok (BinOp l op r) \<longleftrightarrow> node_ok (BinOp l op r) \<and> tree_ok l \<and> tree_ok r"
  "tree_ok (Compare l ops es) \<longleftrightarrow>
     list_all cmpop_allowed ops \<and> length ops = length es \<and> tree_ok l \<and> (\<forall>e \<in> set es. tree_ok e)"
  "tree_ok (Call f as ks) \<longleftrightarrow> node_ok (Call f as ks) \<and> tree_ok f \<and> (\<forall>e \<in> set as. tree_ok e)
     \<and> (\<forall>k \<in> set ks. tree_ok (kw_value k))"
  "tree_ok (List_e es) \<longleftrightarrow> (\<forall>e \<in> set es. tree_ok e)"
  "tree_ok (Tuple_e es) \<longleftrightarrow> (\<forall>e \<in> set es. tree_ok e)"
  "\<not> tree_ok (Attribute e a)"
  "\<not> tree_ok (Subscript e i)"
  "\<not> tree_ok (Other k es)"
  by (auto simp: tree_ok_def ball_Un keyword.case_eq_if)

lemma denote_benign:
  "benign_context ctx \<Longrightarrow> tree_ok e \<Longrightarrow> benign (denote ctx e)"
  "benign_context ctx \<Longrightarrow> \<forall>e \<in> set es. tree_ok e \<Longrightarrow> benign (denote_and ctx es)"
  "benign_context ctx \<Longrightarrow> \<forall>e \<in> set es. tree_ok e \<Longrightarrow> benign (denote_or ctx es)"
  "benign_context ctx \<Longrightarrow> \<forall>e \<in> set es. tree_ok e \<Longrightarrow> length ops = length es \<Longrightarrow>
     benign (denote_compare ctx v ops es)"
  "benign_context ctx \<Longrightarrow> \<forall>e \<in> set es. tree_ok e \<Longrightarrow> benign (denote_all ctx es)"
  "benign_context ctx \<Longrightarrow> \<forall>k \<in> set ks. tree_ok (kw_value k) \<Longrightarrow> benign (denote_keywords ctx kw ks)"
proof (induction ctx e and ctx es and ctx es and ctx v ops es and ctx es and ctx kw ks
    rule: denote_denote_and_denote_or_denote_compare_denote_all_denote_keywords.induct)
  case (7 ctx f as ks)
  then show ?case
    by (auto simp: tree_ok_simps benign_context_def split: expr.splits option.splits
        intro!: benign_bindE)
qed (auto simp: tree_ok_simps intro!: benign_bindE)

lemma benign_context_build:
  "benign_provider vp \<Longrightarrow> benign_context \<lparr>ctx_facts = fs, ctx_functions = build fi vp now\<rparr>"
  by (auto simp: benign_context_def dest: benign_build)

lemma validated_tree_ok: "validate e = Inr t \<Longrightarrow> wf_tree e \<Longrightarrow> tree_ok e"
  by (auto simp: validate_Inr_iff tree_ok_def wf_tree_def)

end
