(* ===== verification/Velocity.thy ===== *)
theory Velocity
  imports Dsl_Functions
begin

text \<open>
  Rolling-window counters over Redis (\<open>src/complylayer/velocity/redis_store.py\<close>).

  \<open>customer_store\<close> is what Redis holds for one tenant and customer: the sorted set of
  transaction references scored by time, the parallel hash of \<open>amount:type\<close> texts, the deadline
  both keys share (\<open>EXPIRE\<close> is always sent for both together), and the hash of lifetime
  aggregates, whose fields are numbers or absent. Times are rationals (Python floats). \<open>fetch\<close>
  is one \<open>MULTI/EXEC\<close>, hence one step: concurrent decisions are an arbitrary sequence of such
  steps, in the order Redis serialises them, each with the clock reading its own client took.

  The abstract view is the transaction log (\<open>log_of\<close>): the last time, amount and type
  recorded under each reference. The main results are that a window holds exactly the logged
  transactions younger than the largest window, and that a threshold is exact without a lock.
\<close>


section \<open>Amount texts\<close>

text \<open>\<open>text.partition(":")\<close>, without the separator.\<close>

definition partition_colon :: "string \<Rightarrow> string \<times> string" where
  "partition_colon s = (takeWhile (\<lambda>c. c \<noteq> CHR '':'') s, drop 1 (dropWhile (\<lambda>c. c \<noteq> CHR '':'') s))"

definition split_amount :: "string option \<Rightarrow> int \<times> string" where
  "split_amount raw =
     (case raw of
        None \<Rightarrow> (0, [])
      | Some s \<Rightarrow>
          (let (amount, kind) = partition_colon s
           in case parse_int amount of Some a \<Rightarrow> (a, kind) | None \<Rightarrow> (0, kind)))"

definition amount_text :: "int \<Rightarrow> string \<Rightarrow> string" where
  "amount_text a k = str_of_int a @ '':'' @ k"


section \<open>Aggregates and windows\<close>

definition LARGEST_WINDOW_SECONDS :: int where
  "LARGEST_WINDOW_SECONDS = Max (set (map snd WINDOW_SECONDS))"

definition KEY_TTL_SECONDS :: int where
  "KEY_TTL_SECONDS = LARGEST_WINDOW_SECONDS + 86400"

definition MAX_MEMBERS_FETCHED :: nat where
  "MAX_MEMBERS_FETCHED = 5000"

record aggregates =
  lifetime_count :: int
  lifetime_volume_minor :: int
  prior_flag_count :: int
  first_seen_at :: rat
  last_transaction_at :: rat

definition whole_days :: "rat \<Rightarrow> int" where
  "whole_days seconds = max 0 \<lfloor>seconds / 86400\<rfloor>"

definition as_facts :: "aggregates \<Rightarrow> rat \<Rightarrow> (string \<times> pyval) list" where
  "as_facts ag now =
     [(''lifetime_transaction_count'', PInt (lifetime_count ag)),
      (''lifetime_volume_minor'', PInt (lifetime_volume_minor ag)),
      (''average_transaction_minor'',
         PInt (if lifetime_count ag \<noteq> 0 then lifetime_volume_minor ag div lifetime_count ag else 0)),
      (''prior_flag_count'', PInt (prior_flag_count ag)),
      (''days_since_last_activity'',
         PInt (if last_transaction_at ag \<noteq> 0 then whole_days (now - last_transaction_at ag) else 0)),
      (''customer_known_days'',
         PInt (if first_seen_at ag \<noteq> 0 then whole_days (now - first_seen_at ag) else 0))]"

record entry =
  e_ref :: string
  e_score :: rat
  e_amount :: int
  e_kind :: string

record window =
  w_now :: rat
  w_entries :: "entry list"
  w_truncated :: bool
  w_aggregates :: aggregates

text \<open>\<open>amount < bound\<close> and \<open>amount > bound\<close> with whatever the rule passed as the bound.\<close>

definition cmp_amount :: "(rat \<Rightarrow> rat \<Rightarrow> bool) \<Rightarrow> int \<Rightarrow> pyval \<Rightarrow> exn + bool" where
  "cmp_amount rel a v =
     (case v of
        PInt i \<Rightarrow> Inr (rel (of_int a) (of_int i))
      | PBool b \<Rightarrow> Inr (rel (of_int a) (if b then 1 else 0))
      | PFloat q \<Rightarrow> Inr (rel (of_int a) q)
      | _ \<Rightarrow> Inl TypeError)"

text \<open>One turn of \<open>_matching\<close>: \<open>Inr None\<close> is \<open>continue\<close>.\<close>

definition matching_one ::
  "window \<Rightarrow> int \<Rightarrow> pyval \<Rightarrow> pyval \<Rightarrow> pyval \<Rightarrow> entry \<Rightarrow> exn + int option" where
  "matching_one w secs min_a max_a kind e =
     (if e_score e < w_now w - of_int secs then Inr None
      else
        bindE (if min_a = PNone then Inr False else cmp_amount (<) (e_amount e) min_a) (\<lambda>below.
        if below then Inr None
        else
          bindE (if max_a = PNone then Inr False else cmp_amount (>) (e_amount e) max_a) (\<lambda>above.
          if above then Inr None
          else if kind \<noteq> PNone \<and> \<not> py_eq (PStr (e_kind e)) kind then Inr None
          else Inr (Some (e_amount e)))))"

definition matching :: "window \<Rightarrow> int \<Rightarrow> pyval \<Rightarrow> pyval \<Rightarrow> pyval \<Rightarrow> exn + int list" where
  "matching w secs min_a max_a kind =
     bindE (mapE (matching_one w secs min_a max_a kind) (w_entries w)) (\<lambda>xs. Inr (List.map_filter id xs))"

definition window_count :: "window \<Rightarrow> int \<Rightarrow> pyval \<Rightarrow> pyval \<Rightarrow> pyval \<Rightarrow> exn + pyval" where
  "window_count w secs min_a max_a kind =
     bindE (matching w secs min_a max_a kind) (\<lambda>xs. Inr (PInt (int (length xs))))"

definition window_total :: "window \<Rightarrow> int \<Rightarrow> pyval \<Rightarrow> pyval \<Rightarrow> pyval \<Rightarrow> exn + pyval" where
  "window_total w secs min_a max_a kind =
     bindE (matching w secs min_a max_a kind) (\<lambda>xs. Inr (PInt (sum_list xs)))"

text \<open>The interface the interpreter sees.\<close>

definition provider_of :: "window \<Rightarrow> velocity_provider" where
  "provider_of w = \<lparr>vp_count = window_count w, vp_total = window_total w\<rparr>"


section \<open>The store\<close>

record aggregate_fields =
  af_lifetime_count :: "int option"
  af_lifetime_volume :: "int option"
  af_prior_flags :: "int option"
  af_first_seen :: "rat option"
  af_last_transaction :: "rat option"

record customer_store =
  members :: "(string \<times> rat) list"
  amounts :: "string \<rightharpoonup> string"
  expires_at :: "rat option"
  agg_fields :: aggregate_fields

definition no_aggregates :: aggregate_fields where
  "no_aggregates = \<lparr>af_lifetime_count = None, af_lifetime_volume = None, af_prior_flags = None,
     af_first_seen = None, af_last_transaction = None\<rparr>"

definition empty_store :: customer_store where
  "empty_store = \<lparr>members = [], amounts = Map.empty, expires_at = None, agg_fields = no_aggregates\<rparr>"

definition members_key :: "string \<Rightarrow> string \<Rightarrow> string" where
  "members_key tenant customer = ''v:'' @ tenant @ '':'' @ customer"

definition amounts_key :: "string \<Rightarrow> string \<Rightarrow> string" where
  "amounts_key tenant customer = ''va:'' @ tenant @ '':'' @ customer"

definition aggregates_key :: "string \<Rightarrow> string \<Rightarrow> string" where
  "aggregates_key tenant customer = ''vg:'' @ tenant @ '':'' @ customer"

text \<open>Redis drops both keys once their deadline has passed.\<close>

definition drop_expired :: "rat \<Rightarrow> customer_store \<Rightarrow> customer_store" where
  "drop_expired now st =
     (case expires_at st of
        Some d \<Rightarrow> if d \<le> now then st\<lparr>members := [], amounts := Map.empty, expires_at := None\<rparr> else st
      | None \<Rightarrow> st)"

definition zremrangebyscore :: "rat \<Rightarrow> rat \<Rightarrow> customer_store \<Rightarrow> customer_store" where
  "zremrangebyscore lo hi st = st\<lparr>members := filter (\<lambda>(r, s). \<not> (lo \<le> s \<and> s \<le> hi)) (members st)\<rparr>"

definition zrangebyscore :: "rat \<Rightarrow> customer_store \<Rightarrow> (string \<times> rat) list" where
  "zrangebyscore lo st = sort_key (\<lambda>(r, s). (s, r)) (filter (\<lambda>(r, s). lo \<le> s) (members st))"

definition number :: "'a::zero option \<Rightarrow> 'a" where
  "number f = (case f of Some n \<Rightarrow> n | None \<Rightarrow> 0)"

definition parse_aggregates :: "aggregate_fields \<Rightarrow> aggregates" where
  "parse_aggregates f =
     \<lparr>lifetime_count = number (af_lifetime_count f),
      lifetime_volume_minor = number (af_lifetime_volume f),
      prior_flag_count = number (af_prior_flags f),
      first_seen_at = number (af_first_seen f),
      last_transaction_at = number (af_last_transaction f)\<rparr>"

definition record_in_store :: "rat \<Rightarrow> string \<times> int \<times> string \<Rightarrow> customer_store \<Rightarrow> customer_store" where
  "record_in_store moment rcd st =
     (case rcd of (ref, amount, kind) \<Rightarrow>
        (let f = agg_fields st in
         st\<lparr>members := AList.update ref moment (members st),
            amounts := (amounts st)(ref \<mapsto> amount_text amount kind),
            expires_at := Some (moment + of_int KEY_TTL_SECONDS),
            agg_fields :=
              f\<lparr>af_lifetime_count := Some (number (af_lifetime_count f) + 1),
                 af_lifetime_volume := Some (number (af_lifetime_volume f) + amount),
                 af_first_seen := (case af_first_seen f of Some t \<Rightarrow> Some t | None \<Rightarrow> Some moment),
                 af_last_transaction := Some moment\<rparr>\<rparr>))"

definition entry_of :: "(string \<rightharpoonup> string) \<Rightarrow> string \<times> rat \<Rightarrow> entry" where
  "entry_of amts m =
     (let (amount, kind) = split_amount (amts (fst m))
      in \<lparr>e_ref = fst m, e_score = snd m, e_amount = amount, e_kind = kind\<rparr>)"

definition fetch :: "rat \<Rightarrow> (string \<times> int \<times> string) option \<Rightarrow> customer_store \<Rightarrow> window \<times> customer_store" where
  "fetch moment rcd st =
     (let cutoff = moment - of_int LARGEST_WINDOW_SECONDS;
          st1 = zremrangebyscore 0 cutoff (drop_expired moment st);
          st2 = (case rcd of None \<Rightarrow> st1 | Some x \<Rightarrow> record_in_store moment x st1);
          ms = zrangebyscore cutoff st2;
          truncated = length ms > MAX_MEMBERS_FETCHED;
          ms' = (if truncated then drop (length ms - MAX_MEMBERS_FETCHED) ms else ms)
      in (\<lparr>w_now = moment, w_entries = map (entry_of (amounts st2)) ms', w_truncated = truncated,
           w_aggregates = parse_aggregates (agg_fields st2)\<rparr>, st2))"

definition gather :: "rat \<Rightarrow> customer_store \<Rightarrow> window \<times> customer_store" where
  "gather moment st = fetch moment None st"

definition record_and_gather :: "rat \<Rightarrow> string \<times> int \<times> string \<Rightarrow> customer_store \<Rightarrow> window \<times> customer_store" where
  "record_and_gather moment rcd st = fetch moment (Some rcd) st"

definition record_only :: "rat \<Rightarrow> string \<times> int \<times> string \<Rightarrow> customer_store \<Rightarrow> customer_store" where
  "record_only moment rcd st = snd (fetch moment (Some rcd) st)"

definition aggregate_facts :: "window \<Rightarrow> (string \<times> pyval) list" where
  "aggregate_facts w = as_facts (w_aggregates w) (w_now w)"

definition note_flagged :: "customer_store \<Rightarrow> customer_store" where
  "note_flagged st =
     (let f = agg_fields st in st\<lparr>agg_fields := f\<lparr>af_prior_flags := Some (number (af_prior_flags f) + 1)\<rparr>\<rparr>)"


section \<open>Amounts survive the round trip through text\<close>

lemma split_amount_text: "split_amount (Some (amount_text a k)) = (a, k)"
proof -
  have "\<forall>c \<in> set (str_of_int a). c \<noteq> CHR '':''" using str_of_int_chars digit_facts(4) by fastforce
  then have "partition_colon (amount_text a k) = (str_of_int a, k)"
    by (simp add: partition_colon_def amount_text_def takeWhile_append dropWhile_append)
  then show ?thesis by (simp add: split_amount_def parse_int_str_of_int)
qed


section \<open>Counting in a window\<close>

lemma matching_unfiltered:
  "matching w secs PNone PNone PNone =
     Inr (map e_amount (filter (\<lambda>e. w_now w - of_int secs \<le> e_score e) (w_entries w)))"
proof -
  have "mapE (matching_one w secs PNone PNone PNone) es =
      Inr (map (\<lambda>e. if e_score e < w_now w - of_int secs then None else Some (e_amount e)) es)" for es
    by (induction es) (auto simp: matching_one_def)
  moreover have "List.map_filter id (map (\<lambda>e. if e_score e < w_now w - of_int secs then None else Some (e_amount e)) es)
      = map e_amount (filter (\<lambda>e. w_now w - of_int secs \<le> e_score e) es)" for es
    by (induction es) (auto simp: map_filter_simps)
  ultimately show ?thesis by (simp add: matching_def)
qed

lemma window_count_unfiltered:
  "window_count w secs PNone PNone PNone =
     Inr (PInt (int (length (filter (\<lambda>e. w_now w - of_int secs \<le> e_score e) (w_entries w)))))"
  by (simp add: window_count_def matching_unfiltered)

lemma benign_cmp_amount [simp]: "benign (cmp_amount rel a v)"
  by (auto simp: cmp_amount_def split: pyval.splits)

lemma benign_mapE: "(\<And>x. x \<in> set xs \<Longrightarrow> benign (f x)) \<Longrightarrow> benign (mapE f xs)"
  by (auto simp: benign_def elim!: mapE_InlE)

lemma benign_matching: "benign (matching w secs a b k)"
  unfolding matching_def matching_one_def by (auto intro!: benign_bindE benign_mapE)

lemma benign_provider_of: "benign_provider (provider_of w)"
  unfolding benign_provider_def provider_of_def window_count_def window_total_def
  by (auto intro!: benign_bindE benign_matching)

text \<open>Keeping the newest entries keeps as many young ones as the cap allows.\<close>

lemma filter_drop_sorted:
  assumes "sorted (map f xs)" and "\<And>x y. P x \<Longrightarrow> f x \<le> f y \<Longrightarrow> P y"
  shows "min (length xs - k) (length (filter P xs)) \<le> length (filter P (drop k xs))"
proof (cases "\<forall>x \<in> set (drop k xs). P x")
  case True
  then have "filter P (drop k xs) = drop k xs" by simp
  then show ?thesis by simp
next
  case False
  then obtain y where y: "y \<in> set (drop k xs)" "\<not> P y" by blast
  have "sorted (map f (take k xs) @ map f (drop k xs))"
    using assms(1) by (simp flip: map_append)
  with y(1) have "f x \<le> f y" if "x \<in> set (take k xs)" for x
    using that by (auto simp: sorted_append)
  with y(2) assms(2) have "filter P (take k xs) = []" by (force simp: filter_empty_conv)
  moreover have "filter P xs = filter P (take k xs) @ filter P (drop k xs)"
    by (simp flip: filter_append)
  ultimately show ?thesis by simp
qed


section \<open>Thresholds without a lock\<close>

text \<open>
  The contract a threshold relies on: one atomic step records a request and reports a count,
  the report is at least the number of requests known to be recorded (up to a cap), and a
  recorded request stays recorded while the requests stay in the same span.
\<close>

locale serialised_counter =
  fixes admit :: "'r \<Rightarrow> 's \<Rightarrow> nat \<times> 's"
    and key :: "'r \<Rightarrow> 'k"
    and recorded :: "'s \<Rightarrow> 'k set"
    and in_span :: "'r \<Rightarrow> bool"
    and cap :: nat
  assumes sees: "in_span r \<Longrightarrow> finite K \<Longrightarrow> K \<subseteq> recorded s \<Longrightarrow>
      min cap (card (insert (key r) K)) \<le> fst (admit r s)"
    and keeps: "in_span r \<Longrightarrow> insert (key r) (recorded s) \<subseteq> recorded (snd (admit r s))"
begin

fun counts_seen :: "'r list \<Rightarrow> 's \<Rightarrow> nat list" where
  "counts_seen [] s = []"
| "counts_seen (r # rs) s = fst (admit r s) # counts_seen rs (snd (admit r s))"

lemma length_counts_seen [simp]: "length (counts_seen rs s) = length rs"
  by (induction rs arbitrary: s) auto

lemma counts_seen_ge:
  assumes "\<forall>r \<in> set rs. in_span r" and "distinct (map key rs)"
    and "finite K" and "K \<subseteq> recorded s" and "K \<inter> key ` set rs = {}" and "i < length rs"
  shows "min cap (card K + Suc i) \<le> counts_seen rs s ! i"
  using assms
proof (induction rs arbitrary: s K i)
  case (Cons r rs)
  then have r: "in_span r" and new: "key r \<notin> K" by auto
  show ?case
  proof (cases i)
    case 0
    with sees [OF r Cons.prems(3,4)] new Cons.prems(3) show ?thesis by simp
  next
    case (Suc j)
    have "insert (key r) K \<subseteq> recorded (snd (admit r s))" using keeps [OF r, of s] Cons.prems(4) by blast
    then have "min cap (card (insert (key r) K) + Suc j) \<le> counts_seen rs (snd (admit r s)) ! j"
      using Cons.prems Suc by (intro Cons.IH) auto
    with Suc new Cons.prems(3) show ?thesis by simp
  qed
qed simp

lemma few_below_threshold:
  assumes "\<forall>r \<in> set rs. in_span r" and "distinct (map key rs)" and "k < cap"
  shows "length (filter (\<lambda>c. c \<le> k) (counts_seen rs s)) \<le> k"
proof -
  have ge: "min cap (Suc i) \<le> counts_seen rs s ! i" if "i < length rs" for i
    using counts_seen_ge [of rs "{}" s i] assms that by simp
  have "{i. i < length rs \<and> counts_seen rs s ! i \<le> k} \<subseteq> {..<k}"
  proof clarify
    fix i assume "i < length rs" "counts_seen rs s ! i \<le> k"
    with ge [of i] assms(3) show "i < k" by simp
  qed
  then have "card {i. i < length rs \<and> counts_seen rs s ! i \<le> k} \<le> k"
    using card_mono [of "{..<k}"] by fastforce
  then show ?thesis by (simp add: length_filter_conv_card)
qed

end

type_synonym request = "rat \<times> string \<times> int \<times> string"

text \<open>The count that \<open>velocity_count(window=...)\<close> reports to the request it belongs to.\<close>

definition admit_request :: "int \<Rightarrow> request \<Rightarrow> customer_store \<Rightarrow> nat \<times> customer_store" where
  "admit_request secs rq st =
     (case rq of (moment, rcd) \<Rightarrow>
        (case record_and_gather moment rcd st of (w, st') \<Rightarrow>
           (case window_count w secs PNone PNone PNone of Inr (PInt n) \<Rightarrow> nat n | _ \<Rightarrow> 0, st')))"

definition request_key :: "request \<Rightarrow> string" where
  "request_key rq = fst (snd rq)"

text \<open>References recorded at or after \<open>t0\<close> in keys that outlive the largest window from there.\<close>

definition recorded_since :: "rat \<Rightarrow> customer_store \<Rightarrow> string set" where
  "recorded_since t0 st =
     (if (case expires_at st of None \<Rightarrow> True | Some d \<Rightarrow> t0 + of_int LARGEST_WINDOW_SECONDS < d)
      then {r. \<exists>t \<ge> t0. map_of (members st) r = Some t} else {})"

definition in_window_from :: "rat \<Rightarrow> int \<Rightarrow> request \<Rightarrow> bool" where
  "in_window_from t0 secs rq \<longleftrightarrow>
     secs \<le> LARGEST_WINDOW_SECONDS \<and> t0 \<le> fst rq \<and> fst rq < t0 + of_int secs"

lemma LARGEST_WINDOW_SECONDS_eq: "LARGEST_WINDOW_SECONDS = 2592000"
  by (simp add: LARGEST_WINDOW_SECONDS_def WINDOW_SECONDS_def)

lemma drop_expired_live:
  "t0 \<le> now \<Longrightarrow> now < t0 + of_int LARGEST_WINDOW_SECONDS \<Longrightarrow>
   (case expires_at st of None \<Rightarrow> True | Some d \<Rightarrow> t0 + of_int LARGEST_WINDOW_SECONDS < d) \<Longrightarrow>
   drop_expired now st = st"
  by (auto simp: drop_expired_def split: option.splits)

lemma map_of_filter_score:
  "map_of (filter (\<lambda>(r, s). P s) ms) k = Some t" if "map_of ms k = Some t" "P t"
  using that by (induction ms) auto

lemma fetch_recorded:
  assumes "in_window_from t0 secs (moment, ref, amount, kind)" and "K \<subseteq> recorded_since t0 st"
    and "(w, st') = record_and_gather moment (ref, amount, kind) st"
  shows "\<forall>r \<in> insert ref K. \<exists>t \<ge> t0. map_of (members st') r = Some t"
    and "expires_at st' = Some (moment + of_int KEY_TTL_SECONDS)"
proof -
  let ?L = "of_int LARGEST_WINDOW_SECONDS :: rat"
  let ?st1 = "zremrangebyscore 0 (moment - ?L) (drop_expired moment st)"
  from assms(1) have span: "t0 \<le> moment" "moment < t0 + ?L"
    by (auto simp: in_window_from_def intro: order_less_le_trans)
  have st': "st' = record_in_store moment (ref, amount, kind) ?st1"
    using assms(3) by (simp add: record_and_gather_def fetch_def Let_def)
  have "\<exists>t \<ge> t0. map_of (members ?st1) r = Some t" if "r \<in> K" for r
  proof -
    from that assms(2) have "r \<in> recorded_since t0 st" by blast
    then obtain t where t: "t0 \<le> t" "map_of (members st) r = Some t"
      and "case expires_at st of None \<Rightarrow> True | Some d \<Rightarrow> t0 + ?L < d"
      by (auto simp: recorded_since_def split: if_splits)
    then have "drop_expired moment st = st" using span by (intro drop_expired_live)
    moreover have "moment - ?L < t" using span(2) t(1) by simp
    ultimately show ?thesis
      using t map_of_filter_score [of "members st" r t "\<lambda>s. \<not> (0 \<le> s \<and> s \<le> moment - ?L)"]
      by (auto simp: zremrangebyscore_def)
  qed
  then show "\<forall>r \<in> insert ref K. \<exists>t \<ge> t0. map_of (members st') r = Some t"
    using span(1) by (auto simp: st' record_in_store_def Let_def update_conv')
  show "expires_at st' = Some (moment + of_int KEY_TTL_SECONDS)"
    by (simp add: st' record_in_store_def Let_def)
qed


text \<open>How many of the references in \<open>K\<close> a fetched window counts.\<close>

lemma length_filter_ge_card:
  assumes "K \<subseteq> f ` {x \<in> set xs. P x}"
  shows "card K \<le> length (filter P xs)"
proof -
  have "card K \<le> card (f ` set (filter P xs))" using assms by (intro card_mono) auto
  also have "\<dots> \<le> card (set (filter P xs))" by (rule card_image_le) simp
  also have "\<dots> \<le> length (filter P xs)" by (rule card_length)
  finally show ?thesis .
qed

lemma entry_of_simps [simp]: "e_ref (entry_of amts m) = fst m" "e_score (entry_of amts m) = snd m"
  by (simp_all add: entry_of_def split: prod.splits)

lemma fetch_window:
  assumes "fetch moment rcd st = (w, st')"
  defines "ms \<equiv> zrangebyscore (moment - of_int LARGEST_WINDOW_SECONDS) st'"
  shows "w_now w = moment"
    and "w_entries w = map (entry_of (amounts st')) (drop (length ms - MAX_MEMBERS_FETCHED) ms)"
    and "w_truncated w \<longleftrightarrow> length ms > MAX_MEMBERS_FETCHED"
    and "w_aggregates w = parse_aggregates (agg_fields st')"
  using assms by (auto simp: fetch_def Let_def)

lemma fetch_entries_count:
  assumes "fetch moment rcd st = (w, st')" and "0 \<le> secs" and "secs \<le> LARGEST_WINDOW_SECONDS"
    and "\<forall>r \<in> K. \<exists>t \<ge> moment - of_int secs. map_of (members st') r = Some t"
  shows "min MAX_MEMBERS_FETCHED (card K)
    \<le> length (filter (\<lambda>e. moment - of_int secs \<le> e_score e) (w_entries w))"
proof -
  let ?c = "moment - of_int LARGEST_WINDOW_SECONDS" and ?P = "\<lambda>(r, s). moment - of_int secs \<le> s"
  let ?ms = "zrangebyscore ?c st'" and ?k = "length (zrangebyscore ?c st') - MAX_MEMBERS_FETCHED"
  have le: "?c \<le> moment - of_int secs" using assms(3) by simp
  have "K \<subseteq> fst ` {x \<in> set ?ms. ?P x}"
  proof
    fix r assume "r \<in> K"
    with assms(4) obtain t where "moment - of_int secs \<le> t" "(r, t) \<in> set (members st')"
      by (meson map_of_SomeD)
    with le show "r \<in> fst ` {x \<in> set ?ms. ?P x}"
      by (intro image_eqI [of _ _ "(r, t)"]) (auto simp: zrangebyscore_def)
  qed
  then have card: "card K \<le> length (filter ?P ?ms)" by (rule length_filter_ge_card)
  have sorted: "sorted (map (\<lambda>(r, s). (s, r)) ?ms)" by (simp add: zrangebyscore_def)
  have drop: "min (length ?ms - ?k) (length (filter ?P ?ms)) \<le> length (filter ?P (drop ?k ?ms))"
    by (rule filter_drop_sorted [OF sorted]) (auto simp: less_eq_prod_def)
  have ents: "map (\<lambda>e. (e_ref e, e_score e)) (w_entries w) = drop ?k ?ms"
    by (simp add: fetch_window(2) [OF assms(1)] o_def)
  have "length (filter (\<lambda>e. moment - of_int secs \<le> e_score e) (w_entries w)) =
      length (filter ?P (map (\<lambda>e. (e_ref e, e_score e)) (w_entries w)))"
    by (simp add: filter_map o_def)
  also have "\<dots> = length (filter ?P (drop ?k ?ms))" by (simp only: ents)
  finally have len: "length (filter (\<lambda>e. moment - of_int secs \<le> e_score e) (w_entries w)) =
      length (filter ?P (drop ?k ?ms))" .
  have "min M c \<le> d" if "min (a - (a - M)) f \<le> d" "c \<le> f" "f \<le> a" for M c d a f :: nat
    using that by (cases "a \<le> M") (auto simp: min_def split: if_splits)
  from this [OF drop card length_filter_le] show ?thesis unfolding len .
qed

lemma admit_request_eq:
  "admit_request secs (moment, rcd) st =
     (length (filter (\<lambda>e. moment - of_int secs \<le> e_score e) (w_entries (fst (fetch moment (Some rcd) st)))),
      snd (fetch moment (Some rcd) st))"
proof -
  obtain w st' where f: "fetch moment (Some rcd) st = (w, st')" by fastforce
  show ?thesis
    using fetch_window(1) [OF f]
    by (simp add: admit_request_def record_and_gather_def window_count_unfiltered f)
qed

interpretation vc: serialised_counter "admit_request secs" request_key "recorded_since t0" "in_window_from t0 secs" MAX_MEMBERS_FETCHED
  for secs t0
proof
  fix r K st
  assume r: "in_window_from t0 secs r" and "finite K" and K: "K \<subseteq> recorded_since t0 st"
  obtain moment ref amount kind where rq: "r = (moment, ref, amount, kind)" by (cases r)
  obtain w st' where f: "record_and_gather moment (ref, amount, kind) st = (w, st')" by fastforce
  from r have span: "moment - of_int secs < t0" "0 \<le> secs" "secs \<le> LARGEST_WINDOW_SECONDS"
    by (auto simp: rq in_window_from_def)
  have "\<forall>k \<in> insert ref K. \<exists>t \<ge> moment - of_int secs. map_of (members st') k = Some t"
    using fetch_recorded(1) [OF r [unfolded rq] K f [symmetric]] span(1) by (meson less_imp_le order_trans)
  then show "min MAX_MEMBERS_FETCHED (card (insert (request_key r) K)) \<le> fst (admit_request secs r st)"
    using fetch_entries_count [OF f [unfolded record_and_gather_def] span(2,3), of "insert ref K"] f
    by (simp add: rq request_key_def admit_request_eq record_and_gather_def)
next
  fix r st
  assume r: "in_window_from t0 secs r"
  obtain moment ref amount kind where rq: "r = (moment, ref, amount, kind)" by (cases r)
  obtain w st' where f: "record_and_gather moment (ref, amount, kind) st = (w, st')" by fastforce
  note fr = fetch_recorded [OF r [unfolded rq] order_refl f [symmetric]]
  have "t0 \<le> moment" using r by (simp add: rq in_window_from_def)
  then have "t0 + of_int LARGEST_WINDOW_SECONDS < moment + of_int KEY_TTL_SECONDS"
    by (simp add: KEY_TTL_SECONDS_def)
  then have "insert ref (recorded_since t0 st) \<subseteq> recorded_since t0 st'"
    using fr by (auto simp: recorded_since_def [of t0 st'])
  then show "insert (request_key r) (recorded_since t0 st) \<subseteq> recorded_since t0 (snd (admit_request secs r st))"
    using f by (simp add: rq request_key_def admit_request_eq record_and_gather_def)
qed

text \<open>The counts a sequence of requests is told, in the order Redis serialises them.\<close>

fun counts_served :: "int \<Rightarrow> request list \<Rightarrow> customer_store \<Rightarrow> nat list" where
  "counts_served secs [] st = []"
| "counts_served secs (rq # rqs) st =
     (let (n, st') = admit_request secs rq st in n # counts_served secs rqs st')"

lemma counts_served_eq: "counts_served secs rqs st = vc.counts_seen secs rqs st"
  by (induction rqs arbitrary: st) (auto split: prod.splits)


section \<open>The window and the log\<close>

type_synonym transaction_log = "string \<rightharpoonup> rat \<times> int \<times> string"

definition log_step :: "transaction_log \<Rightarrow> request \<Rightarrow> transaction_log" where
  "log_step lg rq = (case rq of (t, r, a, k) \<Rightarrow> lg(r \<mapsto> (t, a, k)))"

definition log_of :: "request list \<Rightarrow> transaction_log" where
  "log_of h = foldl log_step Map.empty h"

definition run_records :: "request list \<Rightarrow> customer_store" where
  "run_records h = foldl (\<lambda>st (t, rcd). record_only t rcd st) empty_store h"

definition horizon :: "rat \<Rightarrow> rat" where
  "horizon now = now - of_int LARGEST_WINDOW_SECONDS"

text \<open>The store holds the part of the log younger than the largest window at time \<open>now\<close>.\<close>

definition store_logs :: "rat \<Rightarrow> customer_store \<Rightarrow> transaction_log \<Rightarrow> bool" where
  "store_logs now st lg \<longleftrightarrow>
     distinct (map fst (members st)) \<and>
     (\<forall>r t. map_of (members st) r = Some t \<longleftrightarrow> horizon now < t \<and> (\<exists>a k. lg r = Some (t, a, k))) \<and>
     (\<forall>r t a k. lg r = Some (t, a, k) \<longrightarrow>
        0 \<le> t \<and> t \<le> now \<and> (horizon now < t \<longrightarrow> amounts st r = Some (amount_text a k)) \<and>
        (\<forall>d. expires_at st = Some d \<longrightarrow> t + of_int KEY_TTL_SECONDS \<le> d))"

lemma store_logs_empty: "store_logs now empty_store Map.empty"
  by (simp add: store_logs_def empty_store_def)

lemma map_of_filter_distinct:
  "distinct (map fst ms) \<Longrightarrow>
   map_of (filter (\<lambda>(r, s). P s) ms) k = Some t \<longleftrightarrow> map_of ms k = Some t \<and> P t"
  by (induction ms) (auto simp: map_of_eq_Some_iff image_iff dest: map_of_SomeD)

lemma store_logs_expired:
  assumes "store_logs t0 st lg" and "t0 \<le> now"
  shows "store_logs t0 (drop_expired now st) lg \<or>
    (drop_expired now st = st\<lparr>members := [], amounts := Map.empty, expires_at := None\<rparr> \<and>
     (\<forall>r t a k. lg r = Some (t, a, k) \<longrightarrow> t \<le> horizon now))"
proof (cases "\<exists>d. expires_at st = Some d \<and> d \<le> now")
  case True
  then obtain d where d: "expires_at st = Some d" "d \<le> now" by blast
  have "t \<le> horizon now" if "lg r = Some (t, a, k)" for r t a k
  proof -
    have "t + of_int KEY_TTL_SECONDS \<le> d" using assms(1) that d(1) by (auto simp: store_logs_def)
    with d(2) show ?thesis by (simp add: horizon_def KEY_TTL_SECONDS_def)
  qed
  with d show ?thesis by (simp add: drop_expired_def)
next
  case False
  then have "drop_expired now st = st" by (auto simp: drop_expired_def split: option.splits)
  with assms(1) show ?thesis by simp
qed

lemma store_logs_trim:
  assumes "store_logs t0 st lg" and "t0 \<le> now" and "0 \<le> t0"
  shows "store_logs now (zremrangebyscore 0 (horizon now) (drop_expired now st)) lg"
  using store_logs_expired [OF assms(1,2)]
proof
  assume *: "drop_expired now st = st\<lparr>members := [], amounts := Map.empty, expires_at := None\<rparr> \<and>
     (\<forall>r t a k. lg r = Some (t, a, k) \<longrightarrow> t \<le> horizon now)"
  with assms show ?thesis
    by (fastforce simp: store_logs_def zremrangebyscore_def)
next
  assume *: "store_logs t0 (drop_expired now st) lg"
  let ?st = "drop_expired now st"
  have d: "distinct (map fst (members ?st))" using * by (simp add: store_logs_def)
  have h: "horizon t0 \<le> horizon now" using assms(2) by (simp add: horizon_def)
  have "map_of (members (zremrangebyscore 0 (horizon now) ?st)) r = Some t \<longleftrightarrow>
      horizon now < t \<and> (\<exists>a k. lg r = Some (t, a, k))" for r t
    using * h map_of_filter_distinct [OF d, of "\<lambda>s. \<not> (0 \<le> s \<and> s \<le> horizon now)" r t]
    by (fastforce simp: zremrangebyscore_def store_logs_def)
  moreover have "distinct (map fst (members (zremrangebyscore 0 (horizon now) ?st)))"
    using d by (simp add: zremrangebyscore_def distinct_map_filter)
  ultimately show ?thesis
    using * h assms(2) unfolding store_logs_def by (fastforce simp: zremrangebyscore_def)
qed

lemma store_logs_record:
  assumes "store_logs now st lg" and "0 \<le> now"
  shows "store_logs now (record_in_store now (r, a, k) st) (lg(r \<mapsto> (now, a, k)))"
proof -
  have "horizon now < now" by (simp add: horizon_def LARGEST_WINDOW_SECONDS_eq)
  with assms show ?thesis
    unfolding store_logs_def
    by (auto simp: record_in_store_def Let_def update_conv' distinct_update)
qed

lemma fetch_store_eq:
  "snd (fetch now rcd st) =
     (let st1 = zremrangebyscore 0 (horizon now) (drop_expired now st)
      in case rcd of None \<Rightarrow> st1 | Some x \<Rightarrow> record_in_store now x st1)"
  by (simp add: fetch_def Let_def horizon_def)

lemma run_records_logs:
  assumes "sorted (map fst h)" and "\<forall>rq \<in> set h. 0 \<le> fst rq"
  shows "store_logs (if h = [] then 0 else fst (last h)) (run_records h) (log_of h)"
  using assms
proof (induction h rule: rev_induct)
  case Nil
  then show ?case by (simp add: run_records_def log_of_def store_logs_empty)
next
  case (snoc rq h)
  obtain t r a k where rq: "rq = (t, r, a, k)" by (cases rq)
  let ?last = "if h = [] then 0 else fst (last h)"
  have IH: "store_logs ?last (run_records h) (log_of h)" and "?last \<le> t" and "0 \<le> ?last" "0 \<le> t"
    using snoc by (auto simp: sorted_append rq)
  then have "store_logs t (zremrangebyscore 0 (horizon t) (drop_expired t (run_records h))) (log_of h)"
    by (intro store_logs_trim)
  then have "store_logs t (record_in_store t (r, a, k) (zremrangebyscore 0 (horizon t) (drop_expired t (run_records h))))
      ((log_of h)(r \<mapsto> (t, a, k)))"
    using \<open>0 \<le> t\<close> by (rule store_logs_record)
  then show ?case
    by (simp add: rq run_records_def log_of_def log_step_def record_only_def fetch_store_eq fun_upd_def)
qed


section \<open>Properties\<close>

text \<open>C10. A velocity threshold is exact without a lock: of any number of transactions of one
  customer with distinct references, taken within one span shorter than the window, at most \<open>k\<close>
  are told a count of at most \<open>k\<close>, whatever the store held before, in whatever order Redis
  serialises them and however their clock readings are ordered. (\<open>k\<close> is below the fetch cap.)\<close>

theorem threshold_exact_without_lock:
  assumes "\<forall>rq \<in> set rqs. t0 \<le> fst rq \<and> fst rq < t0 + of_int secs"
    and "secs \<le> LARGEST_WINDOW_SECONDS" and "distinct (map request_key rqs)"
    and "k < MAX_MEMBERS_FETCHED"
  shows "length (filter (\<lambda>n. n \<le> k) (counts_served secs rqs st)) \<le> k"
  unfolding counts_served_eq
  using assms by (intro vc.few_below_threshold [where ?t0.0 = t0]) (auto simp: in_window_from_def)

definition burst :: "request list" where
  "burst = [(1000, ''a'', 500, ''transfer''), (1003, ''b'', 700, ''transfer''), (1001, ''c'', 900, ''transfer'')]"

theorem threshold_exact_without_lock_witness:
  "length burst = 3 \<and> length (filter (\<lambda>n. n \<le> 1) (counts_served 3600 burst empty_store)) \<le> 1"
  using threshold_exact_without_lock [of burst 1000 3600 1 empty_store]
  by (simp add: burst_def request_key_def LARGEST_WINDOW_SECONDS_eq MAX_MEMBERS_FETCHED_def)

text \<open>C11. A window holds exactly the transactions recorded within the largest window: after any
  history of writes in time order, a later untruncated read lists, once per reference, the last
  time, amount and type recorded under it, for exactly the references younger than thirty days.
  Trimming, key expiry, retries and the passage through the \<open>amount:type\<close> text lose nothing.\<close>

theorem window_holds_the_recent_log:
  assumes "sorted (map fst h)" and "\<forall>rq \<in> set h. 0 \<le> fst rq \<and> fst rq \<le> now"
    and "0 \<le> now" and "gather now (run_records h) = (w, st')" and "\<not> w_truncated w"
  shows "set (w_entries w) =
      {\<lparr>e_ref = r, e_score = t, e_amount = a, e_kind = k\<rparr> | r t a k.
         log_of h r = Some (t, a, k) \<and> horizon now < t}
    \<and> distinct (map e_ref (w_entries w))"
proof -
  note f = assms(4) [unfolded gather_def]
  let ?ms = "zrangebyscore (horizon now) st'"
  have l: "(if h = [] then 0 else fst (last h)) \<le> now" "0 \<le> (if h = [] then 0 else fst (last h))"
    using assms(2,3) by auto
  have inv: "store_logs now st' (log_of h)"
    using store_logs_trim [OF run_records_logs l] assms(1,2) f fetch_store_eq [of now None "run_records h"]
    by simp
  have ents: "w_entries w = map (entry_of (amounts st')) ?ms"
    using fetch_window(2,3) [OF f] assms(5) by (simp add: horizon_def)
  have d: "distinct (map fst (members st'))" using inv by (simp add: store_logs_def)
  have "set ?ms = {(r, t). map_of (members st') r = Some t}"
    using inv d by (auto simp: zrangebyscore_def store_logs_def map_of_eq_Some_iff)
  moreover have "entry_of (amounts st') (r, t) = \<lparr>e_ref = r, e_score = t, e_amount = a, e_kind = k\<rparr>"
    if "log_of h r = Some (t, a, k)" "horizon now < t" for r t a k
    using inv that by (simp add: store_logs_def entry_of_def split_amount_text)
  ultimately have "set (w_entries w) =
      {\<lparr>e_ref = r, e_score = t, e_amount = a, e_kind = k\<rparr> | r t a k.
         log_of h r = Some (t, a, k) \<and> horizon now < t}"
    using inv unfolding ents by (fastforce simp: store_logs_def image_iff)
  moreover have "distinct (map fst ?ms)"
    using d by (simp add: zrangebyscore_def distinct_map distinct_map_filter inj_on_def)
  ultimately show ?thesis by (simp add: ents o_def)
qed

theorem window_holds_the_recent_log_witness:
  "\<exists>w st'. gather 3000000 (run_records [(1000, ''a'', 500, ''x''), (2000000, ''b'', -7, ''a:b'')]) = (w, st')
     \<and> set (w_entries w) = {\<lparr>e_ref = ''b'', e_score = 2000000, e_amount = -7, e_kind = ''a:b''\<rparr>}"
proof -
  let ?h = "[(1000, ''a'', 500, ''x''), (2000000, ''b'', -7, ''a:b'')] :: request list"
  obtain w st' where g: "gather 3000000 (run_records ?h) = (w, st')" by fastforce
  have "length (members st') \<le> 2"
    using g
    by (auto simp: gather_def fetch_def Let_def run_records_def record_only_def zremrangebyscore_def
        record_in_store_def drop_expired_def empty_store_def LARGEST_WINDOW_SECONDS_eq KEY_TTL_SECONDS_def)
  then have "length (zrangebyscore (3000000 - of_int LARGEST_WINDOW_SECONDS) st') \<le> 2"
    by (simp add: zrangebyscore_def order_trans [OF length_filter_le])
  then have "\<not> w_truncated w"
    using fetch_window(3) [OF g [unfolded gather_def]] by (simp add: MAX_MEMBERS_FETCHED_def)
  moreover have "log_of ?h r = Some (t, a, k) \<and> horizon 3000000 < t \<longleftrightarrow>
      r = ''b'' \<and> t = 2000000 \<and> a = - 7 \<and> k = ''a:b''" for r t a k
    by (auto simp: log_of_def log_step_def horizon_def LARGEST_WINDOW_SECONDS_eq)
  ultimately show ?thesis
    using window_holds_the_recent_log [OF _ _ _ g] g by auto
qed

text \<open>A retried transaction is counted once in the window but twice in the lifetime numbers:
  writing the same reference again leaves the number of window members unchanged and still adds
  one to \<open>lifetime_count\<close> and the amount to \<open>lifetime_volume_minor\<close>.\<close>

theorem retry_once_in_window_twice_in_lifetime:
  assumes "map_of (members st) ref \<noteq> None"
  shows "length (members (record_in_store moment (ref, amount, kind) st)) = length (members st)
    \<and> lifetime_count (parse_aggregates (agg_fields (record_in_store moment (ref, amount, kind) st)))
        = lifetime_count (parse_aggregates (agg_fields st)) + 1
    \<and> lifetime_volume_minor (parse_aggregates (agg_fields (record_in_store moment (ref, amount, kind) st)))
        = lifetime_volume_minor (parse_aggregates (agg_fields st)) + amount"
proof -
  have "ref \<in> fst ` set (members st)" using assms by (simp add: map_of_eq_None_iff)
  then have "length (AList.update ref moment (members st)) = length (members st)"
    using update_keys [of ref moment "members st"] by (metis length_map set_map)
  then show ?thesis
    by (simp add: record_in_store_def Let_def parse_aggregates_def number_def)
qed

theorem retry_once_in_window_twice_in_lifetime_witness:
  "lifetime_count (parse_aggregates (agg_fields
     (record_in_store 5 (''a'', 10, ''x'') (record_in_store 4 (''a'', 10, ''x'') empty_store)))) = 2
   \<and> length (members (record_in_store 5 (''a'', 10, ''x'') (record_in_store 4 (''a'', 10, ''x'') empty_store))) = 1"
  using retry_once_in_window_twice_in_lifetime [of "record_in_store 4 (''a'', 10, ''x'') empty_store" "''a''" 5 10 "''x''"]
  by (simp add: record_in_store_def empty_store_def no_aggregates_def parse_aggregates_def number_def Let_def)

text \<open>The Redis keys of different customers never collide as long as tenant ids contain no
  colon, and the three keys of a customer are distinct from every key of the other two kinds.\<close>

theorem velocity_keys_separate:
  assumes "CHR '':'' \<notin> set t" and "CHR '':'' \<notin> set t'"
  shows "(members_key t c = members_key t' c' \<longleftrightarrow> t = t' \<and> c = c')
    \<and> (amounts_key t c = amounts_key t' c' \<longleftrightarrow> t = t' \<and> c = c')
    \<and> (aggregates_key t c = aggregates_key t' c' \<longleftrightarrow> t = t' \<and> c = c')
    \<and> members_key t c \<noteq> amounts_key t' c' \<and> members_key t c \<noteq> aggregates_key t' c'
    \<and> amounts_key t c \<noteq> aggregates_key t' c'"
proof -
  have "t @ CHR '':'' # c = t' @ CHR '':'' # c' \<longleftrightarrow> t = t' \<and> c = c'"
  proof
    assume eq: "t @ CHR '':'' # c = t' @ CHR '':'' # c'"
    have "takeWhile (\<lambda>x. x \<noteq> CHR '':'') (u @ CHR '':'' # v) = u" if "CHR '':'' \<notin> set u" for u v
      using that by (induction u) auto
    with assms eq have "t = t'" by metis
    with eq show "t = t' \<and> c = c'" by simp
  qed simp
  then show ?thesis by (simp add: members_key_def amounts_key_def aggregates_key_def)
qed

theorem velocity_keys_separate_witness:
  "members_key ''t1'' ''c'' \<noteq> members_key ''t2'' ''c''"
  using velocity_keys_separate [of "''t1''" "''t2''" "''c''" "''c''"] by simp

end
