(* ===== verification/Dsl_Parser.thy ===== *)
theory Dsl_Parser
  imports Dsl_Validator
begin

text \<open>
  The guards that run before \<open>ast.parse\<close>, and \<open>parse\<close> itself
  (\<open>src/complylayer/dsl/parser.py\<close>, \<open>validate_source\<close> of \<open>src/complylayer/dsl/__init__.py\<close>).

  \<open>scan\<close> is the single index-driven pass of \<open>_scan\<close>. CPython's parser is a parameter: what
  \<open>ast.parse\<close> answers in \<open>eval\<close> mode and whether it accepts the text in \<open>exec\<close> mode.

  The reference definition is \<open>lexemes\<close>: the text cut into string literals, comments,
  brackets, unary operators and the rest. \<open>scan\<close> accepts exactly the texts whose
  lexemes stay within the depth and run limits and are ASCII outside literals.
\<close>


section \<open>The scan\<close>

definition QUOTES :: "char list" where "QUOTES = [CHR 39, CHR 34]"

definition OPENERS :: "char list" where "OPENERS = ''([{''"

definition CLOSERS :: "char list" where "CLOSERS = '')]}''"

definition UNARY_CHARS :: "char list" where "UNARY_CHARS = ''-+~''"

text \<open>The loop of \<open>_skip_string\<close>: 92 is the backslash.\<close>

function skip_loop :: "string \<Rightarrow> string \<Rightarrow> nat \<Rightarrow> nat" where
  "skip_loop src delim i =
     (if i < length src then
        (if src ! i = CHR 92 then skip_loop src delim (i + 2)
         else if starts_at src delim i then i + length delim
         else skip_loop src delim (i + 1))
      else length src)"
  by pat_completeness auto
termination
  by (relation "measure (\<lambda>(src, delim, i). length src - i)") auto

declare skip_loop.simps [simp del]

definition skip_string :: "string \<Rightarrow> nat \<Rightarrow> nat" where
  "skip_string src i =
     (let quote = src ! i;
          delim = (if starts_at src [quote, quote, quote] i then [quote, quote, quote] else [quote])
      in skip_loop src delim (i + length delim))"

text \<open>\<open>newline = source.find("\n", index)\<close> and the index after the comment.\<close>

definition comment_end :: "string \<Rightarrow> nat \<Rightarrow> nat" where
  "comment_end src i =
     (if CHR 10 \<in> set (drop i src)
      then i + length (takeWhile (\<lambda>c. c \<noteq> CHR 10) (drop i src)) + 1
      else length src)"

definition starts_word :: "string \<Rightarrow> nat \<Rightarrow> string \<Rightarrow> bool" where
  "starts_word src i word \<longleftrightarrow>
     starts_at src word i \<and>
     (let after = i + length word
      in \<not> (after < length src \<and> (isalnum_c (src ! after) \<or> src ! after = CHR ''_'')))"

lemma skip_loop_ge: "min i (length src) \<le> skip_loop src delim i"
proof (induction src delim i rule: skip_loop.induct)
  case (1 src delim i)
  then show ?case by (subst skip_loop.simps) (auto simp: min_def split: if_splits)
qed

lemma skip_string_gt: "i < length src \<Longrightarrow> i < skip_string src i"
proof -
  assume i: "i < length src"
  have "i < skip_loop src delim (i + length delim)" if "delim \<noteq> []" for delim
  proof -
    from i that have "i < min (i + length delim) (length src)" by simp
    also note skip_loop_ge
    finally show ?thesis .
  qed
  then show ?thesis by (simp add: skip_string_def Let_def)
qed

lemma comment_end_gt: "i < length src \<Longrightarrow> i < comment_end src i"
  by (simp add: comment_end_def)

function scan :: "string \<Rightarrow> nat \<Rightarrow> nat \<Rightarrow> nat \<Rightarrow> rule_syntax_error option" where
  "scan src i depth unary_run =
     (if i < length src then
        (let c = src ! i in
         if c \<in> set QUOTES then scan src (skip_string src i) depth 0
         else if c = CHR ''#'' then scan src (comment_end src i) depth 0
         else if c \<in> set OPENERS then
           (if Suc depth > MAX_NESTING_DEPTH then Some (TooDeep MAX_NESTING_DEPTH)
            else scan src (i + 1) (Suc depth) 0)
         else if c \<in> set CLOSERS then scan src (i + 1) (depth - 1) 0
         else if c \<in> set UNARY_CHARS then
           (if Suc unary_run > MAX_UNARY_RUN then Some (TooManyOperators MAX_UNARY_RUN)
            else scan src (i + 1) depth (Suc unary_run))
         else if starts_word src i ''not'' then
           (if Suc unary_run > MAX_UNARY_RUN then Some (TooManyOperators MAX_UNARY_RUN)
            else scan src (i + 3) depth (Suc unary_run))
         else if isspace_c c then scan src (i + 1) depth unary_run
         else if \<not> isascii_c c then Some (NonAsciiSource c)
         else scan src (i + 1) depth 0)
      else None)"
  by pat_completeness auto
termination
  by (relation "measure (\<lambda>(src, i, depth, unary_run). length src - i)")
    (auto simp: skip_string_gt comment_end_gt diff_less_mono2)

declare scan.simps [simp del]

definition guard_source :: "string \<Rightarrow> rule_syntax_error + string" where
  "guard_source src =
     (if src = [] \<or> py_strip src = [] then Inl EmptyRule
      else if length src > MAX_SOURCE_CHARS then Inl (TooLong (length src) MAX_SOURCE_CHARS)
      else (case scan src 0 0 0 of Some e \<Rightarrow> Inl e | None \<Rightarrow> Inr (py_strip src)))"


section \<open>Parsing\<close>

datatype parse_outcome = Parsed expr | NotParsed | ParserRecursed

record python_parser =
  parse_eval :: "string \<Rightarrow> parse_outcome"
  parse_exec :: "string \<Rightarrow> bool"

definition parse :: "python_parser \<Rightarrow> string \<Rightarrow> rule_syntax_error + expr" where
  "parse py src =
     bindE (guard_source src) (\<lambda>guarded.
       (case parse_eval py guarded of
          NotParsed \<Rightarrow>
            if parse_exec py guarded then Inl StatementNotExpression else Inl (Malformed '''')
        | ParserRecursed \<Rightarrow> Inl (TooDeep MAX_NESTING_DEPTH)
        | Parsed tree \<Rightarrow>
            if tree_nodes tree > MAX_NODES then Inl (TooComplex (tree_nodes tree) MAX_NODES)
            else Inr tree))"

definition validate_source :: "python_parser \<Rightarrow> string \<Rightarrow> rule_syntax_error + expr" where
  "validate_source py src = bindE (parse py src) validate"


section \<open>Reference: lexemes\<close>

datatype lexeme = L_String | L_Comment | L_Open | L_Close | L_Unary | L_Space | L_Ascii | L_NonAscii char

function lexemes_from :: "string \<Rightarrow> nat \<Rightarrow> lexeme list" where
  "lexemes_from src i =
     (if i < length src then
        (let c = src ! i in
         if c \<in> set QUOTES then L_String # lexemes_from src (skip_string src i)
         else if c = CHR ''#'' then L_Comment # lexemes_from src (comment_end src i)
         else if c \<in> set OPENERS then L_Open # lexemes_from src (i + 1)
         else if c \<in> set CLOSERS then L_Close # lexemes_from src (i + 1)
         else if c \<in> set UNARY_CHARS then L_Unary # lexemes_from src (i + 1)
         else if starts_word src i ''not'' then L_Unary # lexemes_from src (i + 3)
         else if isspace_c c then L_Space # lexemes_from src (i + 1)
         else if \<not> isascii_c c then L_NonAscii c # lexemes_from src (i + 1)
         else L_Ascii # lexemes_from src (i + 1))
      else [])"
  by pat_completeness auto
termination
  by (relation "measure (\<lambda>(src, i). length src - i)")
    (auto simp: skip_string_gt comment_end_gt diff_less_mono2)

declare lexemes_from.simps [simp del]

definition lexemes :: "string \<Rightarrow> lexeme list" where
  "lexemes src = lexemes_from src 0"

text \<open>Bracket depth (never below zero) and the current run of unary operators.\<close>

fun track :: "nat \<times> nat \<Rightarrow> lexeme \<Rightarrow> nat \<times> nat" where
  "track (d, r) L_Open = (Suc d, 0)"
| "track (d, r) L_Close = (d - 1, 0)"
| "track (d, r) L_Unary = (d, Suc r)"
| "track (d, r) L_Space = (d, r)"
| "track (d, r) _ = (d, 0)"

definition within_limits :: "nat \<times> nat \<Rightarrow> lexeme list \<Rightarrow> bool" where
  "within_limits st ls \<longleftrightarrow>
     (\<forall>p. prefix p ls \<longrightarrow> fst (foldl track st p) \<le> MAX_NESTING_DEPTH \<and>
                              snd (foldl track st p) \<le> MAX_UNARY_RUN) \<and>
     (\<forall>c. L_NonAscii c \<notin> set ls)"

lemma within_limits_Cons:
  assumes "fst st \<le> MAX_NESTING_DEPTH" "snd st \<le> MAX_UNARY_RUN"
  shows "within_limits st (l # ls) \<longleftrightarrow>
    (\<forall>c. l \<noteq> L_NonAscii c) \<and> fst (track st l) \<le> MAX_NESTING_DEPTH \<and>
    snd (track st l) \<le> MAX_UNARY_RUN \<and> within_limits (track st l) ls"
proof -
  have "(\<forall>p. prefix p (l # ls) \<longrightarrow> P p) \<longleftrightarrow> P [] \<and> (\<forall>q. prefix q ls \<longrightarrow> P (l # q))" for P
    by (auto simp: prefix_Cons)
  moreover have "prefix [] ls" by simp
  ultimately show ?thesis
    using assms unfolding within_limits_def by (auto simp del: prefix_bot.bot_least Nil_prefix)
qed

lemma scan_None_iff:
  "depth \<le> MAX_NESTING_DEPTH \<Longrightarrow> unary_run \<le> MAX_UNARY_RUN \<Longrightarrow>
   scan src i depth unary_run = None \<longleftrightarrow> within_limits (depth, unary_run) (lexemes_from src i)"
proof (induction src i depth unary_run rule: scan.induct)
  case (1 src i depth unary_run)
  show ?case
  proof (cases "i < length src")
    case False
    then show ?thesis
      using "1.prems" by (simp add: scan.simps [of src i] lexemes_from.simps [of src i] within_limits_def)
  next
    case True
    have "depth - Suc 0 \<le> MAX_NESTING_DEPTH" using "1.prems" by simp
    with True show ?thesis
      using "1.IH" [OF True refl] "1.prems"
      by (simp add: scan.simps [of src i] lexemes_from.simps [of src i] within_limits_Cons Let_def not_less_eq_eq)
  qed
qed


section \<open>Lexing does not look back\<close>

lemma starts_at_append: "starts_at (xs @ src) w (length xs + j) = starts_at src w j"
  by (simp add: starts_at_def)

lemma starts_at_single: "starts_at src [q] j \<longleftrightarrow> j < length src \<and> src ! j = q"
proof (cases "j < length src")
  case True
  then have "take 1 (drop j src) = [src ! j]" by (simp add: take_Suc_conv_app_nth)
  with True show ?thesis by (simp add: starts_at_def)
qed (simp add: starts_at_def)

lemma skip_loop_append: "skip_loop (xs @ src) d (length xs + j) = length xs + skip_loop src d j"
proof (induction src d j rule: skip_loop.induct)
  case (1 src d j)
  then show ?case
    by (simp add: skip_loop.simps [of "xs @ src" d "length xs + j"] skip_loop.simps [of src d j]
        starts_at_append add.assoc)
qed

lemma skip_string_append: "skip_string (xs @ src) (length xs + j) = length xs + skip_string src j"
  using skip_loop_append [of xs src]
  by (simp add: skip_string_def starts_at_append Let_def add.assoc)

lemma comment_end_append: "comment_end (xs @ src) (length xs + j) = length xs + comment_end src j"
  by (simp add: comment_end_def)

lemma starts_word_append: "starts_word (xs @ src) (length xs + j) w = starts_word src j w"
  by (simp add: starts_word_def starts_at_append Let_def add.assoc)

lemma lexemes_from_append: "lexemes_from (xs @ src) (length xs + j) = lexemes_from src j"
proof (induction src j rule: lexemes_from.induct)
  case (1 src j)
  show ?case
  proof (cases "j < length src")
    case True
    show ?thesis
      using True "1.IH" [OF True refl]
      by (simp add: lexemes_from.simps [of "xs @ src" "length xs + j"] lexemes_from.simps [of src j]
          skip_string_append comment_end_append starts_word_append Let_def add.assoc)
  next
    case False
    then show ?thesis
      by (simp add: lexemes_from.simps [of "xs @ src" "length xs + j"] lexemes_from.simps [of src j])
  qed
qed

text \<open>A quoted text is skipped as a whole, whatever brackets or letters it holds.\<close>

lemma skip_loop_body:
  assumes "q \<notin> set body" "CHR 92 \<notin> set body" "q \<noteq> CHR 92" "j \<le> length body"
  shows "skip_loop (pre @ body @ q # post) [q] (length pre + j) = length pre + length body + 1"
  using assms(4)
proof (induction "length body - j" arbitrary: j)
  case 0
  then have j: "j = length body" by simp
  have "skip_loop (body @ q # post) [q] (length body) = length body + 1"
    using assms(3) by (subst skip_loop.simps) (simp add: starts_at_single)
  then show ?case using skip_loop_append [of pre "body @ q # post" "[q]" j] j by simp
next
  case (Suc k)
  then have j: "j < length body" by simp
  then have "body ! j \<noteq> q" "body ! j \<noteq> CHR 92" using assms(1,2) by (metis nth_mem)+
  with j have "skip_loop (body @ q # post) [q] j = skip_loop (body @ q # post) [q] (j + 1)"
    by (subst skip_loop.simps) (simp add: starts_at_single nth_append)
  moreover have "skip_loop (pre @ body @ q # post) [q] (length pre + (j + 1)) = length pre + length body + 1"
    using Suc j by (intro Suc.hyps(1)) auto
  ultimately show ?case
    using skip_loop_append [of pre "body @ q # post" "[q]" j]
      skip_loop_append [of pre "body @ q # post" "[q]" "j + 1"] by linarith
qed

lemma lexemes_quoted:
  assumes "q \<in> set QUOTES" "body \<noteq> []" "q \<notin> set body" "CHR 92 \<notin> set body"
  shows "lexemes (q # body @ q # post) = L_String # lexemes post"
proof -
  from assms(1) have q: "q \<noteq> CHR 92" by (auto simp: QUOTES_def)
  obtain b bs where b: "body = b # bs" "b \<noteq> q" using assms(2,3) by (cases body) auto
  have "skip_string (q # body @ q # post) 0 = length body + 2"
    using skip_loop_body [OF assms(3,4) q, of 0 "[q]" post] b
    by (simp add: skip_string_def starts_at_def Let_def)
  moreover have "lexemes_from ((q # body @ [q]) @ post) (length (q # body @ [q]) + 0) = lexemes_from post 0"
    by (rule lexemes_from_append)
  ultimately show ?thesis
    using assms(1) by (simp add: lexemes_def lexemes_from.simps [of "q # body @ q # post" 0])
qed

text \<open>The tracked depth is never below the real one, so the limit bounds the real nesting.\<close>

definition bracket_balance :: "lexeme list \<Rightarrow> int" where
  "bracket_balance ls = int (count_list ls L_Open) - int (count_list ls L_Close)"

lemma balance_le_track: "int d + bracket_balance ls \<le> int (fst (foldl track (d, r) ls))"
proof (induction ls arbitrary: d r)
  case Nil
  then show ?case by (simp add: bracket_balance_def)
next
  case (Cons l ls)
  obtain d' r' where t: "track (d, r) l = (d', r')" by fastforce
  have "int d + bracket_balance (l # ls) \<le> int d' + bracket_balance ls"
    using t by (cases l) (auto simp: bracket_balance_def)
  also have "\<dots> \<le> int (fst (foldl track (d', r') ls))" by (rule Cons.IH)
  finally show ?case by (simp add: t)
qed

lemma guard_source_Inr_iff:
  "guard_source src = Inr g \<longleftrightarrow>
     g = py_strip src \<and> py_strip src \<noteq> [] \<and> length src \<le> MAX_SOURCE_CHARS \<and>
     within_limits (0, 0) (lexemes src)"
proof -
  have "src \<noteq> []" if "py_strip src \<noteq> []" using that by (auto simp: py_strip_def)
  then show ?thesis
    using scan_None_iff [of 0 0 src 0]
    by (auto simp: guard_source_def lexemes_def split: option.splits if_splits)
qed

lemma parse_Inr_iff:
  "parse py src = Inr t \<longleftrightarrow>
     (\<exists>g. guard_source src = Inr g \<and> parse_eval py g = Parsed t \<and> tree_nodes t \<le> MAX_NODES)"
proof (cases "guard_source src")
  case (Inr g)
  then show ?thesis
    by (cases "parse_eval py g") (auto simp: parse_def split: if_splits)
qed (simp add: parse_def)

lemma validate_source_Inr_iff:
  "validate_source py src = Inr t \<longleftrightarrow> parse py src = Inr t \<and> validate t = Inr t"
  by (auto simp: validate_source_def validate_Inr_iff)

end
