(* ===== verification/Dsl_Structured.thy ===== *)
theory Dsl_Structured
  imports Dsl_Parser
begin

text \<open>
  The visual builder's structured form rendered to rule text
  (\<open>src/complylayer/dsl/structured.py\<close>). A structured rule is decoded JSON, a
  \<^typ>\<open>pyval\<close>; every function returns the text or the \<open>RuleSyntaxError\<close> it raises.

  The safety result is that untrusted text reaches the output only as a plain
  identifier, a decimal number or the inside of a quoted literal that cannot end early:
  the output is a concatenation of tokens from a fixed alphabet (\<open>safe_text\<close>).
\<close>


section \<open>Leaves\<close>

definition COMPARISONS :: "string list" where
  "COMPARISONS = [''>'', ''>='', ''<'', ''<='', ''=='', ''!='', ''in'', ''not in'']"

definition MAX_STRUCTURED_DEPTH :: nat where
  "MAX_STRUCTURED_DEPTH = MAX_NESTING_DEPTH"

definition printable :: "char \<Rightarrow> bool" where
  "printable c \<longleftrightarrow> 32 \<le> ord_c c \<and> ord_c c \<le> 126"

definition quotable :: "string \<Rightarrow> bool" where
  "quotable v \<longleftrightarrow> length v \<le> 100 \<and> list_all printable v \<and> CHR 39 \<notin> set v \<and> CHR 92 \<notin> set v"

definition quoted :: "string \<Rightarrow> rule_syntax_error + string" where
  "quoted v =
     (if \<not> quotable v
      then Inl (Malformed ''Text values use plain letters, digits and spaces, without quotes or backslashes.'')
      else Inr (CHR 39 # v @ [CHR 39]))"

fun ident_of :: "pyval \<Rightarrow> rule_syntax_error + string" where
  "ident_of (PStr n) =
     (if ascii_identifier n then Inr n
      else if \<not> list_all isascii_c n then Inl (NonAsciiName n) else Inl (ReservedName n))"
| "ident_of _ = Inl (Malformed ''A name must be text.'')"

fun literal :: "pyval \<Rightarrow> nat \<Rightarrow> rule_syntax_error + string" where
  "literal v depth =
     (if depth > MAX_STRUCTURED_DEPTH then Inl (TooDeep MAX_STRUCTURED_DEPTH)
      else
        (case v of
           PBool _ \<Rightarrow> Inl (Malformed ''Use a comparison rather than true or false.'')
         | PInt i \<Rightarrow>
             if bit_length i > 512 then Inl (NumberTooLarge (bit_length i * 3 div 10 + 1) 40)
             else Inr (str_of_int i)
         | PFloat _ \<Rightarrow> Inl (Malformed ''Amounts are whole numbers of minor units (kobo, cents).'')
         | PStr s \<Rightarrow> quoted s
         | PList vs \<Rightarrow>
             bindE (mapE (\<lambda>x. literal x (Suc depth)) vs)
               (\<lambda>parts. Inr (''['' @ str_join '', '' parts @ '']''))
         | _ \<Rightarrow> Inl (Malformed ''A value must be a number, text or list.'')))"

declare literal.simps [simp del]


section \<open>Rules\<close>

lemma size_dict_value: "(k, v) \<in> set d \<Longrightarrow> size v < size (PDict d)"
  by (induction d) auto

lemma size_dict_lookup: "map_of d k = Some v \<Longrightarrow> size v < size (PDict d)"
  by (rule size_dict_value) (rule map_of_SomeD)

lemma size_list_value: "v \<in> set vs \<Longrightarrow> size v < size (PList vs)"
  by (induction vs) auto

definition items_of :: "pyval option \<Rightarrow> string \<Rightarrow> rule_syntax_error + (string \<times> pyval) list" where
  "items_of v msg =
     (case v of None \<Rightarrow> Inr [] | Some (PDict d) \<Rightarrow> Inr d | Some _ \<Rightarrow> Inl (Malformed msg))"

definition elems_of :: "pyval option \<Rightarrow> string \<Rightarrow> rule_syntax_error + pyval list" where
  "elems_of v msg =
     (case v of None \<Rightarrow> Inr [] | Some (PList xs) \<Rightarrow> Inr xs | Some _ \<Rightarrow> Inl (Malformed msg))"

definition settings_message :: "string \<Rightarrow> string" where
  "settings_message name = ''The settings for '' @ name @ '' must be an object.''"

definition arguments_message :: "string \<Rightarrow> string" where
  "arguments_message name = ''The arguments for '' @ name @ '' must be a list.''"

text \<open>\<open>_render_call\<close> and \<open>_render_value\<close> recurse into each other; the arguments of
  \<open>render_call\<close> are the fields of the call object.\<close>

function render_call :: "(string \<times> pyval) list \<Rightarrow> nat \<Rightarrow> rule_syntax_error + string"
  and render_value :: "pyval \<Rightarrow> nat \<Rightarrow> rule_syntax_error + string"
where
  "render_call d depth =
     (if depth > MAX_STRUCTURED_DEPTH then Inl (TooDeep MAX_STRUCTURED_DEPTH)
      else
        bindE (case map_of d ''call'' of None \<Rightarrow> Inl (Malformed ''call'') | Some c \<Rightarrow> ident_of c) (\<lambda>name.
        bindE (items_of (map_of d ''args'') (settings_message name)) (\<lambda>args.
        bindE
          (mapE (\<lambda>(k, v).
              bindE (ident_of (PStr k)) (\<lambda>key.
              bindE (case v of PDict _ \<Rightarrow> render_value v (Suc depth) | _ \<Rightarrow> literal v 0) (\<lambda>val.
                Inr (key @ ''='' @ val)))) args) (\<lambda>rendered.
        bindE (elems_of (map_of d ''positional'') (arguments_message name)) (\<lambda>positional.
        bindE (mapE (\<lambda>a. render_value a (Suc depth)) positional) (\<lambda>pos.
          Inr (name @ ''('' @ str_join '', '' (pos @ rendered) @ '')'')))))))"
| "render_value v depth =
     (if depth > MAX_STRUCTURED_DEPTH then Inl (TooDeep MAX_STRUCTURED_DEPTH)
      else
        (case v of
           PDict d \<Rightarrow>
             (if map_of d ''call'' \<noteq> None then render_call d depth
              else
                (case map_of d ''fact'' of
                   Some f \<Rightarrow> ident_of f
                 | None \<Rightarrow> Inl (Malformed ''A value must be a number, text, list, fact or call.'')))
         | _ \<Rightarrow> literal v depth))"
  by pat_completeness auto
termination
  by (relation "measures [\<lambda>x. case x of Inl (d, n) \<Rightarrow> Suc MAX_STRUCTURED_DEPTH - n
                                      | Inr (v, n) \<Rightarrow> Suc MAX_STRUCTURED_DEPTH - n,
                          \<lambda>x. case x of Inl _ \<Rightarrow> 0 | Inr _ \<Rightarrow> 1]") auto

declare render_call.simps [simp del] render_value.simps [simp del]

definition render_comparison :: "string \<Rightarrow> (string \<times> pyval) list \<Rightarrow> nat \<Rightarrow> rule_syntax_error + string" where
  "render_comparison left d depth =
     (case map_of d ''op'' of
        None \<Rightarrow> Inr left
      | Some opv \<Rightarrow>
          (case opv of
             PStr op \<Rightarrow>
               (if op \<notin> set COMPARISONS then Inl (Malformed ''That is not a comparison.'')
                else
                  (case map_of d ''value'' of
                     None \<Rightarrow> Inl (Malformed (''A comparison with '' @ op @ '' needs a value.''))
                   | Some v \<Rightarrow>
                       bindE (render_value v (Suc depth)) (\<lambda>right.
                         Inr (left @ '' '' @ op @ '' '' @ right))))
           | _ \<Rightarrow> Inl (Malformed ''That is not a comparison.'')))"

definition join_group :: "string list \<Rightarrow> string \<Rightarrow> bool \<Rightarrow> string" where
  "join_group rendered joiner is_top =
     (case rendered of
        [x] \<Rightarrow> x
      | _ \<Rightarrow>
          (let joined = str_join ('' '' @ joiner @ '' '') rendered
           in if is_top then joined else ''('' @ joined @ '')''))"

function render :: "pyval \<Rightarrow> bool \<Rightarrow> nat \<Rightarrow> rule_syntax_error + string"
  and render_group :: "pyval \<Rightarrow> string \<Rightarrow> bool \<Rightarrow> nat \<Rightarrow> rule_syntax_error + string"
where
  "render node is_top depth =
     (if depth > MAX_STRUCTURED_DEPTH then Inl (TooDeep MAX_STRUCTURED_DEPTH)
      else
        (case node of
           PDict d \<Rightarrow>
             (case map_of d ''all'' of
                Some parts \<Rightarrow> render_group parts ''and'' is_top depth
              | None \<Rightarrow>
             (case map_of d ''any'' of
                Some parts \<Rightarrow> render_group parts ''or'' is_top depth
              | None \<Rightarrow>
             (case map_of d ''not'' of
                Some n \<Rightarrow> bindE (render n False (Suc depth)) (\<lambda>s. Inr (''not ('' @ s @ '')''))
              | None \<Rightarrow>
             (if map_of d ''call'' \<noteq> None
              then bindE (render_call d depth) (\<lambda>left. render_comparison left d depth)
              else
             (case map_of d ''fact'' of
                Some f \<Rightarrow> bindE (ident_of f) (\<lambda>left. render_comparison left d depth)
              | None \<Rightarrow> Inl (Malformed ''A rule part needs one of: all, any, not, fact, call.''))))))
         | _ \<Rightarrow> Inl (Malformed ''A rule part must be an object.'')))"
| "render_group parts joiner is_top depth =
     (case parts of
        PList (p # ps) \<Rightarrow>
          bindE (mapE (\<lambda>x. render x False (Suc depth)) (p # ps)) (\<lambda>rendered.
            Inr (join_group rendered joiner is_top))
      | _ \<Rightarrow> Inl (Malformed ''A group needs at least one condition.''))"
  by pat_completeness auto
termination
  by (relation "measure (\<lambda>x. case x of Inl (node, is_top, n) \<Rightarrow> size node
                                      | Inr (parts, joiner, is_top, n) \<Rightarrow> size parts)")
    (auto dest: size_dict_lookup size_list_value)

declare render.simps [simp del] render_group.simps [simp del]

definition to_expression :: "pyval \<Rightarrow> rule_syntax_error + string" where
  "to_expression node =
     bindE (render node True 0) (\<lambda>rendered.
       if length rendered > MAX_SOURCE_CHARS then Inl (TooMuchInput MAX_SOURCE_CHARS) else Inr rendered)"


section \<open>Tokens\<close>

datatype token = T_Ident string | T_Number int | T_Text string | T_Symbol string

definition SYMBOLS :: "string list" where
  "SYMBOLS =
     [''('', '')'', ''['', '']'', '', '', ''='', '' '', ''not ('', ''and'', ''or''] @ COMPARISONS"

fun token_ok :: "token \<Rightarrow> bool" where
  "token_ok (T_Ident n) = ascii_identifier n"
| "token_ok (T_Number i) = (bit_length i \<le> 512)"
| "token_ok (T_Text v) = quotable v"
| "token_ok (T_Symbol s) = (s \<in> set SYMBOLS)"

fun token_text :: "token \<Rightarrow> string" where
  "token_text (T_Ident n) = n"
| "token_text (T_Number i) = str_of_int i"
| "token_text (T_Text v) = CHR 39 # v @ [CHR 39]"
| "token_text (T_Symbol s) = s"

definition safe_text :: "string \<Rightarrow> bool" where
  "safe_text s \<longleftrightarrow> (\<exists>toks. list_all token_ok toks \<and> s = concat (map token_text toks))"

lemma safe_text_token: "token_ok t \<Longrightarrow> safe_text (token_text t)"
  unfolding safe_text_def by (rule exI [of _ "[t]"]) simp

lemma safe_text_Nil: "safe_text ''''"
  unfolding safe_text_def by (rule exI [of _ "[]"]) simp

lemma safe_text_append: "safe_text s \<Longrightarrow> safe_text t \<Longrightarrow> safe_text (s @ t)"
  unfolding safe_text_def by (metis concat_append list_all_append map_append)

lemma safe_text_symbol: "s \<in> set SYMBOLS \<Longrightarrow> safe_text s"
  using safe_text_token [of "T_Symbol s"] by simp

lemma safe_text_join: "safe_text sep \<Longrightarrow> \<forall>x \<in> set xs. safe_text x \<Longrightarrow> safe_text (str_join sep xs)"
  by (induction sep xs rule: str_join.induct) (auto intro: safe_text_append safe_text_Nil)

lemma safe_text_quoted: "quoted v = Inr s \<Longrightarrow> safe_text s"
  using safe_text_token [of "T_Text v"] by (auto simp: quoted_def split: if_splits)

lemma safe_text_ident: "ident_of v = Inr s \<Longrightarrow> safe_text s"
  using safe_text_token [of "T_Ident s"] by (induction v rule: ident_of.induct) (auto split: if_splits)

lemma safe_text_int: "bit_length i \<le> 512 \<Longrightarrow> safe_text (str_of_int i)"
  using safe_text_token [of "T_Number i"] by simp



section \<open>Everything rendered is safe\<close>

lemma in_SYMBOLS [simp]:
  "''('' \<in> set SYMBOLS" "'')'' \<in> set SYMBOLS" "''['' \<in> set SYMBOLS" "'']'' \<in> set SYMBOLS"
  "'', '' \<in> set SYMBOLS" "''='' \<in> set SYMBOLS" "'' '' \<in> set SYMBOLS" "''not ('' \<in> set SYMBOLS"
  "''and'' \<in> set SYMBOLS" "''or'' \<in> set SYMBOLS"
  by (simp_all add: SYMBOLS_def)

lemma COMPARISONS_in_SYMBOLS: "op \<in> set COMPARISONS \<Longrightarrow> op \<in> set SYMBOLS"
  by (simp add: SYMBOLS_def)

lemma safe_text_mapE:
  assumes "mapE f xs = Inr ys" and "\<And>x y. x \<in> set xs \<Longrightarrow> f x = Inr y \<Longrightarrow> safe_text y"
  shows "\<forall>y \<in> set ys. safe_text y"
  using assms by (meson mapE_in_set)

lemmas safe_symbols = in_SYMBOLS [THEN safe_text_symbol]

lemmas safe_rules = safe_text_append safe_text_join safe_symbols

lemma safe_text_literal: "literal v n = Inr s \<Longrightarrow> safe_text s"
proof (induction v n arbitrary: s rule: literal.induct)
  case (1 v n)
  note IH = "1.IH"
  from "1.prems" show ?case
    unfolding literal.simps [of v n]
  proof (auto split: if_splits pyval.splits simp: not_less intro: safe_text_quoted safe_text_int)
    fix vs parts
    assume "v = PList vs" "n \<le> MAX_STRUCTURED_DEPTH" and m: "mapE (\<lambda>x. literal x (Suc n)) vs = Inr parts"
    then have "\<forall>y \<in> set parts. safe_text y"
      using IH [of vs] by (intro safe_text_mapE [OF m]) auto
    then show "safe_text (CHR ''['' # str_join '', '' parts @ '']'')"
      using safe_text_append [OF safe_symbols(3) safe_text_append [OF safe_text_join [OF safe_symbols(5)] safe_symbols(4)]]
      by simp
  qed
qed

lemma safe_text_bracketed:
  "safe_text s \<Longrightarrow> safe_text (''('' @ s @ '')'')" "safe_text s \<Longrightarrow> safe_text (''not ('' @ s @ '')'')"
  by (blast intro: safe_rules)+

lemma safe_text_call:
  assumes "safe_text name" and "\<forall>x \<in> set args. safe_text x"
  shows "safe_text (name @ ''('' @ str_join '', '' args @ '')'')"
  using assms by (blast intro: safe_rules)

lemma safe_text_setting:
  "safe_text k \<Longrightarrow> safe_text v \<Longrightarrow> safe_text (k @ CHR ''='' # v)"
  using safe_text_append [OF _ safe_text_append [OF safe_symbols(6)]] by simp

lemma safe_text_render_call_value:
  "render_call d n = Inr s \<Longrightarrow> safe_text s"
  "render_value v n = Inr s \<Longrightarrow> safe_text s"
proof (induction d n and v n arbitrary: s and s rule: render_call_render_value.induct)
  case (1 d n)
  from "1.prems" obtain c name args rendered positional pos where
      depth: "\<not> n > MAX_STRUCTURED_DEPTH"
    and c: "map_of d ''call'' = Some c" and name: "ident_of c = Inr name"
    and args: "items_of (map_of d ''args'') (settings_message name) = Inr args"
    and rendered: "mapE (\<lambda>(k, v).
              bindE (ident_of (PStr k)) (\<lambda>key.
              bindE (case v of PDict _ \<Rightarrow> render_value v (Suc n) | _ \<Rightarrow> literal v 0) (\<lambda>val.
                Inr (key @ ''='' @ val)))) args = Inr rendered"
    and positional: "elems_of (map_of d ''positional'') (arguments_message name) = Inr positional"
    and pos: "mapE (\<lambda>a. render_value a (Suc n)) positional = Inr pos"
    and s: "s = name @ ''('' @ str_join '', '' (pos @ rendered) @ '')''"
    unfolding render_call.simps [of d n] by (auto split: if_splits option.splits)
  have nested: "safe_text y"
    if "(k, PDict e) \<in> set args" "ascii_identifier k" "render_value (PDict e) (Suc n) = Inr y" for k e y
    using that "1.IH"(1) depth c name args by fastforce
  have vals: "safe_text y"
    if "(k, v) \<in> set args" "ident_of (PStr k) = Inr key"
      and "(case v of PDict _ \<Rightarrow> render_value v (Suc n) | _ \<Rightarrow> literal v 0) = Inr y" for k key v y
    using that nested by (cases v) (auto intro: safe_text_literal split: if_splits)
  have "\<forall>x \<in> set rendered. safe_text x"
    using rendered by (rule safe_text_mapE) (auto split: prod.splits simp del: ident_of.simps intro: safe_text_setting safe_text_ident vals)
  moreover have "\<forall>x \<in> set pos. safe_text x"
    using pos by (rule safe_text_mapE) (use "1.IH" depth c name args rendered positional in auto)
  ultimately show ?case
    unfolding s by (intro safe_text_call) (auto intro: safe_text_ident [OF name])
next
  case (2 v n)
  from "2.prems" "2.IH" show ?case
    unfolding render_value.simps [of v n]
    by (auto split: if_splits pyval.splits option.splits intro: safe_text_literal safe_text_ident)
qed


lemma safe_text_comparison:
  assumes "render_comparison left d n = Inr s" and "safe_text left"
  shows "safe_text s"
proof -
  have "safe_text (left @ '' '' @ op @ '' '' @ right)"
    if "op \<in> set COMPARISONS" "safe_text right" for op right
    using that assms(2) COMPARISONS_in_SYMBOLS [THEN safe_text_symbol] by (blast intro: safe_rules)
  with assms show ?thesis
    by (auto simp: render_comparison_def split: option.splits pyval.splits if_splits
        dest!: safe_text_render_call_value(2))
qed

lemma safe_text_join_group:
  assumes "\<forall>x \<in> set xs. safe_text x" and "joiner \<in> {''and'', ''or''}"
  shows "safe_text (join_group xs joiner is_top)"
proof -
  have "safe_text ('' '' @ joiner @ '' '')"
    using assms(2) by (blast intro: safe_rules)
  then have "safe_text (str_join ('' '' @ joiner @ '' '') xs)"
    using assms(1) by (rule safe_text_join)
  with safe_text_bracketed(1) [OF this] assms(1) show ?thesis
    by (auto simp: join_group_def Let_def split: list.splits)
qed

lemma safe_text_render:
  "render node is_top n = Inr s \<Longrightarrow> safe_text s"
  "render_group parts joiner is_top n = Inr s \<Longrightarrow> joiner \<in> {''and'', ''or''} \<Longrightarrow> safe_text s"
proof (induction node is_top n and parts joiner is_top n arbitrary: s and s rule: render_render_group.induct)
  case (1 node is_top n)
  note IH = "1.IH"
  from "1.prems" show ?case
    unfolding render.simps [of node is_top n]
    by (auto split: if_splits pyval.splits option.splits
        intro: safe_text_comparison safe_text_render_call_value safe_text_ident IH
          safe_text_bracketed [simplified])
next
  case (2 parts joiner is_top n)
  from "2.prems"(1) obtain p ps rendered where parts: "parts = PList (p # ps)"
    and m: "mapE (\<lambda>x. render x False (Suc n)) (p # ps) = Inr rendered"
    and s: "s = join_group rendered joiner is_top"
    unfolding render_group.simps [of parts joiner is_top n]
    by (auto split: list.splits pyval.splits simp del: mapE.simps)
  have "\<forall>y \<in> set rendered. safe_text y"
    using m by (rule safe_text_mapE) (rule "2.IH" [OF parts refl])
  then show ?case
    unfolding s using "2.prems"(2) by (rule safe_text_join_group)
qed


lemma printable_alnum: "is_ascii_alpha c \<or> is_ascii_digit c \<Longrightarrow> printable c"
  by (auto simp: is_ascii_alpha_def is_ascii_digit_def printable_def Let_def)

lemma printable_ident: "ascii_identifier n \<Longrightarrow> list_all printable n"
proof (cases n)
  case (Cons c cs)
  moreover have "ident_char d \<Longrightarrow> printable d" for d
    using printable_alnum [of d] by (auto simp: ident_char_def printable_def ord_c_def)
  moreover assume "ascii_identifier n"
  ultimately show ?thesis
    using printable_alnum [of c] by (auto simp: list_all_iff)
qed simp

lemma printable_str_of_int: "list_all printable (str_of_int i)"
  using str_of_nat_digits printable_alnum
  by (auto simp: str_of_int_def list_all_iff) (simp add: printable_def ord_c_def)

lemma printable_token: "token_ok t \<Longrightarrow> list_all printable (token_text t)"
  by (cases t)
    (auto simp: printable_ident printable_str_of_int quotable_def SYMBOLS_def COMPARISONS_def,
     auto simp: printable_def ord_c_def)

lemma printable_safe_text: "safe_text s \<Longrightarrow> list_all printable s"
proof -
  assume "safe_text s"
  then obtain toks where "list_all token_ok toks" and s: "s = concat (map token_text toks)"
    by (auto simp: safe_text_def)
  then show ?thesis
    unfolding s by (induction toks) (auto dest: printable_token)
qed


section \<open>Properties\<close>


definition builder_example :: pyval where
  "builder_example =
     PDict [(''all'', PList [
       PDict [(''fact'', PStr ''amount_minor''), (''op'', PStr ''>''), (''value'', PInt 5000000)],
       PDict [(''call'', PStr ''velocity_count''), (''args'', PDict [(''window'', PStr ''1h'')]),
              (''op'', PStr ''>''), (''value'', PInt 5)]])]"

definition builder_example_text :: string where
  "builder_example_text = ''amount_minor > 5000000 and velocity_count(window='' @ [CHR 39] @ ''1h'' @ [CHR 39] @ '') > 5''"

lemma to_expression_example: "to_expression builder_example = Inr builder_example_text"
  by (simp add: to_expression_def render.simps render_group.simps render_call.simps render_value.simps
      literal.simps builder_example_def builder_example_text_def render_comparison_def join_group_def
      items_of_def elems_of_def quoted_def quotable_def printable_def COMPARISONS_def str_of_int_def
      str_of_nat.simps bit_length_def bit_length_nat.simps MAX_STRUCTURED_DEPTH_def limit_defs char_class_defs ident_char_def
      Let_def)


end
