(* ===== verification/Dsl_Properties.thy ===== *)
theory Dsl_Properties
  imports Dsl_Functions Dsl_Structured
begin

text \<open>
  Properties of the rule language as a whole: what the guards and the validator accept,
  what a rule that was accepted can do when it is evaluated, and what the functions compute.
  \<open>example_parser\<close> answers for one text as \<open>ast.parse\<close> does and refuses every other; the
  witnesses use it.
\<close>


section \<open>A concrete rule\<close>

definition example_source :: string where
  "example_source = ''amount_minor > 100''"

definition example_tree :: expr where
  "example_tree = Compare (Name ''amount_minor'') [Gt] [Constant (PInt 100)]"

definition example_parser :: python_parser where
  "example_parser =
     \<lparr>parse_eval = (\<lambda>s. if s = example_source then Parsed example_tree else NotParsed),
      parse_exec = (\<lambda>_. False)\<rparr>"

definition example_context :: "int \<Rightarrow> evaluation_context" where
  "example_context n = \<lparr>ctx_facts = [''amount_minor'' \<mapsto> PInt n], ctx_functions = (\<lambda>_. None)\<rparr>"

definition silent_provider :: velocity_provider where
  "silent_provider = \<lparr>vp_count = (\<lambda>_ _ _ _. Inr (PInt 0)), vp_total = (\<lambda>_ _ _ _. Inr (PInt 0))\<rparr>"

lemma guard_example: "guard_source example_source = Inr example_source"
  by code_simp

lemma parse_example: "parse example_parser example_source = Inr example_tree"
  using guard_example by (simp add: parse_def example_parser_def example_tree_def tree_nodes_def limit_defs)

lemma validate_example: "validate example_tree = Inr example_tree"
  by code_simp


lemma evaluate_parsed:
  assumes "parse py src = Inr tree"
  shows "evaluate tree ctx MAX_STEPS = bindE (denote ctx tree) (\<lambda>v. Inr (truthy v))"
  using assms by (intro evaluate_denote) (auto simp: parse_Inr_iff tree_nodes_def limit_defs)


section \<open>What is accepted\<close>

text \<open>C2. The validator accepts a tree exactly when it is not a bare constant and every
  node in it, at any depth, is allowed by the node policy: only listed operators, functions
  and constants, calls with the declared arity and distinct declared keywords, ASCII names,
  no attribute access, no subscript. A forbidden construct cannot hide below an allowed one,
  and no rule that respects the policy is refused.\<close>

theorem validator_sound_and_complete:
  "validate e = Inr t \<longleftrightarrow> t = e \<and> \<not> is_constant e \<and> (\<forall>n \<in> set (subexprs e). node_ok n)"
  by (rule validate_Inr_iff)

theorem validator_sound_and_complete_witness:
  "list_all node_ok (subexprs example_tree)
   \<and> validate (BoolOp And [example_tree, Attribute (Name ''x'') ''y'']) \<noteq> Inr (BoolOp And [example_tree, Attribute (Name ''x'') ''y''])"
  using validator_sound_and_complete [of example_tree example_tree] validate_example
    validator_sound_and_complete
      [of "BoolOp And [example_tree, Attribute (Name ''x'') ''y'']" "BoolOp And [example_tree, Attribute (Name ''x'') ''y'']"]
  by (simp add: list_all_iff)

text \<open>The index-driven scan of the source is equivalent to lexing: \<open>guard_source\<close>
  accepts a text exactly when something is left after stripping, it has at most
  \<open>MAX_SOURCE_CHARS\<close> characters and, cut into string literals, comments, brackets and unary
  operators, no prefix nests deeper than \<open>MAX_NESTING_DEPTH\<close> or runs more than
  \<open>MAX_UNARY_RUN\<close> unary operators, and all characters outside literals are ASCII.\<close>

theorem guard_source_accepts_iff:
  "guard_source src = Inr g \<longleftrightarrow>
     g = py_strip src \<and> py_strip src \<noteq> [] \<and> length src \<le> MAX_SOURCE_CHARS \<and>
     within_limits (0, 0) (lexemes src)"
  by (rule guard_source_Inr_iff)

text \<open>In an accepted text no position is inside more than \<open>MAX_NESTING_DEPTH\<close> brackets:
  at every prefix of the lexemes the openers exceed the closers by at most that much, so the
  floor at zero for stray closers cannot launder depth.\<close>

theorem guarded_nesting_bounded:
  assumes "guard_source src = Inr g" and "prefix p (lexemes src)"
  shows "bracket_balance p \<le> int MAX_NESTING_DEPTH"
proof -
  from assms have "fst (foldl track (0, 0) p) \<le> MAX_NESTING_DEPTH"
    by (auto simp: guard_source_Inr_iff within_limits_def)
  with balance_le_track [of 0 p 0] show ?thesis by simp
qed

theorem guarded_nesting_bounded_witness:
  "guard_source example_source = Inr example_source
   \<and> bracket_balance (lexemes example_source) \<le> int MAX_NESTING_DEPTH"
  using guarded_nesting_bounded [OF guard_example prefix_order.refl] guard_example by simp


section \<open>What an accepted rule does\<close>

text \<open>C3. The node limit of \<open>parse\<close> makes the run-time budget unreachable: a rule that was
  parsed is evaluated within its node count, far below \<open>MAX_STEPS\<close>, and its result is that
  of the reference semantics without a budget, for all facts and all functions.\<close>

theorem parsed_rule_never_out_of_budget:
  assumes "parse py src = Inr t"
  shows "\<exists>k < MAX_NODES. interpreter_run MAX_STEPS ctx t = (bindE (denote ctx t) (\<lambda>v. Inr (truthy v)), k)"
proof -
  from assms have n: "Suc (node_count t) \<le> MAX_NODES" by (auto simp: parse_Inr_iff tree_nodes_def)
  then have "node_count t \<le> MAX_STEPS" by (simp add: limit_defs)
  then obtain k where "k \<le> node_count t"
    and "interpreter_run MAX_STEPS ctx t = (bindE (denote ctx t) (\<lambda>v. Inr (truthy v)), k)"
    by (rule interpreter_run_denote)
  with n show ?thesis by (intro exI [of _ k]) auto
qed

theorem parsed_rule_never_out_of_budget_witness:
  "parse example_parser example_source = Inr example_tree \<and>
   (\<exists>k < MAX_NODES. interpreter_run MAX_STEPS (example_context 150) example_tree = (Inr True, k))"
  using parsed_rule_never_out_of_budget [OF parse_example, of "example_context 150"] parse_example
  by (simp add: example_tree_def example_context_def read_fact_def compare_op_def compare_values_def
      same_orderable_kind_def)

text \<open>Evaluating a parsed rule depends on the facts it names and on nothing else: two fact
  mappings that agree there give the same decision or the same error.\<close>

theorem evaluation_depends_on_named_facts:
  assumes "parse py src = Inr t"
    and "ctx_functions c = ctx_functions d"
    and "\<forall>n \<in> set (fact_names t). ctx_facts c n = ctx_facts d n"
  shows "evaluate t c MAX_STEPS = evaluate t d MAX_STEPS"
proof -
  from assms(1) have "node_count t \<le> MAX_STEPS"
    by (auto simp: parse_Inr_iff tree_nodes_def limit_defs)
  then have "evaluate t x MAX_STEPS = bindE (denote x t) (\<lambda>v. Inr (truthy v))" for x
    by (metis interpreter_run_denote evaluate_def fst_conv)
  moreover have "denote c t = denote d t"
    using assms(2,3) by (intro denote_cong(1)) (simp add: same_facts_on_def)
  ultimately show ?thesis by simp
qed

theorem evaluation_depends_on_named_facts_witness:
  "evaluate example_tree (example_context 5) MAX_STEPS =
   evaluate example_tree (example_context 5 \<lparr>ctx_facts := [''amount_minor'' \<mapsto> PInt 5, ''kyc_tier'' \<mapsto> PInt 3]\<rparr>) MAX_STEPS"
  by (rule evaluation_depends_on_named_facts [OF parse_example])
    (simp_all add: example_context_def example_tree_def)

text \<open>What a rule may rely on of whoever implements \<open>VelocityProvider\<close>: its two operations raise nothing
  but what a rule can answer for.\<close>

locale velocity_contract =
  fixes vp :: velocity_provider
  assumes raises: "benign_provider vp"
begin

lemma rule_errors:
  assumes "validate_source py src = Inr t" and "wf_tree t"
    and "evaluate t \<lparr>ctx_facts = fs, ctx_functions = build fi vp now\<rparr> MAX_STEPS = Inl e"
  shows "e = TypeError \<or> (\<exists>r. e = RuleEvaluationError r \<and> (\<forall>k. r \<noteq> CannotEvaluate k))"
proof -
  let ?ctx = "\<lparr>ctx_facts = fs, ctx_functions = build fi vp now\<rparr>"
  from assms(1) have p: "parse py src = Inr t" and v: "validate t = Inr t"
    by (auto simp: validate_source_Inr_iff)
  from p have "evaluate t ?ctx MAX_STEPS = bindE (denote ?ctx t) (\<lambda>v. Inr (truthy v))"
    by (rule evaluate_parsed)
  with assms(3) have "denote ?ctx t = Inl e" by (auto simp: bindE_eq_Inl)
  moreover have "benign (denote ?ctx t)"
    using raises v assms(2) by (intro denote_benign(1) benign_context_build validated_tree_ok)
  ultimately show ?thesis by (simp add: benign_def)
qed

end

text \<open>A rule that \<open>validate_source\<close> accepted, run against the functions \<open>build\<close>
  provides, returns a condition or raises \<open>RuleEvaluationError\<close> or \<open>TypeError\<close>: never another
  exception, never the interpreter's refusal of a node kind, never its step budget. The
  hypotheses are that \<open>ast.parse\<close> gives every comparison as many operators as comparators and
  that the velocity provider raises nothing else itself.\<close>

theorem validated_rule_errors:
  assumes "validate_source py src = Inr t" and "wf_tree t" and "benign_provider vp"
    and "evaluate t \<lparr>ctx_facts = fs, ctx_functions = build fi vp now\<rparr> MAX_STEPS = Inl e"
  shows "e = TypeError \<or> (\<exists>r. e = RuleEvaluationError r \<and> (\<forall>k. r \<noteq> CannotEvaluate k))"
  by (rule velocity_contract.rule_errors [OF velocity_contract.intro [OF assms(3)] assms(1,2,4)])

lemma validate_source_example: "validate_source example_parser example_source = Inr example_tree"
  by (simp add: validate_source_Inr_iff parse_example validate_example)

theorem validated_rule_errors_witness:
  "evaluate example_tree \<lparr>ctx_facts = Map.empty, ctx_functions = build (\<lambda>_. None) silent_provider 0\<rparr> MAX_STEPS
     = Inl (RuleEvaluationError (UnknownFact ''amount_minor''))
   \<and> (\<forall>k. UnknownFact ''amount_minor'' \<noteq> CannotEvaluate k)"
proof -
  have e: "evaluate example_tree \<lparr>ctx_facts = Map.empty, ctx_functions = build (\<lambda>_. None) silent_provider 0\<rparr> MAX_STEPS
     = Inl (RuleEvaluationError (UnknownFact ''amount_minor''))"
    by (simp add: evaluate_def interpreter_run_def example_tree_def bind_run_def tick_def limit_defs
        lift_run_def read_fact_def eval_error_def)
  have "wf_tree example_tree" "benign_provider silent_provider"
    by (simp_all add: wf_tree_def example_tree_def benign_provider_def silent_provider_def)
  from validated_rule_errors [OF validate_source_example this e] e show ?thesis by simp
qed

text \<open>Arithmetic inside a rule stays bounded: a binary operation that succeeds returns an
  integer of at most \<open>MAX_RESULT_BITS\<close> bits, and the product is computed only when the sum of
  the operands' bit lengths is within the limit.\<close>

theorem binop_result_bounded:
  assumes "apply_binop op l r = Inr v"
  shows "\<exists>i. v = PInt i \<and> \<bar>i\<bar> < 2 ^ MAX_RESULT_BITS"
  using assms
  by (auto simp: apply_binop_def guard_magnitude_def eval_error_def not_less bit_length_le_iff
      split: pyval.splits if_splits)

theorem binop_result_bounded_witness:
  "apply_binop Mult (PInt 7) (PInt 6) = Inr (PInt 42) \<and> (\<exists>i. PInt 42 = PInt i \<and> \<bar>i\<bar> < 2 ^ MAX_RESULT_BITS)"
proof -
  have "apply_binop Mult (PInt 7) (PInt 6) = Inr (PInt 42)" by code_simp
  with binop_result_bounded [OF this] show ?thesis by simp
qed

lemma table_agrees:
  "list_all (\<lambda>(n, spec). case map_of (build_table fi vp now) n of
       None \<Rightarrow> False
     | Some (sig, body) \<Rightarrow>
         if n \<in> {''velocity_count'', ''velocity_sum''}
         then sig = velocity_sig \<and> positional spec = 0 \<and> spec_keywords spec = velocity_keywords
         else length sig = positional spec \<and> spec_keywords spec = []) SPECS"
  by (simp add: SPECS_def build_table_def)

lemma table_entry:
  assumes "(n, spec) \<in> set SPECS"
  obtains sig body where "build fi vp now n = Some (call_python sig body)"
    and "if n \<in> {''velocity_count'', ''velocity_sum''}
         then sig = velocity_sig \<and> positional spec = 0 \<and> spec_keywords spec = velocity_keywords
         else length sig = positional spec \<and> spec_keywords spec = []"
  using table_agrees [of fi vp now] assms
  by (auto simp: list_all_iff build_def split: option.splits dest!: bspec)

lemma call_ok_kwargs:
  assumes "call_ok n arity ks" and "map kw_arg ks = map (\<lambda>(a, v). Some a) kwargs"
  obtains spec where "(n, spec) \<in> set SPECS" and "arity = positional spec"
    and "set (map fst kwargs) \<subseteq> set (spec_keywords spec)"
proof -
  from assms(1) obtain spec names where spec: "map_of SPECS n = Some spec" "arity = positional spec"
    and names: "map kw_arg ks = map Some names" "set names \<subseteq> set (spec_keywords spec)"
    by (auto simp: call_ok_def keyword.case_eq_if)
  have "map Some names = map Some (map fst kwargs)"
    using names(1) assms(2) by (simp add: case_prod_unfold o_def)
  then have "names = map fst kwargs" unfolding inj_map_eq_map [OF inj_Some] .
  with spec names(2) show thesis by (intro that) (auto dest: map_of_SomeD)
qed

text \<open>Every call the validator accepts reaches a function of \<open>build\<close>, whose table has
  exactly the validator's names, and its arguments bind to the parameters, with one exception: a
  velocity call that leaves out \<open>window\<close> passes the validator and does not bind when the rule
  runs.\<close>

theorem accepted_call_binds:
  assumes "call_ok n (length args) ks" and "map kw_arg ks = map (\<lambda>(a, v). Some a) kwargs"
  shows "dom (build fi vp now) = set ALLOWED_FUNCTIONS \<and>
    (\<exists>sig body. build fi vp now n = Some (call_python sig body) \<and>
       (is_ok (bind_params sig args kwargs) \<longleftrightarrow>
          n \<notin> {''velocity_count'', ''velocity_sum''} \<or> ''window'' \<in> set (map fst kwargs)))"
proof -
  from assms obtain spec where spec: "(n, spec) \<in> set SPECS" "length args = positional spec"
    and kw: "set (map fst kwargs) \<subseteq> set (spec_keywords spec)" by (rule call_ok_kwargs)
  from table_entry [OF spec(1), of fi vp now] obtain sig body where
    b: "build fi vp now n = Some (call_python sig body)" and
    t: "if n \<in> {''velocity_count'', ''velocity_sum''}
        then sig = velocity_sig \<and> positional spec = 0 \<and> spec_keywords spec = velocity_keywords
        else length sig = positional spec \<and> spec_keywords spec = []" .
  have "is_ok (bind_params sig args kwargs) \<longleftrightarrow>
      n \<notin> {''velocity_count'', ''velocity_sum''} \<or> ''window'' \<in> set (map fst kwargs)"
  proof (cases "n \<in> {''velocity_count'', ''velocity_sum''}")
    case True
    with t spec(2) kw have "sig = velocity_sig" "args = []" "set (map fst kwargs) \<subseteq> set velocity_keywords"
      by simp_all
    with True show ?thesis
      using bind_velocity [of kwargs] map_of_eq_None_iff [of kwargs "''window''"]
      by (auto simp: is_ok_iff split: option.splits)
  next
    case False
    with t spec(2) kw show ?thesis by (simp add: bind_params_exact is_ok_iff)
  qed
  with b dom_build [of fi vp now] show ?thesis by blast
qed

theorem accepted_call_binds_witness:
  "call_ok ''velocity_count'' 0 [] \<and>
   (\<exists>sig body. build (\<lambda>_. None) silent_provider 0 ''velocity_count'' = Some (call_python sig body)
      \<and> \<not> is_ok (bind_params sig [] []))"
proof -
  have ok: "call_ok ''velocity_count'' (length []) []" by (simp add: call_ok_def SPECS_def)
  from accepted_call_binds [OF ok, of "[]" "\<lambda>_. None" silent_provider 0] ok show ?thesis by auto
qed

text \<open>The calendar functions: \<open>hour_of_day\<close> is an hour between 0 and 23 of the UTC day of
  \<open>now\<close>, and \<open>days_since\<close> is the number of whole days from the instant the text names to \<open>now\<close>,
  rounded towards the past, whatever offset the text carries.\<close>

theorem calendar_functions:
  shows "(\<exists>h. hour_of_day now [] = Inr (PInt h) \<and> 0 \<le> h \<and> h < 24 \<and>
           h * 3600000000 \<le> now mod US_PER_DAY \<and> now mod US_PER_DAY < (h + 1) * 3600000000)
    \<and> (fromisoformat s = Some moment \<longrightarrow>
         (\<exists>d. days_since fromisoformat now [PStr s] = Inr (PInt d) \<and>
            d * US_PER_DAY \<le> now - instant moment \<and> now - instant moment < (d + 1) * US_PER_DAY))"
proof -
  have le: "x div k * k \<le> x" "x < (x div k + 1) * k" if "0 < k" for x k :: int
    using pos_mod_bound [OF that, of x] pos_mod_sign [OF that, of x] div_mult_mod_eq [of x k]
    unfolding distrib_right by linarith+
  have "0 < US_PER_DAY" "now mod US_PER_DAY < 86400000000" "0 \<le> now mod US_PER_DAY"
    by (simp_all add: US_PER_DAY_def)
  then show ?thesis
    using le [of 3600000000 "now mod US_PER_DAY"] le [of US_PER_DAY "now - instant moment"]
      pos_imp_zdiv_nonneg_iff [of 3600000000 "now mod US_PER_DAY"]
    by auto
qed

theorem calendar_functions_witness:
  "\<exists>d. days_since (\<lambda>_. Some \<lparr>local_us = 0, utcoffset_us = None\<rparr>) 86400000001 [PStr ''1970-01-01''] = Inr (PInt d)
     \<and> d * US_PER_DAY \<le> 86400000001"
  using calendar_functions [of 86400000001 "\<lambda>_. Some \<lparr>local_us = 0, utcoffset_us = None\<rparr>" "''1970-01-01''"
      "\<lparr>local_us = 0, utcoffset_us = None\<rparr>"]
  by (auto simp: instant_def)

end
