(* ===== verification/Engine_Evaluation.thy ===== *)
theory Engine_Evaluation
  imports Dsl_Properties
begin

text \<open>
  Turning a rule set and a transaction into one decision
  (\<open>src/complylayer/engine/evaluation.py\<close>).

  Every active and every shadow rule is run by a fresh interpreter. \<open>evaluate_one\<close> turns a
  \<open>RuleEvaluationError\<close> into an errored outcome; any other exception escapes, so \<open>decide\<close>
  returns \<open>exn + decision\<close>. The error text is kept as the \<^typ>\<open>eval_reason\<close> it prints
  (no message of the source is empty, so \<open>bool(error)\<close> is \<open>error \<noteq> None\<close>).

  The abstract specification is \<open>spec_outcome\<close>: the worst outcome that an active rule which
  matched, or which failed under a fail-closed severity, calls for.
\<close>


section \<open>Data\<close>

datatype severity = BLOCK | FLAG | ALLOW_WITH_NOTE

datatype outcome = ALLOW_OUT | FLAG_OUT | BLOCK_OUT

datatype rule_state = DRAFT | SHADOW | ACTIVE | ARCHIVED

text \<open>Outcomes are ordered by how severe they are.\<close>

fun outcome_rank :: "outcome \<Rightarrow> nat" where
  "outcome_rank ALLOW_OUT = 0"
| "outcome_rank FLAG_OUT = 1"
| "outcome_rank BLOCK_OUT = 2"

lemma outcome_rank_inject [simp]: "outcome_rank a = outcome_rank b \<longleftrightarrow> a = b"
  by (cases a; cases b) simp_all

instantiation outcome :: linorder
begin

definition less_eq_outcome :: "outcome \<Rightarrow> outcome \<Rightarrow> bool" where
  "less_eq_outcome a b \<longleftrightarrow> outcome_rank a \<le> outcome_rank b"

definition less_outcome :: "outcome \<Rightarrow> outcome \<Rightarrow> bool" where
  "less_outcome a b \<longleftrightarrow> outcome_rank a < outcome_rank b"

instance
  by standard (auto simp: less_eq_outcome_def less_outcome_def)

end

lemma ALLOW_OUT_le [simp]: "ALLOW_OUT \<le> x"
  by (simp add: less_eq_outcome_def)

lemma le_BLOCK_OUT [simp]: "x \<le> BLOCK_OUT"
  by (cases x) (simp_all add: less_eq_outcome_def)

definition DEFAULT_FALLBACK :: "severity \<rightharpoonup> string" where
  "DEFAULT_FALLBACK = [BLOCK \<mapsto> ''closed'', FLAG \<mapsto> ''open'', ALLOW_WITH_NOTE \<mapsto> ''open'']"

fun severity_outcome :: "severity \<Rightarrow> outcome" where
  "severity_outcome BLOCK = BLOCK_OUT"
| "severity_outcome FLAG = FLAG_OUT"
| "severity_outcome ALLOW_WITH_NOTE = ALLOW_OUT"

record compiled_rule =
  rule_id :: string
  rule_name :: string
  rule_tree :: expr
  rule_severity :: severity
  rule_state :: rule_state
  rule_priority :: int
  regulatory_reference :: string
  rule_customer_message :: string

definition rule_sort_key :: "compiled_rule \<Rightarrow> int \<times> string" where
  "rule_sort_key r = (rule_priority r, rule_id r)"

record rule_outcome =
  ro_rule :: compiled_rule
  ro_matched :: bool
  ro_error :: "eval_reason option"
  ro_steps :: nat

definition errored :: "rule_outcome \<Rightarrow> bool" where
  "errored ro \<longleftrightarrow> ro_error ro \<noteq> None"

record decision =
  dec_outcome :: outcome
  matched_rules :: "compiled_rule list"
  shadow_matches :: "compiled_rule list"
  errored_rules :: "rule_outcome list"
  evaluated_rules :: nat
  degraded :: bool
  reason :: string
  dec_customer_message :: string
  dec_steps :: nat

definition matched_rule_ids :: "decision \<Rightarrow> string list" where
  "matched_rule_ids d = map rule_id (matched_rules d)"

record rule_set =
  rs_version :: int
  rs_rules :: "compiled_rule list"

text \<open>The constructor sorts: \<open>__post_init__\<close>.\<close>

definition make_rule_set :: "int \<Rightarrow> compiled_rule list \<Rightarrow> rule_set" where
  "make_rule_set v rules = \<lparr>rs_version = v, rs_rules = sort_key rule_sort_key rules\<rparr>"

definition active :: "rule_set \<Rightarrow> compiled_rule list" where
  "active rs = filter (\<lambda>r. rule_state r = ACTIVE) (rs_rules rs)"

definition shadow :: "rule_set \<Rightarrow> compiled_rule list" where
  "shadow rs = filter (\<lambda>r. rule_state r = SHADOW) (rs_rules rs)"


section \<open>Deciding\<close>

definition evaluate_one :: "compiled_rule \<Rightarrow> evaluation_context \<Rightarrow> nat \<Rightarrow> exn + rule_outcome" where
  "evaluate_one r ctx max_steps =
     (case interpreter_run max_steps ctx (rule_tree r) of
        (Inr m, steps) \<Rightarrow> Inr \<lparr>ro_rule = r, ro_matched = m, ro_error = None, ro_steps = steps\<rparr>
      | (Inl (RuleEvaluationError x), steps) \<Rightarrow>
          Inr \<lparr>ro_rule = r, ro_matched = False, ro_error = Some x, ro_steps = steps\<rparr>
      | (Inl e, steps) \<Rightarrow> Inl e)"

definition combine :: "compiled_rule list \<Rightarrow> outcome" where
  "combine matched =
     (if list_ex (\<lambda>r. rule_severity r = BLOCK) matched then BLOCK_OUT
      else if list_ex (\<lambda>r. rule_severity r = FLAG) matched then FLAG_OUT
      else ALLOW_OUT)"

definition deciding_rule :: "compiled_rule list \<Rightarrow> outcome \<Rightarrow> compiled_rule option" where
  "deciding_rule matched out = List.find (\<lambda>r. severity_outcome (rule_severity r) = out) matched"

definition reason_for :: "compiled_rule list \<Rightarrow> outcome \<Rightarrow> string" where
  "reason_for matched out = (case deciding_rule matched out of Some r \<Rightarrow> rule_name r | None \<Rightarrow> [])"

definition customer_message_for :: "compiled_rule list \<Rightarrow> outcome \<Rightarrow> string" where
  "customer_message_for matched out =
     (if out \<noteq> BLOCK_OUT then []
      else (case deciding_rule matched out of Some r \<Rightarrow> rule_customer_message r | None \<Rightarrow> []))"

definition fallback_policy :: "(severity \<rightharpoonup> string) option \<Rightarrow> severity \<rightharpoonup> string" where
  "fallback_policy fallback = DEFAULT_FALLBACK ++ (case fallback of Some f \<Rightarrow> f | None \<Rightarrow> Map.empty)"

definition decide ::
  "rule_set \<Rightarrow> evaluation_context \<Rightarrow> (severity \<rightharpoonup> string) option \<Rightarrow> nat \<Rightarrow> exn + decision" where
  "decide rs ctx fallback max_steps =
     bindE (mapE (\<lambda>r. evaluate_one r ctx max_steps) (active rs)) (\<lambda>live.
     bindE (mapE (\<lambda>r. evaluate_one r ctx max_steps) (shadow rs)) (\<lambda>shadow_results.
       let policy = fallback_policy fallback;
           matched = map ro_rule (filter ro_matched live);
           errored_results = filter errored (live @ shadow_results);
           failed_closed =
             map ro_rule (filter (\<lambda>ro. errored ro \<and> policy (rule_severity (ro_rule ro)) = Some ''closed'') live);
           by_id = dict_of [] (map (\<lambda>r. (rule_id r, r)) (matched @ failed_closed));
           deciding = sort_key rule_sort_key (map snd by_id);
           out = combine deciding
       in Inr \<lparr>dec_outcome = out,
               matched_rules = deciding,
               shadow_matches = map ro_rule (filter ro_matched shadow_results),
               errored_rules = errored_results,
               evaluated_rules = length live + length shadow_results,
               degraded = (errored_results \<noteq> []),
               reason = reason_for deciding out,
               dec_customer_message = customer_message_for deciding out,
               dec_steps = sum_list (map ro_steps (live @ shadow_results))\<rparr>))"


section \<open>Specification\<close>

text \<open>What one rule does on a context, without the bookkeeping.\<close>

datatype verdict = Matches | No_match | Fails eval_reason | Escapes exn

definition verdict_of :: "nat \<Rightarrow> evaluation_context \<Rightarrow> compiled_rule \<Rightarrow> verdict" where
  "verdict_of max_steps ctx r =
     (case fst (interpreter_run max_steps ctx (rule_tree r)) of
        Inr m \<Rightarrow> (if m then Matches else No_match)
      | Inl (RuleEvaluationError x) \<Rightarrow> Fails x
      | Inl e \<Rightarrow> Escapes e)"

fun fails :: "verdict \<Rightarrow> bool" where
  "fails (Fails x) = True"
| "fails _ = False"

fun escapes :: "verdict \<Rightarrow> bool" where
  "escapes (Escapes e) = True"
| "escapes _ = False"

definition counts :: "(severity \<rightharpoonup> string) \<Rightarrow> nat \<Rightarrow> evaluation_context \<Rightarrow> compiled_rule \<Rightarrow> bool" where
  "counts policy max_steps ctx r \<longleftrightarrow>
     rule_state r = ACTIVE \<and>
     (verdict_of max_steps ctx r = Matches \<or>
      fails (verdict_of max_steps ctx r) \<and> policy (rule_severity r) = Some ''closed'')"

definition spec_outcome :: "(severity \<rightharpoonup> string) \<Rightarrow> nat \<Rightarrow> evaluation_context \<Rightarrow> compiled_rule set \<Rightarrow> outcome" where
  "spec_outcome policy max_steps ctx R =
     Max (insert ALLOW_OUT ((severity_outcome \<circ> rule_severity) ` {r \<in> R. counts policy max_steps ctx r}))"

definition well_keyed :: "rule_set \<Rightarrow> bool" where
  "well_keyed rs \<longleftrightarrow> distinct (map rule_id (rs_rules rs)) \<and> sorted (map rule_sort_key (rs_rules rs))"


section \<open>Refinement\<close>

lemma well_keyed_make_rule_set:
  "distinct (map rule_id rules) \<Longrightarrow> well_keyed (make_rule_set v rules)"
  by (auto simp: well_keyed_def make_rule_set_def distinct_map)

lemma distinct_sort_keys: "distinct (map rule_id rs) \<Longrightarrow> distinct (map rule_sort_key rs)"
  by (induction rs) (auto simp: rule_sort_key_def)

lemma evaluate_one_verdict:
  "evaluate_one r ctx n = Inr ro \<Longrightarrow>
     ro_rule ro = r \<and> ro_matched ro = (verdict_of n ctx r = Matches) \<and> errored ro = fails (verdict_of n ctx r)"
  "is_ok (evaluate_one r ctx n) \<longleftrightarrow> \<not> escapes (verdict_of n ctx r)"
  by (auto simp: evaluate_one_def verdict_of_def errored_def
      split: prod.splits sum.splits exn.splits)

lemma evaluate_all_verdicts:
  assumes "mapE (\<lambda>r. evaluate_one r ctx n) rs = Inr os"
  shows "map ro_rule os = rs"
    and "map ro_rule (filter ro_matched os) = filter (\<lambda>r. verdict_of n ctx r = Matches) rs"
    and "map ro_rule (filter (\<lambda>ro. errored ro \<and> P (ro_rule ro)) os) = filter (\<lambda>r. fails (verdict_of n ctx r) \<and> P r) rs"
  using assms
  by (induction rs arbitrary: os) (auto split: sum.splits dest!: evaluate_one_verdict(1))

lemma deciding_list:
  assumes "well_keyed rs" and live: "mapE (\<lambda>r. evaluate_one r ctx n) (active rs) = Inr live"
  shows "sort_key rule_sort_key (map snd (dict_of [] (map (\<lambda>r. (rule_id r, r))
      (map ro_rule (filter ro_matched live) @
       map ro_rule (filter (\<lambda>ro. errored ro \<and> policy (rule_severity (ro_rule ro)) = Some ''closed'') live)))))
    = filter (counts policy n ctx) (rs_rules rs)"
    (is "sort_key _ (map snd (dict_of [] (map _ (?m @ ?f)))) = ?spec")
proof -
  have d: "distinct (map rule_id (active rs))"
    using assms(1) by (simp add: well_keyed_def active_def distinct_map_filter)
  note v = evaluate_all_verdicts(2) [OF live]
    evaluate_all_verdicts(3) [OF live, where P = "\<lambda>r. policy (rule_severity r) = Some ''closed''"]
  have "distinct (map rule_id (?m @ ?f))"
    using d unfolding v
    by (auto simp: distinct_map_filter) (metis distinct_map fails.simps(2) inj_onD)
  then have "map snd (dict_of [] (map (\<lambda>r. (rule_id r, r)) (?m @ ?f))) = ?m @ ?f"
    and id: "distinct (map rule_id (?m @ ?f))"
    by (simp_all add: dict_of_distinct o_def)
  moreover have "sort_key rule_sort_key (?m @ ?f) = ?spec"
  proof (rule sorted_key_unique [where f = rule_sort_key])
    show "sorted (map rule_sort_key ?spec)" "distinct (map rule_sort_key ?spec)"
      using assms(1) distinct_sort_keys
      by (auto simp: well_keyed_def sorted_filter distinct_map_filter)
    show "distinct (map rule_sort_key (sort_key rule_sort_key (?m @ ?f)))"
      using distinct_sort_keys [OF id] unfolding distinct_map set_sort distinct_sort .
    show "set (sort_key rule_sort_key (?m @ ?f)) = set ?spec"
      unfolding v set_sort by (auto simp: counts_def active_def)
  qed simp
  ultimately show ?thesis by simp
qed

text \<open>Everything \<open>decide\<close> returns, in terms of the verdicts of the rules.\<close>

lemma decide_Inr:
  assumes "well_keyed rs" and "decide rs ctx fb n = Inr d"
  defines "deciding \<equiv> filter (counts (fallback_policy fb) n ctx) (rs_rules rs)"
  shows "matched_rules d = deciding"
    and "dec_outcome d = combine deciding"
    and "reason d = reason_for deciding (combine deciding)"
    and "dec_customer_message d = customer_message_for deciding (combine deciding)"
    and "shadow_matches d = filter (\<lambda>r. verdict_of n ctx r = Matches) (shadow rs)"
    and "map ro_rule (errored_rules d) = filter (\<lambda>r. fails (verdict_of n ctx r)) (active rs @ shadow rs)"
    and "degraded d \<longleftrightarrow> errored_rules d \<noteq> []"
    and "evaluated_rules d = length (active rs) + length (shadow rs)"
proof -
  from assms(2) obtain live sh where
    live: "mapE (\<lambda>r. evaluate_one r ctx n) (active rs) = Inr live" and
    sh: "mapE (\<lambda>r. evaluate_one r ctx n) (shadow rs) = Inr sh"
    by (auto simp: decide_def)
  note dl = deciding_list [OF assms(1) live, of "fallback_policy fb", folded deciding_def]
  note e = evaluate_all_verdicts(3) [where P = "\<lambda>_. True", simplified]
  have "d = \<lparr>dec_outcome = combine deciding, matched_rules = deciding,
      shadow_matches = map ro_rule (filter ro_matched sh), errored_rules = filter errored (live @ sh),
      evaluated_rules = length live + length sh, degraded = (filter errored (live @ sh) \<noteq> []),
      reason = reason_for deciding (combine deciding),
      dec_customer_message = customer_message_for deciding (combine deciding),
      dec_steps = sum_list (map ro_steps (live @ sh))\<rparr>"
    using assms(2) unfolding decide_def live sh bindE_simps Let_def dl by simp
  then show "matched_rules d = deciding" "dec_outcome d = combine deciding"
    "reason d = reason_for deciding (combine deciding)"
    "dec_customer_message d = customer_message_for deciding (combine deciding)"
    "shadow_matches d = filter (\<lambda>r. verdict_of n ctx r = Matches) (shadow rs)"
    "map ro_rule (errored_rules d) = filter (\<lambda>r. fails (verdict_of n ctx r)) (active rs @ shadow rs)"
    "degraded d \<longleftrightarrow> errored_rules d \<noteq> []"
    "evaluated_rules d = length (active rs) + length (shadow rs)"
    using evaluate_all_verdicts(2) [OF sh] e [OF live] e [OF sh] mapE_length [OF live] mapE_length [OF sh]
    by simp_all
qed

lemma decide_is_ok:
  "is_ok (decide rs ctx fb n) \<longleftrightarrow>
     (\<forall>r \<in> set (rs_rules rs). rule_state r \<in> {ACTIVE, SHADOW} \<longrightarrow> \<not> escapes (verdict_of n ctx r))"
proof -
  have m: "is_ok (mapE (\<lambda>r. evaluate_one r ctx n) xs) \<longleftrightarrow> (\<forall>r \<in> set xs. \<not> escapes (verdict_of n ctx r))" for xs
    unfolding evaluate_one_verdict(2) [symmetric]
    by (induction xs) (auto simp: is_ok_iff split: sum.splits)
  have "is_ok (decide rs ctx fb n) \<longleftrightarrow>
      is_ok (mapE (\<lambda>r. evaluate_one r ctx n) (active rs)) \<and> is_ok (mapE (\<lambda>r. evaluate_one r ctx n) (shadow rs))"
    by (auto simp: decide_def Let_def is_ok_iff)
  then show ?thesis unfolding m by (auto simp: active_def shadow_def)
qed

lemma severity_le_combine: "r \<in> set rs \<Longrightarrow> severity_outcome (rule_severity r) \<le> combine rs"
  by (cases "rule_severity r") (auto simp: combine_def list_ex_iff less_eq_outcome_def)

lemma combine_Max: "combine rs = Max (insert ALLOW_OUT ((severity_outcome \<circ> rule_severity) ` set rs))"
proof (rule sym, rule Max_eqI)
  show "combine rs \<in> insert ALLOW_OUT ((severity_outcome \<circ> rule_severity) ` set rs)"
    by (force simp: combine_def list_ex_iff)
qed (auto simp: severity_le_combine)


section \<open>Properties\<close>

definition example_rule :: "string \<Rightarrow> severity \<Rightarrow> rule_state \<Rightarrow> compiled_rule" where
  "example_rule i sev st =
     \<lparr>rule_id = i, rule_name = ''limit '' @ i, rule_tree = example_tree, rule_severity = sev, rule_state = st,
      rule_priority = 0, regulatory_reference = [], rule_customer_message = ''refused''\<rparr>"

definition example_rules :: rule_set where
  "example_rules = make_rule_set 1 [example_rule ''b'' BLOCK ACTIVE, example_rule ''a'' FLAG SHADOW]"

lemma well_keyed_example: "well_keyed example_rules"
  unfolding example_rules_def by (rule well_keyed_make_rule_set) (simp add: example_rule_def)

lemma rules_example:
  "rs_rules example_rules = [example_rule ''a'' FLAG SHADOW, example_rule ''b'' BLOCK ACTIVE]"
  by code_simp

lemma run_example:
  "interpreter_run MAX_STEPS (example_context n) example_tree = (Inr (100 < n), 3)"
  "interpreter_run MAX_STEPS \<lparr>ctx_facts = Map.empty, ctx_functions = fs\<rparr> example_tree =
     (Inl (RuleEvaluationError (UnknownFact ''amount_minor'')), 2)"
  by (simp_all add: interpreter_run_def example_tree_def example_context_def bind_run_def tick_def limit_defs
      lift_run_def ret_def read_fact_def compare_op_def compare_values_def same_orderable_kind_def
      eval_error_def)

lemma verdict_example:
  "verdict_of MAX_STEPS (example_context n) (example_rule i sev st) = (if 100 < n then Matches else No_match)"
  "verdict_of MAX_STEPS \<lparr>ctx_facts = Map.empty, ctx_functions = fs\<rparr> (example_rule i sev st) =
     Fails (UnknownFact ''amount_minor'')"
  by (simp_all add: verdict_of_def example_rule_def run_example)

lemma decide_example_ok:
  "is_ok (decide example_rules (example_context n) fb MAX_STEPS)"
  "is_ok (decide example_rules \<lparr>ctx_facts = Map.empty, ctx_functions = fs\<rparr> fb MAX_STEPS)"
  by (simp_all add: decide_is_ok rules_example verdict_example)

text \<open>C1. \<open>decide\<close> implements its specification: the outcome is the most severe one that an
  active rule calls for which matched, or which could not be evaluated while its severity fails
  closed; \<open>matched_rules\<close> lists exactly those rules, in the rule set's priority order; the
  decision is degraded exactly when an active or shadow rule could not be evaluated.\<close>

theorem decide_implements_spec:
  assumes "well_keyed rs" and "decide rs ctx fb n = Inr d"
  shows "dec_outcome d = spec_outcome (fallback_policy fb) n ctx (set (rs_rules rs))
    \<and> matched_rules d = filter (counts (fallback_policy fb) n ctx) (rs_rules rs)
    \<and> (degraded d \<longleftrightarrow> (\<exists>r \<in> set (active rs) \<union> set (shadow rs). fails (verdict_of n ctx r)))
    \<and> evaluated_rules d = length (active rs) + length (shadow rs)"
proof -
  note d = decide_Inr [OF assms]
  have "degraded d \<longleftrightarrow> map ro_rule (errored_rules d) \<noteq> []" by (simp add: d(7))
  then have "degraded d \<longleftrightarrow> (\<exists>r \<in> set (active rs) \<union> set (shadow rs). fails (verdict_of n ctx r))"
    unfolding d(6) by (auto simp: filter_empty_conv)
  then show ?thesis by (simp add: d spec_outcome_def combine_Max)
qed

theorem decide_implements_spec_witness:
  "\<exists>d. decide example_rules (example_context 500) None MAX_STEPS = Inr d \<and> dec_outcome d = BLOCK_OUT
     \<and> matched_rules d = [example_rule ''b'' BLOCK ACTIVE] \<and> \<not> degraded d"
proof -
  from decide_example_ok(1) obtain d where d: "decide example_rules (example_context 500) None MAX_STEPS = Inr d"
    by (auto simp: is_ok_iff)
  have c: "counts p MAX_STEPS (example_context 500) (example_rule i sev st) = (st = ACTIVE)" for p i sev st
    by (simp add: counts_def verdict_example) (simp add: example_rule_def)
  have "{r. (r = example_rule ''a'' FLAG SHADOW \<or> r = example_rule ''b'' BLOCK ACTIVE) \<and>
      counts p MAX_STEPS (example_context 500) r} = {example_rule ''b'' BLOCK ACTIVE}" for p
    by (auto simp: c)
  moreover have "max ALLOW_OUT BLOCK_OUT = BLOCK_OUT" by (simp add: max_def)
  ultimately show ?thesis
    using decide_implements_spec [OF well_keyed_example d] d
    by (simp add: rules_example c spec_outcome_def active_def shadow_def verdict_example)
      (simp add: example_rule_def)
qed

text \<open>\<open>decide\<close> returns a decision exactly when no active and no shadow rule raises anything
  but \<open>RuleEvaluationError\<close>: a rule that merely cannot be evaluated never takes the decision
  down, while another exception (Python's \<open>TypeError\<close>) of a single rule, even a shadow one,
  loses the whole decision.\<close>

theorem decide_returns_iff:
  "is_ok (decide rs ctx fb n) \<longleftrightarrow>
     (\<forall>r \<in> set (rs_rules rs). rule_state r \<in> {ACTIVE, SHADOW} \<longrightarrow> \<not> escapes (verdict_of n ctx r))"
  by (rule decide_is_ok)

theorem decide_returns_iff_witness:
  "is_ok (decide example_rules (example_context 500) None MAX_STEPS)"
  unfolding decide_returns_iff by (simp add: rules_example verdict_example)


definition example_active_only :: rule_set where
  "example_active_only = make_rule_set 1 [example_rule ''b'' BLOCK ACTIVE]"


text \<open>A decision does not depend on the order a rule set was built in: with distinct ids,
  any permutation of the rules gives the same decision, the order of \<open>matched_rules\<close> included.\<close>

theorem decision_independent_of_rule_order:
  assumes "distinct (map rule_id rules)" and "mset rules = mset rules'"
  shows "decide (make_rule_set v rules) ctx fb n = decide (make_rule_set v rules') ctx fb n"
proof -
  have "distinct (map rule_id rules')"
    using assms by (metis distinct_map mset_eq_setD mset_eq_imp_distinct_iff)
  then have "sort_key rule_sort_key rules = sort_key rule_sort_key rules'"
    using assms distinct_sort_keys mset_eq_setD [OF assms(2)]
    by (intro sorted_key_unique [where f = rule_sort_key]) (auto simp: distinct_map)
  then show ?thesis by (simp add: make_rule_set_def)
qed

theorem decision_independent_of_rule_order_witness:
  "decide example_rules (example_context 7) None MAX_STEPS =
   decide (make_rule_set 1 [example_rule ''a'' FLAG SHADOW, example_rule ''b'' BLOCK ACTIVE]) (example_context 7) None MAX_STEPS"
  unfolding example_rules_def
  by (rule decision_independent_of_rule_order) (simp_all add: example_rule_def)

text \<open>C6. Fail-closed by default: an active block rule that could not be evaluated (a missing
  fact, velocity data out of reach) blocks the transaction, is listed among the matched rules and
  marks the decision degraded, unless the tenant overrides the fallback for block.\<close>

theorem failed_block_rule_blocks:
  assumes "well_keyed rs" and "decide rs ctx None n = Inr d"
    and "r \<in> set (rs_rules rs)" and "rule_state r = ACTIVE" and "rule_severity r = BLOCK"
    and "fails (verdict_of n ctx r)"
  shows "dec_outcome d = BLOCK_OUT \<and> r \<in> set (matched_rules d) \<and> degraded d"
proof -
  note d = decide_Inr [OF assms(1,2)]
  from assms(4-6) have "counts (fallback_policy None) n ctx r"
    by (simp add: counts_def fallback_policy_def DEFAULT_FALLBACK_def)
  with assms(3) have r: "r \<in> set (filter (counts (fallback_policy None) n ctx) (rs_rules rs))" by simp
  from severity_le_combine [OF r] assms(5) have "BLOCK_OUT \<le> dec_outcome d" by (simp add: d(2))
  moreover have "r \<in> set (map ro_rule (errored_rules d))"
    using assms(3,4,6) unfolding d(6) by (simp add: active_def)
  then have "degraded d" by (auto simp: d(7))
  ultimately show ?thesis using r d(1) le_BLOCK_OUT antisym by metis
qed

theorem failed_block_rule_blocks_witness:
  "\<exists>d. decide example_rules \<lparr>ctx_facts = Map.empty, ctx_functions = Map.empty\<rparr> None MAX_STEPS = Inr d
     \<and> dec_outcome d = BLOCK_OUT \<and> degraded d"
proof -
  from decide_example_ok(2) obtain d where
    d: "decide example_rules \<lparr>ctx_facts = Map.empty, ctx_functions = Map.empty\<rparr> None MAX_STEPS = Inr d"
    by (auto simp: is_ok_iff)
  have "rule_state (example_rule ''b'' BLOCK ACTIVE) = ACTIVE" "rule_severity (example_rule ''b'' BLOCK ACTIVE) = BLOCK"
    by (simp_all add: example_rule_def)
  with failed_block_rule_blocks [OF well_keyed_example d, of "example_rule ''b'' BLOCK ACTIVE"] d
  show ?thesis by (simp add: rules_example verdict_example)
qed

text \<open>What the caller is told comes from one rule: when some rule decided the outcome, the
  reason is the name of the first rule in priority order whose severity is the outcome's, and a
  customer message is present only on a block and is that same rule's.\<close>

theorem reason_is_of_the_deciding_rule:
  assumes "well_keyed rs" and "decide rs ctx fb n = Inr d" and "dec_outcome d \<noteq> ALLOW_OUT"
  shows "\<exists>us r vs. matched_rules d = us @ r # vs \<and> severity_outcome (rule_severity r) = dec_outcome d
    \<and> (\<forall>u \<in> set us. severity_outcome (rule_severity u) \<noteq> dec_outcome d)
    \<and> reason d = rule_name r
    \<and> dec_customer_message d = (if dec_outcome d = BLOCK_OUT then rule_customer_message r else [])"
proof -
  note d = decide_Inr [OF assms(1,2)]
  let ?P = "\<lambda>r. severity_outcome (rule_severity r) = dec_outcome d"
  have "dec_outcome d = combine (matched_rules d)" by (simp add: d)
  then have "\<exists>r \<in> set (matched_rules d). ?P r"
    using assms(3) by (force simp: combine_def list_ex_iff split: if_splits)
  then obtain us r vs where split: "matched_rules d = us @ r # vs" "?P r" "\<forall>u \<in> set us. \<not> ?P u"
    using split_list_first_prop [of "matched_rules d" ?P] by blast
  then have "deciding_rule (matched_rules d) (dec_outcome d) = Some r"
    by (simp add: deciding_rule_def find_first)
  moreover have "reason d = reason_for (matched_rules d) (dec_outcome d)"
    "dec_customer_message d = customer_message_for (matched_rules d) (dec_outcome d)"
    by (simp_all add: d)
  ultimately have "reason d = rule_name r"
    "dec_customer_message d = (if dec_outcome d = BLOCK_OUT then rule_customer_message r else [])"
    by (auto simp: reason_for_def customer_message_for_def)
  with split show ?thesis by blast
qed

theorem reason_is_of_the_deciding_rule_witness:
  "\<exists>d r. decide example_rules (example_context 500) None MAX_STEPS = Inr d \<and> dec_outcome d = BLOCK_OUT
     \<and> r \<in> set (matched_rules d) \<and> reason d = rule_name r \<and> dec_customer_message d = rule_customer_message r"
proof -
  from decide_example_ok(1) obtain d where d: "decide example_rules (example_context 500) None MAX_STEPS = Inr d"
    by (auto simp: is_ok_iff)
  have "counts p MAX_STEPS (example_context 500) (example_rule i sev st) = (st = ACTIVE)" for p i sev st
    by (simp add: counts_def verdict_example) (simp add: example_rule_def)
  then have "dec_outcome d = BLOCK_OUT"
    by (simp add: decide_Inr(2) [OF well_keyed_example d] rules_example combine_def) (simp add: example_rule_def)
  with reason_is_of_the_deciding_rule [OF well_keyed_example d] d show ?thesis by fastforce
qed

end
