(* ===== verification/Roles.thy ===== *)
theory Roles
  imports Prelude
begin

text \<open>
  Who may do what (\<open>src/complylayer/tenancy/roles.py\<close>) and the issuing of keys by keys
  (\<open>ApiKeyViewSet.create\<close> in \<open>src/complylayer/api/management/views.py\<close>, its permission guards).

  A refusal is \<open>Inl\<close> of a \<open>permission_denied\<close>, which records the actor, the action and which
  guard refused. Issuing keys is a step relation on the roles of the keys a tenant has; the
  invariant is that no key can do more than the keys it descends from.
\<close>


section \<open>Roles and actions\<close>

datatype role = COMPLIANCE_ANALYST | COMPLIANCE_OFFICER | RISK_MANAGER | ENGINEER | AUDITOR

datatype action =
    A_CREATE_DRAFT | A_EDIT_DRAFT | A_BACKTEST | A_SHADOW | A_REQUEST_APPROVAL | A_APPROVE
  | A_ACTIVATE | A_ARCHIVE | A_REVERT | A_EMERGENCY_OVERRIDE | A_REVIEW_DECISION | A_MANAGE_KEYS

definition EVERYONE :: "action list" where
  "EVERYONE = [A_BACKTEST]"

fun PERMISSIONS :: "role \<Rightarrow> action set" where
  "PERMISSIONS COMPLIANCE_ANALYST =
     set EVERYONE \<union> {A_CREATE_DRAFT, A_EDIT_DRAFT, A_SHADOW, A_REQUEST_APPROVAL}"
| "PERMISSIONS COMPLIANCE_OFFICER =
     set EVERYONE \<union> {A_CREATE_DRAFT, A_EDIT_DRAFT, A_SHADOW, A_REQUEST_APPROVAL, A_APPROVE, A_ACTIVATE,
       A_ARCHIVE, A_REVERT, A_REVIEW_DECISION, A_MANAGE_KEYS}"
| "PERMISSIONS RISK_MANAGER =
     set EVERYONE \<union> {A_CREATE_DRAFT, A_EDIT_DRAFT, A_SHADOW, A_REQUEST_APPROVAL, A_APPROVE, A_ACTIVATE,
       A_ARCHIVE, A_REVERT, A_EMERGENCY_OVERRIDE, A_REVIEW_DECISION, A_MANAGE_KEYS}"
| "PERMISSIONS ENGINEER = set EVERYONE \<union> {A_MANAGE_KEYS}"
| "PERMISSIONS AUDITOR = set EVERYONE"

record actor =
  actor_id :: string
  actor_role :: role
  actor_ip :: string

fun role_text :: "role \<Rightarrow> string" where
  "role_text COMPLIANCE_ANALYST = ''compliance_analyst''"
| "role_text COMPLIANCE_OFFICER = ''compliance_officer''"
| "role_text RISK_MANAGER = ''risk_manager''"
| "role_text ENGINEER = ''engineer''"
| "role_text AUDITOR = ''auditor''"

text \<open>\<open>Role(text)\<close>: \<open>None\<close> is the \<open>ValueError\<close>.\<close>

definition role_of_text :: "string \<Rightarrow> role option" where
  "role_of_text s =
     List.find (\<lambda>r. role_text r = s) [COMPLIANCE_ANALYST, COMPLIANCE_OFFICER, RISK_MANAGER, ENGINEER, AUDITOR]"

lemma role_of_text_role_text: "role_of_text (role_text r) = Some r"
  by (cases r) (simp_all add: role_of_text_def)

definition as_audit_actor :: "actor \<Rightarrow> (string \<times> string) list" where
  "as_audit_actor a =
     [(''type'', ''user''), (''id'', actor_id a), (''role'', role_text (actor_role a)), (''ip'', actor_ip a)]"


section \<open>Guards\<close>

datatype denial = Denied_Role action | Denied_Issue role | Denied_Author action

definition may :: "role \<Rightarrow> action \<Rightarrow> bool" where
  "may r a \<longleftrightarrow> a \<in> PERMISSIONS r"

definition require_action :: "actor \<Rightarrow> action \<Rightarrow> denial + unit" where
  "require_action who a = (if \<not> may (actor_role who) a then Inl (Denied_Role a) else Inr ())"

definition may_issue :: "role \<Rightarrow> role \<Rightarrow> bool" where
  "may_issue actor_r target \<longleftrightarrow> PERMISSIONS target \<subseteq> PERMISSIONS actor_r"

definition require_issuable :: "actor \<Rightarrow> role \<Rightarrow> denial + unit" where
  "require_issuable who target =
     (if \<not> may_issue (actor_role who) target then Inl (Denied_Issue target) else Inr ())"

definition require_not_author :: "actor \<Rightarrow> string \<Rightarrow> action \<Rightarrow> denial + unit" where
  "require_not_author who author a = (if actor_id who = author then Inl (Denied_Author a) else Inr ())"

lemmas guard_defs = require_action_def require_issuable_def require_not_author_def may_def may_issue_def

lemma require_action_Inr [simp]: "require_action who a = Inr u \<longleftrightarrow> a \<in> PERMISSIONS (actor_role who)"
  by (auto simp: guard_defs)

lemma require_not_author_Inr [simp]: "require_not_author who author a = Inr u \<longleftrightarrow> actor_id who \<noteq> author"
  by (auto simp: guard_defs)

lemma require_issuable_Inr [simp]:
  "require_issuable who target = Inr u \<longleftrightarrow> PERMISSIONS target \<subseteq> PERMISSIONS (actor_role who)"
  by (auto simp: guard_defs)

text \<open>The guards of \<open>ApiKeyViewSet.create\<close>, in order; \<open>None\<close> for a role that is not one.\<close>

definition issue_key_guard :: "actor \<Rightarrow> string \<Rightarrow> (denial + role) option" where
  "issue_key_guard who role_name =
     (case require_action who A_MANAGE_KEYS of
        Inl e \<Rightarrow> Some (Inl e)
      | Inr _ \<Rightarrow>
          (case role_of_text role_name of
             None \<Rightarrow> None
           | Some target \<Rightarrow>
               (case require_issuable who target of
                  Inl e \<Rightarrow> Some (Inl e)
                | Inr _ \<Rightarrow> Some (Inr target))))"


section \<open>Issuing keys\<close>

text \<open>The roles of all keys ever issued to a tenant. Any of them may be used to issue another.\<close>

inductive key_step :: "role list \<Rightarrow> role list \<Rightarrow> bool" where
  issue: "r \<in> set keys \<Longrightarrow> actor_role who = r \<Longrightarrow> issue_key_guard who name = Some (Inr target) \<Longrightarrow>
    key_step keys (keys @ [target])"

inductive_cases key_stepE: "key_step keys keys'"

definition no_more_than :: "role list \<Rightarrow> role list \<Rightarrow> bool" where
  "no_more_than old new \<longleftrightarrow> (\<forall>r \<in> set new. \<exists>r0 \<in> set old. PERMISSIONS r \<subseteq> PERMISSIONS r0)"

lemma issue_key_guard_Inr:
  "issue_key_guard who name = Some (Inr target) \<Longrightarrow>
   A_MANAGE_KEYS \<in> PERMISSIONS (actor_role who) \<and> PERMISSIONS target \<subseteq> PERMISSIONS (actor_role who)"
  by (auto simp: issue_key_guard_def split: sum.splits option.splits)

lemma no_more_than_step: "no_more_than old keys \<Longrightarrow> key_step keys keys' \<Longrightarrow> no_more_than old keys'"
  unfolding no_more_than_def
  by (erule key_stepE) (auto dest!: issue_key_guard_Inr, blast)

interpretation issuing: step_invariant key_step "no_more_than old"
  by unfold_locales (rule no_more_than_step)

lemma no_more_than_steps: "key_step\<^sup>*\<^sup>* old keys \<Longrightarrow> no_more_than old keys"
  by (rule issuing.run_keeps) (auto simp: no_more_than_def)


section \<open>Properties\<close>

text \<open>The key endpoint is no privilege escalation: after any sequence of issuings, each by a
  key the tenant has at that moment, every key's permissions are contained in those of one of the
  keys the sequence started from.\<close>

theorem no_privilege_escalation:
  assumes "key_step\<^sup>*\<^sup>* old keys" and "r \<in> set keys" and "may r a"
  shows "\<exists>r0 \<in> set old. may r0 a"
  using no_more_than_steps [OF assms(1)] assms(2,3) by (fastforce simp: no_more_than_def may_def)

definition engineer_actor :: actor where
  "engineer_actor = \<lparr>actor_id = ''key_1'', actor_role = ENGINEER, actor_ip = []\<rparr>"

lemma engineer_issues_auditor: "key_step [ENGINEER] ([ENGINEER] @ [AUDITOR])"
proof (rule key_step.issue [of ENGINEER])
  show "issue_key_guard engineer_actor ''auditor'' = Some (Inr AUDITOR)"
    by (simp add: issue_key_guard_def guard_defs engineer_actor_def role_of_text_def EVERYONE_def)
qed (simp_all add: engineer_actor_def)

theorem no_privilege_escalation_witness:
  "key_step\<^sup>*\<^sup>* [ENGINEER] [ENGINEER, AUDITOR] \<and> (\<exists>r0 \<in> set [ENGINEER]. may r0 A_BACKTEST)"
proof -
  from engineer_issues_auditor have "key_step\<^sup>*\<^sup>* [ENGINEER] [ENGINEER, AUDITOR]"
    by (simp add: r_into_rtranclp)
  with no_privilege_escalation [OF this, of AUDITOR A_BACKTEST] show ?thesis
    by (simp add: may_def EVERYONE_def)
qed

text \<open>An engineer cannot touch a control: no engineer's key may create, edit, shadow, approve,
  activate, archive or revert, and neither may any key issued, over any number of hands, from
  engineers' and auditors' keys.\<close>

theorem engineers_never_change_controls:
  assumes "key_step\<^sup>*\<^sup>* old keys" and "set old \<subseteq> {ENGINEER, AUDITOR}" and "r \<in> set keys"
  shows "r \<in> {ENGINEER, AUDITOR} \<and> PERMISSIONS r \<subseteq> {A_BACKTEST, A_MANAGE_KEYS}"
proof -
  from no_more_than_steps [OF assms(1)] assms(3) obtain r0 where "r0 \<in> set old" "PERMISSIONS r \<subseteq> PERMISSIONS r0"
    by (auto simp: no_more_than_def)
  with assms(2) have "r0 = ENGINEER \<or> r0 = AUDITOR" and "PERMISSIONS r \<subseteq> PERMISSIONS r0" by auto
  then have "PERMISSIONS r \<subseteq> {A_BACKTEST, A_MANAGE_KEYS}" by (auto simp: EVERYONE_def)
  then show ?thesis by (cases r) (auto simp: EVERYONE_def)
qed

theorem engineers_never_change_controls_witness:
  "PERMISSIONS AUDITOR \<subseteq> {A_BACKTEST, A_MANAGE_KEYS}"
  using engineers_never_change_controls [of "[ENGINEER]" "[ENGINEER, AUDITOR]" AUDITOR] engineer_issues_auditor
  by (simp add: r_into_rtranclp)

end
