(* ===== verification/Json.thy ===== *)
theory Json
  imports Py_Values
begin

text \<open>
  \<open>json.dumps(value, sort_keys=True, separators=(",", ":"))\<close> of Python's standard library, as
  the audit chain and its checkpoints use it (\<open>src/complylayer/audit/chain.py\<close>,
  \<open>src/complylayer/audit/checkpoint.py\<close>), on values decoded from JSON. A float's text
  (\<open>repr\<close>) is a parameter; \<open>default=str\<close> is never reached on such values.

  The result of this theory is that the text determines the value: two values with the same
  text are equal up to the order of dictionary keys and the difference of list and tuple.
\<close>


section \<open>Rendering\<close>

definition hex_digit :: "nat \<Rightarrow> char" where
  "hex_digit n = ''0123456789abcdef'' ! n"

definition escape_char :: "char \<Rightarrow> string" where
  "escape_char c =
     (let n = ord_c c in
      if n = 34 then [CHR 92, CHR 34]
      else if n = 92 then [CHR 92, CHR 92]
      else if n = 10 then [CHR 92, CHR ''n'']
      else if n = 13 then [CHR 92, CHR ''r'']
      else if n = 9 then [CHR 92, CHR ''t'']
      else if n = 12 then [CHR 92, CHR ''f'']
      else if n = 8 then [CHR 92, CHR ''b'']
      else if 32 \<le> n \<and> n \<le> 126 then [c]
      else [CHR 92, CHR ''u'', CHR ''0'', CHR ''0'', hex_digit (n div 16), hex_digit (n mod 16)])"

definition json_string :: "string \<Rightarrow> string" where
  "json_string s = CHR 34 # concat (map escape_char s) @ [CHR 34]"

text \<open>\<open>sort_keys=True\<close>, and a tuple is written like a list.\<close>

fun normalise :: "pyval \<Rightarrow> pyval" where
  "normalise (PTuple vs) = PList (map normalise vs)"
| "normalise (PList vs) = PList (map normalise vs)"
| "normalise (PDict d) = PDict (sort_key fst (map (\<lambda>(k, v). (k, normalise v)) d))"
| "normalise v = v"

fun dump :: "(rat \<Rightarrow> string) \<Rightarrow> pyval \<Rightarrow> string" where
  "dump fl PNone = ''null''"
| "dump fl (PBool b) = (if b then ''true'' else ''false'')"
| "dump fl (PInt i) = str_of_int i"
| "dump fl (PFloat q) = fl q"
| "dump fl (PStr s) = json_string s"
| "dump fl (PList vs) = ''['' @ str_join '','' (map (dump fl) vs) @ '']''"
| "dump fl (PTuple vs) = ''['' @ str_join '','' (map (dump fl) vs) @ '']''"
| "dump fl (PDict d) = ''{'' @ str_join '','' (map (\<lambda>(k, v). json_string k @ '':'' @ dump fl v) d) @ ''}''"
| "dump fl _ = []"

definition json_dumps :: "(rat \<Rightarrow> string) \<Rightarrow> pyval \<Rightarrow> string" where
  "json_dumps fl v = dump fl (normalise v)"

text \<open>The values without floats and other non-JSON constants, in normal form.\<close>

fun plain :: "pyval \<Rightarrow> bool" where
  "plain PNone = True"
| "plain (PBool b) = True"
| "plain (PInt i) = True"
| "plain (PStr s) = True"
| "plain (PList vs) = list_all plain vs"
| "plain (PDict d) = list_all (\<lambda>(k, v). plain v) d"
| "plain _ = False"


section \<open>Strings\<close>

lemma hex_digit_inject: "m < 16 \<Longrightarrow> n < 16 \<Longrightarrow> hex_digit m = hex_digit n \<longleftrightarrow> m = n"
proof -
  have "distinct ''0123456789abcdef''" by simp
  then show "m < 16 \<Longrightarrow> n < 16 \<Longrightarrow> hex_digit m = hex_digit n \<longleftrightarrow> m = n"
    unfolding hex_digit_def by (subst nth_eq_iff_index_eq) auto
qed

lemma ord_c_inject [simp]: "ord_c c = ord_c d \<longleftrightarrow> c = d"
  by (simp add: ord_c_def)

lemma ord_c_lt: "ord_c c < 256"
  by (simp add: ord_c_def)

lemma hex_pair_inject:
  assumes "hex_digit (ord_c c div 16) = hex_digit (ord_c d div 16)"
    and "hex_digit (ord_c c mod 16) = hex_digit (ord_c d mod 16)"
  shows "c = d"
proof -
  have "ord_c c div 16 = ord_c d div 16" "ord_c c mod 16 = ord_c d mod 16"
    using assms hex_digit_inject ord_c_lt [of c] ord_c_lt [of d] by auto
  then have "ord_c c = ord_c d" by (metis div_mult_mod_eq)
  then show ?thesis by simp
qed

lemma ord_c_numeral:
  "ord_c c = 34 \<longleftrightarrow> c = CHR 34" "ord_c c = 92 \<longleftrightarrow> c = CHR 92" "ord_c c = 10 \<longleftrightarrow> c = CHR 10"
  "ord_c c = 13 \<longleftrightarrow> c = CHR 13" "ord_c c = 9 \<longleftrightarrow> c = CHR 9" "ord_c c = 12 \<longleftrightarrow> c = CHR 12" "ord_c c = 8 \<longleftrightarrow> c = CHR 8"
proof -
  have "ord_c (CHR 34) = 34" "ord_c (CHR 92) = 92" "ord_c (CHR 10) = 10" "ord_c (CHR 13) = 13"
    "ord_c (CHR 9) = 9" "ord_c (CHR 12) = 12" "ord_c (CHR 8) = 8" by (simp_all add: ord_c_def)
  then show "ord_c c = 34 \<longleftrightarrow> c = CHR 34" "ord_c c = 92 \<longleftrightarrow> c = CHR 92" "ord_c c = 10 \<longleftrightarrow> c = CHR 10"
    "ord_c c = 13 \<longleftrightarrow> c = CHR 13" "ord_c c = 9 \<longleftrightarrow> c = CHR 9" "ord_c c = 12 \<longleftrightarrow> c = CHR 12" "ord_c c = 8 \<longleftrightarrow> c = CHR 8"
    by (metis ord_c_inject)+
qed

lemma escape_char_not_quote: "escape_char c @ u \<noteq> CHR 34 # v" "escape_char c \<noteq> []"
  by (auto simp: escape_char_def Let_def ord_c_numeral)

lemma escape_char_prefix:
  assumes "escape_char c @ u = escape_char d @ v"
  shows "c = d \<and> u = v"
  using assms hex_pair_inject [of c d]
  by (simp add: escape_char_def Let_def ord_c_numeral split: if_splits)

lemma escape_prefix:
  assumes "concat (map escape_char s) @ CHR 34 # u = concat (map escape_char t) @ CHR 34 # v"
  shows "s = t \<and> u = v"
  using assms
proof (induction s arbitrary: t)
  case Nil
  then show ?case by (cases t) (auto dest: sym simp: escape_char_not_quote)
next
  case (Cons c s)
  show ?case
  proof (cases t)
    case Nil
    with Cons.prems show ?thesis by (simp add: escape_char_not_quote)
  next
    case (Cons d t')
    with Cons.prems escape_char_prefix [of c "concat (map escape_char s) @ CHR 34 # u" d "concat (map escape_char t') @ CHR 34 # v"]
    have "c = d" "concat (map escape_char s) @ CHR 34 # u = concat (map escape_char t') @ CHR 34 # v"
      by simp_all
    with Cons.IH Cons show ?thesis by simp
  qed
qed

lemma json_string_prefix: "json_string s @ u = json_string t @ v \<Longrightarrow> s = t \<and> u = v"
  using escape_prefix [of s u t v] by (simp add: json_string_def)



section \<open>Values\<close>

definition stops :: "string \<Rightarrow> bool" where
  "stops s \<longleftrightarrow> s = [] \<or> hd s \<in> set '',]}''"

lemma stops_simps [simp]: "stops []" "stops (c # s) \<longleftrightarrow> c \<in> set '',]}''"
  by (simp_all add: stops_def)

lemma str_of_int_head:
  obtains c cs where "str_of_int i = c # cs" and "is_ascii_digit c \<or> c = CHR ''-''"
proof -
  have "str_of_int i \<noteq> []" by (simp add: str_of_int_def)
  then show thesis using that str_of_int_chars [of _ i] by (cases "str_of_int i") auto
qed

lemma not_digit:
  "\<not> is_ascii_digit (CHR ''n'')" "\<not> is_ascii_digit (CHR ''t'')" "\<not> is_ascii_digit (CHR ''f'')"
  "\<not> is_ascii_digit (CHR 34)" "\<not> is_ascii_digit (CHR ''['')" "\<not> is_ascii_digit (CHR ''{'')"
  "\<not> is_ascii_digit (CHR '','')" "\<not> is_ascii_digit (CHR '']'')" "\<not> is_ascii_digit (CHR ''}'')"
  by (simp_all add: char_class_defs)

lemma str_of_int_neq:
  assumes "c \<in> set (''ntf[{,]}'' @ [CHR 34])"
  shows "str_of_int i @ u \<noteq> c # v" "c # v \<noteq> str_of_int i @ u"
proof -
  obtain d ds where "str_of_int i = d # ds" "is_ascii_digit d \<or> d = CHR ''-''" by (rule str_of_int_head)
  with assms not_digit show "str_of_int i @ u \<noteq> c # v" "c # v \<noteq> str_of_int i @ u" by auto
qed

lemma str_of_int_prefix:
  assumes "str_of_int i @ u = str_of_int j @ v" and "stops u" and "stops v"
  shows "i = j \<and> u = v"
proof -
  let ?P = "\<lambda>c. is_ascii_digit c \<or> c = CHR ''-''"
  have tw: "takeWhile ?P (str_of_int k @ w) = str_of_int k" if "stops w" for k w
  proof -
    have "takeWhile ?P w = []" using that not_digit by (cases w) auto
    then show ?thesis using str_of_int_chars [of _ k] by (simp add: takeWhile_append)
  qed
  from assms have "str_of_int i = str_of_int j" by (metis tw)
  then have "i = j" by (metis option.inject parse_int_str_of_int)
  with assms(1) show ?thesis by simp
qed

lemma str_join_Cons:
  "str_join sep (x # xs) @ w = x @ (if xs = [] then w else sep @ str_join sep xs @ w)"
  by (cases xs) auto

lemma element_not_end:
  assumes "a \<noteq> [] \<and> hd a \<notin> set '',]}''" and "e \<in> set '']}''"
  shows "a @ w \<noteq> e # z" "e # z \<noteq> a @ w"
  using assms by (cases a; auto)+

lemma join_prefix:
  assumes "str_join '','' (map f vs) @ e # u = str_join '','' (map f ws) @ e # v"
    and "e \<in> set '']}''"
    and "\<And>x y u v. x \<in> set vs \<Longrightarrow> y \<in> set ws \<Longrightarrow> stops u \<Longrightarrow> stops v \<Longrightarrow> f x @ u = f y @ v \<Longrightarrow> x = y \<and> u = v"
    and "\<And>x. x \<in> set vs \<union> set ws \<Longrightarrow> f x \<noteq> [] \<and> hd (f x) \<notin> set '',]}''"
  shows "vs = ws \<and> u = v"
  using assms(1,3,4)
proof (induction vs arbitrary: ws)
  case Nil
  show ?case
  proof (cases ws)
    case (Cons y ys)
    have "e # u = f y @ (if ys = [] then e # v else '','' @ str_join '','' (map f ys) @ e # v)"
      using Nil.prems(1) unfolding Cons list.map str_join_Cons by simp
    with element_not_end(2) [OF Nil.prems(3) assms(2), of y] Cons show ?thesis by (metis list.set_intros(1) Un_iff)
  qed (use Nil in simp)
next
  case (Cons x xs)
  show ?case
  proof (cases ws)
    case Nil
    have "f x @ (if xs = [] then e # u else '','' @ str_join '','' (map f xs) @ e # u) = e # v"
      using Cons.prems(1) unfolding Nil list.map str_join_Cons by simp
    with element_not_end(1) [OF Cons.prems(3) assms(2), of x] show ?thesis by (metis list.set_intros(1) Un_iff)
  next
    case ws: (Cons y ys)
    let ?R = "\<lambda>zs w. if zs = [] then e # w else '','' @ str_join '','' (map f zs) @ e # w"
    have eq: "f x @ ?R xs u = f y @ ?R ys v"
      using Cons.prems(1) unfolding ws list.map str_join_Cons by simp
    have "x = y" "?R xs u = ?R ys v"
      using Cons.prems(2) [OF _ _ _ _ eq] assms(2) by (auto simp: ws)
    then have empty: "xs = [] \<longleftrightarrow> ys = []" and rest: "xs \<noteq> [] \<Longrightarrow> ys \<noteq> [] \<Longrightarrow>
        str_join '','' (map f xs) @ e # u = str_join '','' (map f ys) @ e # v"
      and "xs = [] \<Longrightarrow> ys = [] \<Longrightarrow> u = v"
      using assms(2) by (auto split: if_splits)
    moreover have "xs = ys \<and> u = v" if "xs \<noteq> []"
    proof (rule Cons.IH)
      show "str_join '','' (map f xs) @ e # u = str_join '','' (map f ys) @ e # v"
        using rest empty that by blast
      show "x' = y' \<and> u' = v'"
        if "x' \<in> set xs" "y' \<in> set ys" "stops u'" "stops v'" "f x' @ u' = f y' @ v'" for x' y' u' v'
        using that by (intro Cons.prems(2)) (auto simp: ws)
      show "f z \<noteq> [] \<and> hd (f z) \<notin> set '',]}''" if "z \<in> set xs \<union> set ys" for z
        using that by (intro Cons.prems(3)) (auto simp: ws)
    qed
    ultimately show ?thesis using \<open>x = y\<close> ws by (cases "xs = []") auto
  qed
qed

lemma dump_head:
  assumes "plain v"
  shows "dump fl v \<noteq> [] \<and> hd (dump fl v) \<notin> set '',]}''"
  using assms
proof (cases v)
  case (PInt i)
  then show ?thesis by (rule_tac str_of_int_head [of i]) (use not_digit in auto)
qed (auto simp: json_string_def)


lemma dump_prefix:
  "plain x \<Longrightarrow> plain y \<Longrightarrow> stops u \<Longrightarrow> stops v \<Longrightarrow> dump fl x @ u = dump fl y @ v \<Longrightarrow> x = y \<and> u = v"
proof (induction x arbitrary: y u v rule: plain.induct)
  case (3 i)
  then show ?case
    by (cases y) (auto simp: str_of_int_neq json_string_def dest: str_of_int_prefix split: if_splits)
next
  case (4 s)
  then show ?case
    by (cases y) (auto dest: json_string_prefix, auto simp: str_of_int_neq json_string_def split: if_splits)
next
  case (5 xs)
  show ?case
  proof (cases y)
    case (PList ys)
    have eq: "str_join '','' (map (dump fl) xs) @ CHR '']'' # u = str_join '','' (map (dump fl) ys) @ CHR '']'' # v"
      using "5.prems"(5) by (simp add: PList)
    have "xs = ys \<and> u = v"
    proof (rule join_prefix [OF eq])
      show "x' = y' \<and> u' = v'" if "x' \<in> set xs" "y' \<in> set ys" "stops u'" "stops v'"
        "dump fl x' @ u' = dump fl y' @ v'" for x' y' u' v'
        using that "5.prems"(1,2) by (intro "5.IH") (auto simp: PList list_all_iff)
    qed (use "5.prems"(1,2) dump_head in \<open>auto simp: PList list_all_iff\<close>)
    with PList show ?thesis by simp
  qed (use 5 in \<open>auto simp: str_of_int_neq json_string_def split: if_splits\<close>)
next
  case (6 d)
  let ?f = "\<lambda>(k, v). json_string k @ '':'' @ dump fl v"
  show ?case
  proof (cases y)
    case (PDict d')
    have eq: "str_join '','' (map ?f d) @ CHR ''}'' # u = str_join '','' (map ?f d') @ CHR ''}'' # v"
      using "6.prems"(5) by (simp add: PDict)
    have "d = d' \<and> u = v"
    proof (rule join_prefix [OF eq])
      show "x' = y' \<and> u' = v'" if "x' \<in> set d" "y' \<in> set d'" "stops u'" "stops v'"
        "?f x' @ u' = ?f y' @ v'" for x' y' u' v'
      proof -
        obtain k a k' b where xy: "x' = (k, a)" "y' = (k', b)" by (cases x', cases y')
        have "json_string k @ CHR '':'' # dump fl a @ u' = json_string k' @ CHR '':'' # dump fl b @ v'"
          using that(5) by (simp add: xy)
        then have "k = k'" "dump fl a @ u' = dump fl b @ v'" by (auto dest: json_string_prefix)
        moreover have "plain a" "plain b" using that(1,2) "6.prems"(1,2) by (auto simp: PDict list_all_iff xy)
        ultimately show ?thesis using "6.IH" [of x' k a b u' v'] that by (simp add: xy)
      qed
    qed (auto simp: json_string_def)
    with PDict show ?thesis by simp
  qed (use 6 in \<open>auto simp: str_of_int_neq json_string_def split: if_splits\<close>)
qed (case_tac y, auto simp: str_of_int_neq json_string_def split: if_splits)+

lemma json_dumps_inject:
  assumes "plain (normalise x)" and "plain (normalise y)" and "json_dumps fl x = json_dumps fl y"
  shows "normalise x = normalise y"
  using dump_prefix [OF assms(1,2), of "[]" "[]" fl] assms(3) by (simp add: json_dumps_def)

end
