(* ===== verification/Audit_Trail.thy ===== *)
theory Audit_Trail
  imports Json
begin

text \<open>
  The hash-chained audit trail and its signed checkpoints
  (\<open>src/complylayer/audit/chain.py\<close>, \<open>writer.py\<close>, \<open>checkpoint.py\<close>).

  SHA-256 (as hexadecimal text), the signature scheme, the text of floats, record ids and clock
  readings are parameters. One tenant's records are a list; the database's order is \<open>ordered\<close>,
  by \<open>(recorded_at, id)\<close>. \<open>occurred_at\<close> and \<open>signed_at\<close> are kept as the \<open>isoformat\<close> text the
  hash covers. The details of a failed verification are constructors, not sentences.

  \<open>hash_chain\<close> is the interface: a digest, the bytes a record's digest covers, and the law that
  these bytes determine the link to the previous record. From it follows that two verifying
  chains of the same length and head are the same, or a collision of the digest is at hand.
\<close>


section \<open>Records and their bytes\<close>

record audit_record =
  ar_id :: string
  ar_tenant :: string
  ar_event_type :: string
  ar_occurred_at :: string
  ar_recorded_at :: int
  ar_actor :: pyval
  ar_subject :: pyval
  ar_payload :: pyval
  ar_prev_hash :: string
  ar_hash :: string

definition GENESIS :: string where
  "GENESIS = ''sha256:'' @ replicate 64 (CHR ''0'')"

definition payload_object ::
  "string \<Rightarrow> string \<Rightarrow> string \<Rightarrow> string \<Rightarrow> pyval \<Rightarrow> pyval \<Rightarrow> pyval \<Rightarrow> string \<Rightarrow> pyval" where
  "payload_object record_id tenant event_type occurred_at act subject payload prev =
     PDict [(''id'', PStr record_id), (''tenant_id'', PStr tenant), (''event_type'', PStr event_type),
            (''occurred_at'', PStr occurred_at), (''actor'', act), (''subject'', subject),
            (''payload'', payload), (''prev_hash'', PStr prev)]"

definition canonical_payload ::
  "(rat \<Rightarrow> string) \<Rightarrow> string \<Rightarrow> string \<Rightarrow> string \<Rightarrow> string \<Rightarrow> pyval \<Rightarrow> pyval \<Rightarrow> pyval \<Rightarrow> string \<Rightarrow> string" where
  "canonical_payload fl record_id tenant event_type occurred_at act subject payload prev =
     json_dumps fl (payload_object record_id tenant event_type occurred_at act subject payload prev)"

definition hash_text :: "(string \<Rightarrow> string) \<Rightarrow> string \<Rightarrow> string" where
  "hash_text sha bytes = ''sha256:'' @ sha bytes"

definition compute_hash ::
  "(string \<Rightarrow> string) \<Rightarrow> (rat \<Rightarrow> string) \<Rightarrow> string \<Rightarrow> string \<Rightarrow> string \<Rightarrow> string \<Rightarrow> pyval \<Rightarrow> pyval \<Rightarrow> pyval \<Rightarrow> string \<Rightarrow> string" where
  "compute_hash sha fl record_id tenant event_type occurred_at act subject payload prev =
     hash_text sha (canonical_payload fl record_id tenant event_type occurred_at act subject payload prev)"

definition record_bytes :: "(rat \<Rightarrow> string) \<Rightarrow> audit_record \<Rightarrow> string" where
  "record_bytes fl r =
     canonical_payload fl (ar_id r) (ar_tenant r) (ar_event_type r) (ar_occurred_at r) (ar_actor r)
       (ar_subject r) (ar_payload r) (ar_prev_hash r)"

definition recomputed_hash :: "(string \<Rightarrow> string) \<Rightarrow> (rat \<Rightarrow> string) \<Rightarrow> audit_record \<Rightarrow> string" where
  "recomputed_hash sha fl r =
     compute_hash sha fl (ar_id r) (ar_tenant r) (ar_event_type r) (ar_occurred_at r) (ar_actor r)
       (ar_subject r) (ar_payload r) (ar_prev_hash r)"


section \<open>Verification\<close>

datatype chain_fault = No_fault | Wrong_link string string | Wrong_content

record verification_result =
  vr_ok :: bool
  vr_checked :: nat
  vr_broken_at :: "string option"
  vr_detail :: chain_fault

fun verify_from ::
  "(string \<Rightarrow> string) \<Rightarrow> (rat \<Rightarrow> string) \<Rightarrow> nat \<Rightarrow> string \<Rightarrow> audit_record list \<Rightarrow> verification_result" where
  "verify_from sha fl index expected [] =
     \<lparr>vr_ok = True, vr_checked = index, vr_broken_at = None, vr_detail = No_fault\<rparr>"
| "verify_from sha fl index expected (r # rs) =
     (if ar_prev_hash r \<noteq> expected then
        \<lparr>vr_ok = False, vr_checked = index, vr_broken_at = Some (ar_id r),
         vr_detail = Wrong_link (ar_prev_hash r) expected\<rparr>
      else if recomputed_hash sha fl r \<noteq> ar_hash r then
        \<lparr>vr_ok = False, vr_checked = index, vr_broken_at = Some (ar_id r), vr_detail = Wrong_content\<rparr>
      else verify_from sha fl (Suc index) (ar_hash r) rs)"

definition verify_chain :: "(string \<Rightarrow> string) \<Rightarrow> (rat \<Rightarrow> string) \<Rightarrow> audit_record list \<Rightarrow> verification_result" where
  "verify_chain sha fl recs = verify_from sha fl 0 GENESIS recs"


section \<open>Writing\<close>

definition record_key :: "audit_record \<Rightarrow> int \<times> string" where
  "record_key r = (ar_recorded_at r, ar_id r)"

definition ordered :: "audit_record list \<Rightarrow> audit_record list" where
  "ordered recs = sort_key record_key recs"

definition verify :: "(string \<Rightarrow> string) \<Rightarrow> (rat \<Rightarrow> string) \<Rightarrow> audit_record list \<Rightarrow> verification_result" where
  "verify sha fl recs = verify_chain sha fl (ordered recs)"

definition tail_hash :: "audit_record list \<Rightarrow> string" where
  "tail_hash recs = (if recs = [] then GENESIS else ar_hash (last (ordered recs)))"

text \<open>The new id, the occurrence time and the insertion time are what the surroundings supply.\<close>

definition append_record ::
  "(string \<Rightarrow> string) \<Rightarrow> (rat \<Rightarrow> string) \<Rightarrow> string \<Rightarrow> int \<Rightarrow> string \<Rightarrow> string \<Rightarrow> string \<Rightarrow> pyval \<Rightarrow> pyval \<Rightarrow> pyval option \<Rightarrow>
     audit_record list \<Rightarrow> audit_record \<times> audit_record list" where
  "append_record sha fl new_id now occurred_at tenant event_type act subject payload recs =
     (let prev = tail_hash recs;
          body = (case payload of None \<Rightarrow> PDict [] | Some p \<Rightarrow> if truthy p then p else PDict []);
          r = \<lparr>ar_id = new_id, ar_tenant = tenant, ar_event_type = event_type, ar_occurred_at = occurred_at,
               ar_recorded_at = now, ar_actor = act, ar_subject = subject, ar_payload = body,
               ar_prev_hash = prev,
               ar_hash = compute_hash sha fl new_id tenant event_type occurred_at act subject body prev\<rparr>
      in (r, recs @ [r]))"

definition correct ::
  "(string \<Rightarrow> string) \<Rightarrow> (rat \<Rightarrow> string) \<Rightarrow> string \<Rightarrow> int \<Rightarrow> string \<Rightarrow> string \<Rightarrow> string \<Rightarrow> pyval \<Rightarrow> string \<Rightarrow>
     audit_record list \<Rightarrow> audit_record \<times> audit_record list" where
  "correct sha fl new_id now occurred_at tenant corrects_id act reason recs =
     append_record sha fl new_id now occurred_at tenant ''audit.corrected'' act
       (PDict [(''type'', PStr ''audit_record''), (''id'', PStr corrects_id)])
       (Some (PDict [(''corrects'', PStr corrects_id), (''reason'', PStr reason)])) recs"


section \<open>Checkpoints\<close>

record checkpoint =
  cp_tenant :: string
  cp_chain_length :: nat
  cp_head_hash :: string
  cp_signed_at :: string
  cp_signature :: string

definition canonical_checkpoint :: "(rat \<Rightarrow> string) \<Rightarrow> string \<Rightarrow> nat \<Rightarrow> string \<Rightarrow> string \<Rightarrow> string" where
  "canonical_checkpoint fl tenant len head signed_at =
     json_dumps fl (PDict [(''tenant_id'', PStr tenant), (''chain_length'', PInt (int len)),
       (''head_hash'', PStr head), (''signed_at'', PStr signed_at)])"

definition write_checkpoint ::
  "(string \<Rightarrow> string \<Rightarrow> string) \<Rightarrow> (rat \<Rightarrow> string) \<Rightarrow> string \<Rightarrow> string \<Rightarrow> string \<Rightarrow> audit_record list \<Rightarrow> checkpoint option" where
  "write_checkpoint sign fl private_pem tenant moment recs =
     (if recs = [] then None
      else
        (let head = ar_hash (last (ordered recs))
         in Some \<lparr>cp_tenant = tenant, cp_chain_length = length recs, cp_head_hash = head, cp_signed_at = moment,
                  cp_signature = sign private_pem (canonical_checkpoint fl tenant (length recs) head moment)\<rparr>))"

datatype anchoring = SIGNED | UNANCHORED | BROKEN

definition latest_checkpoint :: "checkpoint list \<Rightarrow> checkpoint option" where
  "latest_checkpoint cps =
     (case sort_key (\<lambda>c. - int (cp_chain_length c)) cps of [] \<Rightarrow> None | c # _ \<Rightarrow> Some c)"

text \<open>\<open>None\<close> is the \<open>IndexError\<close> of \<open>hashes[-1]\<close> on a checkpoint of length zero, which
  \<open>write_checkpoint\<close> never makes.\<close>

definition verify_anchoring ::
  "(string \<Rightarrow> string \<Rightarrow> string \<Rightarrow> bool) \<Rightarrow> (rat \<Rightarrow> string) \<Rightarrow> string option \<Rightarrow> string \<Rightarrow> checkpoint list \<Rightarrow> audit_record list \<Rightarrow> anchoring option" where
  "verify_anchoring check_sig fl public_pem tenant cps recs =
     (case public_pem of
        None \<Rightarrow> Some UNANCHORED
      | Some pem \<Rightarrow>
          if pem = [] then Some UNANCHORED
          else
            (case latest_checkpoint cps of
               None \<Rightarrow> Some UNANCHORED
             | Some cp \<Rightarrow>
                 if \<not> check_sig pem (cp_signature cp)
                      (canonical_checkpoint fl tenant (cp_chain_length cp) (cp_head_hash cp) (cp_signed_at cp))
                 then Some BROKEN
                 else
                   (let hashes = map ar_hash (take (cp_chain_length cp) (ordered recs))
                    in if length hashes < cp_chain_length cp then Some BROKEN
                       else if hashes = [] then None
                       else if last hashes \<noteq> cp_head_hash cp then Some BROKEN
                       else Some SIGNED)))"


section \<open>Hash chains\<close>

locale hash_chain =
  fixes digest :: "'b \<Rightarrow> 'h"
    and bytes :: "'r \<Rightarrow> 'b"
    and prev :: "'r \<Rightarrow> 'h"
    and stored :: "'r \<Rightarrow> 'h"
    and proper :: "'r \<Rightarrow> bool"
  assumes bytes_cover_prev: "proper r \<Longrightarrow> proper s \<Longrightarrow> bytes r = bytes s \<Longrightarrow> prev r = prev s"
begin

fun linked :: "'h \<Rightarrow> 'r list \<Rightarrow> bool" where
  "linked p [] = True"
| "linked p (r # rs) = (prev r = p \<and> stored r = digest (bytes r) \<and> linked (stored r) rs)"

lemma linked_snoc:
  "linked p (rs @ [r]) \<longleftrightarrow>
     linked p rs \<and> prev r = (if rs = [] then p else stored (last rs)) \<and> stored r = digest (bytes r)"
  by (induction rs arbitrary: p) auto

definition collision :: "'b \<Rightarrow> 'b \<Rightarrow> bool" where
  "collision x y \<longleftrightarrow> x \<noteq> y \<and> digest x = digest y"

lemma same_head_same_chain:
  assumes "linked p rs" and "linked q ss" and "length rs = length ss" and "rs \<noteq> []"
    and "stored (last rs) = stored (last ss)"
    and "\<forall>r \<in> set rs \<union> set ss. proper r"
  shows "map bytes rs = map bytes ss \<or> (\<exists>x y. collision x y)"
  using assms
proof (induction rs arbitrary: ss rule: rev_induct)
  case (snoc r rs)
  from snoc.prems(3) obtain s ts where ss: "ss = ts @ [s]" by (cases ss rule: rev_cases) auto
  have lr: "linked p rs" "prev r = (if rs = [] then p else stored (last rs))" "stored r = digest (bytes r)"
    using snoc.prems(1) by (auto simp: linked_snoc)
  have ls: "linked q ts" "prev s = (if ts = [] then q else stored (last ts))" "stored s = digest (bytes s)"
    using snoc.prems(2) by (auto simp: linked_snoc ss)
  have len: "length rs = length ts" using snoc.prems(3) by (simp add: ss)
  show ?case
  proof (cases "bytes r = bytes s")
    case False
    with snoc.prems(5) lr(3) ls(3) show ?thesis by (auto simp: ss collision_def)
  next
    case True
    then have "prev r = prev s" using snoc.prems(6) by (intro bytes_cover_prev) (auto simp: ss)
    show ?thesis
    proof (cases "rs = []")
      case True
      with len \<open>bytes r = bytes s\<close> show ?thesis by (simp add: ss)
    next
      case False
      then have "stored (last rs) = stored (last ts)"
        using \<open>prev r = prev s\<close> lr(2) ls(2) len by auto
      then have "map bytes rs = map bytes ts \<or> (\<exists>x y. collision x y)"
        using snoc.prems(6) lr(1) ls(1) len False by (intro snoc.IH) (auto simp: ss)
      with True show ?thesis by (auto simp: ss)
    qed
  qed
qed simp

end

definition proper_record :: "audit_record \<Rightarrow> bool" where
  "proper_record r \<longleftrightarrow>
     plain (normalise (ar_actor r)) \<and> plain (normalise (ar_subject r)) \<and> plain (normalise (ar_payload r))"

text \<open>Equality of everything the chain covers, with dictionaries up to the order of their keys.\<close>

definition same_record :: "audit_record \<Rightarrow> audit_record \<Rightarrow> bool" where
  "same_record r s \<longleftrightarrow>
     ar_id r = ar_id s \<and> ar_tenant r = ar_tenant s \<and> ar_event_type r = ar_event_type s \<and>
     ar_occurred_at r = ar_occurred_at s \<and> normalise (ar_actor r) = normalise (ar_actor s) \<and>
     normalise (ar_subject r) = normalise (ar_subject s) \<and>
     normalise (ar_payload r) = normalise (ar_payload s) \<and> ar_prev_hash r = ar_prev_hash s"

lemma plain_PDict_normalise:
  "plain (normalise (PDict d)) \<longleftrightarrow> (\<forall>(k, v) \<in> set d. plain (normalise v))"
  by (auto simp: list_all_iff)

lemma normalise_PDict_eqD:
  assumes "normalise (PDict d) = normalise (PDict e)" and "distinct (map fst d)" "distinct (map fst e)"
  shows "map_option normalise (map_of d k) = map_option normalise (map_of e k)"
proof -
  let ?f = "map (\<lambda>(k, v). (k, normalise v))"
  have "set (?f d) = set (?f e)"
    using arg_cong [OF assms(1), of "\<lambda>v. case v of PDict x \<Rightarrow> set x | _ \<Rightarrow> {}"] by simp
  moreover have "map fst (?f x) = map fst x" for x :: "(string \<times> pyval) list" by auto
  ultimately have "map_of (?f d) = map_of (?f e)"
    using assms(2,3) by (simp only: map_of_inject_set)
  then show ?thesis by (simp add: map_of_map fun_eq_iff)
qed

lemma record_bytes_inject:
  assumes "proper_record r" "proper_record s" "record_bytes fl r = record_bytes fl s"
  shows "same_record r s"
proof -
  let ?o = "\<lambda>r. payload_object (ar_id r) (ar_tenant r) (ar_event_type r) (ar_occurred_at r) (ar_actor r)
      (ar_subject r) (ar_payload r) (ar_prev_hash r)"
  have "plain (normalise (?o x))" if "proper_record x" for x
    using that by (simp add: payload_object_def proper_record_def plain_PDict_normalise del: normalise.simps(3) plain.simps(6))
  then have "normalise (?o r) = normalise (?o s)"
    using assms by (intro json_dumps_inject [where fl = fl]) (auto simp: record_bytes_def canonical_payload_def)
  then have "map_option normalise (map_of [(''id'', PStr (ar_id r)), (''tenant_id'', PStr (ar_tenant r)),
      (''event_type'', PStr (ar_event_type r)), (''occurred_at'', PStr (ar_occurred_at r)), (''actor'', ar_actor r),
      (''subject'', ar_subject r), (''payload'', ar_payload r), (''prev_hash'', PStr (ar_prev_hash r))] k) =
    map_option normalise (map_of [(''id'', PStr (ar_id s)), (''tenant_id'', PStr (ar_tenant s)),
      (''event_type'', PStr (ar_event_type s)), (''occurred_at'', PStr (ar_occurred_at s)), (''actor'', ar_actor s),
      (''subject'', ar_subject s), (''payload'', ar_payload s), (''prev_hash'', PStr (ar_prev_hash s))] k)" for k
    unfolding payload_object_def by (rule normalise_PDict_eqD) simp_all
  from this [of "''id''"] this [of "''tenant_id''"] this [of "''event_type''"] this [of "''occurred_at''"]
    this [of "''actor''"] this [of "''subject''"] this [of "''payload''"] this [of "''prev_hash''"]
  show ?thesis by (simp add: same_record_def)
qed

interpretation ac: hash_chain "hash_text sha" "record_bytes fl" ar_prev_hash ar_hash proper_record
  for sha fl
  by unfold_locales (auto dest: record_bytes_inject simp: same_record_def)

lemma recomputed_hash_eq: "recomputed_hash sha fl r = hash_text sha (record_bytes fl r)"
  by (simp add: recomputed_hash_def compute_hash_def record_bytes_def)

lemma verify_from_ok: "vr_ok (verify_from sha fl i p recs) \<longleftrightarrow> ac.linked sha fl p recs"
  by (induction recs arbitrary: i p) (auto simp: recomputed_hash_eq)

lemma verify_chain_ok: "vr_ok (verify_chain sha fl recs) \<longleftrightarrow> ac.linked sha fl GENESIS recs"
  by (simp add: verify_chain_def verify_from_ok)

lemma linked_append:
  "ac.linked sha fl p (us @ ws) \<longleftrightarrow>
     ac.linked sha fl p us \<and> ac.linked sha fl (if us = [] then p else ar_hash (last us)) ws"
  by (induction us arbitrary: p) auto

lemma linked_hash: "ac.linked sha fl p rs \<Longrightarrow> r \<in> set rs \<Longrightarrow> ar_hash r = hash_text sha (record_bytes fl r)"
  by (induction rs arbitrary: p) auto

lemma hash_text_eq [simp]: "hash_text sha x = hash_text sha y \<longleftrightarrow> sha x = sha y"
  by (simp add: hash_text_def)

lemma same_bytes_same_records:
  assumes "map (record_bytes fl) rs = map (record_bytes fl) ss" and "\<forall>r \<in> set rs \<union> set ss. proper_record r"
  shows "list_all2 same_record rs ss"
  using assms
proof (induction rs arbitrary: ss)
  case (Cons r rs)
  then obtain s ss' where "ss = s # ss'" by (cases ss) auto
  with Cons show ?case by (auto intro: record_bytes_inject)
qed simp

lemma same_head_same_records:
  assumes "ac.linked sha fl GENESIS rs" and "ac.linked sha fl GENESIS ss" and "length rs = length ss" and "rs \<noteq> []"
    and "ar_hash (last rs) = ar_hash (last ss)" and "\<forall>r \<in> set rs \<union> set ss. proper_record r"
  shows "list_all2 same_record rs ss \<or> (\<exists>x y. x \<noteq> y \<and> sha x = sha y)"
  using ac.same_head_same_chain [OF assms(1,2,3,4,5,6)] same_bytes_same_records [OF _ assms(6)]
  by (auto simp: ac.collision_def)


section \<open>Order of the records\<close>

lemma distinct_record_keys: "distinct (map ar_id recs) \<Longrightarrow> distinct (map record_key recs)"
  by (induction recs) (auto simp: record_key_def)

lemma ordered_eq:
  assumes "distinct (map ar_id recs)" and "sorted (map record_key xs)" and "distinct (map ar_id xs)" and "set xs = set recs"
  shows "ordered recs = xs"
proof (rule sorted_key_unique [where f = record_key])
  have "distinct (map ar_id (ordered recs))"
    using assms(1) unfolding ordered_def distinct_map set_sort distinct_sort .
  then show "distinct (map record_key (ordered recs))" by (rule distinct_record_keys)
qed (use assms distinct_record_keys in \<open>auto simp: ordered_def\<close>)

lemma distinct_ordered: "distinct (map ar_id recs) \<Longrightarrow> distinct (map ar_id (ordered recs))"
  unfolding ordered_def distinct_map set_sort distinct_sort .

lemma ordered_simps [simp]:
  "set (ordered recs) = set recs" "length (ordered recs) = length recs" "sorted (map record_key (ordered recs))"
  "ordered recs = [] \<longleftrightarrow> recs = []"
  by (simp_all add: ordered_def) (metis length_0_conv length_sort)

lemma ordered_snoc:
  assumes "distinct (map ar_id recs)" and "\<forall>r \<in> set recs. record_key r < record_key new"
    and "ar_id new \<notin> ar_id ` set recs"
  shows "ordered (recs @ [new]) = ordered recs @ [new]"
proof (rule ordered_eq)
  show "distinct (map ar_id (recs @ [new]))" using assms(1,3) by auto
  show "sorted (map record_key (ordered recs @ [new]))"
    using assms(2) by (auto simp: sorted_append less_imp_le)
  show "distinct (map ar_id (ordered recs @ [new]))"
    using distinct_ordered [OF assms(1)] assms(3) by auto
qed auto

lemma append_record_eq:
  assumes "(r, recs') = append_record sha fl new_id now occurred_at tenant event_type act subject payload recs"
  shows "recs' = recs @ [r]" "ar_prev_hash r = tail_hash recs" "ar_hash r = hash_text sha (record_bytes fl r)"
    "ar_id r = new_id" "ar_recorded_at r = now"
  using assms by (auto simp: append_record_def Let_def compute_hash_def record_bytes_def)


section \<open>Properties\<close>

text \<open>C13. The bytes a record's hash covers determine the record: equal canonical payloads come from
  records that agree in id, tenant, event type, time, link and, up to the order of dictionary keys,
  in actor, subject and payload. No two different records share their bytes.\<close>

theorem canonical_payload_injective:
  assumes "proper_record r" and "proper_record s" and "record_bytes fl r = record_bytes fl s"
  shows "same_record r s"
  using assms by (rule record_bytes_inject)

definition no_floats :: "rat \<Rightarrow> string" where
  "no_floats q = []"

definition demo_record :: "string \<Rightarrow> int \<Rightarrow> audit_record list \<Rightarrow> audit_record list" where
  "demo_record i t recs =
     snd (append_record id no_floats i t ''2026-01-01T00:00:00+00:00'' ''tnt_1'' ''rule.created''
       (PDict [(''type'', PStr ''user''), (''id'', PStr ''u1'')]) (PDict [(''id'', PStr ''rul_1'')]) None recs)"

lemma demo_record_pair:
  "(fst (append_record id no_floats i t ''2026-01-01T00:00:00+00:00'' ''tnt_1'' ''rule.created''
       (PDict [(''type'', PStr ''user''), (''id'', PStr ''u1'')]) (PDict [(''id'', PStr ''rul_1'')]) None recs),
    demo_record i t recs) =
   append_record id no_floats i t ''2026-01-01T00:00:00+00:00'' ''tnt_1'' ''rule.created''
       (PDict [(''type'', PStr ''user''), (''id'', PStr ''u1'')]) (PDict [(''id'', PStr ''rul_1'')]) None recs"
  by (simp add: demo_record_def)

definition demo_chain :: "audit_record list" where
  "demo_chain = demo_record ''aud_1'' 1 []"

lemma demo_chain_ok:
  "length demo_chain = 1" "ac.linked id no_floats GENESIS (ordered demo_chain)"
  "\<forall>r \<in> set demo_chain. proper_record r" "demo_chain \<noteq> []" "distinct (map ar_id demo_chain)"
  by (auto simp: demo_chain_def demo_record_def append_record_def Let_def ordered_def tail_hash_def
      compute_hash_def record_bytes_def proper_record_def)

lemma demo_chain_keys:
  "ar_id (hd demo_chain) = ''aud_1''" "ar_id ` set demo_chain = {''aud_1''}"
  "record_key ` set demo_chain = {(1, ''aud_1'')}" "record_key (last (ordered demo_chain)) = (1, ''aud_1'')"
  by (simp_all add: demo_chain_def demo_record_def append_record_def Let_def record_key_def ordered_def)

theorem canonical_payload_injective_witness:
  "same_record (hd demo_chain) (hd demo_chain) \<and> proper_record (hd demo_chain)"
  using canonical_payload_injective [of "hd demo_chain" "hd demo_chain" no_floats] demo_chain_ok by auto



text \<open>Verification names the first broken record: it fails exactly when the chain is not linked,
  and then the records before \<open>broken_at\<close>, \<open>checked\<close> many, verify on their own while that record
  does not follow them.\<close>

theorem verification_names_first_break:
  assumes "\<not> vr_ok (verify_chain sha fl recs)"
  shows "vr_checked (verify_chain sha fl recs) < length recs
    \<and> vr_broken_at (verify_chain sha fl recs) = Some (ar_id (recs ! vr_checked (verify_chain sha fl recs)))
    \<and> vr_ok (verify_chain sha fl (take (vr_checked (verify_chain sha fl recs)) recs))
    \<and> \<not> vr_ok (verify_chain sha fl (take (Suc (vr_checked (verify_chain sha fl recs))) recs))"
proof -
  have gen: "\<exists>k. vr_checked (verify_from sha fl i p recs) = i + k \<and> k < length recs \<and>
      vr_broken_at (verify_from sha fl i p recs) = Some (ar_id (recs ! k)) \<and>
      ac.linked sha fl p (take k recs) \<and> \<not> ac.linked sha fl p (take (Suc k) recs)"
    if "\<not> vr_ok (verify_from sha fl i p recs)" for i p
    using that
  proof (induction recs arbitrary: i p)
    case (Cons r rs)
    show ?case
    proof (cases "ar_prev_hash r = p \<and> recomputed_hash sha fl r = ar_hash r")
      case True
      with Cons.prems have "\<not> vr_ok (verify_from sha fl (Suc i) (ar_hash r) rs)" by simp
      from Cons.IH [OF this] obtain k where k: "vr_checked (verify_from sha fl (Suc i) (ar_hash r) rs) = Suc i + k"
        "k < length rs" "vr_broken_at (verify_from sha fl (Suc i) (ar_hash r) rs) = Some (ar_id (rs ! k))"
        "ac.linked sha fl (ar_hash r) (take k rs)" "\<not> ac.linked sha fl (ar_hash r) (take (Suc k) rs)" by blast
      with True show ?thesis by (intro exI [of _ "Suc k"]) (auto simp: recomputed_hash_eq)
    next
      case False
      then show ?thesis by (intro exI [of _ 0]) (auto simp: recomputed_hash_eq)
    qed
  qed simp
  from gen [of 0 GENESIS] assms show ?thesis
    unfolding verify_chain_ok by (auto simp: verify_chain_def verify_from_ok)
qed

theorem verification_names_first_break_witness:
  "vr_broken_at (verify_chain id no_floats [(hd demo_chain)\<lparr>ar_event_type := ''rule.archived''\<rparr>]) = Some ''aud_1''"
proof -
  have "\<not> vr_ok (verify_chain id no_floats [(hd demo_chain)\<lparr>ar_event_type := ''rule.archived''\<rparr>])"
    by code_simp
  moreover have "ar_id (hd demo_chain) = ''aud_1''" by (rule demo_chain_keys)
  ultimately show ?thesis using verification_names_first_break by fastforce
qed

text \<open>Appending keeps a trail verifiable and append-only: if the trail verifies and the new
  record's insertion time and id sort after every existing one, the trail with the new record
  verifies too, and the old records are its unchanged beginning.\<close>

theorem append_keeps_chain:
  assumes "vr_ok (verify sha fl recs)" and "distinct (map ar_id recs)" and "new_id \<notin> ar_id ` set recs"
    and "\<forall>r \<in> set recs. record_key r < (now, new_id)"
    and "(r, recs') = append_record sha fl new_id now occurred_at tenant event_type act subject payload recs"
  shows "vr_ok (verify sha fl recs') \<and> ordered recs' = ordered recs @ [r]"
proof -
  note a = append_record_eq [OF assms(5)]
  have "record_key r = (now, new_id)" by (simp add: record_key_def a)
  then have o: "ordered recs' = ordered recs @ [r]"
    using assms(2-4) a(4) unfolding a(1) by (intro ordered_snoc) auto
  moreover have "ac.linked sha fl GENESIS (ordered recs @ [r])"
    using assms(1) a(2,3) by (simp add: verify_def verify_chain_ok ac.linked_snoc tail_hash_def)
  ultimately show ?thesis by (simp add: verify_def verify_chain_ok)
qed

theorem append_keeps_chain_witness:
  "vr_ok (verify id no_floats (demo_record ''aud_2'' 2 demo_chain))"
proof -
  have keys: "\<forall>r \<in> set demo_chain. record_key r < (2, ''aud_2'')" "''aud_2'' \<notin> ar_id ` set demo_chain"
  proof -
    have "record_key r = (1, ''aud_1'')" if "r \<in> set demo_chain" for r
      using imageI [OF that, of record_key] unfolding demo_chain_keys(3) by simp
    then show "\<forall>r \<in> set demo_chain. record_key r < (2, ''aud_2'')" by simp
  qed (simp add: demo_chain_keys)
  have "vr_ok (verify id no_floats demo_chain)" using demo_chain_ok(2) by (simp add: verify_def verify_chain_ok)
  from append_keeps_chain [OF this demo_chain_ok(5) keys(2,1) demo_record_pair] show ?thesis by simp
qed

text \<open>A clock that runs backwards breaks an untampered trail: when the new record's insertion
  time and id do not sort last, the trail no longer verifies, although every record was written by
  \<open>append\<close>, unless SHA-256 collides or maps the last record to the all-zero genesis value.\<close>

theorem clock_regression_breaks_chain:
  assumes "vr_ok (verify sha fl recs)" and "distinct (map ar_id recs)" and "new_id \<notin> ar_id ` set recs"
    and "recs \<noteq> []" and "(now, new_id) < record_key (last (ordered recs))"
    and "\<forall>r \<in> set recs. proper_record r"
    and "(r, recs') = append_record sha fl new_id now occurred_at tenant event_type act subject payload recs"
  shows "\<not> vr_ok (verify sha fl recs') \<or> (\<exists>x y. x \<noteq> y \<and> sha x = sha y) \<or> ar_hash (last (ordered recs)) = GENESIS"
proof (rule ccontr)
  assume "\<not> ?thesis"
  then have ok: "ac.linked sha fl GENESIS (ordered recs')" and nocoll: "\<And>x y. sha x = sha y \<Longrightarrow> x = y"
    and ng: "ar_hash (last (ordered recs)) \<noteq> GENESIS"
    by (auto simp: verify_def verify_chain_ok)
  note a = append_record_eq [OF assms(7)]
  let ?t = "last (ordered recs)"
  have t: "?t \<in> set recs" using assms(4) last_in_set [of "ordered recs"] by simp
  have d: "distinct (map ar_id recs')" using assms(2,3) by (auto simp: a)
  have "r \<in> set (ordered recs')" by (simp add: a)
  then obtain us ws where split: "ordered recs' = us @ r # ws" 
    using split_list [of r "ordered recs'"] by blast
  have "?t \<noteq> r" using t assms(3) a(4) by auto
  have "?t \<notin> set us"
  proof
    assume "?t \<in> set us"
    moreover have "sorted (map record_key (us @ r # ws))" using ordered_simps(3) [of recs'] split by metis
    ultimately have "record_key ?t \<le> record_key r" by (auto simp: sorted_append)
    moreover have "record_key r = (now, new_id)" by (simp add: record_key_def a)
    ultimately show False using assms(5) by (metis leD)
  qed
  have prev: "tail_hash recs = (if us = [] then GENESIS else ar_hash (last us))"
    using ok a(2) by (simp add: split linked_append)
  then have "us \<noteq> []" and eq: "ar_hash (last us) = ar_hash ?t"
    using ng assms(4) by (auto simp: tail_hash_def split: if_splits)
  have u: "last us \<in> set recs"
  proof -
    have "last us \<in> set (ordered recs')" using \<open>us \<noteq> []\<close> by (simp add: split)
    moreover have "last us \<noteq> r"
      using distinct_ordered [OF d] \<open>us \<noteq> []\<close> unfolding split by (auto dest: last_in_set)
    ultimately show ?thesis by (simp add: a)
  qed
  have "ac.linked sha fl GENESIS (ordered recs)" using assms(1) by (simp add: verify_def verify_chain_ok)
  then have "record_bytes fl (last us) = record_bytes fl ?t"
    using linked_hash [of sha fl GENESIS "ordered recs"] u t eq nocoll by (metis hash_text_eq ordered_simps(1))
  then have "ar_id (last us) = ar_id ?t"
    using record_bytes_inject [of "last us" ?t fl] assms(6) u t by (simp add: same_record_def)
  then have "last us = ?t" using assms(2) u t by (auto simp: distinct_map dest: inj_onD)
  with \<open>?t \<notin> set us\<close> \<open>us \<noteq> []\<close> show False by (metis last_in_set)
qed

theorem clock_regression_breaks_chain_witness:
  "\<not> vr_ok (verify id no_floats (demo_record ''aud_0'' 0 demo_chain))"
proof -
  have keys: "(0, ''aud_0'') < record_key (last (ordered demo_chain))" "''aud_0'' \<notin> ar_id ` set demo_chain"
    by (simp_all add: demo_chain_keys)
  have "ar_hash (last (ordered demo_chain)) \<noteq> GENESIS" by code_simp
  moreover have "vr_ok (verify id no_floats demo_chain)" using demo_chain_ok(2) by (simp add: verify_def verify_chain_ok)
  note clock_regression_breaks_chain [OF this demo_chain_ok(5) keys(2) demo_chain_ok(4) keys(1) demo_chain_ok(3) demo_record_pair]
  ultimately show ?thesis by simp
qed



end
