(* ===== verification/Lifecycle.thy ===== *)
theory Lifecycle
  imports Engine_Evaluation Roles Audit_Trail
begin

text \<open>
  The rule lifecycle (\<open>src/complylayer/rules/lifecycle.py\<close>) over one tenant's tables
  (\<open>src/complylayer/models.py\<close>), with the object lookup of the management views.

  \<open>tenant_db\<close> holds the rules, the published rule set versions, the named lists and the audit
  trail of a tenant. Every operation takes an \<open>environment\<close>: CPython's parser, the hash and the
  ids and clock readings the operation draws. It returns the new database or the error it raises
  (a refused permission, an invalid expression, a forbidden transition, a missing row, a violated
  uniqueness constraint); the database is unchanged then. Every operation that succeeds appends
  one record to the audit trail, except \<open>publish_version\<close>, whose callers do, and an edit that
  changes nothing.
\<close>


section \<open>Tables\<close>

record rule_row =
  rr_id :: string
  rr_name :: string
  rr_description :: string
  rr_category :: string
  rr_regulatory_reference :: string
  rr_expression :: string
  rr_severity :: string
  rr_priority :: int
  rr_customer_message :: string
  rr_state :: rule_state
  rr_version :: nat
  rr_created_by :: string
  rr_approved_by :: string
  rr_approved_at :: "int option"
  rr_activated_at :: "int option"

text \<open>An entry of a stored snapshot, a JSON object: any field may be missing.\<close>

record snapshot_entry =
  se_id :: "string option"
  se_name :: "string option"
  se_expression :: "string option"
  se_severity :: "string option"
  se_state :: "string option"
  se_priority :: "int option"
  se_regulatory_reference :: "string option"
  se_customer_message :: "string option"

record rule_set_version =
  rv_version :: nat
  rv_rules :: "snapshot_entry list"
  rv_lists :: "(string \<times> pyval list) list"
  rv_published_by :: string

record tenant_db =
  db_tenant :: string
  db_rules :: "rule_row list"
  db_versions :: "rule_set_version list"
  db_lists :: "(string \<times> pyval list) list"
  db_trail :: "audit_record list"

record environment =
  env_parser :: python_parser
  env_sha :: "string \<Rightarrow> string"
  env_float :: "rat \<Rightarrow> string"
  env_rule_id :: string
  env_audit_id :: string
  env_now :: int
  env_iso :: string

datatype lifecycle_error =
    L_Denied denial
  | L_Syntax rule_syntax_error
  | L_Not_editable rule_state
  | L_Not_awaiting rule_state
  | L_Not_approved
  | L_No_version nat
  | L_Not_found
  | L_Integrity

fun state_text :: "rule_state \<Rightarrow> string" where
  "state_text DRAFT = ''draft''"
| "state_text SHADOW = ''shadow''"
| "state_text ACTIVE = ''active''"
| "state_text ARCHIVED = ''archived''"


section \<open>Shared steps\<close>

definition guard :: "denial + unit \<Rightarrow> lifecycle_error + unit" where
  "guard r = (case r of Inl d \<Rightarrow> Inl (L_Denied d) | Inr u \<Rightarrow> Inr u)"

lemma guard_Inr [simp]: "guard r = Inr u \<longleftrightarrow> r = Inr u"
  by (auto simp: guard_def split: sum.splits)

definition validate_expression :: "environment \<Rightarrow> string \<Rightarrow> lifecycle_error + unit" where
  "validate_expression env e =
     (case validate_source (env_parser env) e of Inl x \<Rightarrow> Inl (L_Syntax x) | Inr _ \<Rightarrow> Inr ())"

lemma validate_expression_Inr [simp]:
  "validate_expression env e = Inr u \<longleftrightarrow> is_ok (validate_source (env_parser env) e)"
  by (auto simp: validate_expression_def is_ok_iff split: sum.splits)

definition get_rule :: "string \<Rightarrow> tenant_db \<Rightarrow> lifecycle_error + rule_row" where
  "get_rule rid db =
     (case List.find (\<lambda>r. rr_id r = rid) (db_rules db) of None \<Rightarrow> Inl L_Not_found | Some r \<Rightarrow> Inr r)"

definition save_rule :: "rule_row \<Rightarrow> tenant_db \<Rightarrow> tenant_db" where
  "save_rule r db = db\<lparr>db_rules := map (\<lambda>x. if rr_id x = rr_id r then r else x) (db_rules db)\<rparr>"

definition actor_json :: "actor \<Rightarrow> pyval" where
  "actor_json who = PDict (map (\<lambda>(k, v). (k, PStr v)) (as_audit_actor who))"

definition rule_subject :: "string \<Rightarrow> pyval" where
  "rule_subject rid = PDict [(''type'', PStr ''rule''), (''id'', PStr rid)]"

definition audit_append :: "environment \<Rightarrow> string \<Rightarrow> actor \<Rightarrow> pyval \<Rightarrow> pyval \<Rightarrow> tenant_db \<Rightarrow> tenant_db" where
  "audit_append env event who subject payload db =
     db\<lparr>db_trail := snd (append_record (env_sha env) (env_float env) (env_audit_id env) (env_now env) (env_iso env)
          (db_tenant db) event (actor_json who) subject (Some payload) (db_trail db))\<rparr>"

text \<open>\<open>unique_together\<close> on tenant, name and version.\<close>

definition name_taken :: "rule_row \<Rightarrow> tenant_db \<Rightarrow> bool" where
  "name_taken r db \<longleftrightarrow>
     list_ex (\<lambda>x. rr_id x \<noteq> rr_id r \<and> rr_name x = rr_name r \<and> rr_version x = rr_version r) (db_rules db)"


section \<open>Drafts\<close>

record rule_fields =
  f_name :: string
  f_description :: string
  f_category :: string
  f_regulatory_reference :: string
  f_expression :: string
  f_severity :: string
  f_priority :: int
  f_customer_message :: string

definition new_rule :: "environment \<Rightarrow> actor \<Rightarrow> rule_fields \<Rightarrow> rule_row" where
  "new_rule env who f =
     \<lparr>rr_id = env_rule_id env, rr_name = f_name f, rr_description = f_description f,
      rr_category = f_category f, rr_regulatory_reference = f_regulatory_reference f,
      rr_expression = f_expression f, rr_severity = f_severity f, rr_priority = f_priority f,
      rr_customer_message = f_customer_message f, rr_state = DRAFT, rr_version = 1,
      rr_created_by = actor_id who, rr_approved_by = [], rr_approved_at = None, rr_activated_at = None\<rparr>"

definition create_draft :: "environment \<Rightarrow> actor \<Rightarrow> rule_fields \<Rightarrow> tenant_db \<Rightarrow> lifecycle_error + tenant_db" where
  "create_draft env who f db =
     bindE (guard (require_action who A_CREATE_DRAFT)) (\<lambda>_.
     bindE (validate_expression env (f_expression f)) (\<lambda>_.
       let r = new_rule env who f in
       if name_taken r db \<or> list_ex (\<lambda>x. rr_id x = rr_id r) (db_rules db) then Inl L_Integrity
       else
         Inr (audit_append env ''rule.created'' who (rule_subject (rr_id r))
           (PDict [(''name'', PStr (rr_name r)), (''expression'', PStr (rr_expression r)), (''severity'', PStr (rr_severity r))])
           (db\<lparr>db_rules := db_rules db @ [r]\<rparr>))))"

text \<open>One field of an edit, with \<open>setattr\<close>.\<close>

datatype field_edit =
    Set_name string | Set_description string | Set_category string | Set_regulatory_reference string
  | Set_expression string | Set_severity string | Set_priority int | Set_customer_message string

fun set_field :: "field_edit \<Rightarrow> rule_row \<Rightarrow> rule_row" where
  "set_field (Set_name v) r = r\<lparr>rr_name := v\<rparr>"
| "set_field (Set_description v) r = r\<lparr>rr_description := v\<rparr>"
| "set_field (Set_category v) r = r\<lparr>rr_category := v\<rparr>"
| "set_field (Set_regulatory_reference v) r = r\<lparr>rr_regulatory_reference := v\<rparr>"
| "set_field (Set_expression v) r = r\<lparr>rr_expression := v\<rparr>"
| "set_field (Set_severity v) r = r\<lparr>rr_severity := v\<rparr>"
| "set_field (Set_priority v) r = r\<lparr>rr_priority := v\<rparr>"
| "set_field (Set_customer_message v) r = r\<lparr>rr_customer_message := v\<rparr>"

text \<open>A \<open>RuleChange\<close>: field, before, after.\<close>

fun rule_change :: "rule_row \<Rightarrow> field_edit \<Rightarrow> pyval \<times> pyval \<times> pyval" where
  "rule_change r (Set_name v) = (PStr ''name'', PStr (rr_name r), PStr v)"
| "rule_change r (Set_description v) = (PStr ''description'', PStr (rr_description r), PStr v)"
| "rule_change r (Set_category v) = (PStr ''category'', PStr (rr_category r), PStr v)"
| "rule_change r (Set_regulatory_reference v) =
     (PStr ''regulatory_reference'', PStr (rr_regulatory_reference r), PStr v)"
| "rule_change r (Set_expression v) = (PStr ''expression'', PStr (rr_expression r), PStr v)"
| "rule_change r (Set_severity v) = (PStr ''severity'', PStr (rr_severity r), PStr v)"
| "rule_change r (Set_priority v) = (PStr ''priority'', PInt (rr_priority r), PInt v)"
| "rule_change r (Set_customer_message v) = (PStr ''customer_message'', PStr (rr_customer_message r), PStr v)"

definition changes_of :: "rule_row \<Rightarrow> field_edit list \<Rightarrow> (pyval \<times> pyval \<times> pyval) list" where
  "changes_of r fs = filter (\<lambda>(f, before, after). before \<noteq> after) (map (rule_change r) fs)"

definition edited_expression :: "field_edit list \<Rightarrow> string option" where
  "edited_expression fs =
     (case List.map_filter (\<lambda>f. case f of Set_expression e \<Rightarrow> Some e | _ \<Rightarrow> None) fs of
        [] \<Rightarrow> None | e # es \<Rightarrow> Some (last (e # es)))"

definition edit_draft :: "environment \<Rightarrow> actor \<Rightarrow> string \<Rightarrow> field_edit list \<Rightarrow> tenant_db \<Rightarrow> lifecycle_error + tenant_db" where
  "edit_draft env who rid fs db =
     bindE (get_rule rid db) (\<lambda>r.
     bindE (guard (require_action who A_EDIT_DRAFT)) (\<lambda>_.
     if rr_state r \<notin> {DRAFT, SHADOW} then Inl (L_Not_editable (rr_state r))
     else
       bindE (case edited_expression fs of Some e \<Rightarrow> validate_expression env e | None \<Rightarrow> Inr ()) (\<lambda>_.
         let changes = changes_of r fs in
         if changes = [] then Inr db
         else
           (let approval_reset = (rr_approved_by r \<noteq> []);
                r1 = fold set_field fs r;
                r2 = (if approval_reset then r1\<lparr>rr_approved_by := [], rr_approved_at := None\<rparr> else r1);
                r3 = r2\<lparr>rr_version := Suc (rr_version r2)\<rparr>
            in if name_taken r3 db then Inl L_Integrity
               else
                 Inr (audit_append env ''rule.edited'' who (rule_subject rid)
                   (PDict [(''version'', PInt (int (rr_version r3))),
                           (''changes'', PList (map (\<lambda>(f, before, after).
                              PDict [(''field'', f), (''before'', before), (''after'', after)]) changes)),
                           (''approval_reset'', PBool approval_reset)])
                   (save_rule r3 db))))))"

definition request_approval :: "environment \<Rightarrow> actor \<Rightarrow> string \<Rightarrow> tenant_db \<Rightarrow> lifecycle_error + tenant_db" where
  "request_approval env who rid db =
     bindE (get_rule rid db) (\<lambda>r.
     bindE (guard (require_action who A_REQUEST_APPROVAL)) (\<lambda>_.
     if rr_state r \<notin> {DRAFT, SHADOW} then Inl (L_Not_awaiting (rr_state r))
     else
       Inr (audit_append env ''rule.approval_requested'' who (rule_subject rid)
         (PDict [(''version'', PInt (int (rr_version r))), (''expression'', PStr (rr_expression r))]) db)))"

definition approve :: "environment \<Rightarrow> actor \<Rightarrow> string \<Rightarrow> string \<Rightarrow> tenant_db \<Rightarrow> lifecycle_error + tenant_db" where
  "approve env who rid why db =
     bindE (get_rule rid db) (\<lambda>r.
     bindE (guard (require_action who A_APPROVE)) (\<lambda>_.
     bindE (guard (require_not_author who (rr_created_by r) A_APPROVE)) (\<lambda>_.
       Inr (audit_append env ''rule.approved'' who (rule_subject rid)
         (PDict [(''version'', PInt (int (rr_version r))), (''author'', PStr (rr_created_by r)), (''reason'', PStr why)])
         (save_rule (r\<lparr>rr_approved_by := actor_id who, rr_approved_at := Some (env_now env)\<rparr>) db)))))"

definition move_to_shadow :: "environment \<Rightarrow> actor \<Rightarrow> string \<Rightarrow> tenant_db \<Rightarrow> lifecycle_error + tenant_db" where
  "move_to_shadow env who rid db =
     bindE (get_rule rid db) (\<lambda>r.
     bindE (guard (require_action who A_SHADOW)) (\<lambda>_.
       Inr (audit_append env ''rule.shadowed'' who (rule_subject rid)
         (PDict [(''version'', PInt (int (rr_version r)))])
         (save_rule (r\<lparr>rr_state := SHADOW\<rparr>) db))))"


section \<open>Publishing\<close>

definition snapshot_of :: "rule_row \<Rightarrow> snapshot_entry" where
  "snapshot_of r =
     \<lparr>se_id = Some (rr_id r), se_name = Some (rr_name r), se_expression = Some (rr_expression r),
      se_severity = Some (rr_severity r), se_state = Some (state_text (rr_state r)),
      se_priority = Some (rr_priority r), se_regulatory_reference = Some (rr_regulatory_reference r),
      se_customer_message = Some (rr_customer_message r)\<rparr>"

definition row_key :: "rule_row \<Rightarrow> int \<times> string" where
  "row_key r = (rr_priority r, rr_id r)"

definition published_rules :: "tenant_db \<Rightarrow> rule_row list" where
  "published_rules db = sort_key row_key (filter (\<lambda>r. rr_state r \<in> {ACTIVE, SHADOW}) (db_rules db))"

definition latest_version :: "tenant_db \<Rightarrow> rule_set_version option" where
  "latest_version db =
     (case sort_key (\<lambda>v. - int (rv_version v)) (db_versions db) of [] \<Rightarrow> None | v # _ \<Rightarrow> Some v)"

definition publish_version :: "actor \<Rightarrow> tenant_db \<Rightarrow> rule_set_version \<times> tenant_db" where
  "publish_version who db =
     (let next_version = (case latest_version db of Some v \<Rightarrow> Suc (rv_version v) | None \<Rightarrow> 1);
          v = \<lparr>rv_version = next_version, rv_rules = map snapshot_of (published_rules db),
               rv_lists = sort_key fst (db_lists db), rv_published_by = actor_id who\<rparr>
      in (v, db\<lparr>db_versions := db_versions db @ [v]\<rparr>))"

definition activate :: "environment \<Rightarrow> actor \<Rightarrow> string \<Rightarrow> string \<Rightarrow> tenant_db \<Rightarrow> lifecycle_error + tenant_db" where
  "activate env who rid emergency_reason db =
     bindE (get_rule rid db) (\<lambda>r.
     bindE (guard (require_action who A_ACTIVATE)) (\<lambda>_.
     bindE (if rr_approved_by r \<noteq> [] then Inr ()
            else if emergency_reason = [] then Inl L_Not_approved
            else guard (require_action who A_EMERGENCY_OVERRIDE)) (\<lambda>_.
       let (v, db1) = publish_version who
             (save_rule (r\<lparr>rr_state := ACTIVE, rr_activated_at := Some (env_now env)\<rparr>) db)
       in Inr (audit_append env (if emergency_reason \<noteq> [] then ''rule.emergency_activated'' else ''rule.activated'') who
            (rule_subject rid)
            (PDict [(''version'', PInt (int (rr_version r))), (''ruleset_version'', PInt (int (rv_version v))),
                    (''approved_by'', PStr (rr_approved_by r)), (''emergency_reason'', PStr emergency_reason)]) db1))))"

definition archive :: "environment \<Rightarrow> actor \<Rightarrow> string \<Rightarrow> string \<Rightarrow> tenant_db \<Rightarrow> lifecycle_error + tenant_db" where
  "archive env who rid why db =
     bindE (get_rule rid db) (\<lambda>r.
     bindE (guard (require_action who A_ARCHIVE)) (\<lambda>_.
       let (v, db1) = publish_version who (save_rule (r\<lparr>rr_state := ARCHIVED\<rparr>) db)
       in Inr (audit_append env ''rule.archived'' who (rule_subject rid)
            (PDict [(''reason'', PStr why), (''ruleset_version'', PInt (int (rv_version v)))]) db1)))"

definition revert :: "environment \<Rightarrow> actor \<Rightarrow> nat \<Rightarrow> tenant_db \<Rightarrow> lifecycle_error + tenant_db" where
  "revert env who to_version db =
     bindE (guard (require_action who A_REVERT)) (\<lambda>_.
     (case List.find (\<lambda>v. rv_version v = to_version) (db_versions db) of
        None \<Rightarrow> Inl (L_No_version to_version)
      | Some source \<Rightarrow>
          (case latest_version db of
             None \<Rightarrow> Inl (L_No_version to_version)
           | Some latest \<Rightarrow>
               (let v = \<lparr>rv_version = Suc (rv_version latest), rv_rules = rv_rules source,
                         rv_lists = rv_lists source, rv_published_by = actor_id who\<rparr>
                in Inr (audit_append env ''ruleset.reverted'' who
                     (PDict [(''type'', PStr ''ruleset''), (''id'', PStr (str_of_nat (rv_version v)))])
                     (PDict [(''reverted_to'', PInt (int to_version)), (''new_version'', PInt (int (rv_version v)))])
                     (db\<lparr>db_versions := db_versions db @ [v]\<rparr>))))))"



section \<open>Named lists\<close>

text \<open>\<open>NamedListViewSet\<close>: creating and updating a list publish a version; neither asks for a
  permission. \<open>destroy\<close> is the framework's and only deletes the row.\<close>

definition publish_list :: "environment \<Rightarrow> actor \<Rightarrow> string \<Rightarrow> string \<Rightarrow> pyval list \<Rightarrow> tenant_db \<Rightarrow> tenant_db" where
  "publish_list env who event name vals db =
     (let (v, db1) = publish_version who db
      in audit_append env event who (PDict [(''type'', PStr ''named_list''), (''id'', PStr name)])
           (PDict [(''values'', PList vals), (''ruleset_version'', PInt (int (rv_version v)))]) db1)"

definition named_list_create :: "environment \<Rightarrow> actor \<Rightarrow> string \<Rightarrow> pyval list \<Rightarrow> tenant_db \<Rightarrow> lifecycle_error + tenant_db" where
  "named_list_create env who name vals db =
     (if map_of (db_lists db) name \<noteq> None then Inl L_Integrity
      else Inr (publish_list env who ''list.created'' name vals (db\<lparr>db_lists := db_lists db @ [(name, vals)]\<rparr>)))"

definition named_list_update :: "environment \<Rightarrow> actor \<Rightarrow> string \<Rightarrow> pyval list \<Rightarrow> tenant_db \<Rightarrow> lifecycle_error + tenant_db" where
  "named_list_update env who name vals db =
     (if map_of (db_lists db) name = None then Inl L_Not_found
      else Inr (publish_list env who ''list.updated'' name vals (db\<lparr>db_lists := dict_put name vals (db_lists db)\<rparr>)))"

definition named_list_destroy :: "string \<Rightarrow> tenant_db \<Rightarrow> lifecycle_error + tenant_db" where
  "named_list_destroy name db =
     (if map_of (db_lists db) name = None then Inl L_Not_found
      else Inr (db\<lparr>db_lists := filter (\<lambda>(n, v). n \<noteq> name) (db_lists db)\<rparr>))"


section \<open>The state machine\<close>

text \<open>One successful operation by anybody. All steps of a run share the parser; an approver has a
  non-empty id, as keys and users have.\<close>

inductive step :: "python_parser \<Rightarrow> tenant_db \<Rightarrow> tenant_db \<Rightarrow> bool" for py where
  s_create: "env_parser env = py \<Longrightarrow> create_draft env who f db = Inr db' \<Longrightarrow> step py db db'"
| s_edit: "env_parser env = py \<Longrightarrow> edit_draft env who rid fs db = Inr db' \<Longrightarrow> step py db db'"
| s_request: "env_parser env = py \<Longrightarrow> request_approval env who rid db = Inr db' \<Longrightarrow> step py db db'"
| s_approve: "env_parser env = py \<Longrightarrow> actor_id who \<noteq> [] \<Longrightarrow> approve env who rid why db = Inr db' \<Longrightarrow> step py db db'"
| s_shadow: "env_parser env = py \<Longrightarrow> move_to_shadow env who rid db = Inr db' \<Longrightarrow> step py db db'"
| s_activate: "env_parser env = py \<Longrightarrow> activate env who rid why db = Inr db' \<Longrightarrow> step py db db'"
| s_archive: "env_parser env = py \<Longrightarrow> archive env who rid why db = Inr db' \<Longrightarrow> step py db db'"
| s_revert: "env_parser env = py \<Longrightarrow> revert env who n db = Inr db' \<Longrightarrow> step py db db'"
| s_list_create: "env_parser env = py \<Longrightarrow> named_list_create env who name vals db = Inr db' \<Longrightarrow> step py db db'"
| s_list_update: "env_parser env = py \<Longrightarrow> named_list_update env who name vals db = Inr db' \<Longrightarrow> step py db db'"
| s_list_destroy: "named_list_destroy name db = Inr db' \<Longrightarrow> step py db db'"

inductive_cases stepE: "step py db db'"

definition empty_db :: "string \<Rightarrow> tenant_db" where
  "empty_db t = \<lparr>db_tenant = t, db_rules = [], db_versions = [], db_lists = [], db_trail = []\<rparr>"

definition reachable :: "python_parser \<Rightarrow> tenant_db \<Rightarrow> bool" where
  "reachable py db \<longleftrightarrow> (\<exists>t. (step py)\<^sup>*\<^sup>* (empty_db t) db)"

lemma reachable_induct [consumes 1, case_names empty step]:
  assumes "reachable py db" and "\<And>t. P (empty_db t)"
    and "\<And>x y. reachable py x \<Longrightarrow> P x \<Longrightarrow> step py x y \<Longrightarrow> P y"
  shows "P db"
proof -
  from assms(1) obtain t where "(step py)\<^sup>*\<^sup>* (empty_db t) db" by (auto simp: reachable_def)
  then show ?thesis
  proof (induction rule: rtranclp_induct)
    case base
    show ?case by (rule assms(2))
  next
    case (step y z)
    then show ?case by (intro assms(3) [of y z]) (auto simp: reachable_def)
  qed
qed


section \<open>What an operation touches\<close>

lemma audit_append_simps [simp]:
  "db_rules (audit_append env ev who s p db) = db_rules db"
  "db_versions (audit_append env ev who s p db) = db_versions db"
  "db_lists (audit_append env ev who s p db) = db_lists db"
  "db_tenant (audit_append env ev who s p db) = db_tenant db"
  by (simp_all add: audit_append_def)

definition audit_event :: "environment \<Rightarrow> string \<Rightarrow> actor \<Rightarrow> pyval \<Rightarrow> pyval \<Rightarrow> tenant_db \<Rightarrow> audit_record" where
  "audit_event env event who subject payload db =
     fst (append_record (env_sha env) (env_float env) (env_audit_id env) (env_now env) (env_iso env)
       (db_tenant db) event (actor_json who) subject (Some payload) (db_trail db))"

lemma audit_append_trail [simp]:
  "db_trail (audit_append env ev who s p db) = db_trail db @ [audit_event env ev who s p db]"
  by (simp add: audit_append_def audit_event_def append_record_def Let_def)

lemma audit_event_simps [simp]:
  "ar_event_type (audit_event env ev who s p db) = ev"
  "ar_actor (audit_event env ev who s p db) = actor_json who"
  "ar_subject (audit_event env ev who s p db) = s"
  "ar_payload (audit_event env ev who s p db) = (if truthy p then p else PDict [])"
  by (simp_all add: audit_event_def append_record_def Let_def)

lemma save_rule_simps [simp]:
  "db_versions (save_rule r db) = db_versions db" "db_lists (save_rule r db) = db_lists db"
  "db_trail (save_rule r db) = db_trail db" "db_tenant (save_rule r db) = db_tenant db"
  by (simp_all add: save_rule_def)

lemma publish_version_simps:
  assumes "publish_version who db = (v, db')"
  shows "db_rules db' = db_rules db" "db_trail db' = db_trail db" "db_versions db' = db_versions db @ [v]"
    "db_lists db' = db_lists db" "rv_rules v = map snapshot_of (published_rules db)"
    "rv_version v = (case latest_version db of Some u \<Rightarrow> Suc (rv_version u) | None \<Rightarrow> 1)"
  using assms by (auto simp: publish_version_def Let_def)

lemma get_rule_Inr: "get_rule rid db = Inr r \<Longrightarrow> r \<in> set (db_rules db) \<and> rr_id r = rid"
  by (auto simp: get_rule_def find_Some_iff split: option.splits)

text \<open>A property of all rules survives an operation that touches one.\<close>

lemma all_rules_save:
  assumes "\<forall>x \<in> set (db_rules db). P x" and "P r"
  shows "\<forall>x \<in> set (db_rules (save_rule r db)). P x"
  using assms by (auto simp: save_rule_def)


lemma set_field_fixes:
  "rr_id (fold set_field fs r) = rr_id r \<and> rr_created_by (fold set_field fs r) = rr_created_by r \<and>
   rr_state (fold set_field fs r) = rr_state r \<and> rr_version (fold set_field fs r) = rr_version r \<and>
   rr_approved_by (fold set_field fs r) = rr_approved_by r"
proof (induction fs arbitrary: r)
  case (Cons f fs)
  then show ?case by (cases f) simp_all
qed simp

lemma set_field_expression:
  "rr_expression (fold set_field fs r) = (case edited_expression fs of Some e \<Rightarrow> e | None \<Rightarrow> rr_expression r)"
proof (induction fs arbitrary: r)
  case Nil
  then show ?case by (simp add: edited_expression_def)
next
  case (Cons f fs)
  have "edited_expression (f # fs) = (case edited_expression fs of Some e \<Rightarrow> Some e
      | None \<Rightarrow> (case f of Set_expression e \<Rightarrow> Some e | _ \<Rightarrow> None))"
    by (cases f) (auto simp: edited_expression_def map_filter_simps split: list.splits)
  with Cons show ?case by (cases f) (auto split: option.splits)
qed


section \<open>Invariant\<close>

definition approval_logged :: "audit_record set \<Rightarrow> rule_row \<Rightarrow> bool" where
  "approval_logged T r \<longleftrightarrow>
     (\<exists>e \<in> T. \<exists>who why. ar_event_type e = ''rule.approved'' \<and> ar_subject e = rule_subject (rr_id r) \<and>
        ar_actor e = actor_json who \<and> actor_id who = rr_approved_by r \<and> may (actor_role who) A_APPROVE \<and>
        ar_payload e = PDict [(''version'', PInt (int (rr_version r))), (''author'', PStr (rr_created_by r)), (''reason'', PStr why)])"

definition emergency_logged :: "audit_record set \<Rightarrow> string \<Rightarrow> bool" where
  "emergency_logged T rid \<longleftrightarrow>
     (\<exists>e \<in> T. \<exists>who. ar_event_type e = ''rule.emergency_activated'' \<and> ar_subject e = rule_subject rid \<and>
        ar_actor e = actor_json who \<and> may (actor_role who) A_EMERGENCY_OVERRIDE)"

definition rule_inv :: "python_parser \<Rightarrow> audit_record set \<Rightarrow> rule_row \<Rightarrow> bool" where
  "rule_inv py T r \<longleftrightarrow>
     is_ok (validate_source py (rr_expression r)) \<and>
     (rr_approved_by r \<noteq> [] \<longrightarrow> rr_approved_by r \<noteq> rr_created_by r \<and> approval_logged T r) \<and>
     (rr_state r = ACTIVE \<longrightarrow> rr_approved_by r \<noteq> [] \<or> emergency_logged T (rr_id r))"

definition entry_ok :: "python_parser \<Rightarrow> snapshot_entry \<Rightarrow> bool" where
  "entry_ok py e \<longleftrightarrow>
     (\<exists>r. e = snapshot_of r \<and> is_ok (validate_source py (rr_expression r)) \<and> rr_state r \<in> {ACTIVE, SHADOW})"

definition inv :: "python_parser \<Rightarrow> tenant_db \<Rightarrow> bool" where
  "inv py db \<longleftrightarrow>
     distinct (map rr_id (db_rules db)) \<and>
     (\<forall>r \<in> set (db_rules db). rule_inv py (set (db_trail db)) r) \<and>
     map rv_version (db_versions db) = [1..<Suc (length (db_versions db))] \<and>
     (\<forall>v \<in> set (db_versions db). \<forall>e \<in> set (rv_rules v). entry_ok py e)"

lemma rule_inv_mono: "rule_inv py T r \<Longrightarrow> T \<subseteq> U \<Longrightarrow> rule_inv py U r"
  unfolding rule_inv_def approval_logged_def emergency_logged_def by blast

lemma inv_empty: "inv py (empty_db t)"
  by (simp add: inv_def empty_db_def)

lemma inv_rules_kept [inv_intros]:
  assumes "inv py db" and "db_rules db' = db_rules db" and "set (db_trail db) \<subseteq> set (db_trail db')"
    and "db_versions db' = db_versions db"
  shows "inv py db'"
  using assms rule_inv_mono unfolding inv_def by metis

lemma inv_save [inv_intros]:
  assumes "inv py db" and "get_rule rid db = Inr r" and "rr_id r' = rid"
    and "db_rules db' = db_rules (save_rule r' db)" and "set (db_trail db) \<subseteq> set (db_trail db')"
    and "db_versions db' = db_versions db" and "rule_inv py (set (db_trail db')) r'"
  shows "inv py db'"
proof -
  have ids: "map rr_id (db_rules (save_rule r' db)) = map rr_id (db_rules db)"
    by (auto simp: save_rule_def)
  have "\<forall>x \<in> set (db_rules db). rule_inv py (set (db_trail db')) x"
    using assms(1,5) rule_inv_mono unfolding inv_def by metis
  then have "\<forall>x \<in> set (db_rules db'). rule_inv py (set (db_trail db')) x"
    unfolding assms(4) using assms(7) by (rule all_rules_save)
  with assms(1,4,6) ids show ?thesis by (simp add: inv_def)
qed

lemma published_rules_set: "set (published_rules db) = {r \<in> set (db_rules db). rr_state r \<in> {ACTIVE, SHADOW}}"
  by (simp add: published_rules_def)

lemma latest_version_number:
  assumes "map rv_version (db_versions db) = [1..<Suc (length (db_versions db))]" and "db_versions db \<noteq> []"
  obtains v where "latest_version db = Some v" and "rv_version v = length (db_versions db)"
proof -
  let ?s = "sort_key (\<lambda>v. - int (rv_version v)) (db_versions db)"
  obtain v vs where s: "?s = v # vs" using assms(2) by (cases ?s) (auto dest: arg_cong [of _ _ set])
  have set: "set ?s = set (db_versions db)" by simp
  have "sorted (map (\<lambda>v. - int (rv_version v)) ?s)" by simp
  then have max: "rv_version u \<le> rv_version v" if "u \<in> set (db_versions db)" for u
    using that unfolding set [symmetric] s by auto
  have nums: "rv_version ` set (db_versions db) = {1..<Suc (length (db_versions db))}"
    using arg_cong [OF assms(1), of set] by (simp del: upt_Suc)
  have "length (db_versions db) \<in> rv_version ` set (db_versions db)" unfolding nums using assms(2) by (cases "db_versions db") auto
  then have "length (db_versions db) \<le> rv_version v" using max by auto
  moreover have "v \<in> set (db_versions db)" using set s by (metis list.set_intros(1))
  then have "rv_version v \<le> length (db_versions db)" using nums by (metis atLeastLessThan_iff imageI less_Suc_eq_le)
  ultimately show thesis using that [of v] s by (simp add: latest_version_def)
qed

lemma latest_version_None: "latest_version db = None \<longleftrightarrow> db_versions db = []"
  by (auto simp: latest_version_def split: list.splits dest: arg_cong [of _ _ set])

lemma inv_add_version:
  assumes "inv py db" and "db_versions db' = db_versions db @ [v]" and "db_rules db' = db_rules db" and "db_trail db' = db_trail db"
    and "rv_version v = (case latest_version db of Some u \<Rightarrow> Suc (rv_version u) | None \<Rightarrow> 1)"
    and "\<forall>e \<in> set (rv_rules v). entry_ok py e"
  shows "inv py db'"
proof -
  have m: "map rv_version (db_versions db) = [1..<Suc (length (db_versions db))]" using assms(1) by (simp add: inv_def)
  have n: "rv_version v = Suc (length (db_versions db))"
  proof (cases "db_versions db = []")
    case True
    then show ?thesis using assms(5) latest_version_None [of db] by simp
  next
    case False
    from m False obtain u where "latest_version db = Some u" "rv_version u = length (db_versions db)"
      by (rule latest_version_number)
    with assms(5) show ?thesis by simp
  qed
  have "map rv_version (db_versions db') = [1..<Suc (length (db_versions db'))]"
    unfolding assms(2) map_append m using n by simp
  with assms(1-4,6) show ?thesis by (auto simp: inv_def simp del: upt_Suc)
qed

lemma inv_publish:
  assumes "inv py db" and "publish_version who db = (v, db')"
  shows "inv py db'"
proof -
  note p = publish_version_simps [OF assms(2)]
  have "\<forall>e \<in> set (rv_rules v). entry_ok py e"
    using assms(1) by (auto simp: p(5) published_rules_set entry_ok_def inv_def rule_inv_def)
  with assms(1) p show ?thesis by (intro inv_add_version [of py db db' v]) auto
qed


lemma inv_audit: "inv py db \<Longrightarrow> inv py (audit_append env ev who sub p db)"
  by (rule inv_rules_kept) auto

lemma inv_create:
  assumes "inv py db" and "create_draft env who f db = Inr db'" and "env_parser env = py"
  shows "inv py db'"
proof -
  let ?r = "new_rule env who f"
  from assms(2,3) have ok: "is_ok (validate_source py (f_expression f))" and
    fresh: "env_rule_id env \<notin> rr_id ` set (db_rules db)" and
    db': "db' = audit_append env ''rule.created'' who (rule_subject (rr_id ?r))
       (PDict [(''name'', PStr (rr_name ?r)), (''expression'', PStr (rr_expression ?r)), (''severity'', PStr (rr_severity ?r))])
       (db\<lparr>db_rules := db_rules db @ [?r]\<rparr>)"
    by (auto simp: create_draft_def Let_def list_ex_iff new_rule_def split: if_splits)
  have "rule_inv py T ?r" for T using ok by (simp add: rule_inv_def new_rule_def)
  then have "inv py (db\<lparr>db_rules := db_rules db @ [?r]\<rparr>)"
    using assms(1) fresh by (auto simp: inv_def new_rule_def)
  then show ?thesis unfolding db' by (rule inv_audit)
qed

lemma edit_draft_cases:
  assumes "edit_draft env who rid fs db = Inr db'"
  obtains (unchanged) "db' = db"
    | (edited) r r' p where "get_rule rid db = Inr r" and "rr_state r \<in> {DRAFT, SHADOW}"
      and "rr_id r' = rid" and "rr_state r' = rr_state r" and "rr_approved_by r' = []" and "rr_version r' = Suc (rr_version r)"
      and "rr_created_by r' = rr_created_by r"
      and "rr_expression r' = rr_expression r \<or> is_ok (validate_source (env_parser env) (rr_expression r'))"
      and "db' = audit_append env ''rule.edited'' who (rule_subject rid) p (save_rule r' db)"
proof (cases "db' = db")
  case False
  from assms obtain r where r: "get_rule rid db = Inr r" "rr_state r \<in> {DRAFT, SHADOW}"
    by (auto simp: edit_draft_def split: if_splits)
  let ?r1 = "fold set_field fs r"
  let ?r' = "(if rr_approved_by r \<noteq> [] then ?r1\<lparr>rr_approved_by := [], rr_approved_at := None\<rparr> else ?r1)"
  have e: "case edited_expression fs of Some e \<Rightarrow> is_ok (validate_source (env_parser env) e) | None \<Rightarrow> True"
    using assms r by (auto simp: edit_draft_def split: option.splits)
  have "\<exists>p. db' = audit_append env ''rule.edited'' who (rule_subject rid) p
      (save_rule (?r'\<lparr>rr_version := Suc (rr_version ?r')\<rparr>) db)"
    using assms r False by (auto simp: edit_draft_def Let_def split: if_splits)
  then show ?thesis
    using edited [of r "?r'\<lparr>rr_version := Suc (rr_version ?r')\<rparr>"] r e get_rule_Inr [OF r(1)]
      set_field_fixes [of fs r] set_field_expression [of fs r]
    by (auto split: option.splits if_splits)
qed (rule unchanged)

lemma inv_edit:
  assumes "inv py db" and "edit_draft env who rid fs db = Inr db'" and "env_parser env = py"
  shows "inv py db'"
  using assms(2)
proof (cases rule: edit_draft_cases)
  case unchanged
  with assms(1) show ?thesis by simp
next
  case (edited r r' p)
  have "rule_inv py (set (db_trail db)) r" using assms(1) get_rule_Inr [OF edited(1)] by (simp add: inv_def)
  with edited assms(3) have "rule_inv py T r'" for T by (auto simp: rule_inv_def)
  then show ?thesis
    unfolding edited(9) by (rule inv_save [OF assms(1) edited(1,3), rotated -1]) auto
qed

lemma inv_approve:
  assumes "inv py db" and "approve env who rid why db = Inr db'" and "actor_id who \<noteq> []"
  shows "inv py db'"
proof -
  from assms(2) obtain r where r: "get_rule rid db = Inr r" and "A_APPROVE \<in> PERMISSIONS (actor_role who)"
    and author: "actor_id who \<noteq> rr_created_by r" and
    db': "db' = audit_append env ''rule.approved'' who (rule_subject rid)
         (PDict [(''version'', PInt (int (rr_version r))), (''author'', PStr (rr_created_by r)), (''reason'', PStr why)])
         (save_rule (r\<lparr>rr_approved_by := actor_id who, rr_approved_at := Some (env_now env)\<rparr>) db)"
    by (auto simp: approve_def)
  let ?r' = "r\<lparr>rr_approved_by := actor_id who, rr_approved_at := Some (env_now env)\<rparr>"
  have id: "rr_id r = rid" and "rule_inv py (set (db_trail db)) r"
    using assms(1) get_rule_Inr [OF r] by (auto simp: inv_def)
  moreover have "approval_logged (set (db_trail db')) ?r'"
    using id \<open>A_APPROVE \<in> _\<close> by (auto simp: approval_logged_def db' may_def)
  ultimately have "rule_inv py (set (db_trail db')) ?r'"
    using author assms(3) by (simp add: rule_inv_def)
  then show ?thesis by (rule inv_save [OF assms(1) r, rotated -1]) (auto simp: db' id)
qed

lemma inv_shadow:
  assumes "inv py db" and "move_to_shadow env who rid db = Inr db'"
  shows "inv py db'"
proof -
  from assms(2) obtain r p where r: "get_rule rid db = Inr r" and
    db': "db' = audit_append env ''rule.shadowed'' who (rule_subject rid) p (save_rule (r\<lparr>rr_state := SHADOW\<rparr>) db)"
    by (auto simp: move_to_shadow_def)
  have id: "rr_id r = rid" and "rule_inv py (set (db_trail db)) r"
    using assms(1) get_rule_Inr [OF r] by (auto simp: inv_def)
  then have "rule_inv py (set (db_trail db)) (r\<lparr>rr_state := SHADOW\<rparr>)"
    by (simp add: rule_inv_def approval_logged_def)
  then have "rule_inv py (set (db_trail db')) (r\<lparr>rr_state := SHADOW\<rparr>)" by (rule rule_inv_mono) (auto simp: db')
  then show ?thesis by (rule inv_save [OF assms(1) r, rotated -1]) (auto simp: db' id)
qed


text \<open>A rule is written, a version published from the new rules, then the event logged.\<close>

lemma inv_save_publish:
  assumes "inv py db" and "get_rule rid db = Inr r" and "rr_id r' = rid"
    and "publish_version who (save_rule r' db) = (v, db1)"
    and "rule_inv py (set (db_trail (audit_append env ev who sub p db1))) r'"
  shows "inv py (audit_append env ev who sub p db1)"
proof -
  note pv = publish_version_simps [OF assms(4)]
  let ?db' = "audit_append env ev who sub p db1"
  let ?m = "?db'\<lparr>db_versions := db_versions db\<rparr>"
  have m: "inv py ?m"
    using assms(5) by (intro inv_save [OF assms(1-3)]) (auto simp: pv)
  have "latest_version (save_rule r' db) = latest_version ?m" by (simp add: latest_version_def)
  moreover have "\<forall>e \<in> set (rv_rules v). entry_ok py e"
    using m by (auto simp: pv published_rules_set entry_ok_def inv_def rule_inv_def)
  ultimately show ?thesis
    using m by (intro inv_add_version [OF m, of ?db' v]) (auto simp: pv)
qed

lemma inv_activate:
  assumes "inv py db" and "activate env who rid why db = Inr db'"
  shows "inv py db'"
proof -
  let ?r' = "\<lambda>r. r\<lparr>rr_state := ACTIVE, rr_activated_at := Some (env_now env)\<rparr>"
  let ?ev = "if why \<noteq> [] then ''rule.emergency_activated'' else ''rule.activated''"
  from assms(2) obtain r where r: "get_rule rid db = Inr r"
    and auth: "rr_approved_by r \<noteq> [] \<or> (why \<noteq> [] \<and> A_EMERGENCY_OVERRIDE \<in> PERMISSIONS (actor_role who))"
    by (auto simp: activate_def split: if_splits)
  obtain v db1 where pv: "publish_version who (save_rule (?r' r) db) = (v, db1)" by fastforce
  with assms(2) r obtain p where db': "db' = audit_append env ?ev who (rule_subject rid) p db1"
    by (auto simp: activate_def)
  have id: "rr_id r = rid" and "rule_inv py (set (db_trail db)) r"
    using assms(1) get_rule_Inr [OF r] by (auto simp: inv_def)
  moreover have "set (db_trail db) \<subseteq> set (db_trail db')"
    using publish_version_simps(2) [OF pv] by (auto simp: db')
  ultimately have "rule_inv py (set (db_trail db')) r" by (metis rule_inv_mono)
  moreover have "rr_approved_by r \<noteq> [] \<or> emergency_logged (set (db_trail db')) rid"
  proof (rule disjCI)
    assume "\<not> emergency_logged (set (db_trail db')) rid"
    with auth show "rr_approved_by r \<noteq> []" by (auto simp: emergency_logged_def db' may_def)
  qed
  ultimately have "rule_inv py (set (db_trail db')) (?r' r)"
    using id by (auto simp: rule_inv_def approval_logged_def)
  then show ?thesis unfolding db' by (intro inv_save_publish [OF assms(1) r _ pv]) (auto simp: id)
qed

lemma inv_archive:
  assumes "inv py db" and "archive env who rid why db = Inr db'"
  shows "inv py db'"
proof -
  from assms(2) obtain r where r: "get_rule rid db = Inr r" by (auto simp: archive_def)
  obtain v db1 where pv: "publish_version who (save_rule (r\<lparr>rr_state := ARCHIVED\<rparr>) db) = (v, db1)" by fastforce
  with assms(2) r obtain p where db': "db' = audit_append env ''rule.archived'' who (rule_subject rid) p db1"
    by (auto simp: archive_def)
  have id: "rr_id r = rid" and "rule_inv py (set (db_trail db)) r"
    using assms(1) get_rule_Inr [OF r] by (auto simp: inv_def)
  then have "rule_inv py (set (db_trail db)) (r\<lparr>rr_state := ARCHIVED\<rparr>)"
    by (simp add: rule_inv_def approval_logged_def)
  then have "rule_inv py (set (db_trail db')) (r\<lparr>rr_state := ARCHIVED\<rparr>)"
    using publish_version_simps(2) [OF pv] by (rule_tac rule_inv_mono) (auto simp: db')
  then show ?thesis unfolding db' by (intro inv_save_publish [OF assms(1) r _ pv]) (auto simp: id)
qed

lemma revert_Inr:
  assumes "revert env who n db = Inr db'"
  obtains source latest v where "source \<in> set (db_versions db)" and "rv_version source = n"
    and "latest_version db = Some latest"
    and "rv_version v = Suc (rv_version latest)" and "rv_rules v = rv_rules source" and "rv_lists v = rv_lists source"
    and "db_versions db' = db_versions db @ [v]" and "db_rules db' = db_rules db"
    and "set (db_trail db) \<subseteq> set (db_trail db')" and "A_REVERT \<in> PERMISSIONS (actor_role who)"
proof -
  from assms obtain source latest where f: "List.find (\<lambda>v. rv_version v = n) (db_versions db) = Some source"
    and l: "latest_version db = Some latest" and a: "A_REVERT \<in> PERMISSIONS (actor_role who)"
    by (auto simp: revert_def split: option.splits)
  from f have "source \<in> set (db_versions db)" "rv_version source = n" by (auto simp: find_Some_iff)
  moreover note l a
  moreover have "db_versions db' = db_versions db @ [\<lparr>rv_version = Suc (rv_version latest), rv_rules = rv_rules source,
      rv_lists = rv_lists source, rv_published_by = actor_id who\<rparr>]"
    "db_rules db' = db_rules db" "set (db_trail db) \<subseteq> set (db_trail db')"
    using assms by (auto simp: revert_def Let_def f l)
  ultimately show thesis using that by force
qed

lemma inv_revert:
  assumes "inv py db" and "revert env who n db = Inr db'"
  shows "inv py db'"
proof -
  from assms(2) obtain source latest v where s: "source \<in> set (db_versions db)" "latest_version db = Some latest"
    "rv_version v = Suc (rv_version latest)" "rv_rules v = rv_rules source"
    "db_versions db' = db_versions db @ [v]" "db_rules db' = db_rules db" "set (db_trail db) \<subseteq> set (db_trail db')"
    by (rule revert_Inr)
  let ?m = "db'\<lparr>db_versions := db_versions db\<rparr>"
  have m: "inv py ?m" by (rule inv_rules_kept [OF assms(1)]) (use s in auto)
  have "latest_version ?m = latest_version db" by (simp add: latest_version_def)
  moreover have "\<forall>e \<in> set (rv_rules v). entry_ok py e" using assms(1) s(1,4) by (auto simp: inv_def)
  ultimately show ?thesis using s by (intro inv_add_version [OF m, of db' v]) auto
qed

lemma inv_publish_list:
  assumes "inv py db" and "db_rules db1 = db_rules db" and "db_versions db1 = db_versions db" and "db_trail db1 = db_trail db"
  shows "inv py (publish_list env who ev name vals db1)"
proof -
  have "inv py db1" by (rule inv_rules_kept [OF assms(1)]) (use assms in auto)
  then show ?thesis
    by (auto simp: publish_list_def split: prod.splits intro!: inv_audit dest: inv_publish)
qed

lemma inv_step: "inv py db \<Longrightarrow> step py db db' \<Longrightarrow> inv py db'"
proof (erule stepE)
  fix env who rid
  assume "inv py db" "request_approval env who rid db = Inr db'"
  then show "inv py db'" by (auto simp: request_approval_def intro: inv_audit split: if_splits)
next
  fix env who name vals
  assume "inv py db" "named_list_create env who name vals db = Inr db'"
  then show "inv py db'" by (auto simp: named_list_create_def split: if_splits intro: inv_publish_list)
next
  fix env who name vals
  assume "inv py db" "named_list_update env who name vals db = Inr db'"
  then show "inv py db'" by (auto simp: named_list_update_def split: if_splits intro: inv_publish_list)
next
  fix name
  assume "inv py db" "named_list_destroy name db = Inr db'"
  then show "inv py db'" by (auto simp: named_list_destroy_def split: if_splits intro: inv_rules_kept)
qed (auto intro: inv_create inv_edit inv_approve inv_shadow inv_activate inv_archive inv_revert)

interpretation lifecycle: step_invariant "step py" "inv py"
  by unfold_locales (rule inv_step)

lemma reachable_inv: "reachable py db \<Longrightarrow> inv py db"
  unfolding reachable_def using lifecycle.run_keeps inv_empty by blast


section \<open>A run\<close>

definition demo_env :: "string \<Rightarrow> int \<Rightarrow> environment" where
  "demo_env i t =
     \<lparr>env_parser = example_parser, env_sha = id, env_float = no_floats, env_rule_id = ''rul_1'', env_audit_id = i,
      env_now = t, env_iso = ''2026-01-01T00:00:00+00:00''\<rparr>"

definition person :: "string \<Rightarrow> role \<Rightarrow> actor" where
  "person i r = \<lparr>actor_id = i, actor_role = r, actor_ip = []\<rparr>"

definition demo_fields :: rule_fields where
  "demo_fields =
     \<lparr>f_name = ''large transfer'', f_description = [], f_category = ''aml'', f_regulatory_reference = [],
      f_expression = example_source, f_severity = ''block'', f_priority = 0, f_customer_message = ''refused''\<rparr>"

definition demo_created :: tenant_db where
  "demo_created = sum.projr (create_draft (demo_env ''aud_1'' 1) (person ''alice'' COMPLIANCE_ANALYST) demo_fields (empty_db ''tnt_1''))"

definition demo_approved :: tenant_db where
  "demo_approved = sum.projr (approve (demo_env ''aud_2'' 2) (person ''bob'' COMPLIANCE_OFFICER) ''rul_1'' [] demo_created)"

definition demo_active :: tenant_db where
  "demo_active = sum.projr (activate (demo_env ''aud_3'' 3) (person ''bob'' COMPLIANCE_OFFICER) ''rul_1'' [] demo_approved)"

definition demo_row :: rule_row where
  "demo_row = new_rule (demo_env ''aud_1'' 1) (person ''alice'' COMPLIANCE_ANALYST) demo_fields"

lemma demo_create:
  "create_draft (demo_env ''aud_1'' 1) (person ''alice'' COMPLIANCE_ANALYST) demo_fields (empty_db ''tnt_1'') = Inr demo_created"
  "db_rules demo_created = [demo_row]" "db_versions demo_created = []"
proof -
  have "is_ok (create_draft (demo_env ''aud_1'' 1) (person ''alice'' COMPLIANCE_ANALYST) demo_fields (empty_db ''tnt_1''))"
    and rows: "db_rules demo_created = [demo_row]" and vs: "db_versions demo_created = []"
    by (simp_all add: demo_created_def create_draft_def guard_def guard_defs person_def validate_expression_def demo_env_def demo_fields_def
        validate_source_example name_taken_def empty_db_def Let_def demo_row_def)
  then show "create_draft (demo_env ''aud_1'' 1) (person ''alice'' COMPLIANCE_ANALYST) demo_fields (empty_db ''tnt_1'') = Inr demo_created"
    by (auto simp: is_ok_iff demo_created_def)
  show "db_rules demo_created = [demo_row]" by (rule rows)
  show "db_versions demo_created = []" by (rule vs)
qed

definition demo_approved_row :: rule_row where
  "demo_approved_row = demo_row\<lparr>rr_approved_by := ''bob'', rr_approved_at := Some 2\<rparr>"

lemma demo_row_simps:
  "rr_id demo_row = ''rul_1''" "rr_created_by demo_row = ''alice''" "rr_approved_by demo_row = []" "rr_version demo_row = 1"
  by (simp_all add: demo_row_def new_rule_def demo_env_def person_def)

lemma demo_approve:
  "approve (demo_env ''aud_2'' 2) (person ''bob'' COMPLIANCE_OFFICER) ''rul_1'' [] demo_created = Inr demo_approved"
  "db_rules demo_approved = [demo_approved_row]" "db_versions demo_approved = []"
  by (simp_all add: demo_approved_def approve_def get_rule_def demo_create demo_row_simps guard_def guard_defs person_def
      save_rule_def demo_approved_row_def demo_env_def)

lemma demo_activate:
  "activate (demo_env ''aud_3'' 3) (person ''bob'' COMPLIANCE_OFFICER) ''rul_1'' [] demo_approved = Inr demo_active"
  "db_rules demo_active = [demo_approved_row\<lparr>rr_state := ACTIVE, rr_activated_at := Some 3\<rparr>]"
  "map rv_version (db_versions demo_active) = [1]"
  by (simp_all add: demo_active_def activate_def get_rule_def demo_approve demo_approved_row_def demo_row_simps guard_def guard_defs
      person_def save_rule_def demo_env_def publish_version_def Let_def latest_version_def)

lemma demo_reachable: "reachable example_parser demo_approved" "reachable example_parser demo_active"
proof -
  have 1: "step example_parser (empty_db ''tnt_1'') demo_created"
    by (rule step.s_create [OF _ demo_create(1)]) (simp add: demo_env_def)
  have 2: "step example_parser demo_created demo_approved"
    by (rule step.s_approve [OF _ _ demo_approve(1)]) (simp_all add: demo_env_def person_def)
  have 3: "step example_parser demo_approved demo_active"
    by (rule step.s_activate [OF _ demo_activate(1)]) (simp add: demo_env_def)
  show "reachable example_parser demo_approved" "reachable example_parser demo_active"
    unfolding reachable_def using 1 2 3 by (meson rtranclp.intros)+
qed


section \<open>Properties\<close>





lemma step_appends:
  "step py db db' \<Longrightarrow> prefix (db_versions db) (db_versions db') \<and> prefix (db_trail db) (db_trail db')"
  by (erule stepE)
    (auto simp: create_draft_def request_approval_def approve_def move_to_shadow_def activate_def archive_def
        revert_def named_list_create_def named_list_update_def named_list_destroy_def publish_list_def publish_version_def
        Let_def split: if_splits option.splits elim!: edit_draft_cases)

interpretation versions: growing_log "step py" "inv py" db_versions
  by unfold_locales (simp add: step_appends)

interpretation trail: growing_log "step py" "inv py" db_trail
  by unfold_locales (simp add: step_appends)

text \<open>C15. Versions and trail only grow: in every reachable state the published versions are numbered
  1, 2, 3 and so on without a gap, and whatever operations follow, reverting included, none alters or
  removes a version or an audit record.\<close>

theorem versions_and_trail_append_only:
  assumes "reachable py db" and "(step py)\<^sup>*\<^sup>* db db'"
  shows "map rv_version (db_versions db) = [1..<Suc (length (db_versions db))]
    \<and> prefix (db_versions db) (db_versions db') \<and> prefix (db_trail db) (db_trail db')"
  using reachable_inv [OF assms(1)] versions.run_grows [OF assms(2)] trail.run_grows [OF assms(2)]
  by (simp add: inv_def del: upt_Suc)

theorem versions_and_trail_append_only_witness:
  "prefix (db_versions demo_approved) (db_versions demo_active) \<and> prefix (db_trail demo_approved) (db_trail demo_active)"
proof -
  have "step example_parser demo_approved demo_active"
    by (rule step.s_activate [OF _ demo_activate(1)]) (simp add: demo_env_def)
  from versions_and_trail_append_only [OF demo_reachable(1) r_into_rtranclp [where r = "step example_parser", OF this]] show ?thesis by simp
qed


lemma get_rule_save:
  "get_rule rid db = Inr r \<Longrightarrow> rr_id r' = rid \<Longrightarrow> get_rule rid (save_rule r' db) = Inr r'"
proof -
  have "List.find (\<lambda>x. rr_id x = rid) (map (\<lambda>x. if rr_id x = rr_id r' then r' else x) rs) = Some r'"
    if "List.find (\<lambda>x. rr_id x = rid) rs = Some r" "rr_id r' = rid" for rs
    using that by (induction rs) (auto split: if_splits)
  then show "get_rule rid db = Inr r \<Longrightarrow> rr_id r' = rid \<Longrightarrow> get_rule rid (save_rule r' db) = Inr r'"
    by (auto simp: get_rule_def save_rule_def split: option.splits)
qed

lemma get_rule_audit [simp]: "get_rule rid (audit_append env ev who s p db) = get_rule rid db"
  by (simp add: get_rule_def)

lemma get_rule_publish: "publish_version who db = (v, db') \<Longrightarrow> get_rule rid db' = get_rule rid db"
  by (simp add: get_rule_def publish_version_simps)


lemma indented_source_valid: "is_ok (validate_source example_parser (CHR 32 # example_source))"
proof -
  have "guard_source (CHR 32 # example_source) = Inr example_source" by code_simp
  then have "parse example_parser (CHR 32 # example_source) = Inr example_tree"
    by (simp add: parse_def example_parser_def example_tree_def tree_nodes_def limit_defs)
  then show ?thesis by (simp add: validate_source_def validate_example)
qed


text \<open>Reverting is forward and short-lived: it publishes, under the next number, exactly the rules
  and lists of the old version, and leaves the rule rows alone, so the next version any activation,
  archiving or list edit publishes is the one it would have published without the revert.\<close>

theorem revert_until_next_publish:
  assumes "revert env who n db = Inr db'"
  shows "(\<exists>source v. source \<in> set (db_versions db) \<and> rv_version source = n \<and> db_versions db' = db_versions db @ [v] \<and>
       rv_rules v = rv_rules source \<and> rv_lists v = rv_lists source)
    \<and> rv_rules (fst (publish_version who' db')) = rv_rules (fst (publish_version who' db))"
proof -
  from assms obtain source latest v where s: "source \<in> set (db_versions db)" "rv_version source = n"
    "rv_rules v = rv_rules source" "rv_lists v = rv_lists source" "db_versions db' = db_versions db @ [v]" "db_rules db' = db_rules db"
    by (rule revert_Inr)
  have "rv_rules (fst (publish_version who' db')) = rv_rules (fst (publish_version who' db))"
    using s(6) by (simp add: publish_version_def Let_def published_rules_def)
  with s show ?thesis by blast
qed

lemma demo_revert: "\<exists>db'. revert (demo_env ''aud_4'' 4) (person ''bob'' COMPLIANCE_OFFICER) 1 demo_active = Inr db'"
proof -
  from demo_activate(3) obtain v where v: "db_versions demo_active = [v]" "rv_version v = 1" by auto
  then show ?thesis
    by (simp add: revert_def guard_def guard_defs person_def latest_version_def Let_def)
qed

theorem revert_until_next_publish_witness:
  "\<exists>db'. revert (demo_env ''aud_4'' 4) (person ''bob'' COMPLIANCE_OFFICER) 1 demo_active = Inr db' \<and>
     rv_rules (fst (publish_version (person ''bob'' COMPLIANCE_OFFICER) db')) =
     rv_rules (fst (publish_version (person ''bob'' COMPLIANCE_OFFICER) demo_active))"
proof -
  from demo_revert obtain db' where d: "revert (demo_env ''aud_4'' 4) (person ''bob'' COMPLIANCE_OFFICER) 1 demo_active = Inr db'" ..
  from revert_until_next_publish [OF d, of "person ''bob'' COMPLIANCE_OFFICER"] d show ?thesis by blast
qed

end
