(* ===== verification/Engine_Cache.thy ===== *)
theory Engine_Cache
  imports Lifecycle
begin

text \<open>
  The worker's rule cache (\<open>src/complylayer/engine/cache.py\<close>): compiling a stored snapshot with
  re-validation, the swap, and the poll and announcement handlers that drive it. What \<open>load\<close> reads
  from the database is an argument of each refresh, as is the clock. \<open>SnapshotError\<close> is the only
  exception the handlers catch; \<open>Bad_value\<close> (a plain \<open>ValueError\<close>) and \<open>Missing_key\<close>
  (\<open>KeyError\<close>) escape.
\<close>


section \<open>Compiling\<close>

datatype cache_error = SnapshotError | Bad_value | Missing_key

definition severity_of_text :: "string \<Rightarrow> severity option" where
  "severity_of_text s =
     (if s = ''block'' then Some BLOCK else if s = ''flag'' then Some FLAG
      else if s = ''allow_with_note'' then Some ALLOW_WITH_NOTE else None)"

definition state_of_text :: "string \<Rightarrow> rule_state option" where
  "state_of_text s = List.find (\<lambda>st. state_text st = s) [DRAFT, SHADOW, ACTIVE, ARCHIVED]"

lemma state_of_text_state_text [simp]: "state_of_text (state_text st) = Some st"
  by (cases st) (simp_all add: state_of_text_def)

definition or_default :: "'a option \<Rightarrow> 'a \<Rightarrow> 'a" where
  "or_default x d = (case x of Some v \<Rightarrow> v | None \<Rightarrow> d)"

definition compile_entry :: "python_parser \<Rightarrow> snapshot_entry \<Rightarrow> cache_error + compiled_rule" where
  "compile_entry py e =
     bindE (case se_expression e of
              None \<Rightarrow> Inl SnapshotError
            | Some src \<Rightarrow> (case validate_source py src of Inl _ \<Rightarrow> Inl SnapshotError | Inr t \<Rightarrow> Inr t)) (\<lambda>tree.
     bindE (case se_id e of None \<Rightarrow> Inl Missing_key | Some i \<Rightarrow> Inr i) (\<lambda>i.
     bindE (case se_severity e of
              None \<Rightarrow> Inl Missing_key
            | Some s \<Rightarrow> (case severity_of_text s of None \<Rightarrow> Inl Bad_value | Some sev \<Rightarrow> Inr sev)) (\<lambda>sev.
     bindE (case state_of_text (or_default (se_state e) ''active'') of None \<Rightarrow> Inl Bad_value | Some st \<Rightarrow> Inr st) (\<lambda>st.
       Inr \<lparr>rule_id = i, rule_name = or_default (se_name e) i, rule_tree = tree, rule_severity = sev,
            rule_state = st, rule_priority = or_default (se_priority e) 0,
            regulatory_reference = or_default (se_regulatory_reference e) [],
            rule_customer_message = or_default (se_customer_message e) []\<rparr>))))"

definition compile_snapshot :: "python_parser \<Rightarrow> int \<Rightarrow> snapshot_entry list \<Rightarrow> cache_error + rule_set" where
  "compile_snapshot py version snapshot =
     bindE (mapE (compile_entry py) snapshot) (\<lambda>compiled. Inr (make_rule_set version compiled))"


section \<open>The cache\<close>

record loaded_rule_set =
  lr_ruleset :: rule_set
  lr_lists :: "(string \<times> pyval list) list"
  lr_loaded_at :: int

record rule_set_cache =
  rc_tenant :: string
  rc_current :: "loaded_rule_set option"

type_synonym published = "int \<times> snapshot_entry list \<times> (string \<times> pyval list) list option"

definition cache_version :: "rule_set_cache \<Rightarrow> int option" where
  "cache_version c = map_option (rs_version \<circ> lr_ruleset) (rc_current c)"

definition is_warm :: "rule_set_cache \<Rightarrow> bool" where
  "is_warm c \<longleftrightarrow> rc_current c \<noteq> None"

definition refresh ::
  "python_parser \<Rightarrow> int \<Rightarrow> published option \<Rightarrow> bool \<Rightarrow> rule_set_cache \<Rightarrow> (cache_error + bool) \<times> rule_set_cache" where
  "refresh py now load force c =
     (case load of
        None \<Rightarrow> (Inr False, c)
      | Some (version, snapshot, lists_snap) \<Rightarrow>
          if \<not> force \<and> cache_version c = Some version then (Inr False, c)
          else
            (case compile_snapshot py version snapshot of
               Inl e \<Rightarrow> (Inl e, c)
             | Inr rs \<Rightarrow>
                 (Inr True,
                  c\<lparr>rc_current := Some \<lparr>lr_ruleset = rs, lr_lists = or_default lists_snap [], lr_loaded_at = now\<rparr>\<rparr>)))"

record version_watcher =
  vw_cache :: rule_set_cache
  vw_polls :: nat
  vw_announcements :: nat

definition swallow_snapshot_error :: "cache_error + bool \<Rightarrow> cache_error + bool" where
  "swallow_snapshot_error r = (case r of Inl SnapshotError \<Rightarrow> Inr False | _ \<Rightarrow> r)"

definition poll_once ::
  "python_parser \<Rightarrow> int \<Rightarrow> published option \<Rightarrow> version_watcher \<Rightarrow> (cache_error + bool) \<times> version_watcher" where
  "poll_once py now load w =
     (let (r, c) = refresh py now load False (vw_cache w)
      in (swallow_snapshot_error r, w\<lparr>vw_polls := Suc (vw_polls w), vw_cache := c\<rparr>))"

definition on_announcement ::
  "python_parser \<Rightarrow> int \<Rightarrow> published option \<Rightarrow> version_watcher \<Rightarrow> (cache_error + bool) \<times> version_watcher" where
  "on_announcement py now load w =
     (let (r, c) = refresh py now load False (vw_cache w)
      in (swallow_snapshot_error r, w\<lparr>vw_announcements := Suc (vw_announcements w), vw_cache := c\<rparr>))"

text \<open>\<open>_poll_loop\<close>: polls until an exception escapes, one clock reading and one database read each.\<close>

fun poll_loop :: "python_parser \<Rightarrow> (int \<times> published option) list \<Rightarrow> version_watcher \<Rightarrow> cache_error option \<times> version_watcher" where
  "poll_loop py [] w = (None, w)"
| "poll_loop py ((now, load) # polls) w =
     (case poll_once py now load w of (Inl e, w') \<Rightarrow> (Some e, w') | (Inr _, w') \<Rightarrow> poll_loop py polls w')"


section \<open>Compiling what was published\<close>

lemma compile_snapshot_of:
  "compile_entry py (snapshot_of r) =
     (case validate_source py (rr_expression r) of
        Inl _ \<Rightarrow> Inl SnapshotError
      | Inr tree \<Rightarrow>
          (case severity_of_text (rr_severity r) of
             None \<Rightarrow> Inl Bad_value
           | Some sev \<Rightarrow>
               Inr \<lparr>rule_id = rr_id r, rule_name = rr_name r, rule_tree = tree, rule_severity = sev,
                    rule_state = rr_state r, rule_priority = rr_priority r,
                    regulatory_reference = rr_regulatory_reference r,
                    rule_customer_message = rr_customer_message r\<rparr>))"
  by (simp add: compile_entry_def snapshot_of_def or_default_def split: sum.splits option.splits)

lemma se_severity_snapshot_of [simp]: "se_severity (snapshot_of r) = Some (rr_severity r)"
  by (simp add: snapshot_of_def)

lemma compile_entry_entry_ok:
  "entry_ok py e \<Longrightarrow> compile_entry py e \<noteq> Inl SnapshotError \<and> compile_entry py e \<noteq> Inl Missing_key"
  by (auto simp: entry_ok_def compile_snapshot_of is_ok_iff split: option.splits)

lemma refresh_cases:
  "refresh py now load force c = (r, c') \<Longrightarrow>
     (c' = c \<and> r \<noteq> Inr True) \<or>
     (\<exists>version snapshot lists_snap rs. load = Some (version, snapshot, lists_snap) \<and> compile_snapshot py version snapshot = Inr rs \<and>
        r = Inr True \<and> c' = c\<lparr>rc_current := Some \<lparr>lr_ruleset = rs, lr_lists = or_default lists_snap [], lr_loaded_at = now\<rparr>\<rparr>)"
  by (auto simp: refresh_def split: option.splits prod.splits if_splits sum.splits)

lemma compile_snapshot_version: "compile_snapshot py v s = Inr rs \<Longrightarrow> rs_version rs = v"
  by (auto simp: compile_snapshot_def make_rule_set_def)


section \<open>Properties\<close>

text \<open>C14. A swap is all or nothing: a refresh leaves the cached rule set untouched, whatever went wrong,
  or installs the whole compiled snapshot it read; and when it reads a version that compiles, the
  cache serves exactly that version afterwards. So a worker never serves a half-built rule set and a
  poll alone brings every published version that compiles into force.\<close>

theorem refresh_all_or_nothing:
  assumes "poll_once py now load w = (r, w')"
  shows "(rc_current (vw_cache w') = rc_current (vw_cache w) \<or>
      (\<exists>version snapshot lists_snap rs. load = Some (version, snapshot, lists_snap) \<and> compile_snapshot py version snapshot = Inr rs \<and>
         map_option lr_ruleset (rc_current (vw_cache w')) = Some rs))
    \<and> (\<forall>version snapshot lists_snap. load = Some (version, snapshot, lists_snap) \<longrightarrow> is_ok (compile_snapshot py version snapshot) \<longrightarrow>
         cache_version (vw_cache w') = Some version \<and> is_ok r)"
proof -
  obtain r0 c where f: "refresh py now load False (vw_cache w) = (r0, c)" by fastforce
  have w': "vw_cache w' = c" and r: "r = swallow_snapshot_error r0" using assms f by (auto simp: poll_once_def)
  have "cache_version c = Some version \<and> is_ok r"
    if "load = Some (version, snapshot, lists_snap)" "is_ok (compile_snapshot py version snapshot)" for version snapshot lists_snap
    using f that r compile_snapshot_version
    by (auto simp: refresh_def is_ok_iff cache_version_def swallow_snapshot_error_def split: if_splits)
  with refresh_cases [OF f] w' show ?thesis by auto
qed

definition cold_watcher :: version_watcher where
  "cold_watcher = \<lparr>vw_cache = \<lparr>rc_tenant = ''tnt_1'', rc_current = None\<rparr>, vw_polls = 0, vw_announcements = 0\<rparr>"

lemma demo_compiles: "is_ok (compile_snapshot example_parser 1 [snapshot_of demo_row])"
  by (simp add: compile_snapshot_def compile_snapshot_of demo_row_def new_rule_def demo_fields_def demo_env_def
      validate_source_example severity_of_text_def)

theorem refresh_all_or_nothing_witness:
  "cache_version (vw_cache (snd (poll_once example_parser 7 (Some (1, [snapshot_of demo_row], None)) cold_watcher))) = Some 1"
  using refresh_all_or_nothing [of example_parser 7 "Some (1, [snapshot_of demo_row], None)" cold_watcher] demo_compiles
  by (metis prod.collapse)

text \<open>Every version ever published compiles again on a worker, provided its severities are among the
  three known ones: for each version of a reachable database re-validation never refuses, and
  compiling can fail only with the \<open>ValueError\<close> of an unknown severity.\<close>

theorem published_versions_recompile:
  assumes "reachable py db" and "v \<in> set (db_versions db)"
  shows "((\<forall>e \<in> set (rv_rules v). \<exists>s. se_severity e = Some s \<and> severity_of_text s \<noteq> None) \<longrightarrow>
      is_ok (compile_snapshot py n (rv_rules v)))
    \<and> (compile_snapshot py n (rv_rules v) = Inl x \<longrightarrow> x = Bad_value)"
proof -
  have ok: "entry_ok py e" if "e \<in> set (rv_rules v)" for e
    using reachable_inv [OF assms(1)] assms(2) that by (auto simp: inv_def)
  have "is_ok (compile_snapshot py n (rv_rules v))"
    if sev: "\<forall>e \<in> set (rv_rules v). \<exists>s. se_severity e = Some s \<and> severity_of_text s \<noteq> None"
  proof -
    have "is_ok (compile_entry py e)" if "e \<in> set (rv_rules v)" for e
      using ok [OF that] bspec [OF sev that]
      by (auto simp: entry_ok_def compile_snapshot_of is_ok_iff split: option.splits)
    then have "is_ok (mapE (compile_entry py) (rv_rules v))" by (rule mapE_all_ok)
    then show ?thesis by (auto simp: compile_snapshot_def is_ok_iff)
  qed
  moreover have "x = Bad_value" if "compile_snapshot py n (rv_rules v) = Inl x"
  proof -
    from that obtain e where "e \<in> set (rv_rules v)" "compile_entry py e = Inl x"
      by (auto simp: compile_snapshot_def bindE_eq_Inl elim!: mapE_InlE)
    with compile_entry_entry_ok [OF ok] show ?thesis by (cases x) auto
  qed
  ultimately show ?thesis by blast
qed

lemma demo_version:
  obtains v where "db_versions demo_active = [v]"
    and "rv_rules v = [snapshot_of (demo_approved_row\<lparr>rr_state := ACTIVE, rr_activated_at := Some 3\<rparr>)]"
  by (simp add: demo_active_def activate_def get_rule_def demo_approve demo_approved_row_def demo_row_simps guard_def guard_defs
      person_def save_rule_def demo_env_def publish_version_def Let_def latest_version_def published_rules_def)

theorem published_versions_recompile_witness:
  "\<exists>v \<in> set (db_versions demo_active). is_ok (compile_snapshot example_parser 1 (rv_rules v))"
proof -
  obtain v where v: "db_versions demo_active = [v]"
    "rv_rules v = [snapshot_of (demo_approved_row\<lparr>rr_state := ACTIVE, rr_activated_at := Some 3\<rparr>)]"
    by (rule demo_version)
  have "\<forall>e \<in> set (rv_rules v). \<exists>s. se_severity e = Some s \<and> severity_of_text s \<noteq> None"
    by (simp add: v(2) snapshot_of_def demo_approved_row_def demo_row_def new_rule_def demo_fields_def severity_of_text_def)
  with published_versions_recompile [OF demo_reachable(2), of v 1] v(1) show ?thesis by simp
qed

text \<open>One rule with an unknown severity stops a worker's poll: create, edit and publish accept any
  severity text, and once such a version is published the \<open>ValueError\<close> escapes \<open>poll_once\<close> and
  ends the poll loop, so no later version reaches the cache through it.\<close>

theorem unknown_severity_ends_the_poll:
  assumes "is_ok (validate_source py (rr_expression r))" and "severity_of_text (rr_severity r) = None"
    and "cache_version (vw_cache w) \<noteq> Some version"
  shows "poll_loop py ((now, Some (version, snapshot_of r # rest, lists_snap)) # later) w =
    (Some Bad_value, w\<lparr>vw_polls := Suc (vw_polls w)\<rparr>)"
proof -
  have "compile_entry py (snapshot_of r) = Inl Bad_value"
    using assms(1,2) by (auto simp: compile_snapshot_of is_ok_iff)
  then have "compile_snapshot py version (snapshot_of r # rest) = Inl Bad_value"
    by (simp add: compile_snapshot_def)
  with assms(3) show ?thesis
    by (simp add: poll_once_def refresh_def swallow_snapshot_error_def)
qed

theorem unknown_severity_ends_the_poll_witness:
  "fst (poll_loop example_parser
     [(1, Some (2, [snapshot_of (demo_row\<lparr>rr_severity := ''critical''\<rparr>)], None)), (2, Some (3, [], None))] cold_watcher) = Some Bad_value"
proof -
  have "is_ok (validate_source example_parser (rr_expression (demo_row\<lparr>rr_severity := ''critical''\<rparr>)))"
    "severity_of_text (rr_severity (demo_row\<lparr>rr_severity := ''critical''\<rparr>)) = None"
    "cache_version (vw_cache cold_watcher) \<noteq> Some 2"
    by (simp_all add: demo_row_def new_rule_def demo_fields_def validate_source_example severity_of_text_def cold_watcher_def cache_version_def)
  from unknown_severity_ends_the_poll [OF this] show ?thesis by simp
qed

end
