(* ===== verification/Api_Validation.thy ===== *)
theory Api_Validation
  imports Py_Values
begin

text \<open>
  Validating a decision request (\<open>src/complylayer/api/validation.py\<close>, \<open>api/errors.py\<close>).

  The body is a Latin-1 string of bytes and \<open>orjson.loads\<close> a parameter: \<open>None\<close> is its
  \<open>JSONDecodeError\<close>. A JSON object is a \<open>PDict\<close>. Every refusal is an \<open>api_error\<close> with the
  code, message, status and field of the source.

  The main result is \<open>parse_transaction_Inr\<close>: the chain of checks accepts exactly the payloads
  that satisfy the closed schema \<open>acceptable\<close>, and builds \<open>transaction_of\<close> from them.
\<close>


section \<open>Errors\<close>

record api_error =
  err_code :: string
  err_message :: string
  err_status :: nat
  err_field :: string

definition bad_request :: "string \<Rightarrow> string \<Rightarrow> string \<Rightarrow> api_error" where
  "bad_request code message field =
     \<lparr>err_code = code, err_message = message, err_status = 400, err_field = field\<rparr>"

definition as_dict :: "api_error \<Rightarrow> pyval dict" where
  "as_dict e =
     [(''error'', PStr (err_code e)), (''message'', PStr (err_message e))]
     @ (if err_field e \<noteq> [] then [(''field'', PStr (err_field e))] else [])"


section \<open>Schema\<close>

definition MAX_BODY_BYTES :: nat where
  "MAX_BODY_BYTES = 16 * 1024"

definition TOP_LEVEL_FIELDS :: "string list" where
  "TOP_LEVEL_FIELDS =
     [''transaction_ref'', ''customer_ref'', ''amount_minor'', ''currency'', ''transaction_type'', ''channel'',
      ''customer'', ''destination'', ''device'']"

definition REQUIRED_FIELDS :: "string list" where
  "REQUIRED_FIELDS = [''transaction_ref'', ''customer_ref'', ''amount_minor'', ''currency'']"

definition CUSTOMER_FIELDS :: "string list" where
  "CUSTOMER_FIELDS = [''kyc_tier'', ''account_created_at'', ''country'', ''last_transaction_at'']"

definition DESTINATION_FIELDS :: "string list" where
  "DESTINATION_FIELDS = [''country'', ''bank_code'', ''is_new_beneficiary'']"

definition DEVICE_FIELDS :: "string list" where
  "DEVICE_FIELDS = [''id'', ''ip_country'']"

definition NESTED_FIELDS :: "(string \<times> string list) list" where
  "NESTED_FIELDS =
     [(''customer'', CUSTOMER_FIELDS), (''destination'', DESTINATION_FIELDS), (''device'', DEVICE_FIELDS)]"

lemmas schema_defs =
  TOP_LEVEL_FIELDS_def REQUIRED_FIELDS_def CUSTOMER_FIELDS_def DESTINATION_FIELDS_def
  DEVICE_FIELDS_def NESTED_FIELDS_def

record transaction =
  tx_ref :: string
  tx_customer_ref :: string
  tx_amount_minor :: int
  tx_currency :: string
  tx_type :: string
  tx_channel :: string
  tx_customer :: "pyval dict"
  tx_destination :: "pyval dict"
  tx_device :: "pyval dict"

definition as_context :: "transaction \<Rightarrow> pyval dict" where
  "as_context t =
     [(''transaction_ref'', PStr (tx_ref t)), (''customer_ref'', PStr (tx_customer_ref t)),
      (''amount_minor'', PInt (tx_amount_minor t)), (''currency'', PStr (tx_currency t)),
      (''transaction_type'', PStr (tx_type t)), (''channel'', PStr (tx_channel t)),
      (''customer'', PDict (tx_customer t)), (''destination'', PDict (tx_destination t)),
      (''device'', PDict (tx_device t))]"


section \<open>Checks\<close>

definition parse_body :: "(string \<Rightarrow> pyval option) \<Rightarrow> string \<Rightarrow> api_error + pyval dict" where
  "parse_body loads raw =
     (if length raw > MAX_BODY_BYTES then
        Inl \<lparr>err_code = ''body_too_large'', err_message = ''Request body exceeds 16384 bytes.'',
             err_status = 413, err_field = []\<rparr>
      else if raw = [] then Inl (bad_request ''empty_body'' ''A decision request needs a JSON body.'' [])
      else
        (case loads raw of
           None \<Rightarrow> Inl (bad_request ''invalid_json'' ''The request body is not valid JSON.'' [])
         | Some (PDict d) \<Rightarrow> Inr d
         | Some _ \<Rightarrow> Inl (bad_request ''invalid_json'' ''The request body must be a JSON object.'' [])))"

definition require_idempotency_key :: "(string \<rightharpoonup> string) \<Rightarrow> api_error + string" where
  "require_idempotency_key headers =
     (let key = (case headers ''Idempotency-Key'' of Some k \<Rightarrow> k | None \<Rightarrow> [])
      in if key = [] then
           Inl (bad_request ''idempotency_key_required''
             ''Send an Idempotency-Key header so a retry returns the original decision.'' [])
         else if length key > 128 then
           Inl (bad_request ''idempotency_key_too_long'' ''Idempotency-Key must be 128 characters or fewer.'' [])
         else Inr key)"

definition reject_unknown :: "pyval dict \<Rightarrow> string list \<Rightarrow> string \<Rightarrow> api_error + unit" where
  "reject_unknown payload allowed pre =
     (case sort (filter (\<lambda>k. k \<notin> set allowed) (map fst payload)) of
        [] \<Rightarrow> Inr ()
      | u # us \<Rightarrow>
          Inl (bad_request ''unknown_field''
            (pre @ u @ '' is not a field ComplyLayer accepts. Unknown fields are refused rather '' @
             ''than ignored, so nothing is stored that was never meant to arrive.'')
            (pre @ u)))"

definition require_text :: "pyval dict \<Rightarrow> string \<Rightarrow> api_error + unit" where
  "require_text payload name =
     (let empty = Inl (bad_request ''invalid_field'' (name @ '' must be a non-empty string.'') name)
      in case map_of payload name of
           Some (PStr s) \<Rightarrow>
             if s = [] then empty
             else if length s > 128 then
               Inl (bad_request ''invalid_field'' (name @ '' must be 128 characters or fewer.'') name)
             else Inr ()
         | _ \<Rightarrow> empty)"

text \<open>\<open>payload[name]\<close> where a check has established that it is a string.\<close>

definition text_at :: "pyval dict \<Rightarrow> string \<Rightarrow> string" where
  "text_at payload name = (case map_of payload name of Some (PStr s) \<Rightarrow> s | _ \<Rightarrow> [])"

definition require_amount :: "pyval dict \<Rightarrow> api_error + int" where
  "require_amount payload =
     (case map_of payload ''amount_minor'' of
        Some (PInt a) \<Rightarrow>
          if a < 0 then
            Inl (bad_request ''invalid_amount'' ''amount_minor cannot be negative.'' ''amount_minor'')
          else Inr a
      | _ \<Rightarrow>
          Inl (bad_request ''invalid_amount''
            ''amount_minor must be a whole number of minor units (kobo, cents).'' ''amount_minor''))"

definition require_currency :: "pyval dict \<Rightarrow> api_error + unit" where
  "require_currency payload =
     (let currency = text_at payload ''currency''
      in if length currency \<noteq> 3 \<or> \<not> list_all isalpha_c currency then
           Inl (bad_request ''invalid_currency'' ''currency must be a 3-letter ISO code.'' ''currency'')
         else Inr ())"

definition nested_object :: "pyval dict \<Rightarrow> string \<times> string list \<Rightarrow> api_error + pyval dict" where
  "nested_object payload f =
     (case f of (name, allowed) \<Rightarrow>
        (case (case map_of payload name of Some v \<Rightarrow> v | None \<Rightarrow> PDict []) of
           PDict d \<Rightarrow> bindE (reject_unknown d allowed (name @ ''.'')) (\<lambda>_. Inr d)
         | _ \<Rightarrow> Inl (bad_request ''invalid_field'' (name @ '' must be an object.'') name)))"

text \<open>\<open>str.upper\<close> on the Latin-1 range. The sharp s becomes two letters; the micro sign and the
  y with diaeresis, whose capitals lie outside the range, are left as they are.\<close>

definition upper_c :: "char \<Rightarrow> string" where
  "upper_c c =
     (let n = ord_c c
      in if (97 \<le> n \<and> n \<le> 122) \<or> (224 \<le> n \<and> n \<le> 254 \<and> n \<noteq> 247) then [char_of (n - 32)]
         else if n = 223 then ''SS''
         else [c])"

definition py_upper :: "string \<Rightarrow> string" where
  "py_upper s = concat (map upper_c s)"

definition parse_transaction :: "pyval dict \<Rightarrow> api_error + transaction" where
  "parse_transaction payload =
     bindE (reject_unknown payload TOP_LEVEL_FIELDS []) (\<lambda>_.
     bindE (case sort (filter (\<lambda>n. n \<notin> set (map fst payload)) REQUIRED_FIELDS) of
              [] \<Rightarrow> Inr ()
            | n # ns \<Rightarrow> Inl (bad_request ''missing_field'' (n @ '' is required.'') n)) (\<lambda>_.
     bindE (mapE (require_text payload) [''transaction_ref'', ''customer_ref'', ''currency'']) (\<lambda>_.
     bindE (mapE (\<lambda>n. if n \<in> set (map fst payload) then require_text payload n else Inr ())
              [''transaction_type'', ''channel'']) (\<lambda>_.
     bindE (require_amount payload) (\<lambda>amount.
     bindE (require_currency payload) (\<lambda>_.
     bindE (mapE (nested_object payload) NESTED_FIELDS) (\<lambda>nested.
       Inr \<lparr>tx_ref = text_at payload ''transaction_ref'', tx_customer_ref = text_at payload ''customer_ref'',
            tx_amount_minor = amount, tx_currency = py_upper (text_at payload ''currency''),
            tx_type = text_at payload ''transaction_type'', tx_channel = text_at payload ''channel'',
            tx_customer = nested ! 0, tx_destination = nested ! 1, tx_device = nested ! 2\<rparr>)))))))"


section \<open>The schema as a predicate\<close>

fun short_text :: "pyval option \<Rightarrow> bool" where
  "short_text (Some (PStr s)) \<longleftrightarrow> s \<noteq> [] \<and> length s \<le> 128"
| "short_text _ \<longleftrightarrow> False"

fun amount_ok :: "pyval option \<Rightarrow> bool" where
  "amount_ok (Some (PInt a)) \<longleftrightarrow> 0 \<le> a"
| "amount_ok _ \<longleftrightarrow> False"

fun object_ok :: "string list \<Rightarrow> pyval option \<Rightarrow> bool" where
  "object_ok allowed None \<longleftrightarrow> True"
| "object_ok allowed (Some (PDict d)) \<longleftrightarrow> set (map fst d) \<subseteq> set allowed"
| "object_ok allowed _ \<longleftrightarrow> False"

definition object_at :: "pyval dict \<Rightarrow> string \<Rightarrow> pyval dict" where
  "object_at payload name = (case map_of payload name of Some (PDict d) \<Rightarrow> d | _ \<Rightarrow> [])"

definition amount_at :: "pyval dict \<Rightarrow> int" where
  "amount_at payload = (case map_of payload ''amount_minor'' of Some (PInt a) \<Rightarrow> a | _ \<Rightarrow> 0)"

definition acceptable :: "pyval dict \<Rightarrow> bool" where
  "acceptable p \<longleftrightarrow>
     set (map fst p) \<subseteq> set TOP_LEVEL_FIELDS \<and>
     short_text (map_of p ''transaction_ref'') \<and> short_text (map_of p ''customer_ref'') \<and>
     amount_ok (map_of p ''amount_minor'') \<and>
     length (text_at p ''currency'') = 3 \<and> list_all isalpha_c (text_at p ''currency'') \<and>
     (''transaction_type'' \<in> set (map fst p) \<longrightarrow> short_text (map_of p ''transaction_type'')) \<and>
     (''channel'' \<in> set (map fst p) \<longrightarrow> short_text (map_of p ''channel'')) \<and>
     list_all (\<lambda>(n, allowed). object_ok allowed (map_of p n)) NESTED_FIELDS"

definition transaction_of :: "pyval dict \<Rightarrow> transaction" where
  "transaction_of p =
     \<lparr>tx_ref = text_at p ''transaction_ref'', tx_customer_ref = text_at p ''customer_ref'',
      tx_amount_minor = amount_at p, tx_currency = py_upper (text_at p ''currency''),
      tx_type = text_at p ''transaction_type'', tx_channel = text_at p ''channel'',
      tx_customer = object_at p ''customer'', tx_destination = object_at p ''destination'',
      tx_device = object_at p ''device''\<rparr>"

lemma sort_filter_Nil: "sort (filter P xs) = [] \<longleftrightarrow> (\<forall>x \<in> set xs. \<not> P x)"
  by (metis filter_empty_conv set_empty set_sort)

lemma reject_unknown_Inr:
  "reject_unknown p allowed pre = Inr u \<longleftrightarrow> set (map fst p) \<subseteq> set allowed"
proof -
  have "reject_unknown p allowed pre = Inr u \<longleftrightarrow> sort (filter (\<lambda>k. k \<notin> set allowed) (map fst p)) = []"
    by (auto simp: reject_unknown_def split: list.splits)
  then show ?thesis by (auto simp: sort_filter_Nil)
qed

lemma missing_Inr:
  "(case sort (filter (\<lambda>n. n \<notin> K) fs) of [] \<Rightarrow> Inr () | n # ns \<Rightarrow> Inl (e n)) = Inr u \<longleftrightarrow> set fs \<subseteq> K"
proof -
  have "(case sort (filter (\<lambda>n. n \<notin> K) fs) of [] \<Rightarrow> Inr () | n # ns \<Rightarrow> Inl (e n)) = Inr u
      \<longleftrightarrow> sort (filter (\<lambda>n. n \<notin> K) fs) = []"
    by (auto split: list.splits)
  then show ?thesis by (auto simp: sort_filter_Nil)
qed

lemma require_text_Inr: "require_text p n = Inr u \<longleftrightarrow> short_text (map_of p n)"
  by (auto simp: require_text_def Let_def split: option.splits pyval.splits)

lemma require_amount_Inr: "require_amount p = Inr a \<longleftrightarrow> amount_ok (map_of p ''amount_minor'') \<and> a = amount_at p"
  by (auto simp: require_amount_def amount_at_def split: option.splits pyval.splits)

lemma require_currency_Inr:
  "require_currency p = Inr u \<longleftrightarrow> length (text_at p ''currency'') = 3 \<and> list_all isalpha_c (text_at p ''currency'')"
  by (auto simp: require_currency_def Let_def)

lemma nested_object_Inr:
  "nested_object p (n, allowed) = Inr d \<longleftrightarrow> object_ok allowed (map_of p n) \<and> d = object_at p n"
  by (auto simp: nested_object_def object_at_def reject_unknown_Inr split: option.splits pyval.splits)

lemma short_text_key: "short_text (map_of p n) \<Longrightarrow> n \<in> set (map fst p)"
  by (cases "map_of p n") (auto simp: map_of_eq_None_iff dest: map_of_SomeD intro: rev_image_eqI)

lemma amount_ok_key: "amount_ok (map_of p n) \<Longrightarrow> n \<in> set (map fst p)"
  by (cases "map_of p n") (auto simp: map_of_eq_None_iff dest: map_of_SomeD intro: rev_image_eqI)

lemma currency_short: "length (text_at p n) = 3 \<Longrightarrow> short_text (map_of p n)"
  by (auto simp: text_at_def split: option.splits pyval.splits)

lemma parse_transaction_Inr:
  "parse_transaction p = Inr t \<longleftrightarrow> acceptable p \<and> t = transaction_of p"
proof -
  have texts: "(\<exists>x. mapE (require_text p) [''transaction_ref'', ''customer_ref'', ''currency''] = Inr x) \<longleftrightarrow>
      short_text (map_of p ''transaction_ref'') \<and> short_text (map_of p ''customer_ref'') \<and> short_text (map_of p ''currency'')"
    by (auto simp del: mapE.simps simp: mapE_Inr_iff list_all2_Cons1 require_text_Inr)
  have optional: "(\<exists>x. mapE (\<lambda>n. if n \<in> set (map fst p) then require_text p n else Inr ()) [''transaction_type'', ''channel''] = Inr x) \<longleftrightarrow>
      (''transaction_type'' \<in> set (map fst p) \<longrightarrow> short_text (map_of p ''transaction_type'')) \<and>
      (''channel'' \<in> set (map fst p) \<longrightarrow> short_text (map_of p ''channel''))"
    by (auto simp del: mapE.simps simp: mapE_Inr_iff list_all2_Cons1 require_text_Inr)
  have nested: "mapE (nested_object p) NESTED_FIELDS = Inr ds \<longleftrightarrow>
      list_all (\<lambda>(n, allowed). object_ok allowed (map_of p n)) NESTED_FIELDS \<and>
      ds = [object_at p ''customer'', object_at p ''destination'', object_at p ''device'']" for ds
    by (auto simp del: mapE.simps simp: mapE_Inr_iff list_all2_Cons1 nested_object_Inr NESTED_FIELDS_def)
  have required: "set REQUIRED_FIELDS \<subseteq> set (map fst p)"
    if "short_text (map_of p ''transaction_ref'')" "short_text (map_of p ''customer_ref'')"
      "short_text (map_of p ''currency'')" "amount_ok (map_of p ''amount_minor'')"
    using that(1-3) [THEN short_text_key] that(4) [THEN amount_ok_key] by (simp add: REQUIRED_FIELDS_def)
  have "parse_transaction p = Inr t \<longleftrightarrow>
      set (map fst p) \<subseteq> set TOP_LEVEL_FIELDS \<and> set REQUIRED_FIELDS \<subseteq> set (map fst p) \<and>
      (\<exists>x. mapE (require_text p) [''transaction_ref'', ''customer_ref'', ''currency''] = Inr x) \<and>
      (\<exists>x. mapE (\<lambda>n. if n \<in> set (map fst p) then require_text p n else Inr ()) [''transaction_type'', ''channel''] = Inr x) \<and>
      amount_ok (map_of p ''amount_minor'') \<and>
      length (text_at p ''currency'') = 3 \<and> list_all isalpha_c (text_at p ''currency'') \<and>
      list_all (\<lambda>(n, allowed). object_ok allowed (map_of p n)) NESTED_FIELDS \<and> t = transaction_of p"
    unfolding parse_transaction_def bindE_eq_Inr reject_unknown_Inr missing_Inr nested
      require_amount_Inr require_currency_Inr
    by (auto simp: transaction_of_def)
  also have "\<dots> \<longleftrightarrow> acceptable p \<and> t = transaction_of p"
    unfolding texts optional acceptable_def using required currency_short by blast
  finally show ?thesis .
qed


section \<open>Properties\<close>

definition demo_payload :: "pyval dict" where
  "demo_payload =
     [(''transaction_ref'', PStr ''t1''), (''customer_ref'', PStr ''c1''), (''amount_minor'', PInt 500),
      (''currency'', PStr ''ngn''), (''customer'', PDict [(''kyc_tier'', PInt 2)])]"

lemma demo_payload_acceptable: "acceptable demo_payload"
  by code_simp

text \<open>C22. Request validation is a closed schema: the chain of checks accepts a payload exactly
  when its keys are among the nine known ones, the required ones are present and well-formed, the
  amount is a non-negative integer (no boolean), the texts are non-empty and at most 128
  characters, the currency has three letters and the nested objects have known keys only; and the
  transaction it builds carries exactly what the payload said, with the currency in capitals.\<close>

theorem validation_is_a_closed_schema:
  "(parse_transaction p = Inr t) = (acceptable p \<and> t = transaction_of p)"
  by (rule parse_transaction_Inr)

text \<open>Only the names inside a nested object are checked, not what they hold: any JSON value, an
  object with names of its own included, is accepted under a known name.\<close>

lemma nested_values_are_free:
  assumes "acceptable p" and "k \<in> set CUSTOMER_FIELDS"
  shows "acceptable (dict_put ''customer'' (PDict [(k, v)]) p)"
proof -
  have "set (map fst (dict_put ''customer'' x p)) = insert ''customer'' (set (map fst p))" for x :: pyval
    by (simp add: dict_put_def dom_update)
  moreover have "text_at (dict_put ''customer'' x p) n = (if n = ''customer'' then text_at [(n, x)] n else text_at p n)" for x n
    by (simp add: text_at_def)
  ultimately show ?thesis
    using assms unfolding acceptable_def by (simp add: schema_defs)
qed

text \<open>The three-letter check accepts letters whose capital is two letters long.\<close>

lemma currency_can_grow:
  "\<exists>p t. parse_transaction p = Inr t \<and> length (tx_currency t) > 3"
proof (intro exI conjI)
  let ?p = "[(''transaction_ref'', PStr ''t1''), (''customer_ref'', PStr ''c1''), (''amount_minor'', PInt 5),
      (''currency'', PStr [CHR ''a'', CHR ''b'', CHR 0xDF])]"
  show "parse_transaction ?p = Inr (transaction_of ?p)"
    unfolding parse_transaction_Inr by (rule conjI [OF _ refl]) code_simp
  show "length (tx_currency (transaction_of ?p)) > 3" by code_simp
qed

end
