(* ===== verification/Decision_Handler.thy ===== *)
theory Decision_Handler
  imports Velocity Engine_Cache Api_Validation
begin

text \<open>
  From a validated transaction to a decision body (\<open>src/complylayer/api/handler.py\<close>), over the
  tables \<open>src/complylayer/api/store.py\<close> reads and writes.

  What the process gets from outside a request is in two records: \<open>platform\<close> (\<open>orjson.loads\<close>,
  \<open>datetime.fromisoformat\<close>, HMAC-SHA256, the text of an evaluation error) is fixed, \<open>moment\<close> (the
  clock, its ISO text, the random decision id, what Redis did, the elapsed time) is new for every
  request. The handler is the one the middleware builds: a velocity provider per customer.

  A JSON column keeps what it is given. A \<open>pyval dict\<close> stands for the body, its keys in insertion
  order. \<open>outage\<close> is the simulation between a decision with Redis out of reach and the same
  decision with Redis in reach.
\<close>


section \<open>Tables and the store\<close>

record platform =
  pf_loads :: "string \<Rightarrow> pyval option"
  pf_fromisoformat :: "string \<Rightarrow> py_datetime option"
  pf_hmac :: "string \<Rightarrow> string \<Rightarrow> string"
  pf_error_text :: "eval_reason \<Rightarrow> string"

text \<open>A failing Redis call may have been applied before the connection was lost.\<close>

datatype redis_event = Redis_ok | Redis_raises string bool

record moment =
  mo_now :: int
  mo_iso :: string
  mo_decision_id :: string
  mo_redis :: redis_event
  mo_elapsed_ms :: rat

record decision_row =
  dr_id :: pyval
  dr_decided_at :: int
  dr_tenant :: string
  dr_idempotency_key :: string
  dr_ruleset_version :: int
  dr_transaction_ref :: string
  dr_customer_ref_hash :: string
  dr_amount_minor :: int
  dr_currency :: string
  dr_context :: "pyval dict"
  dr_resolved_facts :: pyval
  dr_outcome :: pyval
  dr_matched_rules :: pyval
  dr_shadow_matches :: pyval
  dr_reason :: pyval
  dr_degraded :: pyval
  dr_errored_rules :: pyval
  dr_latency_ms :: pyval

record idempotency_record =
  ir_tenant :: string
  ir_key :: string
  ir_decision_id :: pyval
  ir_decided_at :: int
  ir_response_body :: "pyval dict"

record decision_db =
  dd_decisions :: "decision_row list"
  dd_idempotency :: "idempotency_record list"
  dd_fallback :: "(string \<times> (string \<times> string) list) list"
  dd_versions :: "string \<Rightarrow> rule_set_version list"

datatype server_error = Exn exn | DataError | IntegrityError

text \<open>Strip the internal keys before the response goes out.\<close>

definition internal_key :: "string \<Rightarrow> bool" where
  "internal_key k \<longleftrightarrow> prefix ''_'' k"

definition public_body :: "pyval dict \<Rightarrow> pyval dict" where
  "public_body body = filter (\<lambda>(k, v). \<not> internal_key k) body"

definition find_response :: "string \<Rightarrow> string \<Rightarrow> decision_db \<Rightarrow> pyval dict option" where
  "find_response tenant key db =
     map_option ir_response_body
       (List.find (\<lambda>r. ir_tenant r = tenant \<and> ir_key r = key) (dd_idempotency db))"

definition stored_fallback :: "string \<Rightarrow> decision_db \<Rightarrow> exn + (severity \<rightharpoonup> string)" where
  "stored_fallback tenant db =
     (case map_of (dd_fallback db) tenant of
        None \<Rightarrow> Inr Map.empty
      | Some items \<Rightarrow>
          bindE (mapE (\<lambda>(k, v). case severity_of_text k of None \<Rightarrow> Inl ValueError | Some s \<Rightarrow> Inr (s, v)) items)
            (\<lambda>kvs. Inr (map_of (rev kvs))))"

definition stored_lists :: "string \<Rightarrow> int \<Rightarrow> decision_db \<Rightarrow> (string \<times> pyval list) list" where
  "stored_lists tenant version db =
     (case List.find (\<lambda>v. int (rv_version v) = version) (dd_versions db tenant) of
        None \<Rightarrow> [] | Some v \<Rightarrow> rv_lists v)"

definition body_item :: "pyval dict \<Rightarrow> string \<Rightarrow> server_error + pyval" where
  "body_item body k = (case map_of body k of None \<Rightarrow> Inl (Exn KeyError) | Some v \<Rightarrow> Inr v)"

definition body_get :: "pyval dict \<Rightarrow> string \<Rightarrow> pyval \<Rightarrow> pyval" where
  "body_get body k dflt = (case map_of body k of None \<Rightarrow> dflt | Some v \<Rightarrow> v)"

definition parse_instant :: "platform \<Rightarrow> pyval \<Rightarrow> server_error + int" where
  "parse_instant pf v =
     (case v of
        PStr s \<Rightarrow> (case pf_fromisoformat pf s of None \<Rightarrow> Inl (Exn ValueError) | Some d \<Rightarrow> Inr (instant d))
      | _ \<Rightarrow> Inl (Exn TypeError))"

text \<open>PostgreSQL stores every character but the NUL, in a text and in JSON.\<close>

definition storable_text :: "string \<Rightarrow> bool" where
  "storable_text s \<longleftrightarrow> CHR 0x00 \<notin> set s"

fun json_storable :: "pyval \<Rightarrow> bool" where
  "json_storable (PStr s) = storable_text s"
| "json_storable (PList vs) = list_all json_storable vs"
| "json_storable (PTuple vs) = list_all json_storable vs"
| "json_storable (PDict d) = list_all (\<lambda>(k, v). storable_text k \<and> json_storable v) d"
| "json_storable _ = True"

text \<open>The columns of \<open>Decision\<close> a request fills: three characters of currency, a 64-bit amount, texts and
  JSON. What the other columns get is made by the program or was stored before.\<close>

definition row_fits :: "decision_row \<Rightarrow> bool" where
  "row_fits r \<longleftrightarrow>
     length (dr_currency r) \<le> 3 \<and> - (2 ^ 63) \<le> dr_amount_minor r \<and> dr_amount_minor r < 2 ^ 63 \<and>
     storable_text (dr_idempotency_key r) \<and> storable_text (dr_transaction_ref r) \<and> json_storable (PDict (dr_context r))"

definition insert_decision :: "decision_row \<Rightarrow> decision_db \<Rightarrow> server_error + decision_db" where
  "insert_decision r db =
     (if \<not> row_fits r then Inl DataError
      else if list_ex (\<lambda>x. dr_id x = dr_id r \<and> dr_decided_at x = dr_decided_at r) (dd_decisions db)
      then Inl IntegrityError
      else Inr (db\<lparr>dd_decisions := dd_decisions db @ [r]\<rparr>))"

definition get_or_create :: "idempotency_record \<Rightarrow> decision_db \<Rightarrow> decision_db" where
  "get_or_create r db =
     (if find_response (ir_tenant r) (ir_key r) db = None
      then db\<lparr>dd_idempotency := dd_idempotency db @ [r]\<rparr> else db)"

definition save ::
  "platform \<Rightarrow> string \<Rightarrow> pyval dict \<Rightarrow> transaction \<Rightarrow> string \<Rightarrow> string \<Rightarrow> int \<Rightarrow> decision_db \<Rightarrow> server_error + decision_db" where
  "save pf tenant body tx key customer_hash version db =
     bindE (body_item body ''decided_at'') (\<lambda>at_text.
     bindE (parse_instant pf at_text) (\<lambda>decided_at.
     bindE (body_item body ''decision_id'') (\<lambda>did.
     bindE (body_item body ''outcome'') (\<lambda>out.
     bindE (body_item body ''matched_rules'') (\<lambda>matched.
     bindE (body_item body ''reason'') (\<lambda>why.
     bindE (body_item body ''degraded'') (\<lambda>degr.
     bindE (insert_decision
        \<lparr>dr_id = did, dr_decided_at = decided_at, dr_tenant = tenant, dr_idempotency_key = key,
         dr_ruleset_version = version, dr_transaction_ref = tx_ref tx, dr_customer_ref_hash = customer_hash,
         dr_amount_minor = tx_amount_minor tx, dr_currency = tx_currency tx, dr_context = as_context tx,
         dr_resolved_facts = body_get body ''_resolved_facts'' (PDict []), dr_outcome = out,
         dr_matched_rules = matched, dr_shadow_matches = body_get body ''_shadow_matches'' (PList []),
         dr_reason = why, dr_degraded = degr,
         dr_errored_rules = body_get body ''_errored_rules'' (PList []),
         dr_latency_ms = body_get body ''latency_ms'' (PInt 0)\<rparr> db) (\<lambda>db1.
       Inr (get_or_create
         \<lparr>ir_tenant = tenant, ir_key = key, ir_decision_id = did, ir_decided_at = decided_at,
          ir_response_body = public_body body\<rparr> db1)))))))))"


section \<open>Velocity for one request\<close>

type_synonym redis = "string \<times> string \<Rightarrow> customer_store"

text \<open>A provider with the customer's aggregate facts.\<close>

record gathered =
  g_provider :: velocity_provider
  g_aggregates :: "(string \<times> pyval) list"

definition unavailable_velocity :: "string \<Rightarrow> gathered" where
  "unavailable_velocity cause =
     \<lparr>g_provider =
        \<lparr>vp_count = (\<lambda>_ _ _ _. eval_error (VelocityUnavailable cause)),
         vp_total = (\<lambda>_ _ _ _. eval_error (VelocityUnavailable cause))\<rparr>,
      g_aggregates = []\<rparr>"

definition timestamp :: "int \<Rightarrow> rat" where
  "timestamp us = of_int us / 1000000"

definition gather_velocity ::
  "string \<times> string \<Rightarrow> transaction \<Rightarrow> int \<Rightarrow> redis_event \<Rightarrow> redis \<Rightarrow> gathered \<times> redis" where
  "gather_velocity key tx now ev rd =
     (let (w, st) = record_and_gather (timestamp now) (tx_ref tx, tx_amount_minor tx, tx_type tx) (rd key)
      in case ev of
           Redis_ok \<Rightarrow> (\<lparr>g_provider = provider_of w, g_aggregates = aggregate_facts w\<rparr>, rd(key := st))
         | Redis_raises cause applied \<Rightarrow>
             (unavailable_velocity cause, if applied then rd(key := st) else rd))"


section \<open>The handler\<close>

record handler =
  h_tenant :: string
  h_ruleset :: rule_set
  h_salt :: string

definition build_facts :: "transaction \<Rightarrow> gathered \<Rightarrow> (string \<times> pyval list) list \<Rightarrow> pyval dict" where
  "build_facts tx vel named =
     dict_of []
       ([(''amount_minor'', PInt (tx_amount_minor tx)), (''currency'', PStr (tx_currency tx)),
         (''transaction_type'', PStr (tx_type tx)), (''channel'', PStr (tx_channel tx))]
        @ tx_customer tx
        @ map (\<lambda>(k, v). (''destination_'' @ k, v)) (tx_destination tx)
        @ map (\<lambda>(k, v). (''device_'' @ k, v)) (tx_device tx)
        @ g_aggregates vel
        @ map (\<lambda>(n, vs). (n, PTuple vs)) named)"

definition context_of ::
  "platform \<Rightarrow> int \<Rightarrow> transaction \<Rightarrow> gathered \<Rightarrow> (string \<times> pyval list) list \<Rightarrow> evaluation_context" where
  "context_of pf now tx vel named =
     \<lparr>ctx_facts = map_of (build_facts tx vel named),
      ctx_functions = build (pf_fromisoformat pf) (g_provider vel) now\<rparr>"

fun serialisable :: "pyval \<Rightarrow> pyval" where
  "serialisable (PTuple vs) = PList vs"
| "serialisable v = v"

fun outcome_text :: "outcome \<Rightarrow> string" where
  "outcome_text ALLOW_OUT = ''allow''"
| "outcome_text FLAG_OUT = ''flag''"
| "outcome_text BLOCK_OUT = ''block''"

fun severity_text :: "severity \<Rightarrow> string" where
  "severity_text BLOCK = ''block''"
| "severity_text FLAG = ''flag''"
| "severity_text ALLOW_WITH_NOTE = ''allow_with_note''"

definition rule_json :: "compiled_rule \<Rightarrow> pyval" where
  "rule_json r =
     PDict [(''id'', PStr (rule_id r)), (''name'', PStr (rule_name r)),
            (''severity'', PStr (severity_text (rule_severity r))),
            (''regulatory_reference'', PStr (regulatory_reference r))]"

definition error_json :: "platform \<Rightarrow> rule_outcome \<Rightarrow> pyval" where
  "error_json pf ro =
     PDict [(''id'', PStr (rule_id (ro_rule ro))),
            (''error'', case ro_error ro of Some x \<Rightarrow> PStr (pf_error_text pf x) | None \<Rightarrow> PStr [])]"

definition decision_body :: "platform \<Rightarrow> moment \<Rightarrow> int \<Rightarrow> decision \<Rightarrow> pyval dict \<Rightarrow> pyval dict" where
  "decision_body pf mo version d facts =
     [(''decision_id'', PStr (mo_decision_id mo)),
      (''outcome'', PStr (outcome_text (dec_outcome d))),
      (''reason'', PStr (reason d)),
      (''matched_rules'', PList (map rule_json (matched_rules d))),
      (''evaluated_rules'', PInt (int (evaluated_rules d))),
      (''ruleset_version'', PInt version),
      (''degraded'', PBool (degraded d)),
      (''decided_at'', PStr (mo_iso mo))]
     @ (if dec_outcome d = BLOCK_OUT \<and> dec_customer_message d \<noteq> []
        then [(''customer_message'', PStr (dec_customer_message d))] else [])
     @ [(''_shadow_matches'', PList (map (\<lambda>r. PStr (rule_id r)) (shadow_matches d))),
        (''_errored_rules'', PList (map (error_json pf) (errored_rules d))),
        (''_resolved_facts'', PDict (map (\<lambda>(k, v). (k, serialisable v)) facts))]"

definition handler_decide ::
  "platform \<Rightarrow> moment \<Rightarrow> handler \<Rightarrow> transaction \<Rightarrow> decision_db \<Rightarrow> redis \<Rightarrow> (exn + pyval dict) \<times> redis" where
  "handler_decide pf mo h tx db rd =
     (case stored_fallback (h_tenant h) db of
        Inl e \<Rightarrow> (Inl e, rd)
      | Inr fallback \<Rightarrow>
          (let (vel, rd') = gather_velocity (h_tenant h, pf_hmac pf (h_salt h) (tx_customer_ref tx)) tx (mo_now mo) (mo_redis mo) rd;
               named = stored_lists (h_tenant h) (rs_version (h_ruleset h)) db
           in (bindE (decide (h_ruleset h) (context_of pf (mo_now mo) tx vel named) (Some fallback) MAX_STEPS) (\<lambda>d.
                 Inr (decision_body pf mo (rs_version (h_ruleset h)) d (build_facts tx vel named))), rd')))"

definition replay :: "handler \<Rightarrow> string \<Rightarrow> decision_db \<Rightarrow> pyval dict option" where
  "replay h key db = find_response (h_tenant h) key db"

definition record_decision ::
  "platform \<Rightarrow> handler \<Rightarrow> pyval dict \<Rightarrow> transaction \<Rightarrow> string \<Rightarrow> decision_db \<Rightarrow> server_error + decision_db" where
  "record_decision pf h body tx key db =
     save pf (h_tenant h) body tx key (pf_hmac pf (h_salt h) (tx_customer_ref tx)) (rs_version (h_ruleset h)) db"


section \<open>Losing functions and facts\<close>

text \<open>\<open>lost r r'\<close>: the run \<open>r\<close> does what \<open>r'\<close> does, or ends in a \<open>RuleEvaluationError\<close>.\<close>

definition lost :: "'a run \<Rightarrow> 'a run \<Rightarrow> bool" where
  "lost r r' \<longleftrightarrow> (\<forall>s. r s = r' s \<or> (\<exists>x s'. r s = (Inl (RuleEvaluationError x), s')))"

lemma lost_refl [simp]: "lost r r"
  by (simp add: lost_def)

lemma lost_eval_error [simp]: "lost (lift_run (eval_error x)) r"
  by (simp add: lost_def lift_run_def eval_error_def)

lemma lost_bind: "lost r r' \<Longrightarrow> (\<And>x. lost (f x) (f' x)) \<Longrightarrow> lost (bind_run r f) (bind_run r' f')"
  unfolding lost_def bind_run_def
  by (auto split: prod.splits sum.splits) (metis (no_types, lifting) Inl_inject Inr_inject prod.inject sum.distinct(1))+

definition outage :: "evaluation_context \<Rightarrow> evaluation_context \<Rightarrow> bool" where
  "outage c d \<longleftrightarrow>
     (\<forall>n. ctx_facts c n = ctx_facts d n \<or> ctx_facts c n = None) \<and>
     dom (ctx_functions c) = dom (ctx_functions d) \<and>
     (\<forall>n f f' as ks. ctx_functions c n = Some f \<longrightarrow> ctx_functions d n = Some f' \<longrightarrow>
        f as ks = f' as ks \<or> (\<exists>x. f as ks = Inl (RuleEvaluationError x)))"

lemma outage_fact: "outage c d \<Longrightarrow> lost (lift_run (read_fact c n)) (lift_run (read_fact d n))"
  unfolding outage_def read_fact_def by (metis lost_eval_error lost_refl option.case(1))

lemma outage_call:
  assumes "outage c d" "ctx_functions c n = Some f" "ctx_functions d n = Some f'"
  shows "lost (lift_run (f as ks)) (lift_run (f' as ks))"
  using assms unfolding outage_def by (metis eval_error_def lost_eval_error lost_refl)

lemma outage_function:
  assumes "outage c d"
  shows "(ctx_functions c n = None) = (ctx_functions d n = None)"
  using assms unfolding outage_def by (metis domIff)

lemma eval_lost:
  "outage c d \<Longrightarrow> lost (eval_node mx c e) (eval_node mx d e)"
  "outage c d \<Longrightarrow> lost (eval_and mx c es) (eval_and mx d es)"
  "outage c d \<Longrightarrow> lost (eval_or mx c es) (eval_or mx d es)"
  "outage c d \<Longrightarrow> lost (eval_compare mx c v ops es) (eval_compare mx d v ops es)"
  "outage c d \<Longrightarrow> lost (eval_all mx c es) (eval_all mx d es)"
  "outage c d \<Longrightarrow> lost (eval_keywords mx c kw ks) (eval_keywords mx d kw ks)"
proof (induction mx c e and mx c es and mx c es and mx c v ops es and mx c es and mx c kw ks
    rule: eval_node_eval_and_eval_or_eval_compare_eval_all_eval_keywords.induct)
  case (2 mx c n)
  then show ?case by (auto intro!: lost_bind outage_fact)
next
  case (7 mx c f as ks)
  then show ?case
    using outage_function [OF "7.prems"]
    by (auto split: expr.splits option.splits intro!: lost_bind outage_call [OF "7.prems"]) (metis option.distinct(1))
qed (auto intro!: lost_bind)

lemma outage_verdict:
  assumes "outage c d"
  shows "verdict_of mx c r = verdict_of mx d r \<or> fails (verdict_of mx c r)"
proof -
  from eval_lost(1) [OF assms] have "eval_node mx c (rule_tree r) 0 = eval_node mx d (rule_tree r) 0
      \<or> (\<exists>x s. eval_node mx c (rule_tree r) 0 = (Inl (RuleEvaluationError x), s))"
    by (simp add: lost_def)
  then show ?thesis by (auto simp: verdict_of_def interpreter_run_def)
qed

lemma outage_decide_ok: "outage c d \<Longrightarrow> is_ok (decide rs d fb mx) \<Longrightarrow> is_ok (decide rs c fb mx)"
proof -
  have "\<not> escapes v" if "fails v" for v using that by (cases v) auto
  then show "outage c d \<Longrightarrow> is_ok (decide rs d fb mx) \<Longrightarrow> is_ok (decide rs c fb mx)"
    unfolding decide_is_ok by (metis outage_verdict)
qed

lemma outage_counts:
  assumes "outage c d" and "counts p mx d r" and "p (rule_severity r) = Some ''closed''"
  shows "counts p mx c r"
  using assms(2,3) outage_verdict [OF assms(1), of mx r] unfolding counts_def by auto

lemma combine_BLOCK: "combine rs = BLOCK_OUT \<longleftrightarrow> (\<exists>r \<in> set rs. rule_severity r = BLOCK)"
  by (auto simp: combine_def list_ex_iff)

text \<open>What an outage does to a decision: it is still made, it blocks whatever would have been
  blocked, and unless it is marked degraded it is the same.\<close>

lemma outage_decision:
  assumes "outage c d" and "well_keyed rs" and "fallback_policy fb BLOCK = Some ''closed''"
    and "decide rs d fb mx = Inr dec"
  shows "\<exists>dec'. decide rs c fb mx = Inr dec'
    \<and> (dec_outcome dec = BLOCK_OUT \<longrightarrow> dec_outcome dec' = BLOCK_OUT)
    \<and> (\<not> degraded dec' \<longrightarrow> dec_outcome dec' = dec_outcome dec \<and> matched_rules dec' = matched_rules dec)"
proof -
  from outage_decide_ok [OF assms(1)] assms(4) obtain dec' where d': "decide rs c fb mx = Inr dec'"
    by (metis is_ok_iff)
  note up = decide_Inr [OF assms(2,4)] and out = decide_Inr [OF assms(2) d']
  have "dec_outcome dec' = BLOCK_OUT" if "dec_outcome dec = BLOCK_OUT"
    using that outage_counts [OF assms(1)] assms(3) unfolding up(2) out(2) combine_BLOCK by auto
  moreover have "dec_outcome dec' = dec_outcome dec \<and> matched_rules dec' = matched_rules dec"
    if "\<not> degraded dec'"
  proof -
    from that have none: "\<not> fails (verdict_of mx c r)" if "r \<in> set (active rs)" for r
      using out(6,7) that by (auto simp: filter_empty_conv)
    have "filter (counts (fallback_policy fb) mx c) (rs_rules rs) = filter (counts (fallback_policy fb) mx d) (rs_rules rs)"
    proof (rule filter_cong [OF refl])
      fix r assume "r \<in> set (rs_rules rs)"
      then show "counts (fallback_policy fb) mx c r = counts (fallback_policy fb) mx d r"
        using none [of r] outage_verdict [OF assms(1), of mx r] by (auto simp: counts_def active_def)
    qed
    then show ?thesis by (simp add: up out)
  qed
  ultimately show ?thesis using d' by blast
qed


section \<open>Velocity out of reach\<close>

lemma build_outage:
  assumes "build fi (g_provider (unavailable_velocity cause)) now n = Some f" and "build fi vp now n = Some f'"
  shows "f as ks = f' as ks \<or> (\<exists>x. f as ks = Inl (RuleEvaluationError x))"
proof -
  let ?un = "g_provider (unavailable_velocity cause)"
  have count: "velocity_count ?un vs = velocity_count vp vs \<or> (\<exists>x. velocity_count ?un vs = Inl (RuleEvaluationError x))" for vs
    by (induction vp vs rule: velocity_count.induct)
      (auto simp: unavailable_velocity_def eval_error_def bindE_def split: sum.splits)
  have total: "velocity_sum ?un vs = velocity_sum vp vs \<or> (\<exists>x. velocity_sum ?un vs = Inl (RuleEvaluationError x))" for vs
    by (induction vp vs rule: velocity_sum.induct)
      (auto simp: unavailable_velocity_def eval_error_def bindE_def split: sum.splits)
  have call: "call_python sig b as ks = call_python sig b' as ks \<or> (\<exists>x. call_python sig b as ks = Inl (RuleEvaluationError x))"
    if "\<And>vs. b vs = b' vs \<or> (\<exists>x. b vs = Inl (RuleEvaluationError x))" for sig b b'
    using that by (auto simp: call_python_def bindE_def split: sum.splits)
  show ?thesis
    using assms call [of "velocity_count ?un" "velocity_count vp", OF count]
      call [of "velocity_sum ?un" "velocity_sum vp", OF total]
    by (auto simp: build_def build_table_def split: if_splits)
qed

definition AGGREGATE_NAMES :: "string list" where
  "AGGREGATE_NAMES =
     [''lifetime_transaction_count'', ''lifetime_volume_minor'', ''average_transaction_minor'',
      ''prior_flag_count'', ''days_since_last_activity'', ''customer_known_days'']"

lemma aggregate_facts_names: "map fst (aggregate_facts w) = AGGREGATE_NAMES"
  by (simp add: aggregate_facts_def as_facts_def AGGREGATE_NAMES_def)

definition request_facts :: "transaction \<Rightarrow> pyval dict" where
  "request_facts tx =
     [(''amount_minor'', PInt (tx_amount_minor tx)), (''currency'', PStr (tx_currency tx)),
      (''transaction_type'', PStr (tx_type tx)), (''channel'', PStr (tx_channel tx))]
     @ tx_customer tx
     @ map (\<lambda>(k, v). (''destination_'' @ k, v)) (tx_destination tx)
     @ map (\<lambda>(k, v). (''device_'' @ k, v)) (tx_device tx)"

lemma acceptable_objects:
  assumes "acceptable p"
  shows "set (map fst (object_at p ''customer'')) \<subseteq> set CUSTOMER_FIELDS"
proof -
  from assms have "object_ok CUSTOMER_FIELDS (map_of p ''customer'')"
    by (simp add: acceptable_def NESTED_FIELDS_def)
  then show ?thesis
    by (cases "map_of p ''customer''"; cases "the (map_of p ''customer'')") (simp_all add: object_at_def)
qed

text \<open>No field of a validated request has the name of an aggregate fact.\<close>

lemma request_facts_names:
  assumes "parse_transaction p = Inr tx"
  shows "set (map fst (request_facts tx)) \<inter> set AGGREGATE_NAMES = {}"
proof -
  from assms have tx: "acceptable p" "tx = transaction_of p" by (simp_all add: parse_transaction_Inr)
  have "set (map fst (tx_customer tx)) \<inter> set AGGREGATE_NAMES = {}"
    using acceptable_objects [OF tx(1)]
    by (auto simp: tx(2) transaction_of_def CUSTOMER_FIELDS_def AGGREGATE_NAMES_def)
  then show ?thesis by (auto simp: request_facts_def AGGREGATE_NAMES_def)
qed

lemma build_facts_map:
  "map_of (build_facts tx vel named) =
     map_of (rev (request_facts tx)) ++ map_of (rev (g_aggregates vel)) ++ map_of (rev (map (\<lambda>(n, vs). (n, PTuple vs)) named))"
  by (simp add: build_facts_def request_facts_def map_of_dict_of del: map_of_append dict_of.simps)
    (simp add: map_add_assoc)

lemma context_outage:
  assumes "parse_transaction p = Inr tx" and "map fst (g_aggregates vel) = AGGREGATE_NAMES"
  shows "outage (context_of pf now tx (unavailable_velocity cause) named) (context_of pf now tx vel named)"
  unfolding outage_def
proof (intro conjI allI impI)
  fix n
  have "map_of (rev (request_facts tx)) n = None" if "map_of (rev (g_aggregates vel)) n = Some v" for v
  proof -
    from map_of_SomeD [OF that] have "n \<in> set (map fst (g_aggregates vel))" by force
    then have "n \<notin> set (map fst (request_facts tx))" using request_facts_names [OF assms(1)] assms(2) by auto
    then show ?thesis by (simp add: map_of_eq_None_iff)
  qed
  then show "ctx_facts (context_of pf now tx (unavailable_velocity cause) named) n = ctx_facts (context_of pf now tx vel named) n
      \<or> ctx_facts (context_of pf now tx (unavailable_velocity cause) named) n = None"
    by (auto simp: context_of_def build_facts_map unavailable_velocity_def map_add_def split: option.splits)
qed (auto simp: context_of_def dom_build dest: build_outage)

text \<open>The body reports the decision.\<close>

lemma decision_body_items:
  "map_of (decision_body pf mo v d facts) ''outcome'' = Some (PStr (outcome_text (dec_outcome d)))"
  "map_of (decision_body pf mo v d facts) ''degraded'' = Some (PBool (degraded d))"
  "map_of (decision_body pf mo v d facts) ''matched_rules'' = Some (PList (map rule_json (matched_rules d)))"
  by (simp_all add: decision_body_def)

lemma outcome_text_inject [simp]: "outcome_text a = outcome_text b \<longleftrightarrow> a = b"
  by (cases a; cases b) simp_all

lemma gather_velocity_simps:
  "\<exists>vel. map fst (g_aggregates vel) = AGGREGATE_NAMES \<and>
     fst (gather_velocity key tx now Redis_ok rd) = vel"
  "fst (gather_velocity key tx now (Redis_raises cause applied) rd) = unavailable_velocity cause"
  by (auto simp: gather_velocity_def aggregate_facts_names split: prod.splits)


text \<open>Both implementations a request can meet keep the contract of the functions: a rule that fails on the
  decision path fails with an evaluation error or a \<open>TypeError\<close>, with Redis and without.\<close>

interpretation redis_window: velocity_contract "provider_of w"
  by unfold_locales (rule benign_provider_of)

interpretation without_redis: velocity_contract "g_provider (unavailable_velocity cause)"
  by unfold_locales (simp add: benign_provider_def unavailable_velocity_def)

lemma gathered_rule_errors:
  assumes "validate_source py src = Inr t" and "wf_tree t"
    and "evaluate t (context_of pf now tx (fst (gather_velocity key tx now ev rd)) named) MAX_STEPS = Inl e"
  shows "e = TypeError \<or> (\<exists>r. e = RuleEvaluationError r \<and> (\<forall>k. r \<noteq> CannotEvaluate k))"
proof (cases ev)
  case Redis_ok
  obtain w st where "record_and_gather (timestamp now) (tx_ref tx, tx_amount_minor tx, tx_type tx) (rd key) = (w, st)"
    by fastforce
  then have "g_provider (fst (gather_velocity key tx now ev rd)) = provider_of w"
    by (simp add: gather_velocity_def Redis_ok)
  with redis_window.rule_errors [OF assms(1,2)] assms(3) show ?thesis by (auto simp: context_of_def)
next
  case (Redis_raises cause applied)
  with without_redis.rule_errors [OF assms(1,2)] assms(3) show ?thesis
    by (auto simp: context_of_def gather_velocity_simps(2))
qed

lemma handler_decide_eq:
  fixes pf mo tx rd
  assumes "stored_fallback (h_tenant h) db = Inr f"
  defines "gv \<equiv> gather_velocity (h_tenant h, pf_hmac pf (h_salt h) (tx_customer_ref tx)) tx (mo_now mo) (mo_redis mo) rd"
    and "named \<equiv> stored_lists (h_tenant h) (rs_version (h_ruleset h)) db"
  shows "handler_decide pf mo h tx db rd =
    (bindE (decide (h_ruleset h) (context_of pf (mo_now mo) tx (fst gv) named) (Some f) MAX_STEPS) (\<lambda>d.
       Inr (decision_body pf mo (rs_version (h_ruleset h)) d (build_facts tx (fst gv) named))), snd gv)"
  using assms(1) by (simp add: handler_decide_def Let_def gv_def named_def split: prod.splits)


section \<open>Properties\<close>

text \<open>C18. A Redis outage degrades a decision and never misjudges it: when the transaction was
  validated, the block severity fails closed and the decision would have been made with Redis in
  reach, it is made without it as well, whatever the failing call left behind; it blocks whatever
  would have been blocked; and unless it is marked degraded, outcome and matched rules are the same.\<close>

theorem outage_fails_safe:
  assumes "parse_transaction p = Inr tx" and "well_keyed (h_ruleset h)"
    and "stored_fallback (h_tenant h) db = Inr f" and "fallback_policy (Some f) BLOCK = Some ''closed''"
    and "handler_decide pf (mo\<lparr>mo_redis := Redis_ok\<rparr>) h tx db rd = (Inr body, rd1)"
  shows "\<exists>body' rd2. handler_decide pf (mo\<lparr>mo_redis := Redis_raises cause applied\<rparr>) h tx db rd = (Inr body', rd2)
    \<and> (map_of body ''outcome'' = Some (PStr ''block'') \<longrightarrow> map_of body' ''outcome'' = Some (PStr ''block''))
    \<and> (map_of body' ''degraded'' = Some (PBool False) \<longrightarrow>
         map_of body' ''outcome'' = map_of body ''outcome'' \<and> map_of body' ''matched_rules'' = map_of body ''matched_rules'')"
proof -
  let ?key = "(h_tenant h, pf_hmac pf (h_salt h) (tx_customer_ref tx))"
  let ?named = "stored_lists (h_tenant h) (rs_version (h_ruleset h)) db"
  obtain vel where vel: "map fst (g_aggregates vel) = AGGREGATE_NAMES"
    "fst (gather_velocity ?key tx (mo_now mo) Redis_ok rd) = vel"
    using gather_velocity_simps(1) by blast
  with assms(3,5) obtain d where d: "decide (h_ruleset h) (context_of pf (mo_now mo) tx vel ?named) (Some f) MAX_STEPS = Inr d"
      "body = decision_body pf (mo\<lparr>mo_redis := Redis_ok\<rparr>) (rs_version (h_ruleset h)) d (build_facts tx vel ?named)"
    by (auto simp: handler_decide_eq)
  from outage_decision [OF context_outage [OF assms(1) vel(1)] assms(2,4) d(1)] obtain d' where
    d': "decide (h_ruleset h) (context_of pf (mo_now mo) tx (unavailable_velocity cause) ?named) (Some f) MAX_STEPS = Inr d'"
      "dec_outcome d = BLOCK_OUT \<longrightarrow> dec_outcome d' = BLOCK_OUT"
      "\<not> degraded d' \<longrightarrow> dec_outcome d' = dec_outcome d \<and> matched_rules d' = matched_rules d" by blast
  have block: "outcome_text x = ''block'' \<longleftrightarrow> x = BLOCK_OUT" for x by (cases x) simp_all
  have "handler_decide pf (mo\<lparr>mo_redis := Redis_raises cause applied\<rparr>) h tx db rd =
      (Inr (decision_body pf (mo\<lparr>mo_redis := Redis_raises cause applied\<rparr>) (rs_version (h_ruleset h)) d'
        (build_facts tx (unavailable_velocity cause) ?named)),
       snd (gather_velocity ?key tx (mo_now mo) (Redis_raises cause applied) rd))"
    using assms(3) d'(1) by (simp add: handler_decide_eq gather_velocity_simps(2))
  then show ?thesis
    using d'(2,3) by (simp add: d(2) decision_body_items block)
qed

definition demo_platform :: platform where
  "demo_platform =
     \<lparr>pf_loads = (\<lambda>s. if s = ''{}'' then Some (PDict demo_payload) else None),
      pf_fromisoformat = (\<lambda>s. if s = ''now'' then Some \<lparr>local_us = 1000000, utcoffset_us = None\<rparr> else None),
      pf_hmac = (\<lambda>salt ref. salt @ ref), pf_error_text = (\<lambda>_. ''error'')\<rparr>"

definition demo_moment :: moment where
  "demo_moment =
     \<lparr>mo_now = 1000000, mo_iso = ''now'', mo_decision_id = ''dec_1'', mo_redis = Redis_ok, mo_elapsed_ms = 12\<rparr>"

definition demo_handler :: handler where
  "demo_handler = \<lparr>h_tenant = ''t'', h_ruleset = example_rules, h_salt = ''s''\<rparr>"

definition demo_db :: decision_db where
  "demo_db = \<lparr>dd_decisions = [], dd_idempotency = [], dd_fallback = [], dd_versions = (\<lambda>_. [])\<rparr>"

definition demo_redis :: redis where
  "demo_redis = (\<lambda>_. empty_store)"

lemma demo_parsed: "parse_transaction demo_payload = Inr (transaction_of demo_payload)"
  by (simp add: parse_transaction_Inr demo_payload_acceptable)

lemma run_example_amount:
  "ctx_facts ctx ''amount_minor'' = Some (PInt n) \<Longrightarrow> interpreter_run MAX_STEPS ctx example_tree = (Inr (100 < n), 3)"
  by (simp add: interpreter_run_def example_tree_def bind_run_def tick_def limit_defs
      lift_run_def ret_def read_fact_def compare_op_def compare_values_def same_orderable_kind_def)

lemma demo_amount:
  "ctx_facts (context_of pf now (transaction_of demo_payload) vel []) ''amount_minor'' = Some (PInt 500)"
  if "map fst (g_aggregates vel) = AGGREGATE_NAMES \<or> g_aggregates vel = []"
proof -
  have "map_of (rev (g_aggregates vel)) ''amount_minor'' = None"
    using that by (auto simp: map_of_eq_None_iff AGGREGATE_NAMES_def simp flip: set_map)
  then show ?thesis
    by (simp add: context_of_def build_facts_map request_facts_def map_add_def transaction_of_def demo_payload_def
        amount_at_def object_at_def)
qed

lemma demo_decides:
  assumes "map fst (g_aggregates vel) = AGGREGATE_NAMES \<or> g_aggregates vel = []"
  shows "\<exists>d. decide example_rules (context_of pf now (transaction_of demo_payload) vel []) fb MAX_STEPS = Inr d
    \<and> dec_outcome d = BLOCK_OUT"
proof -
  let ?c = "context_of pf now (transaction_of demo_payload) vel []"
  have v: "verdict_of MAX_STEPS ?c (example_rule i sev st) = Matches" for i sev st
    by (simp add: verdict_of_def example_rule_def run_example_amount [OF demo_amount [OF assms]])
  then have "is_ok (decide example_rules ?c fb MAX_STEPS)" by (simp add: decide_is_ok rules_example)
  then obtain d where d: "decide example_rules ?c fb MAX_STEPS = Inr d" by (auto simp: is_ok_iff)
  have "dec_outcome d = BLOCK_OUT"
    using decide_Inr(2) [OF well_keyed_example d] v
    by (simp add: combine_BLOCK rules_example counts_def) (simp add: example_rule_def combine_def)
  with d show ?thesis by blast
qed

theorem outage_fails_safe_witness:
  "\<exists>body rd. handler_decide demo_platform (demo_moment\<lparr>mo_redis := Redis_raises ''down'' False\<rparr>) demo_handler
     (transaction_of demo_payload) demo_db demo_redis = (Inr body, rd)
   \<and> map_of body ''outcome'' = Some (PStr ''block'')"
proof -
  let ?tx = "transaction_of demo_payload"
  obtain vel where vel: "map fst (g_aggregates vel) = AGGREGATE_NAMES"
    "fst (gather_velocity (''t'', ''s'' @ tx_customer_ref ?tx) ?tx 1000000 Redis_ok demo_redis) = vel"
    using gather_velocity_simps(1) by blast
  obtain d where d: "decide example_rules (context_of demo_platform 1000000 ?tx vel []) (Some Map.empty) MAX_STEPS = Inr d"
    "dec_outcome d = BLOCK_OUT" using demo_decides vel(1) by blast
  have fb: "stored_fallback (h_tenant demo_handler) demo_db = Inr Map.empty"
    by (simp add: stored_fallback_def demo_db_def)
  obtain body rd where up: "handler_decide demo_platform (demo_moment\<lparr>mo_redis := Redis_ok\<rparr>) demo_handler ?tx demo_db demo_redis = (Inr body, rd)"
    "map_of body ''outcome'' = Some (PStr ''block'')"
    using d vel(2)
    by (simp add: handler_decide_eq [OF fb])
      (simp add: demo_handler_def demo_moment_def demo_platform_def stored_lists_def demo_db_def decision_body_items)
  have wk: "well_keyed (h_ruleset demo_handler)" by (simp add: demo_handler_def well_keyed_example)
  have closed: "fallback_policy (Some Map.empty) BLOCK = Some ''closed''"
    by (simp add: fallback_policy_def DEFAULT_FALLBACK_def)
  from outage_fails_safe [OF demo_parsed wk fb closed up(1), of "''down''" False] up(2) show ?thesis by blast
qed

end
