(* ===== verification/Api_Auth.thy ===== *)
theory Api_Auth
  imports Lifecycle
begin

text \<open>
  API keys: resolving one to a tenant and a role (\<open>src/complylayer/api/auth.py\<close>), issuing and
  revoking them (\<open>ApiKeyViewSet\<close> in \<open>src/complylayer/api/management/views.py\<close>).

  SHA-256 and Argon2id (\<open>hash\<close>, \<open>verify\<close>) are parameters; no law of Argon2id is assumed except in
  the round trip, which needs that a hash verifies its own key. Every worker process has its own
  verification cache; the key table is shared. \<open>auth_step\<close> interleaves the workers.
\<close>


section \<open>Keys\<close>

record api_key_row =
  ak_id :: string
  ak_tenant :: string
  ak_name :: string
  ak_prefix :: string
  ak_hashed_secret :: string
  ak_environment :: string
  ak_role :: string
  ak_created_by :: string
  ak_revoked_at :: "int option"

definition is_active :: "api_key_row \<Rightarrow> bool" where
  "is_active k \<longleftrightarrow> ak_revoked_at k = None"

record crypto =
  cr_sha :: "string \<Rightarrow> string"
  cr_hash :: "string \<Rightarrow> string"
  cr_verify :: "string \<Rightarrow> string \<Rightarrow> bool"

definition PREFIX_LENGTH :: nat where "PREFIX_LENGTH = 16"

definition KEY_CACHE_TTL_SECONDS :: rat where "KEY_CACHE_TTL_SECONDS = 60"

text \<open>The random part comes from \<open>secrets.token_urlsafe\<close>.\<close>

definition generate_key :: "string \<Rightarrow> string \<Rightarrow> string \<times> string" where
  "generate_key environment secret =
     (let full = ''cl_'' @ environment @ ''_'' @ secret in (full, take PREFIX_LENGTH full))"


section \<open>Authenticating\<close>

text \<open>An unknown key, a wrong secret and a revoked key produce the same message.\<close>

datatype auth_error = AuthenticationFailed string | Unknown_role

definition NOT_VALID :: string where
  "NOT_VALID = ''That API key is not valid.''"

record credentials =
  cd_tenant_id :: string
  cd_key_id :: string
  cd_environment :: string
  cd_actor :: actor

type_synonym verified = "string \<rightharpoonup> rat \<times> string"

definition resolve :: "string \<Rightarrow> api_key_row list \<Rightarrow> api_key_row option" where
  "resolve pre keys = List.find (\<lambda>k. ak_prefix k = pre) keys"

definition presented_key :: "string \<Rightarrow> string" where
  "presented_key header = py_strip (drop 7 header)"

definition fresh :: "verified \<Rightarrow> string \<Rightarrow> rat \<Rightarrow> bool" where
  "fresh cache digest now = (case cache digest of Some (expires, _) \<Rightarrow> now < expires | None \<Rightarrow> False)"

definition credentials_of :: "api_key_row \<Rightarrow> role \<Rightarrow> credentials" where
  "credentials_of row r =
     \<lparr>cd_tenant_id = ak_tenant row, cd_key_id = ak_id row, cd_environment = ak_environment row,
      cd_actor = \<lparr>actor_id = ak_id row, actor_role = r, actor_ip = []\<rparr>\<rparr>"

definition authenticate ::
  "crypto \<Rightarrow> rat \<Rightarrow> string \<Rightarrow> api_key_row list \<Rightarrow> verified \<Rightarrow> (auth_error + credentials) \<times> verified" where
  "authenticate cr now header keys cache =
     (if header = [] \<or> \<not> prefix ''Bearer '' header
      then (Inl (AuthenticationFailed ''Send an API key as `Authorization: Bearer cl_live_...`.''), cache)
      else
        let presented = presented_key header in
        if \<not> prefix ''cl_'' presented
        then (Inl (AuthenticationFailed ''That is not a ComplyLayer API key.''), cache)
        else
          let pre = take PREFIX_LENGTH presented in
          (case resolve pre keys of
             None \<Rightarrow> (Inl (AuthenticationFailed NOT_VALID), cache)
           | Some row \<Rightarrow>
               if ak_revoked_at row \<noteq> None then (Inl (AuthenticationFailed NOT_VALID), cache)
               else
                 let digest = cr_sha cr presented; known = fresh cache digest now in
                 if \<not> known \<and> \<not> cr_verify cr (ak_hashed_secret row) presented
                 then (Inl (AuthenticationFailed NOT_VALID), cache)
                 else
                   let cache' = (if known then cache else cache(digest \<mapsto> (now + KEY_CACHE_TTL_SECONDS, pre))) in
                   (case role_of_text (ak_role row) of
                      None \<Rightarrow> (Inl Unknown_role, cache')
                    | Some r \<Rightarrow> (Inr (credentials_of row r), cache'))))"

definition revoke_from_cache :: "string \<Rightarrow> verified \<Rightarrow> verified" where
  "revoke_from_cache pre cache = (\<lambda>d. case cache d of Some (e, p) \<Rightarrow> if p = pre then None else Some (e, p) | None \<Rightarrow> None)"


section \<open>Issuing and revoking\<close>

record key_system =
  ks_keys :: "api_key_row list"
  ks_dbs :: "string \<Rightarrow> tenant_db"
  ks_caches :: "nat \<Rightarrow> verified"

datatype key_error = K_Denied denial | K_Invalid | K_Not_a_role | K_Integrity | K_Not_found | K_Already_revoked

record key_request =
  kr_name :: string
  kr_role :: string
  kr_environment :: "string option"

text \<open>What the serializer checks of the model's columns.\<close>

definition key_request_valid :: "key_request \<Rightarrow> bool" where
  "key_request_valid rq \<longleftrightarrow>
     kr_name rq \<noteq> [] \<and> length (kr_name rq) \<le> 128 \<and> kr_role rq \<noteq> [] \<and> length (kr_role rq) \<le> 32 \<and>
     (case kr_environment rq of Some e \<Rightarrow> e \<noteq> [] \<and> length e \<le> 8 | None \<Rightarrow> True)"

definition key_denied :: "denial + unit \<Rightarrow> key_error + unit" where
  "key_denied r = (case r of Inl d \<Rightarrow> Inl (K_Denied d) | Inr u \<Rightarrow> Inr u)"

lemma key_denied_Inr [simp]: "key_denied r = Inr u \<longleftrightarrow> r = Inr u"
  by (auto simp: key_denied_def split: sum.splits)

definition key_subject :: "string \<Rightarrow> pyval" where
  "key_subject i = PDict [(''type'', PStr ''api_key''), (''id'', PStr i)]"

text \<open>\<open>create\<close> returns the secret with the new state; \<open>token\<close> and \<open>key_id\<close> are its random parts.\<close>

definition create_key ::
  "crypto \<Rightarrow> environment \<Rightarrow> string \<Rightarrow> string \<Rightarrow> credentials \<Rightarrow> key_request \<Rightarrow> key_system \<Rightarrow> key_error + string \<times> key_system" where
  "create_key cr env token key_id cred rq sys =
     (let who = cd_actor cred; tenant = cd_tenant_id cred in
      bindE (key_denied (require_action who A_MANAGE_KEYS)) (\<lambda>_.
      bindE (if key_request_valid rq then Inr () else Inl K_Invalid) (\<lambda>_.
      bindE (case role_of_text (kr_role rq) of None \<Rightarrow> Inl K_Not_a_role | Some t \<Rightarrow> Inr t) (\<lambda>target.
      bindE (key_denied (require_issuable who target)) (\<lambda>_.
        let environ = (case kr_environment rq of Some e \<Rightarrow> e | None \<Rightarrow> ''live'');
            full = fst (generate_key environ token); pre = snd (generate_key environ token)
        in if list_ex (\<lambda>k. ak_prefix k = pre \<or> ak_id k = key_id) (ks_keys sys) then Inl K_Integrity
           else
             Inr (full, sys\<lparr>
               ks_keys := ks_keys sys @
                 [\<lparr>ak_id = key_id, ak_tenant = tenant, ak_name = kr_name rq, ak_prefix = pre,
                   ak_hashed_secret = cr_hash cr full, ak_environment = environ,
                   ak_role = role_text target, ak_created_by = actor_id who, ak_revoked_at = None\<rparr>],
               ks_dbs := (ks_dbs sys)(tenant :=
                 audit_append env ''apikey.issued'' who (key_subject key_id)
                   (PDict [(''prefix'', PStr pre), (''role'', PStr (role_text target)), (''environment'', PStr environ)])
                   (ks_dbs sys tenant))\<rparr>))))))"

definition get_key :: "string \<Rightarrow> string \<Rightarrow> key_system \<Rightarrow> key_error + api_key_row" where
  "get_key tenant key_id sys =
     (case List.find (\<lambda>k. ak_tenant k = tenant \<and> ak_id k = key_id) (ks_keys sys) of
        None \<Rightarrow> Inl K_Not_found | Some k \<Rightarrow> Inr k)"

definition revoke_key ::
  "environment \<Rightarrow> nat \<Rightarrow> credentials \<Rightarrow> string \<Rightarrow> string \<Rightarrow> key_system \<Rightarrow> key_error + key_system" where
  "revoke_key env worker cred key_id why sys =
     (let who = cd_actor cred; tenant = cd_tenant_id cred in
      bindE (key_denied (require_action who A_MANAGE_KEYS)) (\<lambda>_.
      bindE (get_key tenant key_id sys) (\<lambda>k.
        if ak_revoked_at k \<noteq> None then Inl K_Already_revoked
        else
          Inr (sys\<lparr>
            ks_keys := map (\<lambda>x. if ak_id x = ak_id k then x\<lparr>ak_revoked_at := Some (env_now env)\<rparr> else x) (ks_keys sys),
            ks_caches := (ks_caches sys)(worker := revoke_from_cache (ak_prefix k) (ks_caches sys worker)),
            ks_dbs := (ks_dbs sys)(tenant :=
              audit_append env ''apikey.revoked'' who (key_subject (ak_id k))
                (PDict [(''prefix'', PStr (ak_prefix k)), (''reason'', PStr why)]) (ks_dbs sys tenant))\<rparr>))))"

text \<open>A request presenting a key to one of the workers.\<close>

definition attempt :: "crypto \<Rightarrow> nat \<Rightarrow> rat \<Rightarrow> string \<Rightarrow> key_system \<Rightarrow> (auth_error + credentials) \<times> key_system" where
  "attempt cr worker now header sys =
     (case authenticate cr now header (ks_keys sys) (ks_caches sys worker) of
        (r, cache) \<Rightarrow> (r, sys\<lparr>ks_caches := (ks_caches sys)(worker := cache)\<rparr>))"

inductive auth_step :: "crypto \<Rightarrow> key_system \<Rightarrow> key_system \<Rightarrow> bool" for cr where
  s_attempt: "auth_step cr sys (snd (attempt cr worker now header sys))"
| s_issue: "create_key cr env token key_id cred rq sys = Inr (full, sys') \<Longrightarrow> auth_step cr sys sys'"
| s_revoke: "revoke_key env worker cred key_id why sys = Inr sys' \<Longrightarrow> auth_step cr sys sys'"
| s_clear: "auth_step cr sys (sys\<lparr>ks_caches := (ks_caches sys)(worker := Map.empty)\<rparr>)"

inductive_cases auth_stepE: "auth_step cr sys sys'"

text \<open>A system starts with whatever keys were provisioned and with empty caches.\<close>

definition initial_system :: "key_system \<Rightarrow> bool" where
  "initial_system sys \<longleftrightarrow>
     distinct (map ak_prefix (ks_keys sys)) \<and> distinct (map ak_id (ks_keys sys)) \<and> (\<forall>w. ks_caches sys w = Map.empty)"


section \<open>Invariant\<close>

definition evidence :: "crypto \<Rightarrow> api_key_row list \<Rightarrow> string \<Rightarrow> string \<Rightarrow> bool" where
  "evidence cr keys digest pre \<longleftrightarrow>
     (\<exists>p. \<exists>row \<in> set keys. cr_sha cr p = digest \<and> take PREFIX_LENGTH p = pre \<and> ak_prefix row = pre
        \<and> cr_verify cr (ak_hashed_secret row) p)"

definition keys_inv :: "crypto \<Rightarrow> key_system \<Rightarrow> bool" where
  "keys_inv cr sys \<longleftrightarrow>
     distinct (map ak_prefix (ks_keys sys)) \<and> distinct (map ak_id (ks_keys sys)) \<and>
     (\<forall>w d e pre. ks_caches sys w d = Some (e, pre) \<longrightarrow> evidence cr (ks_keys sys) d pre)"

lemma resolve_Some: "resolve pre keys = Some row \<Longrightarrow> row \<in> set keys \<and> ak_prefix row = pre"
  by (auto simp: resolve_def find_Some_iff)

lemma resolve_distinct:
  "distinct (map ak_prefix keys) \<Longrightarrow> row \<in> set keys \<Longrightarrow> resolve (ak_prefix row) keys = Some row"
  by (induction keys) (auto simp: resolve_def)

lemma authenticate_cache:
  assumes "snd (authenticate cr now header keys cache) d = Some (e, pre)"
  shows "cache d = Some (e, pre) \<or> evidence cr keys d pre"
  using assms
  by (auto simp: authenticate_def Let_def evidence_def dest!: resolve_Some split: if_splits option.splits)

lemma authenticate_Inr:
  assumes "fst (authenticate cr now header keys cache) = Inr c"
  obtains row r where "resolve (take PREFIX_LENGTH (presented_key header)) keys = Some row" "ak_revoked_at row = None"
    "role_of_text (ak_role row) = Some r" "c = credentials_of row r"
    "fresh cache (cr_sha cr (presented_key header)) now \<or> cr_verify cr (ak_hashed_secret row) (presented_key header)"
  using assms by (auto simp: authenticate_def Let_def split: if_splits option.splits)

lemma evidence_append: "evidence cr keys d pre \<Longrightarrow> evidence cr (keys @ ks) d pre"
  by (auto simp: evidence_def)

lemma evidence_revoked:
  "evidence cr keys d pre \<Longrightarrow>
   evidence cr (map (\<lambda>x. if P x then x\<lparr>ak_revoked_at := t\<rparr> else x) keys) d pre"
proof -
  assume "evidence cr keys d pre"
  then obtain p row where "row \<in> set keys" "cr_sha cr p = d" "take PREFIX_LENGTH p = pre" "ak_prefix row = pre"
    "cr_verify cr (ak_hashed_secret row) p" by (auto simp: evidence_def)
  then show ?thesis
    unfolding evidence_def
    by (intro exI [of _ p] bexI [of _ "if P row then row\<lparr>ak_revoked_at := t\<rparr> else row"]) auto
qed

text \<open>What a successful issuing leaves.\<close>

lemma create_key_Inr:
  assumes "create_key cr env token key_id cred rq sys = Inr (full, sys')"
  obtains row target where "ks_keys sys' = ks_keys sys @ [row]" "ks_caches sys' = ks_caches sys"
    "ak_prefix row \<notin> ak_prefix ` set (ks_keys sys)" "ak_id row \<notin> ak_id ` set (ks_keys sys)"
    "ak_prefix row = take PREFIX_LENGTH full" "ak_hashed_secret row = cr_hash cr full" "ak_revoked_at row = None"
    "ak_tenant row = cd_tenant_id cred" "ak_role row = role_text target" "ak_id row = key_id"
    "role_of_text (kr_role rq) = Some target" "PERMISSIONS target \<subseteq> PERMISSIONS (actor_role (cd_actor cred))"
    "\<exists>e. full = ''cl_'' @ e @ ''_'' @ token"
proof -
  let ?e = "case kr_environment rq of Some e \<Rightarrow> e | None \<Rightarrow> ''live''"
  have "create_key cr env token key_id cred rq sys = Inr (full, sys') \<Longrightarrow> full = fst (generate_key ?e token)"
    by (auto simp: create_key_def Let_def split: if_splits)
  with assms have full: "full = fst (generate_key ?e token)" by blast
  then have pre: "snd (generate_key ?e token) = take PREFIX_LENGTH full" by (simp add: generate_key_def Let_def)
  have ex: "\<exists>e. full = ''cl_'' @ e @ ''_'' @ token" using full by (auto simp: generate_key_def Let_def)
  from assms have "\<not> list_ex (\<lambda>k. ak_prefix k = take PREFIX_LENGTH full \<or> ak_id k = key_id) (ks_keys sys)"
    by (auto simp: create_key_def Let_def pre split: if_splits)
  then have new: "take PREFIX_LENGTH full \<notin> ak_prefix ` set (ks_keys sys)" "key_id \<notin> ak_id ` set (ks_keys sys)"
    by (auto simp: list_ex_iff)
  from assms show thesis
    unfolding create_key_def Let_def bindE_eq_Inr pre full [symmetric]
    using new ex by (auto split: if_splits option.splits intro!: that)
qed

lemma revoke_from_cache_Some: "revoke_from_cache p cache d = Some x \<Longrightarrow> cache d = Some x"
  by (auto simp: revoke_from_cache_def split: option.splits if_splits)

lemma step_keys_inv: "auth_step cr sys sys' \<Longrightarrow> keys_inv cr sys \<Longrightarrow> keys_inv cr sys'"
proof (induction rule: auth_step.induct)
  case (s_attempt sys worker now header)
  then show ?case
    using authenticate_cache [of cr now header "ks_keys sys" "ks_caches sys worker"]
    by (fastforce simp: keys_inv_def attempt_def split: prod.splits if_splits)
next
  case (s_issue env token key_id cred rq sys full sys')
  from s_issue(1) obtain row where "ks_keys sys' = ks_keys sys @ [row]" "ks_caches sys' = ks_caches sys"
    "ak_prefix row \<notin> ak_prefix ` set (ks_keys sys)" "ak_id row \<notin> ak_id ` set (ks_keys sys)"
    by (rule create_key_Inr)
  with s_issue(2) show ?case by (auto simp: keys_inv_def intro!: evidence_append)
next
  case (s_revoke env worker cred key_id why sys sys')
  have "map f (map (\<lambda>x. if P x then x\<lparr>ak_revoked_at := t\<rparr> else x) ks) = map f ks"
    if "\<And>x. f (x\<lparr>ak_revoked_at := t\<rparr>) = f x" for f :: "api_key_row \<Rightarrow> string" and P t ks
    using that by (induction ks) auto
  then have "map ak_prefix (ks_keys sys') = map ak_prefix (ks_keys sys)" "map ak_id (ks_keys sys') = map ak_id (ks_keys sys)"
    using s_revoke(1) by (auto simp: revoke_key_def Let_def split: if_splits)
  with s_revoke show ?case
    by (auto simp: keys_inv_def revoke_key_def Let_def split: if_splits
        dest!: revoke_from_cache_Some intro!: evidence_revoked)
qed (auto simp: keys_inv_def split: if_splits)

interpretation keys: step_invariant "auth_step cr" "keys_inv cr"
  by unfold_locales (rule step_keys_inv)

lemma initial_keys_inv: "initial_system sys \<Longrightarrow> keys_inv cr sys"
  by (simp add: initial_system_def keys_inv_def)

lemma fresh_evidence:
  assumes "keys_inv cr sys" and "fresh (ks_caches sys w) d now"
  shows "\<exists>p. \<exists>row \<in> set (ks_keys sys). cr_sha cr p = d \<and> ak_prefix row = take PREFIX_LENGTH p \<and> cr_verify cr (ak_hashed_secret row) p"
  using assms unfolding keys_inv_def evidence_def fresh_def by (fastforce split: option.splits)


section \<open>Revocation\<close>

definition revoked_prefix :: "string \<Rightarrow> key_system \<Rightarrow> bool" where
  "revoked_prefix pre sys \<longleftrightarrow> (\<exists>row \<in> set (ks_keys sys). ak_prefix row = pre \<and> ak_revoked_at row \<noteq> None)"

lemma revoked_prefixI:
  "row \<in> set (ks_keys sys) \<Longrightarrow> ak_prefix row = pre \<Longrightarrow> ak_revoked_at row \<noteq> None \<Longrightarrow> revoked_prefix pre sys"
  by (auto simp: revoked_prefix_def)

lemma revoke_key_Inr:
  assumes "revoke_key env worker cred key_id why sys = Inr sys'"
  obtains k where "get_key (cd_tenant_id cred) key_id sys = Inr k"
    "ks_keys sys' = map (\<lambda>x. if ak_id x = ak_id k then x\<lparr>ak_revoked_at := Some (env_now env)\<rparr> else x) (ks_keys sys)"
  using assms by (auto simp: revoke_key_def Let_def split: if_splits)

lemma get_key_Inr: "get_key tenant key_id sys = Inr k \<Longrightarrow> k \<in> set (ks_keys sys) \<and> ak_id k = key_id \<and> ak_tenant k = tenant"
  by (auto simp: get_key_def find_Some_iff split: option.splits)

lemma step_revoked: "auth_step cr sys sys' \<Longrightarrow> revoked_prefix pre sys \<Longrightarrow> revoked_prefix pre sys'"
proof (induction rule: auth_step.induct)
  case (s_attempt sys worker now header)
  then show ?case by (simp add: revoked_prefix_def attempt_def split: prod.splits)
next
  case (s_issue env token key_id cred rq sys full sys')
  from s_issue(1) obtain row where "ks_keys sys' = ks_keys sys @ [row]" by (rule create_key_Inr)
  with s_issue(2) show ?case by (auto simp: revoked_prefix_def)
next
  case (s_revoke env worker cred key_id why sys sys')
  from s_revoke(1) obtain k where "get_key (cd_tenant_id cred) key_id sys = Inr k"
    "ks_keys sys' = map (\<lambda>x. if ak_id x = ak_id k then x\<lparr>ak_revoked_at := Some (env_now env)\<rparr> else x) (ks_keys sys)"
    by (rule revoke_key_Inr)
  moreover from s_revoke(2) obtain row where "row \<in> set (ks_keys sys)" "ak_prefix row = pre" "ak_revoked_at row \<noteq> None"
    by (auto simp: revoked_prefix_def)
  ultimately show ?case
    by (intro revoked_prefixI [of "if ak_id row = ak_id k then row\<lparr>ak_revoked_at := Some (env_now env)\<rparr> else row"]) auto
qed (simp add: revoked_prefix_def)

interpretation revocation: step_invariant "auth_step cr" "revoked_prefix pre"
  by unfold_locales (rule step_revoked)

lemma revoked_prefix_fails:
  assumes "keys_inv cr sys" and "revoked_prefix (take PREFIX_LENGTH (presented_key header)) sys"
  shows "\<exists>m. fst (attempt cr worker now header sys) = Inl (AuthenticationFailed m)"
proof -
  from assms obtain row where "row \<in> set (ks_keys sys)" "ak_prefix row = take PREFIX_LENGTH (presented_key header)"
      "ak_revoked_at row \<noteq> None" by (auto simp: revoked_prefix_def)
  with assms(1) have "resolve (take PREFIX_LENGTH (presented_key header)) (ks_keys sys) = Some row"
    using resolve_distinct by (fastforce simp: keys_inv_def)
  then show ?thesis using \<open>ak_revoked_at row \<noteq> None\<close> by (simp add: attempt_def authenticate_def Let_def)
qed


section \<open>Properties\<close>

definition demo_crypto :: crypto where
  "demo_crypto = \<lparr>cr_sha = id, cr_hash = id, cr_verify = (=)\<rparr>"

definition demo_key :: api_key_row where
  "demo_key =
     \<lparr>ak_id = ''key_0'', ak_tenant = ''t'', ak_name = ''root'', ak_prefix = ''cl_live_abcdefgh'',
      ak_hashed_secret = ''cl_live_abcdefghijk'', ak_environment = ''live'', ak_role = ''engineer'',
      ak_created_by = ''setup'', ak_revoked_at = None\<rparr>"

definition demo_system :: key_system where
  "demo_system = \<lparr>ks_keys = [demo_key], ks_dbs = empty_db, ks_caches = (\<lambda>_. Map.empty)\<rparr>"

definition demo_header :: string where
  "demo_header = ''Bearer cl_live_abcdefghijk''"

lemma demo_initial: "initial_system demo_system"
  by (simp add: initial_system_def demo_system_def)

lemma demo_presented:
  "presented_key demo_header = ''cl_live_abcdefghijk''" "prefix ''Bearer '' demo_header" "demo_header \<noteq> []"
  by code_simp+

lemma demo_attempt: "fst (attempt demo_crypto 0 5 demo_header demo_system) = Inr (credentials_of demo_key ENGINEER)"
proof -
  have "role_of_text ''engineer'' = Some ENGINEER" by code_simp
  then show ?thesis
    by (simp add: attempt_def authenticate_def Let_def demo_presented demo_system_def resolve_def demo_key_def
        PREFIX_LENGTH_def demo_crypto_def fresh_def)
qed



text \<open>C23. Revocation takes effect at once in every worker: after a key was revoked, every attempt
  in any worker with any key of that prefix fails, however often the key was verified before,
  whatever the caches hold and whatever happens afterwards.\<close>

theorem revocation_is_immediate:
  assumes "initial_system sys0" and "(auth_step cr)\<^sup>*\<^sup>* sys0 sys"
    and "get_key (cd_tenant_id cred) key_id sys = Inr k"
    and "revoke_key env w cred key_id why sys = Inr sys1" and "(auth_step cr)\<^sup>*\<^sup>* sys1 sys2"
    and "take PREFIX_LENGTH (presented_key header) = ak_prefix k"
  shows "\<exists>m. fst (attempt cr worker now header sys2) = Inl (AuthenticationFailed m)"
proof (rule revoked_prefix_fails)
  have step: "auth_step cr sys sys1" using assms(4) by (rule s_revoke)
  with assms(1,2,5) show "keys_inv cr sys2"
    using initial_keys_inv keys.run_keeps step_keys_inv by metis
  from assms(4) obtain k' where k': "get_key (cd_tenant_id cred) key_id sys = Inr k'"
    "ks_keys sys1 = map (\<lambda>x. if ak_id x = ak_id k' then x\<lparr>ak_revoked_at := Some (env_now env)\<rparr> else x) (ks_keys sys)"
    by (rule revoke_key_Inr)
  with assms(3) get_key_Inr [OF assms(3)] have "k\<lparr>ak_revoked_at := Some (env_now env)\<rparr> \<in> set (ks_keys sys1)"
    by (auto intro: rev_image_eqI)
  then have "revoked_prefix (ak_prefix k) sys1" by (rule revoked_prefixI) simp_all
  then show "revoked_prefix (take PREFIX_LENGTH (presented_key header)) sys2"
    unfolding assms(6) using assms(5) revocation.run_keeps by blast
qed

definition demo_admin :: credentials where
  "demo_admin =
     \<lparr>cd_tenant_id = ''t'', cd_key_id = ''key_9'', cd_environment = ''live'', cd_actor = person ''key_9'' ENGINEER\<rparr>"

theorem revocation_is_immediate_witness:
  "\<exists>sys1. revoke_key (demo_env ''a1'' 1) 0 demo_admin ''key_0'' ''lost'' demo_system = Inr sys1
   \<and> (\<exists>m. fst (attempt demo_crypto 3 6 demo_header sys1) = Inl (AuthenticationFailed m))"
proof -
  have k: "get_key (cd_tenant_id demo_admin) ''key_0'' demo_system = Inr demo_key"
    by (simp add: get_key_def demo_system_def demo_admin_def demo_key_def)
  have "A_MANAGE_KEYS \<in> PERMISSIONS ENGINEER" by code_simp
  then have "is_ok (revoke_key (demo_env ''a1'' 1) 0 demo_admin ''key_0'' ''lost'' demo_system)"
    using k by (simp add: is_ok_iff revoke_key_def Let_def)
      (simp add: demo_admin_def person_def demo_key_def)
  then obtain sys1 where r: "revoke_key (demo_env ''a1'' 1) 0 demo_admin ''key_0'' ''lost'' demo_system = Inr sys1"
    by (auto simp: is_ok_iff)
  have "take PREFIX_LENGTH (presented_key demo_header) = ak_prefix demo_key"
    by (simp add: demo_presented PREFIX_LENGTH_def demo_key_def)
  with revocation_is_immediate [OF demo_initial rtranclp.rtrancl_refl k r rtranclp.rtrancl_refl] r show ?thesis by blast
qed

lemma py_strip_ends:
  assumes "s = c # cs @ [d]" and "\<not> isspace_c c" and "\<not> isspace_c d"
  shows "py_strip s = s"
  using assms by (simp add: py_strip_def)

lemma issued_key_credentials:
  assumes "keys_inv cr sys" and "create_key cr env token key_id cred rq sys = Inr (full, sys1)"
    and "cr_verify cr (cr_hash cr full) full" and "token \<noteq> []" and "\<not> isspace_c (last token)"
  obtains row target where "fst (attempt cr worker now (''Bearer '' @ full) sys1) = Inr (credentials_of row target)"
    "ak_tenant row = cd_tenant_id cred" "ak_id row = key_id" "role_of_text (kr_role rq) = Some target"
    "PERMISSIONS target \<subseteq> PERMISSIONS (actor_role (cd_actor cred))"
proof -
  from assms(2) obtain row target where row: "ks_keys sys1 = ks_keys sys @ [row]"
    "ak_prefix row = take PREFIX_LENGTH full" "ak_hashed_secret row = cr_hash cr full" "ak_revoked_at row = None"
    "ak_tenant row = cd_tenant_id cred" "ak_role row = role_text target" "ak_id row = key_id"
    "role_of_text (kr_role rq) = Some target" "PERMISSIONS target \<subseteq> PERMISSIONS (actor_role (cd_actor cred))"
    and full: "\<exists>e. full = ''cl_'' @ e @ ''_'' @ token"
    by (rule create_key_Inr)
  from full obtain e where e: "full = ''cl_'' @ e @ ''_'' @ token" ..
  have "full = CHR ''c'' # (''l_'' @ e @ ''_'' @ butlast token) @ [last token]" using assms(4) by (simp add: e)
  then have "py_strip full = full"
    by (rule py_strip_ends) (use assms(5) in \<open>simp_all add: char_class_defs\<close>)
  moreover define h where "h = ''Bearer '' @ full"
  ultimately have h: "h \<noteq> []" "prefix ''Bearer '' h" "presented_key h = full" by (simp_all add: presented_key_def)
  have "auth_step cr sys sys1" using assms(2) by (rule s_issue)
  then have "keys_inv cr sys1" using assms(1) step_keys_inv by blast
  then have "resolve (take PREFIX_LENGTH full) (ks_keys sys1) = Some row"
    using resolve_distinct [of "ks_keys sys1" row] row(1,2) by (simp add: keys_inv_def)
  moreover have "prefix ''cl_'' full" by (simp add: e)
  ultimately have "fst (attempt cr worker now h sys1) = Inr (credentials_of row target)"
    using assms(3) row(3,4,6) by (simp add: attempt_def authenticate_def Let_def h role_of_text_role_text)
  with row show ?thesis unfolding h_def by (intro that [of row target])
qed

text \<open>An issued key works: the secret \<open>create\<close> returned authenticates its holder at any worker,
  for the tenant and with the role that was asked for, provided Argon2id verifies its own hashes and
  the random part has no trailing space; and that role's permissions are within the issuer's.\<close>

theorem issued_key_authenticates:
  assumes "initial_system sys0" and "(auth_step cr)\<^sup>*\<^sup>* sys0 sys"
    and "create_key cr env token key_id cred rq sys = Inr (full, sys1)"
    and "cr_verify cr (cr_hash cr full) full" and "token \<noteq> []" and "\<not> isspace_c (last token)"
  shows "\<exists>c. fst (attempt cr worker now (''Bearer '' @ full) sys1) = Inr c
    \<and> cd_tenant_id c = cd_tenant_id cred \<and> cd_key_id c = key_id
    \<and> role_of_text (kr_role rq) = Some (actor_role (cd_actor c))
    \<and> PERMISSIONS (actor_role (cd_actor c)) \<subseteq> PERMISSIONS (actor_role (cd_actor cred))"
proof -
  have "keys_inv cr sys" using assms(1,2) initial_keys_inv keys.run_keeps by blast
  then show ?thesis
    by (rule issued_key_credentials [OF _ assms(3-6), of worker now]) (auto simp: credentials_of_def)
qed

theorem issued_key_authenticates_witness:
  "\<exists>sys1 c. create_key demo_crypto (demo_env ''a1'' 1) ''xyzxyzxyzxyz'' ''key_1'' demo_admin
       \<lparr>kr_name = ''ci'', kr_role = ''engineer'', kr_environment = None\<rparr> demo_system
     = Inr (''cl_live_xyzxyzxyzxyz'', sys1)
   \<and> fst (attempt demo_crypto 2 9 (''Bearer '' @ ''cl_live_xyzxyzxyzxyz'') sys1) = Inr c \<and> cd_tenant_id c = ''t''"
proof -
  let ?rq = "\<lparr>kr_name = ''ci'', kr_role = ''engineer'', kr_environment = None\<rparr>"
  have "A_MANAGE_KEYS \<in> PERMISSIONS ENGINEER" "role_of_text ''engineer'' = Some ENGINEER" by code_simp+
  then have "\<exists>sys1. create_key demo_crypto (demo_env ''a1'' 1) ''xyzxyzxyzxyz'' ''key_1'' demo_admin ?rq demo_system
      = Inr (''cl_live_xyzxyzxyzxyz'', sys1)"
    by (simp add: create_key_def Let_def demo_admin_def person_def key_request_valid_def generate_key_def
        demo_system_def demo_key_def PREFIX_LENGTH_def)
  then obtain sys1 where c: "create_key demo_crypto (demo_env ''a1'' 1) ''xyzxyzxyzxyz'' ''key_1'' demo_admin ?rq demo_system
      = Inr (''cl_live_xyzxyzxyzxyz'', sys1)" ..
  have "\<not> isspace_c (last ''xyzxyzxyzxyz'')" "cr_verify demo_crypto (cr_hash demo_crypto k) k" for k
    by (simp_all add: char_class_defs demo_crypto_def)
  with issued_key_authenticates [OF demo_initial rtranclp.rtrancl_refl c, of 2 9] c show ?thesis
    by (auto simp: demo_admin_def)
qed

end
