(* ===== verification/Decision_Endpoint.thy ===== *)
theory Decision_Endpoint
  imports Decision_Handler Api_Auth
begin

text \<open>
  \<open>POST /v1/decisions\<close> (\<open>src/complylayer/api/decision.py\<close>) and the middleware that assembles it
  per request (\<open>src/complylayer/api/decision_middleware.py\<close>).

  The view is split where another request can come between: \<open>begin_decision\<close> runs up to the result of
  \<open>handler.decide\<close>, \<open>finish_decision\<close> records and answers. \<open>decisions\<close> composes them, \<open>serve\<close>
  interleaves any number of requests of any tenants. The contract of the idempotency table is the
  locale \<open>first_write_wins\<close>, interpreted on \<open>DatabaseStore\<close>.
\<close>


section \<open>The view\<close>

record http_request =
  rq_method :: string
  rq_headers :: "string \<rightharpoonup> string"
  rq_body :: string

datatype response = Http nat "pyval dict" | Server_error server_error

record world =
  wo_db :: decision_db
  wo_redis :: redis

definition LATENCY_QUANTUM_MS :: int where "LATENCY_QUANTUM_MS = 5"

text \<open>\<open>round\<close>: half to even.\<close>

definition py_round :: "rat \<Rightarrow> int" where
  "py_round x =
     (let f = \<lfloor>x\<rfloor>; d = x - of_int f
      in if d < 1 / 2 then f else if 1 / 2 < d then f + 1 else if even f then f else f + 1)"

definition quantise :: "rat \<Rightarrow> int" where
  "quantise ms = py_round (ms / of_int LATENCY_QUANTUM_MS) * LATENCY_QUANTUM_MS"

definition parse_request :: "platform \<Rightarrow> http_request \<Rightarrow> api_error + string \<times> transaction" where
  "parse_request pf rq =
     bindE (parse_body (pf_loads pf) (rq_body rq)) (\<lambda>payload.
     bindE (require_idempotency_key (rq_headers rq)) (\<lambda>key.
     bindE (parse_transaction payload) (\<lambda>tx. Inr (key, tx))))"

text \<open>A request between its decision and its record.\<close>

record pending =
  pd_handler :: handler
  pd_key :: string
  pd_tx :: transaction
  pd_result :: "pyval dict"
  pd_elapsed :: rat

definition begin_decision ::
  "platform \<Rightarrow> moment \<Rightarrow> handler \<Rightarrow> http_request \<Rightarrow> world \<Rightarrow> (response + pending) \<times> world" where
  "begin_decision pf mo h rq w =
     (if rq_method rq \<noteq> ''POST'' then (Inl (Http 405 [(''error'', PStr ''method_not_allowed'')]), w)
      else
        (case parse_request pf rq of
           Inl e \<Rightarrow> (Inl (Http (err_status e) (as_dict e)), w)
         | Inr (key, tx) \<Rightarrow>
             (case replay h key (wo_db w) of
                Some r \<Rightarrow> (Inl (Http 200 r), w)
              | None \<Rightarrow>
                  (case handler_decide pf mo h tx (wo_db w) (wo_redis w) of
                     (Inl e, rd) \<Rightarrow> (Inl (Server_error (Exn e)), w\<lparr>wo_redis := rd\<rparr>)
                   | (Inr result, rd) \<Rightarrow>
                       (Inr \<lparr>pd_handler = h, pd_key = key, pd_tx = tx, pd_result = result,
                             pd_elapsed = mo_elapsed_ms mo\<rparr>, w\<lparr>wo_redis := rd\<rparr>)))))"

definition timed_result :: "pending \<Rightarrow> pyval dict" where
  "timed_result pd = dict_put ''latency_ms'' (PInt (quantise (pd_elapsed pd))) (pd_result pd)"

definition finish_decision :: "platform \<Rightarrow> pending \<Rightarrow> world \<Rightarrow> response \<times> world" where
  "finish_decision pf pd w =
     (case record_decision pf (pd_handler pd) (timed_result pd) (pd_tx pd) (pd_key pd) (wo_db w) of
        Inl e \<Rightarrow> (Server_error e, w)
      | Inr db \<Rightarrow> (Http 200 (public_body (timed_result pd)), w\<lparr>wo_db := db\<rparr>))"

definition decisions :: "platform \<Rightarrow> moment \<Rightarrow> handler \<Rightarrow> http_request \<Rightarrow> world \<Rightarrow> response \<times> world" where
  "decisions pf mo h rq w =
     (case begin_decision pf mo h rq w of
        (Inl r, w') \<Rightarrow> (r, w')
      | (Inr pd, w') \<Rightarrow> finish_decision pf pd w')"


section \<open>The middleware\<close>

record worker =
  wk_caches :: "string \<rightharpoonup> rule_set_cache"
  wk_verified :: verified

definition load_published :: "string \<Rightarrow> decision_db \<Rightarrow> published option" where
  "load_published tenant db =
     (case sort_key (\<lambda>v. - int (rv_version v)) (dd_versions db tenant) of
        [] \<Rightarrow> None
      | v # _ \<Rightarrow> Some (int (rv_version v), rv_rules v, Some (rv_lists v)))"

definition cache_for ::
  "python_parser \<Rightarrow> int \<Rightarrow> string \<Rightarrow> decision_db \<Rightarrow> worker \<Rightarrow> (cache_error + rule_set_cache) \<times> worker" where
  "cache_for py now tenant db wk =
     (let c = (case wk_caches wk tenant of Some c \<Rightarrow> c | None \<Rightarrow> \<lparr>rc_tenant = tenant, rc_current = None\<rparr>);
          (r, c') = (if is_warm c then (Inr False, c) else refresh py now (load_published tenant db) False c)
      in (bindE r (\<lambda>_. Inr c'), wk\<lparr>wk_caches := (wk_caches wk)(tenant \<mapsto> c')\<rparr>))"

definition NO_RULESET :: "pyval dict" where
  "NO_RULESET =
     [(''error'', PStr ''no_ruleset''),
      (''message'', PStr (''This tenant has no published rule set yet. Activate a rule and '' @
                          ''every decision will be evaluated against it.''))]"

definition cache_exn :: "cache_error \<Rightarrow> exn" where
  "cache_exn e = (case e of Missing_key \<Rightarrow> KeyError | _ \<Rightarrow> ValueError)"

text \<open>\<open>DecisionMiddleware.__call__\<close> around a view, and around this one. \<open>clock\<close> is the monotonic clock of
  the verification cache.\<close>

definition with_middleware ::
  "(handler \<Rightarrow> http_request \<Rightarrow> world \<Rightarrow> response \<times> world) \<Rightarrow> python_parser \<Rightarrow> crypto \<Rightarrow> string \<Rightarrow> int \<Rightarrow> rat
     \<Rightarrow> api_key_row list \<Rightarrow> http_request \<Rightarrow> worker \<Rightarrow> world \<Rightarrow> response \<times> worker \<times> world" where
  "with_middleware view py cr salt now clock keys rq wk w =
     (case authenticate cr clock (case rq_headers rq ''Authorization'' of Some v \<Rightarrow> v | None \<Rightarrow> []) keys (wk_verified wk) of
        (Inl (AuthenticationFailed m), ver) \<Rightarrow>
          (Http 401 [(''error'', PStr ''unauthorized''), (''message'', PStr m)], wk\<lparr>wk_verified := ver\<rparr>, w)
      | (Inl Unknown_role, ver) \<Rightarrow> (Server_error (Exn ValueError), wk\<lparr>wk_verified := ver\<rparr>, w)
      | (Inr cred, ver) \<Rightarrow>
          (case cache_for py now (cd_tenant_id cred) (wo_db w) (wk\<lparr>wk_verified := ver\<rparr>) of
             (Inl e, wk') \<Rightarrow> (Server_error (Exn (cache_exn e)), wk', w)
           | (Inr c, wk') \<Rightarrow>
               (case rc_current c of
                  None \<Rightarrow> (Http 409 NO_RULESET, wk', w)
                | Some loaded \<Rightarrow>
                    (let (r, w') = view \<lparr>h_tenant = cd_tenant_id cred, h_ruleset = lr_ruleset loaded, h_salt = salt\<rparr> rq w
                     in (r, wk', w')))))"

definition middleware ::
  "python_parser \<Rightarrow> platform \<Rightarrow> crypto \<Rightarrow> string \<Rightarrow> moment \<Rightarrow> rat \<Rightarrow> api_key_row list \<Rightarrow> http_request \<Rightarrow> worker \<Rightarrow> world
     \<Rightarrow> response \<times> worker \<times> world" where
  "middleware py pf cr salt mo clock keys rq wk w =
     with_middleware (decisions pf mo) py cr salt (mo_now mo) clock keys rq wk w"

lemmas middleware_defs = middleware_def with_middleware_def


section \<open>The idempotency contract\<close>

text \<open>A table whose first write under a key wins: \<open>saved k r s s'\<close> is a successful save of \<open>r\<close>
  under \<open>k\<close>, \<open>other s s'\<close> any step that leaves the table alone.\<close>

locale first_write_wins =
  fixes find :: "'k \<Rightarrow> 's \<Rightarrow> 'r option"
    and saved :: "'k \<Rightarrow> 'r \<Rightarrow> 's \<Rightarrow> 's \<Rightarrow> bool"
    and other :: "'s \<Rightarrow> 's \<Rightarrow> bool"
  assumes find_saved: "saved k r s s' \<Longrightarrow> find k s' = Some (case find k s of None \<Rightarrow> r | Some r0 \<Rightarrow> r0)"
    and find_saved_other: "saved k r s s' \<Longrightarrow> k' \<noteq> k \<Longrightarrow> find k' s' = find k' s"
    and find_other: "other s s' \<Longrightarrow> find k s' = find k s"
begin

definition moves :: "'s \<Rightarrow> 's \<Rightarrow> bool" where
  "moves s s' \<longleftrightarrow> other s s' \<or> (\<exists>k r. saved k r s s')"

lemma moves_keep: "moves s s' \<Longrightarrow> find k s = Some r \<Longrightarrow> find k s' = Some r"
  unfolding moves_def using find_saved find_saved_other find_other
  by (metis option.simps(5))

end

sublocale first_write_wins \<subseteq> kept: step_invariant moves "\<lambda>s. find k s = Some r" for k r
  by unfold_locales (rule moves_keep)

context first_write_wins
begin

lemma found_forever: "moves\<^sup>*\<^sup>* s s' \<Longrightarrow> find k s = Some r \<Longrightarrow> find k s' = Some r"
  by (rule kept.run_keeps)

lemma saved_forever:
  assumes "saved k r s s1" and "moves\<^sup>*\<^sup>* s1 s2"
  shows "find k s2 = Some (case find k s of None \<Rightarrow> r | Some r0 \<Rightarrow> r0)"
  using found_forever [OF assms(2) find_saved [OF assms(1)]] .

end

lemma find_response_append:
  "find_response t k (db\<lparr>dd_idempotency := dd_idempotency db @ [r]\<rparr>) =
     (case find_response t k db of
        Some x \<Rightarrow> Some x
      | None \<Rightarrow> if ir_tenant r = t \<and> ir_key r = k then Some (ir_response_body r) else None)"
proof -
  have "List.find P (xs @ [r]) = (case List.find P xs of Some x \<Rightarrow> Some x | None \<Rightarrow> if P r then Some r else None)"
    for P and xs :: "idempotency_record list" and r
    by (induction xs) auto
  then show ?thesis by (auto simp: find_response_def split: option.splits)
qed

lemma save_Inr:
  assumes "save pf tenant body tx key ch v db = Inr db'"
  obtains row rcd where
    "db' = get_or_create rcd (db\<lparr>dd_decisions := dd_decisions db @ [row]\<rparr>)"
    "ir_tenant rcd = tenant" "ir_key rcd = key" "ir_response_body rcd = public_body body"
    "dr_tenant row = tenant" "dr_idempotency_key row = key" "dr_context row = as_context tx"
    "dr_ruleset_version row = v" "Some (dr_id row) = map_of body ''decision_id''"
    "Some (dr_outcome row) = map_of body ''outcome''" "Some (dr_matched_rules row) = map_of body ''matched_rules''"
    "Some (dr_degraded row) = map_of body ''degraded''"
    "dr_resolved_facts row = body_get body ''_resolved_facts'' (PDict [])" "row_fits row"
  using assms
  by (auto simp: save_def body_item_def insert_decision_def split: option.splits if_splits)

lemma find_get_or_create:
  "find_response t k (get_or_create r db) =
     (if ir_tenant r = t \<and> ir_key r = k \<and> find_response t k db = None then Some (ir_response_body r)
      else find_response t k db)"
  by (auto simp: get_or_create_def find_response_append split: option.splits)

lemma find_response_decisions [simp]:
  "find_response t k (db\<lparr>dd_decisions := rows\<rparr>) = find_response t k db"
  by (simp add: find_response_def)

lemma find_response_save:
  assumes "save pf tenant body tx key ch v db = Inr db'"
  shows "find_response t k db' =
    (if t = tenant \<and> k = key \<and> find_response t k db = None then Some (public_body body) else find_response t k db)"
proof -
  from assms obtain row rcd where "db' = get_or_create rcd (db\<lparr>dd_decisions := dd_decisions db @ [row]\<rparr>)"
    "ir_tenant rcd = tenant" "ir_key rcd = key" "ir_response_body rcd = public_body body" by (rule save_Inr)
  then show ?thesis by (auto simp: find_get_or_create)
qed

definition db_saved :: "string \<times> string \<Rightarrow> pyval dict \<Rightarrow> world \<Rightarrow> world \<Rightarrow> bool" where
  "db_saved k r w w' \<longleftrightarrow>
     (\<exists>pf body tx ch v. save pf (fst k) body tx (snd k) ch v (wo_db w) = Inr (wo_db w') \<and> r = public_body body)"

definition db_other :: "world \<Rightarrow> world \<Rightarrow> bool" where
  "db_other w w' \<longleftrightarrow> dd_idempotency (wo_db w') = dd_idempotency (wo_db w)"

interpretation idem: first_write_wins "\<lambda>k w. find_response (fst k) (snd k) (wo_db w)" db_saved db_other
proof unfold_locales
  show "find_response (fst k) (snd k) (wo_db w') =
      Some (case find_response (fst k) (snd k) (wo_db w) of None \<Rightarrow> r | Some r0 \<Rightarrow> r0)" if "db_saved k r w w'" for k r w w'
    using that by (auto simp: db_saved_def find_response_save split: option.splits)
  show "find_response (fst k') (snd k') (wo_db w') = find_response (fst k') (snd k') (wo_db w)"
    if "db_saved k r w w'" "k' \<noteq> k" for k r w w' k'
    using that by (auto simp: db_saved_def find_response_save prod_eq_iff)
  show "find_response (fst k) (snd k) (wo_db w') = find_response (fst k) (snd k) (wo_db w)" if "db_other w w'" for k w w'
    using that by (simp add: db_other_def find_response_def)
qed


section \<open>Interleaved requests\<close>

text \<open>The state is the world and the requests between their decision and their record. \<open>configure\<close> is
  any change of the tenants' fallback policies and published versions.\<close>

inductive serve :: "platform \<Rightarrow> world \<times> pending list \<Rightarrow> world \<times> pending list \<Rightarrow> bool" for pf where
  answered: "begin_decision pf mo h rq w = (Inl r, w') \<Longrightarrow> serve pf (w, ps) (w', ps)"
| begun: "begin_decision pf mo h rq w = (Inr pd, w') \<Longrightarrow> serve pf (w, ps) (w', pd # ps)"
| finished: "pd \<in> set ps \<Longrightarrow> finish_decision pf pd w = (r, w') \<Longrightarrow> serve pf (w, ps) (w', remove1 pd ps)"
| configure: "serve pf (w, ps) (w\<lparr>wo_db := (wo_db w)\<lparr>dd_fallback := fb, dd_versions := vs\<rparr>\<rparr>, ps)"

inductive_cases serveE: "serve pf s s'"

lemma begin_decision_db: "begin_decision pf mo h rq w = (r, w') \<Longrightarrow> wo_db w' = wo_db w"
  by (auto simp: begin_decision_def split: if_splits sum.splits prod.splits option.splits)

lemma finish_decision_cases:
  assumes "finish_decision pf pd w = (r, w')"
  obtains (failed) e where "r = Server_error e" "w' = w"
  | (recorded) db where "r = Http 200 (public_body (timed_result pd))" "w' = w\<lparr>wo_db := db\<rparr>"
      "record_decision pf (pd_handler pd) (timed_result pd) (pd_tx pd) (pd_key pd) (wo_db w) = Inr db"
  using assms by (auto simp: finish_decision_def split: sum.splits)

lemma finish_saved:
  assumes "finish_decision pf pd w = (Http n b, w')"
  shows "db_saved (h_tenant (pd_handler pd), pd_key pd) b w w' \<and> n = 200"
  using assms by (rule finish_decision_cases) (auto simp: db_saved_def record_decision_def, blast)

lemma serve_moves:
  assumes "serve pf s s'"
  shows "idem.moves (fst s) (fst s')"
  using assms
proof cases
  case (finished pd ps w r w')
  then show ?thesis
    by (cases r) (auto simp: idem.moves_def db_other_def dest!: finish_saved elim: finish_decision_cases)
qed (auto simp: idem.moves_def db_other_def dest!: begin_decision_db)

lemma serves_moves: "(serve pf)\<^sup>*\<^sup>* s s' \<Longrightarrow> idem.moves\<^sup>*\<^sup>* (fst s) (fst s')"
  by (induction rule: rtranclp_induct) (auto intro: rtranclp.rtrancl_into_rtrancl serve_moves)

lemma decisions_replay:
  assumes "rq_method rq = ''POST''" "parse_request pf rq = Inr (key, tx)"
    "find_response (h_tenant h) key (wo_db w) = Some r"
  shows "decisions pf mo h rq w = (Http 200 r, w)"
  using assms by (simp add: decisions_def begin_decision_def replay_def)

definition PUBLIC_KEYS :: "string list" where
  "PUBLIC_KEYS =
     [''decision_id'', ''outcome'', ''reason'', ''matched_rules'', ''evaluated_rules'', ''ruleset_version'',
      ''degraded'', ''decided_at'', ''customer_message'', ''latency_ms'']"

definition demo_request :: http_request where
  "demo_request = \<lparr>rq_method = ''POST'', rq_headers = [''Idempotency-Key'' \<mapsto> ''k1''], rq_body = ''{}''\<rparr>"

definition demo_world :: world where
  "demo_world = \<lparr>wo_db = demo_db, wo_redis = demo_redis\<rparr>"

lemma demo_parse_request: "parse_request demo_platform demo_request = Inr (''k1'', transaction_of demo_payload)"
  by (simp add: parse_request_def parse_body_def demo_platform_def demo_request_def require_idempotency_key_def
      MAX_BODY_BYTES_def demo_parsed)

definition demo_pending :: "decision \<Rightarrow> gathered \<Rightarrow> pending" where
  "demo_pending d vel =
     \<lparr>pd_handler = demo_handler, pd_key = ''k1'', pd_tx = transaction_of demo_payload,
      pd_result = decision_body demo_platform demo_moment 1 d (build_facts (transaction_of demo_payload) vel []),
      pd_elapsed = 12\<rparr>"

lemma demo_begin:
  "\<exists>d vel rd. begin_decision demo_platform demo_moment demo_handler demo_request demo_world =
     (Inr (demo_pending d vel), demo_world\<lparr>wo_redis := rd\<rparr>)"
proof -
  let ?tx = "transaction_of demo_payload"
  let ?gv = "gather_velocity (''t'', ''s'' @ tx_customer_ref ?tx) ?tx 1000000 Redis_ok demo_redis"
  obtain vel where vel: "map fst (g_aggregates vel) = AGGREGATE_NAMES" "fst ?gv = vel"
    using gather_velocity_simps(1) by blast
  obtain d where d: "decide example_rules (context_of demo_platform 1000000 ?tx vel []) (Some Map.empty) MAX_STEPS = Inr d"
    using demo_decides vel(1) by blast
  have fb: "stored_fallback (h_tenant demo_handler) demo_db = Inr Map.empty"
    by (simp add: stored_fallback_def demo_db_def)
  have "rs_version example_rules = 1" by (simp add: example_rules_def make_rule_set_def)
  with d vel(2) have "handler_decide demo_platform demo_moment demo_handler ?tx demo_db demo_redis =
      (Inr (decision_body demo_platform demo_moment 1 d (build_facts ?tx vel [])), snd ?gv)"
    by (simp add: handler_decide_eq [OF fb])
      (simp add: demo_handler_def demo_moment_def demo_platform_def stored_lists_def demo_db_def)
  then have "begin_decision demo_platform demo_moment demo_handler demo_request demo_world =
      (Inr (demo_pending d vel), demo_world\<lparr>wo_redis := snd ?gv\<rparr>)"
    by (simp add: begin_decision_def demo_parse_request replay_def find_response_def demo_world_def demo_pending_def)
      (simp add: demo_request_def demo_db_def demo_moment_def)
  then show ?thesis by blast
qed

lemma body_item_timed:
  "k \<noteq> ''latency_ms'' \<Longrightarrow> body_item (timed_result pd) k = body_item (pd_result pd) k"
  by (simp add: body_item_def timed_result_def)

lemma body_item_decision:
  "body_item (decision_body pf mo v d facts) ''decided_at'' = Inr (PStr (mo_iso mo))"
  "body_item (decision_body pf mo v d facts) ''decision_id'' = Inr (PStr (mo_decision_id mo))"
  "body_item (decision_body pf mo v d facts) ''outcome'' = Inr (PStr (outcome_text (dec_outcome d)))"
  "body_item (decision_body pf mo v d facts) ''matched_rules'' = Inr (PList (map rule_json (matched_rules d)))"
  "body_item (decision_body pf mo v d facts) ''reason'' = Inr (PStr (reason d))"
  "body_item (decision_body pf mo v d facts) ''degraded'' = Inr (PBool (degraded d))"
  by (simp_all add: body_item_def decision_body_def)

text \<open>A decided request that fits the columns it fills is recorded, if its id is new.\<close>

lemma record_decision_ok:
  assumes "pd_result pd = decision_body pf mo v d facts" and "pf_fromisoformat pf (mo_iso mo) = Some t"
    and "length (tx_currency (pd_tx pd)) \<le> 3" and "- (2 ^ 63) \<le> tx_amount_minor (pd_tx pd)" and "tx_amount_minor (pd_tx pd) < 2 ^ 63"
    and "storable_text (pd_key pd)" and "storable_text (tx_ref (pd_tx pd))" and "json_storable (PDict (as_context (pd_tx pd)))"
    and "\<forall>x \<in> set (dd_decisions db). dr_id x \<noteq> PStr (mo_decision_id mo)"
  shows "is_ok (record_decision pf (pd_handler pd) (timed_result pd) (pd_tx pd) (pd_key pd) db)"
proof -
  have "insert_decision row db = Inr (db\<lparr>dd_decisions := dd_decisions db @ [row]\<rparr>)"
    if "dr_currency row = tx_currency (pd_tx pd)" "dr_amount_minor row = tx_amount_minor (pd_tx pd)"
      "dr_id row = PStr (mo_decision_id mo)" "dr_idempotency_key row = pd_key pd"
      "dr_transaction_ref row = tx_ref (pd_tx pd)" "dr_context row = as_context (pd_tx pd)" for row
    using that assms(3-9) by (auto simp: insert_decision_def row_fits_def list_ex_iff)
  then show ?thesis
    using assms(1,2)
    by (simp add: is_ok_iff record_decision_def save_def body_item_timed body_item_decision parse_instant_def)
qed

lemma demo_finish:
  "\<exists>w'. finish_decision demo_platform (demo_pending d vel) (demo_world\<lparr>wo_redis := rd\<rparr>) =
     (Http 200 (public_body (timed_result (demo_pending d vel))), w')"
proof -
  have tx: "tx_currency (transaction_of demo_payload) = ''NGN''" "tx_amount_minor (transaction_of demo_payload) = 500"
    "storable_text ''k1''" "storable_text (tx_ref (transaction_of demo_payload))"
    "json_storable (PDict (as_context (transaction_of demo_payload)))"
    by code_simp+
  have "is_ok (record_decision demo_platform (pd_handler (demo_pending d vel)) (timed_result (demo_pending d vel))
      (pd_tx (demo_pending d vel)) (pd_key (demo_pending d vel)) demo_db)"
    by (rule record_decision_ok [where mo = demo_moment and v = 1 and d = d and t = "\<lparr>local_us = 1000000, utcoffset_us = None\<rparr>"])
      (simp_all add: demo_pending_def tx demo_db_def del: json_storable.simps, simp add: demo_platform_def demo_moment_def)
  then show ?thesis
    by (auto simp: finish_decision_def is_ok_iff demo_world_def)
qed


section \<open>What goes out and what is kept\<close>

definition public_only :: "pyval dict \<Rightarrow> bool" where
  "public_only b \<longleftrightarrow> fst ` set b \<subseteq> set PUBLIC_KEYS"

lemma keys_dict_put: "fst ` set (dict_put k v d) = insert k (fst ` set d)"
  by (simp add: dict_put_def dom_update)

lemma keys_public_body: "fst ` set (public_body b) = {k \<in> fst ` set b. \<not> internal_key k}"
  by (auto simp: public_body_def)

lemma keys_decision_body:
  "fst ` set (decision_body pf mo v d facts) \<subseteq>
     set PUBLIC_KEYS \<union> {''_shadow_matches'', ''_errored_rules'', ''_resolved_facts''}"
  by (auto simp: decision_body_def PUBLIC_KEYS_def)

lemma decision_body_public:
  "public_only (public_body (dict_put ''latency_ms'' l (decision_body pf mo v d facts)))"
proof -
  have hide: "X \<subseteq> P \<union> I \<Longrightarrow> l \<in> P \<Longrightarrow> \<forall>i \<in> I. internal_key i \<Longrightarrow> {k \<in> insert l X. \<not> internal_key k} \<subseteq> P"
    for X P I and l :: string by blast
  show ?thesis
    unfolding public_only_def keys_public_body keys_dict_put
    by (rule hide [OF keys_decision_body]) (simp_all add: PUBLIC_KEYS_def internal_key_def)
qed

lemma begin_decision_cases:
  assumes "begin_decision pf mo h rq w = (r, w')"
  obtains (wrong_method) "r = Inl (Http 405 [(''error'', PStr ''method_not_allowed'')])" "w' = w"
  | (refused) e where "parse_request pf rq = Inl e" "r = Inl (Http (err_status e) (as_dict e))" "w' = w"
  | (replayed) key tx b where "parse_request pf rq = Inr (key, tx)" "find_response (h_tenant h) key (wo_db w) = Some b"
      "r = Inl (Http 200 b)" "w' = w"
  | (raised) key tx e rd where "parse_request pf rq = Inr (key, tx)"
      "handler_decide pf mo h tx (wo_db w) (wo_redis w) = (Inl e, rd)"
      "r = Inl (Server_error (Exn e))" "w' = w\<lparr>wo_redis := rd\<rparr>"
  | (decided) key tx body rd where "parse_request pf rq = Inr (key, tx)" "find_response (h_tenant h) key (wo_db w) = None"
      "handler_decide pf mo h tx (wo_db w) (wo_redis w) = (Inr body, rd)"
      "r = Inr \<lparr>pd_handler = h, pd_key = key, pd_tx = tx, pd_result = body, pd_elapsed = mo_elapsed_ms mo\<rparr>"
      "w' = w\<lparr>wo_redis := rd\<rparr>"
proof (cases "rq_method rq = ''POST''")
  case False
  with assms show thesis by (intro wrong_method) (simp_all add: begin_decision_def)
next
  case post: True
  show thesis
  proof (cases "parse_request pf rq")
    case (Inl e)
    with post assms show thesis by (intro refused [of e]) (simp_all add: begin_decision_def)
  next
    case (Inr kt)
    then obtain key tx where p: "parse_request pf rq = Inr (key, tx)" by (cases kt) simp
    obtain res rd where hd: "handler_decide pf mo h tx (wo_db w) (wo_redis w) = (res, rd)" by fastforce
    show thesis
    proof (cases "find_response (h_tenant h) key (wo_db w)")
      case (Some b)
      with post p assms show thesis by (intro replayed [of key tx b]) (simp_all add: begin_decision_def replay_def)
    next
      case None
      show thesis
      proof (cases res)
        case (Inl e)
        with None post p hd assms show thesis
          by (intro raised [of key tx e rd]) (simp_all add: begin_decision_def replay_def)
      next
        case (Inr body)
        with None post p hd assms show thesis
          by (intro decided [of key tx body rd]) (simp_all add: begin_decision_def replay_def)
      qed
    qed
  qed
qed

lemma handler_decide_body:
  assumes "handler_decide pf mo h tx db rd = (Inr body, rd')"
  obtains d facts where "body = decision_body pf mo (rs_version (h_ruleset h)) d facts"
  using assms by (auto simp: handler_decide_def Let_def split: sum.splits prod.splits)

lemma begin_pending_public:
  assumes "begin_decision pf mo h rq w = (Inr pd, w')"
  shows "public_only (public_body (timed_result pd))"
  using assms
  by (cases rule: begin_decision_cases) (auto simp: timed_result_def decision_body_public elim!: handler_decide_body)

definition all_public :: "world \<times> pending list \<Rightarrow> bool" where
  "all_public s \<longleftrightarrow>
     (\<forall>r \<in> set (dd_idempotency (wo_db (fst s))). public_only (ir_response_body r)) \<and>
     (\<forall>pd \<in> set (snd s). public_only (public_body (timed_result pd)))"

lemma save_idempotency:
  assumes "save pf tenant body tx key ch v db = Inr db'" and "r \<in> set (dd_idempotency db')"
  shows "r \<in> set (dd_idempotency db) \<or> ir_response_body r = public_body body"
  using assms(1) by (rule save_Inr) (use assms(2) in \<open>auto simp: get_or_create_def split: if_splits\<close>)

lemma finish_public:
  assumes "finish_decision pf pd w = (r, w')" and "public_only (public_body (timed_result pd))"
    and "\<forall>rcd \<in> set (dd_idempotency (wo_db w)). public_only (ir_response_body rcd)"
  shows "\<forall>rcd \<in> set (dd_idempotency (wo_db w')). public_only (ir_response_body rcd)"
  using assms(1)
proof (cases rule: finish_decision_cases)
  case (recorded db)
  from recorded(3) have "rcd \<in> set (dd_idempotency (wo_db w)) \<or> ir_response_body rcd = public_body (timed_result pd)"
    if "rcd \<in> set (dd_idempotency db)" for rcd
    using that save_idempotency unfolding record_decision_def by blast
  moreover have "wo_db w' = db" by (simp add: recorded(2))
  ultimately show ?thesis using assms(2,3) by metis
qed (use assms(3) in simp)

lemma serve_public:
  assumes "serve pf s s'" and "all_public s"
  shows "all_public s'"
  using assms(1)
proof cases
  case (finished pd ps w r w')
  with assms(2) have "\<forall>rcd \<in> set (dd_idempotency (wo_db w')). public_only (ir_response_body rcd)"
    by (intro finish_public [OF finished(4)]) (simp_all add: all_public_def)
  moreover have "\<forall>pd' \<in> set (remove1 pd ps). public_only (public_body (timed_result pd'))"
    using assms(2) finished(1) by (auto simp: all_public_def dest: notin_set_remove1)
  ultimately show ?thesis by (simp add: all_public_def finished(2))
qed (use assms(2) in \<open>auto simp: all_public_def dest: begin_decision_db begin_pending_public\<close>)

interpretation serving: step_invariant "serve pf" all_public
  by unfold_locales (rule serve_public)

lemma bad_request_status [simp]: "err_status (bad_request c m f) = 400"
  by (simp add: bad_request_def)

lemma check_status:
  "reject_unknown p a pre = Inl e \<Longrightarrow> err_status e = 400"
  "require_text p n = Inl e \<Longrightarrow> err_status e = 400"
  "require_amount p = Inl e \<Longrightarrow> err_status e = 400"
  "require_currency p = Inl e \<Longrightarrow> err_status e = 400"
  by (auto simp: reject_unknown_def require_text_def require_amount_def require_currency_def Let_def
      split: list.splits option.splits pyval.splits if_splits)

lemma nested_object_status: "nested_object p f = Inl e \<Longrightarrow> err_status e = 400"
  by (cases f) (auto simp: nested_object_def bindE_eq_Inl check_status split: option.splits pyval.splits)

lemma mapE_status:
  "mapE f xs = Inl e \<Longrightarrow> (\<And>x. f x = Inl e \<Longrightarrow> err_status e = 400) \<Longrightarrow> err_status e = 400"
  by (auto elim: mapE_InlE)

lemma bindE_status:
  "bindE m f = Inl e \<Longrightarrow> (m = Inl e \<Longrightarrow> err_status e = 400) \<Longrightarrow> (\<And>x. f x = Inl e \<Longrightarrow> err_status e = 400) \<Longrightarrow>
   err_status e = 400"
  by (auto simp: bindE_eq_Inl)

lemma missing_status:
  "(case xs of [] \<Rightarrow> Inr () | n # ns \<Rightarrow> Inl (bad_request c (m n) (g n))) = Inl e \<Longrightarrow> err_status e = 400"
  by (auto split: list.splits)

lemma optional_status: "(if b then require_text p n else Inr ()) = Inl e \<Longrightarrow> err_status e = 400"
  by (auto simp: check_status split: if_splits)

lemma parse_transaction_status:
  assumes "parse_transaction p = Inl e"
  shows "err_status e = 400"
  using assms unfolding parse_transaction_def
  by (elim bindE_status missing_status check_status mapE_status optional_status nested_object_status) simp

lemma parse_body_status: "parse_body loads raw = Inl e \<Longrightarrow> err_status e \<noteq> 200"
  by (auto simp: parse_body_def split: if_splits option.splits pyval.splits)

lemma require_idempotency_key_status: "require_idempotency_key hs = Inl e \<Longrightarrow> err_status e = 400"
  by (auto simp: require_idempotency_key_def Let_def split: if_splits)

lemma parse_request_status:
  assumes "parse_request pf rq = Inl e"
  shows "err_status e \<noteq> 200"
  using assms unfolding parse_request_def bindE_eq_Inl
  by (elim disjE exE conjE) (auto dest: parse_body_status require_idempotency_key_status parse_transaction_status)

text \<open>The two ways to an answer of 200.\<close>

lemma decisions_200:
  assumes "decisions pf mo h rq w = (Http 200 b, w')"
  obtains (replayed) key tx where "parse_request pf rq = Inr (key, tx)" "find_response (h_tenant h) key (wo_db w) = Some b" "w' = w"
  | (decided) pd w1 where "begin_decision pf mo h rq w = (Inr pd, w1)" "finish_decision pf pd w1 = (Http 200 b, w')"
      "parse_request pf rq = Inr (pd_key pd, pd_tx pd)" "pd_handler pd = h"
      "find_response (h_tenant h) (pd_key pd) (wo_db w) = None"
proof -
  obtain r w1 where b: "begin_decision pf mo h rq w = (r, w1)" by fastforce
  from b show thesis
  proof (cases rule: begin_decision_cases)
    case wrong_method
    with assms b show thesis by (simp add: decisions_def)
  next
    case (refused e)
    with assms b parse_request_status [OF refused(1)] show thesis by (simp add: decisions_def)
  next
    case (replayed key tx b')
    with assms b show thesis by (intro that(1) [of key tx]) (simp_all add: decisions_def)
  next
    case (raised key tx e rd)
    with assms b show thesis by (simp add: decisions_def)
  next
    case (decided key tx body rd)
    with assms b show thesis by (intro that(2) [of "projr r" w1]) (simp_all add: decisions_def)
  qed
qed

definition describes :: "handler \<Rightarrow> string \<Rightarrow> transaction \<Rightarrow> pyval dict \<Rightarrow> decision_row \<Rightarrow> bool" where
  "describes h key tx b row \<longleftrightarrow>
     dr_tenant row = h_tenant h \<and> dr_idempotency_key row = key \<and> dr_context row = as_context tx \<and>
     dr_ruleset_version row = rs_version (h_ruleset h) \<and> map_of b ''decision_id'' = Some (dr_id row) \<and>
     map_of b ''outcome'' = Some (dr_outcome row) \<and> map_of b ''matched_rules'' = Some (dr_matched_rules row) \<and>
     map_of b ''degraded'' = Some (dr_degraded row)"

lemma map_of_public_body: "\<not> internal_key k \<Longrightarrow> map_of (public_body b) k = map_of b k"
  by (induction b) (auto simp: public_body_def)

lemma finish_records:
  assumes "finish_decision pf pd w = (Http 200 b, w')"
  shows "\<exists>row. dd_decisions (wo_db w') = dd_decisions (wo_db w) @ [row] \<and> describes (pd_handler pd) (pd_key pd) (pd_tx pd) b row"
  using assms
proof (rule finish_decision_cases)
  fix db
  assume b: "Http 200 b = Http 200 (public_body (timed_result pd))" and w': "w' = w\<lparr>wo_db := db\<rparr>"
    and "record_decision pf (pd_handler pd) (timed_result pd) (pd_tx pd) (pd_key pd) (wo_db w) = Inr db"
  from this(3) obtain row rcd where
    "db = get_or_create rcd ((wo_db w)\<lparr>dd_decisions := dd_decisions (wo_db w) @ [row]\<rparr>)"
    "dr_tenant row = h_tenant (pd_handler pd)" "dr_idempotency_key row = pd_key pd" "dr_context row = as_context (pd_tx pd)"
    "dr_ruleset_version row = rs_version (h_ruleset (pd_handler pd))"
    "Some (dr_id row) = map_of (timed_result pd) ''decision_id''" "Some (dr_outcome row) = map_of (timed_result pd) ''outcome''"
    "Some (dr_matched_rules row) = map_of (timed_result pd) ''matched_rules''"
    "Some (dr_degraded row) = map_of (timed_result pd) ''degraded''"
    unfolding record_decision_def by (rule save_Inr)
  then have "dd_decisions db = dd_decisions (wo_db w) @ [row]" "describes (pd_handler pd) (pd_key pd) (pd_tx pd) b row"
    using b by (auto simp: get_or_create_def describes_def map_of_public_body internal_key_def)
  then show ?thesis using w' by auto
qed simp


section \<open>What a request can touch\<close>

text \<open>Everything a tenant has: its decision rows, its recorded responses and its customers' windows.\<close>

definition tenant_view ::
  "string \<Rightarrow> world \<Rightarrow> decision_row list \<times> (string \<Rightarrow> pyval dict option) \<times> (string \<Rightarrow> customer_store)" where
  "tenant_view t w =
     (filter (\<lambda>r. dr_tenant r = t) (dd_decisions (wo_db w)), \<lambda>k. find_response t k (wo_db w), \<lambda>c. wo_redis w (t, c))"

lemma handler_decide_redis:
  assumes "handler_decide pf mo h tx db rd = (res, rd')" and "t \<noteq> h_tenant h"
  shows "rd' (t, c) = rd (t, c)"
  using assms
  by (auto simp: handler_decide_def Let_def gather_velocity_def split: sum.splits prod.splits redis_event.splits if_splits)

lemma begin_decision_view:
  assumes "begin_decision pf mo h rq w = (r, w')" and "t \<noteq> h_tenant h"
  shows "tenant_view t w' = tenant_view t w"
  using assms(1)
  by (cases rule: begin_decision_cases) (auto simp: tenant_view_def dest: handler_decide_redis [OF _ assms(2)])

lemma get_or_create_decisions [simp]: "dd_decisions (get_or_create r db) = dd_decisions db"
  by (simp add: get_or_create_def)

lemma finish_decision_view:
  assumes "finish_decision pf pd w = (r, w')" and "t \<noteq> h_tenant (pd_handler pd)"
  shows "tenant_view t w' = tenant_view t w"
  using assms(1)
proof (cases rule: finish_decision_cases)
  case (recorded db)
  from recorded(3) obtain row rcd where
    "db = get_or_create rcd ((wo_db w)\<lparr>dd_decisions := dd_decisions (wo_db w) @ [row]\<rparr>)"
    "dr_tenant row = h_tenant (pd_handler pd)" "ir_tenant rcd = h_tenant (pd_handler pd)"
    unfolding record_decision_def by (rule save_Inr)
  with recorded(2) assms(2) show ?thesis by (simp add: tenant_view_def find_get_or_create)
qed simp

lemma decisions_view:
  assumes "decisions pf mo h rq w = (r, w')" and "t \<noteq> h_tenant h"
  shows "tenant_view t w' = tenant_view t w"
proof -
  obtain res w1 where b: "begin_decision pf mo h rq w = (res, w1)" by fastforce
  note v = begin_decision_view [OF b assms(2)]
  show ?thesis
  proof (cases res)
    case (Inl r')
    with assms(1) b v show ?thesis by (simp add: decisions_def)
  next
    case (Inr pd)
    with b have "pd_handler pd = h" by (cases rule: begin_decision_cases) auto
    with finish_decision_view [of pf pd w1 r w' t] Inr assms b v show ?thesis by (simp add: decisions_def)
  qed
qed


section \<open>Properties\<close>

text \<open>C17. A retry gets the first answer, verbatim and for ever: once a decision was recorded under an
  idempotency key, every later request of that tenant with that key, whatever its payload, rule set,
  clock and Redis are and whatever any other requests did in between, is answered with exactly the
  response recorded first, and changes nothing: no second record, no second count in Redis. The
  recorded response is the answer just given unless a concurrent request with the key was first.\<close>

theorem retry_gets_first_answer:
  assumes "finish_decision pf pd w = (Http 200 b, w1)" and "(serve pf)\<^sup>*\<^sup>* (w1, ps) (w2, ps2)"
    and "rq_method rq = ''POST''" and "parse_request pf rq = Inr (pd_key pd, tx)"
    and "h_tenant h = h_tenant (pd_handler pd)"
  shows "decisions pf mo h rq w2 =
    (Http 200 (case find_response (h_tenant h) (pd_key pd) (wo_db w) of None \<Rightarrow> b | Some r \<Rightarrow> r), w2)"
proof -
  from finish_saved [OF assms(1)] have "db_saved (h_tenant h, pd_key pd) b w w1" by (simp add: assms(5))
  from idem.saved_forever [OF this] serves_moves [OF assms(2)]
  have "find_response (h_tenant h) (pd_key pd) (wo_db w2) =
      Some (case find_response (h_tenant h) (pd_key pd) (wo_db w) of None \<Rightarrow> b | Some r \<Rightarrow> r)" by simp
  with assms(3,4) show ?thesis by (rule decisions_replay)
qed

theorem retry_gets_first_answer_witness:
  "\<exists>b w1. decisions demo_platform demo_moment demo_handler demo_request demo_world = (Http 200 b, w1)
   \<and> decisions demo_platform (demo_moment\<lparr>mo_now := 77, mo_decision_id := ''dec_2''\<rparr>) demo_handler demo_request w1 = (Http 200 b, w1)"
proof -
  from demo_begin obtain d vel rd where b: "begin_decision demo_platform demo_moment demo_handler demo_request demo_world =
     (Inr (demo_pending d vel), demo_world\<lparr>wo_redis := rd\<rparr>)" by blast
  from demo_finish [of d vel rd] obtain w1 where f: "finish_decision demo_platform (demo_pending d vel) (demo_world\<lparr>wo_redis := rd\<rparr>) =
     (Http 200 (public_body (timed_result (demo_pending d vel))), w1)" by blast
  have "find_response ''t'' ''k1'' (wo_db (demo_world\<lparr>wo_redis := rd\<rparr>)) = None"
    by (simp add: find_response_def demo_world_def demo_db_def)
  moreover have "rq_method demo_request = ''POST''" "h_tenant demo_handler = h_tenant (pd_handler (demo_pending d vel))"
    "h_tenant demo_handler = ''t''" "pd_key (demo_pending d vel) = ''k1''"
    by (simp_all add: demo_request_def demo_pending_def demo_handler_def)
  ultimately have "decisions demo_platform (demo_moment\<lparr>mo_now := 77, mo_decision_id := ''dec_2''\<rparr>) demo_handler demo_request w1
      = (Http 200 (public_body (timed_result (demo_pending d vel))), w1)"
    using retry_gets_first_answer [OF f rtranclp.rtrancl_refl, where rq = demo_request and h = demo_handler] demo_parse_request
    by simp
  moreover have "decisions demo_platform demo_moment demo_handler demo_request demo_world =
      (Http 200 (public_body (timed_result (demo_pending d vel))), w1)" using b f by (simp add: decisions_def)
  ultimately show ?thesis by blast
qed



text \<open>C20. A request stays in the tenant of its key: a request whose presented key is not that of a
  live, unrevoked key of tenant \<open>t\<close> leaves everything of \<open>t\<close> untouched, the decisions, the recorded
  responses, the velocity of every customer and the worker's cached rule set, whatever its headers
  and body say and however it ends.\<close>

theorem requests_stay_in_their_tenant:
  assumes "middleware py pf cr salt mo clock keys rq wk w = (r, wk', w')"
    and "\<not> (\<exists>row \<in> set keys. ak_tenant row = t \<and> is_active row \<and>
           ak_prefix row = take PREFIX_LENGTH (presented_key (case rq_headers rq ''Authorization'' of Some v \<Rightarrow> v | None \<Rightarrow> [])))"
  shows "tenant_view t w' = tenant_view t w \<and> wk_caches wk' t = wk_caches wk t"
proof -
  let ?hd = "case rq_headers rq ''Authorization'' of Some v \<Rightarrow> v | None \<Rightarrow> []"
  obtain res ver where au: "authenticate cr clock ?hd keys (wk_verified wk) = (res, ver)" by fastforce
  show ?thesis
  proof (cases res)
    case (Inl e)
    with assms(1) au show ?thesis by (cases e) (auto simp: middleware_defs)
  next
    case (Inr cred)
    with au have "fst (authenticate cr clock ?hd keys (wk_verified wk)) = Inr cred" by simp
    then obtain row role where "resolve (take PREFIX_LENGTH (presented_key ?hd)) keys = Some row"
      "ak_revoked_at row = None" "cred = credentials_of row role" by (rule authenticate_Inr)
    with assms(2) have t: "cd_tenant_id cred \<noteq> t"
      by (auto simp: credentials_of_def is_active_def dest: resolve_Some)
    obtain cres wk1 where c: "cache_for py (mo_now mo) (cd_tenant_id cred) (wo_db w) (wk\<lparr>wk_verified := ver\<rparr>) = (cres, wk1)"
      by fastforce
    then have wk1: "wk_caches wk1 t = wk_caches wk t" using t by (auto simp: cache_for_def Let_def split: prod.splits)
    show ?thesis
    proof (cases cres)
      case (Inl e)
      with assms(1) au Inr c wk1 show ?thesis by (simp add: middleware_defs)
    next
      case (Inr cache)
      show ?thesis
      proof (cases "rc_current cache")
        case None
        with assms(1) au \<open>res = Inr cred\<close> Inr c wk1 show ?thesis by (simp add: middleware_defs)
      next
        case (Some loaded)
        with assms(1) au \<open>res = Inr cred\<close> Inr c
        have "decisions pf mo \<lparr>h_tenant = cd_tenant_id cred, h_ruleset = lr_ruleset loaded, h_salt = salt\<rparr> rq w = (r, w')"
          and "wk' = wk1"
          by (auto simp: middleware_defs Let_def split: prod.splits)
        with decisions_view [OF this(1)] t wk1 show ?thesis by simp
      qed
    qed
  qed
qed

definition demo_worker :: worker where
  "demo_worker = \<lparr>wk_caches = Map.empty, wk_verified = Map.empty\<rparr>"

theorem requests_stay_in_their_tenant_witness:
  "\<exists>r wk' w'. middleware example_parser demo_platform demo_crypto ''s'' demo_moment 5 [demo_key]
       (demo_request\<lparr>rq_headers := [''Authorization'' \<mapsto> demo_header, ''Idempotency-Key'' \<mapsto> ''k1'']\<rparr>) demo_worker demo_world = (r, wk', w')
     \<and> tenant_view ''u'' w' = tenant_view ''u'' demo_world"
proof -
  obtain r wk' w' where m: "middleware example_parser demo_platform demo_crypto ''s'' demo_moment 5 [demo_key]
      (demo_request\<lparr>rq_headers := [''Authorization'' \<mapsto> demo_header, ''Idempotency-Key'' \<mapsto> ''k1'']\<rparr>) demo_worker demo_world = (r, wk', w')"
    by (metis prod_cases3)
  have "ak_tenant demo_key \<noteq> ''u''" by (simp add: demo_key_def)
  with requests_stay_in_their_tenant [OF m, of "''u''"] m show ?thesis by fastforce
qed

text \<open>A tenant without a published version is refused with 409, not allowed through.\<close>

lemma unpublished_tenant_is_refused:
  assumes "authenticate cr clock (case rq_headers rq ''Authorization'' of Some v \<Rightarrow> v | None \<Rightarrow> []) keys (wk_verified wk) = (Inr cred, ver)"
    and "wk_caches wk (cd_tenant_id cred) = None" and "dd_versions (wo_db w) (cd_tenant_id cred) = []"
  shows "fst (middleware py pf cr salt mo clock keys rq wk w) = Http 409 NO_RULESET"
  using assms by (simp add: middleware_defs cache_for_def load_published_def refresh_def is_warm_def Let_def)

end
