(* ===== verification/Throttle.thy ===== *)
theory Throttle
  imports Py_Values
begin

text \<open>
  Throttling sign-in attempts (\<open>src/complylayer/dashboard/throttle.py\<close>) over a model of the
  Redis commands it sends. Time is in milliseconds; a key is gone from its deadline on. \<open>TTL\<close>
  answers in seconds, rounded to the nearest, as Redis does. The shared hash is a parameter \<open>sha\<close>
  (the hexadecimal SHA-256 digest).

  A client is \<open>No_client\<close>, or \<open>Link a b\<close>: whether the first and the second command of the call get
  through. A command that does not get through raises, and the source fails open.
\<close>


section \<open>Redis\<close>

type_synonym redis_kv = "string \<rightharpoonup> int \<times> int option"

definition redis_get :: "int \<Rightarrow> string \<Rightarrow> redis_kv \<Rightarrow> (int \<times> int option) option" where
  "redis_get now key kv =
     (case kv key of
        Some (v, d) \<Rightarrow> (case d of Some t \<Rightarrow> if t \<le> now then None else Some (v, d) | None \<Rightarrow> Some (v, d))
      | None \<Rightarrow> None)"

definition redis_ttl :: "int \<Rightarrow> string \<Rightarrow> redis_kv \<Rightarrow> int" where
  "redis_ttl now key kv =
     (case redis_get now key kv of
        None \<Rightarrow> -2
      | Some (v, None) \<Rightarrow> -1
      | Some (v, Some t) \<Rightarrow> (t - now + 500) div 1000)"

definition redis_incr :: "int \<Rightarrow> string \<Rightarrow> redis_kv \<Rightarrow> int \<times> redis_kv" where
  "redis_incr now key kv =
     (case redis_get now key kv of
        None \<Rightarrow> (1, kv(key \<mapsto> (1, None)))
      | Some (v, d) \<Rightarrow> (v + 1, kv(key \<mapsto> (v + 1, d))))"

definition redis_expire :: "int \<Rightarrow> string \<Rightarrow> int \<Rightarrow> redis_kv \<Rightarrow> redis_kv" where
  "redis_expire now key seconds kv =
     (case redis_get now key kv of
        None \<Rightarrow> kv
      | Some (v, d) \<Rightarrow> kv(key \<mapsto> (v, Some (now + 1000 * seconds))))"

text \<open>\<open>SET key 1 NX EX seconds\<close>: whether the key was set.\<close>

definition redis_set_nx :: "int \<Rightarrow> string \<Rightarrow> int \<Rightarrow> redis_kv \<Rightarrow> bool \<times> redis_kv" where
  "redis_set_nx now key seconds kv =
     (if redis_get now key kv = None then (True, kv(key \<mapsto> (1, Some (now + 1000 * seconds)))) else (False, kv))"


section \<open>The throttle\<close>

definition FREE_ATTEMPTS :: int where "FREE_ATTEMPTS = 5"
definition BASE_LOCKOUT_SECONDS :: int where "BASE_LOCKOUT_SECONDS = 30"
definition MAX_LOCKOUT_SECONDS :: int where "MAX_LOCKOUT_SECONDS = 15 * 60"
definition ATTEMPT_WINDOW_SECONDS :: int where "ATTEMPT_WINDOW_SECONDS = 60 * 60"
definition CODE_REPLAY_SECONDS :: int where "CODE_REPLAY_SECONDS = 90"

lemmas throttle_consts =
  FREE_ATTEMPTS_def BASE_LOCKOUT_SECONDS_def MAX_LOCKOUT_SECONDS_def ATTEMPT_WINDOW_SECONDS_def CODE_REPLAY_SECONDS_def

datatype client = No_client | Link bool bool

definition throttle_key :: "(string \<Rightarrow> string) \<Rightarrow> string \<Rightarrow> string \<Rightarrow> string" where
  "throttle_key sha scope identity = ''cl:throttle:'' @ scope @ '':'' @ take 32 (sha identity)"

definition lockout_seconds :: "(string \<Rightarrow> string) \<Rightarrow> client \<Rightarrow> int \<Rightarrow> string \<Rightarrow> string \<Rightarrow> redis_kv \<Rightarrow> int" where
  "lockout_seconds sha c now scope identity kv =
     (case c of
        No_client \<Rightarrow> 0
      | Link up1 up2 \<Rightarrow>
          (let key = throttle_key sha scope identity;
               failures = (case redis_get now key kv of Some (v, _) \<Rightarrow> v | None \<Rightarrow> 0)
           in if \<not> up1 then 0
              else if failures \<le> FREE_ATTEMPTS then 0
              else if \<not> up2 then 0
              else max 0 (redis_ttl now key kv)))"

definition record_failure ::
  "(string \<Rightarrow> string) \<Rightarrow> client \<Rightarrow> int \<Rightarrow> string \<Rightarrow> string \<Rightarrow> redis_kv \<Rightarrow> int \<times> redis_kv" where
  "record_failure sha c now scope identity kv =
     (case c of
        No_client \<Rightarrow> (0, kv)
      | Link up1 up2 \<Rightarrow>
          if \<not> up1 then (0, kv)
          else
            (let key = throttle_key sha scope identity;
                 (failures, kv1) = redis_incr now key kv;
                 wait = (if failures \<le> FREE_ATTEMPTS then ATTEMPT_WINDOW_SECONDS
                         else min (BASE_LOCKOUT_SECONDS * 2 ^ nat (failures - FREE_ATTEMPTS - 1)) MAX_LOCKOUT_SECONDS)
             in if up2 then (failures, redis_expire now key wait kv1) else (0, kv1)))"

definition clear :: "(string \<Rightarrow> string) \<Rightarrow> client \<Rightarrow> string \<Rightarrow> string \<Rightarrow> redis_kv \<Rightarrow> redis_kv" where
  "clear sha c scope identity kv =
     (case c of
        No_client \<Rightarrow> kv
      | Link up1 up2 \<Rightarrow> if up1 then kv(throttle_key sha scope identity := None) else kv)"

definition code_key :: "(string \<Rightarrow> string) \<Rightarrow> string \<Rightarrow> string \<Rightarrow> string" where
  "code_key sha identity code = ''cl:otp:'' @ take 32 (sha (identity @ '':'' @ code))"

definition consume_code ::
  "(string \<Rightarrow> string) \<Rightarrow> client \<Rightarrow> int \<Rightarrow> string \<Rightarrow> string \<Rightarrow> redis_kv \<Rightarrow> bool \<times> redis_kv" where
  "consume_code sha c now identity code kv =
     (case c of
        No_client \<Rightarrow> (True, kv)
      | Link up1 up2 \<Rightarrow>
          if up1 then redis_set_nx now (code_key sha identity code) CODE_REPLAY_SECONDS kv else (True, kv))"

definition wait_message :: "int \<Rightarrow> string" where
  "wait_message seconds =
     (if seconds \<ge> 60 then
        (let minutes = (seconds + 59) div 60
         in ''Too many attempts. Try again in '' @ str_of_int minutes @ '' '' @
            (if minutes = 1 then ''minute'' else ''minutes'') @ ''.'')
      else ''Too many attempts. Try again in '' @ str_of_int (max seconds 1) @ '' seconds.'')"


section \<open>One wrong guess\<close>

text \<open>What the views do with a wrong password or code: refused while locked out, otherwise checked
  and counted. The result is whether it was checked.\<close>

definition wrong_guess :: "(string \<Rightarrow> string) \<Rightarrow> string \<Rightarrow> string \<Rightarrow> int \<Rightarrow> redis_kv \<Rightarrow> bool \<times> redis_kv" where
  "wrong_guess sha scope identity now kv =
     (if lockout_seconds sha (Link True True) now scope identity kv \<noteq> 0 then (False, kv)
      else (True, snd (record_failure sha (Link True True) now scope identity kv)))"

fun wrong_guesses :: "(string \<Rightarrow> string) \<Rightarrow> string \<Rightarrow> string \<Rightarrow> int list \<Rightarrow> redis_kv \<Rightarrow> bool list \<times> redis_kv" where
  "wrong_guesses sha scope identity [] kv = ([], kv)"
| "wrong_guesses sha scope identity (t # ts) kv =
     (let (b, kv1) = wrong_guess sha scope identity t kv; (bs, kv2) = wrong_guesses sha scope identity ts kv1
      in (b # bs, kv2))"

lemma wrong_guesses_append:
  "wrong_guesses sha sc i (ts @ us) kv =
     (let (bs, kv1) = wrong_guesses sha sc i ts kv; (cs, kv2) = wrong_guesses sha sc i us kv1 in (bs @ cs, kv2))"
  by (induction ts arbitrary: kv) (auto split: prod.splits)

text \<open>A counted failure, on the counter alone.\<close>

lemma record_failure_counter:
  assumes "key = throttle_key sha sc i" and "redis_get now key kv = (if n = 0 then None else Some (n, d))" and "0 \<le> n"
  shows "record_failure sha (Link True True) now sc i kv =
    (n + 1, kv(key \<mapsto> (n + 1, Some (now + 1000 *
       (if n < 5 then 3600 else min (30 * 2 ^ nat (n - 5)) 900)))))"
proof -
  have "redis_incr now key kv = (n + 1, kv(key \<mapsto> (n + 1, if n = 0 then None else d)))"
    using assms(2) by (simp add: redis_incr_def)
  moreover have "\<exists>d'. redis_get now key (kv(key \<mapsto> (n + 1, if n = 0 then None else d))) = Some (n + 1, d')"
    using assms(2) by (auto simp: redis_get_def split: option.splits if_splits)
  ultimately show ?thesis
    using assms(3) unfolding record_failure_def assms(1) [symmetric]
    by (auto simp: redis_expire_def throttle_consts Let_def split: option.splits prod.splits)
qed

definition locked :: "int \<Rightarrow> string \<Rightarrow> redis_kv \<Rightarrow> bool" where
  "locked now key kv \<longleftrightarrow> (case redis_get now key kv of Some (v, d) \<Rightarrow> 5 < v \<and> 0 < redis_ttl now key kv | None \<Rightarrow> False)"

lemma wrong_guess_locked:
  "wrong_guess sha sc i now kv =
     (if locked now (throttle_key sha sc i) kv then (False, kv)
      else (True, snd (record_failure sha (Link True True) now sc i kv)))"
  by (auto simp: wrong_guess_def lockout_seconds_def locked_def throttle_consts Let_def split: option.splits)

lemma replicate_6: "replicate 6 x = [x, x, x, x, x, x]"
  by (simp add: numeral_eq_Suc)

text \<open>The first six guesses at one moment, from a counter that is not there.\<close>

lemma six_guesses:
  assumes "redis_get t (throttle_key sha sc i) kv = None"
  shows "wrong_guesses sha sc i (replicate 6 t) kv =
    (replicate 6 True, kv(throttle_key sha sc i \<mapsto> (6, Some (t + 30000))))"
proof -
  define key where "key = throttle_key sha sc i"
  let ?kv = "\<lambda>n w. kv(key \<mapsto> (n, Some (t + 1000 * w)))"
  have g: "redis_get t key (?kv n w) = Some (n, Some (t + 1000 * w))" if "0 < w" for n w
    using that by (simp add: redis_get_def)
  have first: "wrong_guess sha sc i t kv = (True, ?kv 1 3600)"
    using assms record_failure_counter [OF key_def, of t kv 0 None]
    by (simp add: wrong_guess_locked locked_def flip: key_def)
  have more: "wrong_guess sha sc i t (?kv n 3600) = (True, ?kv (n + 1) (if n < 5 then 3600 else 30))"
    if "0 < n" "n \<le> 5" for n
    using that g [of 3600 n] record_failure_counter [OF key_def, of t "?kv n 3600" n "Some (t + 1000 * 3600)"]
    by (auto simp: wrong_guess_locked locked_def min_def simp flip: key_def)
  have steps: "wrong_guess sha sc i t (?kv 1 3600) = (True, ?kv 2 3600)" "wrong_guess sha sc i t (?kv 2 3600) = (True, ?kv 3 3600)"
    "wrong_guess sha sc i t (?kv 3 3600) = (True, ?kv 4 3600)" "wrong_guess sha sc i t (?kv 4 3600) = (True, ?kv 5 3600)"
    "wrong_guess sha sc i t (?kv 5 3600) = (True, ?kv 6 30)"
    using more [of 1] more [of 2] more [of 3] more [of 4] more [of 5] by simp_all
  then show ?thesis by (simp add: replicate_6 first Let_def flip: key_def)
qed

lemma locked_after_six:
  assumes "t \<le> now" and "now < t + 29500" and "kv key = Some (6, Some (t + 30000))"
  shows "locked now key kv"
proof -
  from assms have g: "redis_get now key kv = Some (6, Some (t + 30000))" by (simp add: redis_get_def)
  have "1 \<le> (t + 30000 - now + 500) div 1000" using assms(2) by (simp add: int_one_le_iff_zero_less pos_imp_zdiv_pos_iff)
  with g show ?thesis by (simp add: locked_def redis_ttl_def)
qed


section \<open>Properties\<close>

definition demo_sha :: "string \<Rightarrow> string" where "demo_sha s = s"

text \<open>Six wrong guesses lock an account out: of any number of guesses at one account, the first
  six at one moment and the others at any moments of the next 29.5 seconds, exactly the first six
  are checked.\<close>

theorem six_failures_lock_out:
  assumes "redis_get t (throttle_key sha scope identity) kv = None"
    and "\<forall>u \<in> set us. t \<le> u \<and> u < t + 29500"
  shows "fst (wrong_guesses sha scope identity (replicate 6 t @ us) kv) = replicate 6 True @ replicate (length us) False"
proof -
  let ?key = "throttle_key sha scope identity"
  have refused: "wrong_guesses sha scope identity vs kv' = (replicate (length vs) False, kv')"
    if "\<forall>u \<in> set vs. t \<le> u \<and> u < t + 29500" "kv' ?key = Some (6, Some (t + 30000))" for vs kv'
    using that(1)
  proof (induction vs)
    case (Cons v vs)
    then have "locked v ?key kv'" using locked_after_six [of t v kv' ?key] that(2) by simp
    with Cons show ?case by (simp add: wrong_guess_locked)
  qed simp
  show ?thesis
    unfolding wrong_guesses_append six_guesses [OF assms(1)] using refused [OF assms(2)] by simp
qed

theorem six_failures_lock_out_witness:
  "fst (wrong_guesses demo_sha ''sign-in'' ''a'' (replicate 6 0 @ [1000, 29000]) Map.empty) = replicate 6 True @ [False, False]"
  using six_failures_lock_out [of 0 demo_sha "''sign-in''" "''a''" Map.empty "[1000, 29000]"]
  by (simp add: redis_get_def numeral_2_eq_2 del: wrong_guesses.simps)

text \<open>The moments of a patient attacker: six guesses every thirty seconds.\<close>

definition patient_schedule :: "int \<Rightarrow> nat \<Rightarrow> int list" where
  "patient_schedule t n = concat (map (\<lambda>r. replicate 6 (t + 30000 * int r)) [0..<n])"



end
