(* ===== verification/Dashboard_Auth.thy ===== *)
theory Dashboard_Auth
  imports Throttle Roles
begin

text \<open>
  Signing in to the dashboard (\<open>src/complylayer/dashboard/auth.py\<close> and the sign-in views of
  \<open>src/complylayer/dashboard/views.py\<close>): password, second factor, enrolment, and the gate every
  other view stands behind.

  Django's password check, the TOTP check (\<open>pyotp\<close>, one step either way) and the hash are parameters.
  A session is what the cookie's server side holds; \<open>login\<close> replaces the user and resets the factor
  flag. \<open>perform\<close> is one request; the random secret, the clock and the state of the Redis link come
  with it.
\<close>


section \<open>State\<close>

record dashboard_user =
  du_id :: string
  du_user :: string
  du_tenant :: string
  du_role :: role
  du_totp_secret :: string
  du_totp_confirmed_at :: "int option"

definition has_second_factor :: "dashboard_user \<Rightarrow> bool" where
  "has_second_factor p \<longleftrightarrow> du_totp_secret p \<noteq> [] \<and> du_totp_confirmed_at p \<noteq> None"

record session =
  se_user :: "string option"
  se_factor :: "bool option"
  se_generation :: nat

record dashboard =
  da_users :: "dashboard_user list"
  da_sessions :: "nat \<Rightarrow> session"
  da_kv :: redis_kv

record services =
  sv_password :: "string \<Rightarrow> string \<Rightarrow> string option"
  sv_totp :: "string \<Rightarrow> int \<Rightarrow> string \<Rightarrow> bool"
  sv_sha :: "string \<Rightarrow> string"

record request_env =
  re_now :: int
  re_client :: client
  re_secret :: string


section \<open>Steps of signing in\<close>

definition profile_of :: "dashboard \<Rightarrow> string \<Rightarrow> dashboard_user option" where
  "profile_of st uid = List.find (\<lambda>p. du_user p = uid) (da_users st)"

definition current_profile :: "dashboard \<Rightarrow> nat \<Rightarrow> dashboard_user option" where
  "current_profile st sid = Option.bind (se_user (da_sessions st sid)) (profile_of st)"

definition set_session :: "nat \<Rightarrow> session \<Rightarrow> dashboard \<Rightarrow> dashboard" where
  "set_session sid s st = st\<lparr>da_sessions := (da_sessions st)(sid := s)\<rparr>"

definition save_profile :: "dashboard_user \<Rightarrow> dashboard \<Rightarrow> dashboard" where
  "save_profile p st = st\<lparr>da_users := map (\<lambda>x. if du_id x = du_id p then p else x) (da_users st)\<rparr>"

definition start_session :: "services \<Rightarrow> nat \<Rightarrow> string \<Rightarrow> string \<Rightarrow> dashboard \<Rightarrow> dashboard option" where
  "start_session sv sid email password st =
     (case sv_password sv email password of
        None \<Rightarrow> None
      | Some uid \<Rightarrow>
          (case profile_of st uid of
             None \<Rightarrow> None
           | Some p \<Rightarrow>
               Some (set_session sid
                 \<lparr>se_user = Some uid, se_factor = Some False, se_generation = Suc (se_generation (da_sessions st sid))\<rparr> st)))"

definition verify_second_factor ::
  "services \<Rightarrow> int \<Rightarrow> nat \<Rightarrow> dashboard_user \<Rightarrow> string \<Rightarrow> dashboard \<Rightarrow> bool \<times> dashboard" where
  "verify_second_factor sv now sid p code st =
     (if du_totp_secret p = [] then (False, st)
      else if \<not> sv_totp sv (du_totp_secret p) now code then (False, st)
      else
        (True, set_session sid
           ((da_sessions st sid)\<lparr>se_factor := Some True, se_generation := Suc (se_generation (da_sessions st sid))\<rparr>) st))"

definition begin_enrolment :: "string \<Rightarrow> dashboard_user \<Rightarrow> dashboard \<Rightarrow> (string \<times> dashboard) option" where
  "begin_enrolment random p st =
     (if has_second_factor p then None
      else
        (let secret = (if du_totp_secret p \<noteq> [] then du_totp_secret p else random)
         in Some (secret,
              if du_totp_secret p \<noteq> secret \<or> du_totp_confirmed_at p \<noteq> None
              then save_profile (p\<lparr>du_totp_secret := secret, du_totp_confirmed_at := None\<rparr>) st
              else st)))"

definition confirm_enrolment :: "services \<Rightarrow> int \<Rightarrow> dashboard_user \<Rightarrow> string \<Rightarrow> dashboard \<Rightarrow> bool \<times> dashboard" where
  "confirm_enrolment sv now p code st =
     (if du_totp_secret p = [] \<or> \<not> sv_totp sv (du_totp_secret p) now code then (False, st)
      else (True, save_profile (p\<lparr>du_totp_confirmed_at := Some now\<rparr>) st))"

definition sign_out :: "nat \<Rightarrow> dashboard \<Rightarrow> dashboard" where
  "sign_out sid st =
     set_session sid \<lparr>se_user = None, se_factor = None, se_generation = Suc (se_generation (da_sessions st sid))\<rparr> st"

text \<open>\<open>signed_in\<close>: where to redirect, or the profile the view runs for.\<close>

definition signed_in :: "dashboard \<Rightarrow> nat \<Rightarrow> string + dashboard_user" where
  "signed_in st sid =
     (case current_profile st sid of
        None \<Rightarrow> Inl ''dashboard:sign-in''
      | Some p \<Rightarrow>
          if \<not> has_second_factor p then Inl ''dashboard:enrol''
          else if se_factor (da_sessions st sid) \<noteq> Some True then Inl ''dashboard:verify''
          else Inr p)"


section \<open>The views\<close>

datatype page = Redirect string | Page nat string | Server_failure

definition sign_in :: "services \<Rightarrow> request_env \<Rightarrow> nat \<Rightarrow> string \<Rightarrow> string \<Rightarrow> dashboard \<Rightarrow> page \<times> dashboard" where
  "sign_in sv re sid email password st =
     (let waiting = lockout_seconds (sv_sha sv) (re_client re) (re_now re) ''sign-in'' email (da_kv st)
      in if waiting \<noteq> 0 then (Page 429 (wait_message waiting), st)
         else
           (case start_session sv sid email password st of
              None \<Rightarrow>
                (Page 401 ''That email address and password do not match.'',
                 st\<lparr>da_kv := snd (record_failure (sv_sha sv) (re_client re) (re_now re) ''sign-in'' email (da_kv st))\<rparr>)
            | Some st' \<Rightarrow>
                (Redirect ''dashboard:verify'',
                 st'\<lparr>da_kv := clear (sv_sha sv) (re_client re) ''sign-in'' email (da_kv st')\<rparr>)))"

definition verify_view :: "services \<Rightarrow> request_env \<Rightarrow> nat \<Rightarrow> string option \<Rightarrow> dashboard \<Rightarrow> page \<times> dashboard" where
  "verify_view sv re sid posted st =
     (case current_profile st sid of
        None \<Rightarrow> (Redirect ''dashboard:sign-in'', st)
      | Some p \<Rightarrow>
          if \<not> has_second_factor p then (Redirect ''dashboard:enrol'', st)
          else
            (case posted of
               None \<Rightarrow> (Page 200 [], st)
             | Some code \<Rightarrow>
                 (let waiting = lockout_seconds (sv_sha sv) (re_client re) (re_now re) ''second-factor'' (du_id p) (da_kv st)
                  in if waiting \<noteq> 0 then (Page 429 (wait_message waiting), st)
                     else
                       (let (unused, kv) = consume_code (sv_sha sv) (re_client re) (re_now re) (du_id p) code (da_kv st);
                            st1 = st\<lparr>da_kv := kv\<rparr>;
                            (passed, st2) = (if unused then verify_second_factor sv (re_now re) sid p code st1 else (False, st1))
                        in if passed
                           then (Redirect ''dashboard:rules'',
                                 st2\<lparr>da_kv := clear (sv_sha sv) (re_client re) ''second-factor'' (du_id p) (da_kv st2)\<rparr>)
                           else (Page 401 ''That code is not right. Codes change every 30 seconds.'',
                                 st1\<lparr>da_kv := snd (record_failure (sv_sha sv) (re_client re) (re_now re) ''second-factor''
                                   (du_id p) (da_kv st1))\<rparr>)))))"

definition enrolment_page :: "request_env \<Rightarrow> nat \<Rightarrow> string \<Rightarrow> dashboard_user \<Rightarrow> dashboard \<Rightarrow> page \<times> dashboard" where
  "enrolment_page re status err p st =
     (case begin_enrolment (re_secret re) p st of
        None \<Rightarrow> (Server_failure, st)
      | Some (secret, st') \<Rightarrow> (Page status err, st'))"

definition enrol_view :: "services \<Rightarrow> request_env \<Rightarrow> nat \<Rightarrow> string option \<Rightarrow> dashboard \<Rightarrow> page \<times> dashboard" where
  "enrol_view sv re sid posted st =
     (case current_profile st sid of
        None \<Rightarrow> (Redirect ''dashboard:sign-in'', st)
      | Some p \<Rightarrow>
          if has_second_factor p then (Redirect ''dashboard:verify'', st)
          else
            (case posted of
               None \<Rightarrow> enrolment_page re 200 [] p st
             | Some code \<Rightarrow>
                 (case confirm_enrolment sv (re_now re) p code st of
                    (True, st') \<Rightarrow>
                      (Redirect ''dashboard:rules'',
                       set_session sid ((da_sessions st' sid)\<lparr>se_factor := Some True\<rparr>) st')
                  | (False, st') \<Rightarrow> enrolment_page re 400 ''That code did not match.'' p st')))"

datatype dash_event =
    Sign_in nat string string
  | Verify nat "string option"
  | Enrol nat "string option"
  | Sign_out nat

fun perform :: "services \<Rightarrow> request_env \<Rightarrow> dash_event \<Rightarrow> dashboard \<Rightarrow> page \<times> dashboard" where
  "perform sv re (Sign_in sid email password) st = sign_in sv re sid email password st"
| "perform sv re (Verify sid posted) st = verify_view sv re sid posted st"
| "perform sv re (Enrol sid posted) st = enrol_view sv re sid posted st"
| "perform sv re (Sign_out sid) st = (Redirect ''dashboard:sign-in'', sign_out sid st)"

inductive dash_step :: "services \<Rightarrow> dashboard \<Rightarrow> dashboard \<Rightarrow> bool" for sv where
  performed: "dash_step sv st (snd (perform sv re ev st))"

inductive_cases dash_stepE: "dash_step sv st st'"


section \<open>Invariant\<close>

definition dash_inv :: "dashboard \<Rightarrow> bool" where
  "dash_inv st \<longleftrightarrow>
     distinct (map du_id (da_users st)) \<and> distinct (map du_user (da_users st)) \<and>
     (\<forall>sid. se_factor (da_sessions st sid) = Some True \<longrightarrow>
        (\<exists>p. current_profile st sid = Some p \<and> has_second_factor p))"

text \<open>No operation changes who there is, or a confirmed second factor.\<close>

definition keeps_factors :: "dashboard \<Rightarrow> dashboard \<Rightarrow> bool" where
  "keeps_factors st st' \<longleftrightarrow>
     list_all2 (\<lambda>p p'. du_id p' = du_id p \<and> du_user p' = du_user p \<and> (has_second_factor p \<longrightarrow> p' = p))
       (da_users st) (da_users st')"

lemma keeps_factors_refl [simp]: "da_users st' = da_users st \<Longrightarrow> keeps_factors st st'"
  by (simp add: keeps_factors_def list_all2_same)

lemma profile_of_user: "profile_of st uid = Some p \<Longrightarrow> p \<in> set (da_users st) \<and> du_user p = uid"
  by (auto simp: profile_of_def find_Some_iff)

lemma keeps_factors_save:
  assumes "p \<in> set (da_users st)" and "distinct (map du_id (da_users st))" and "\<not> has_second_factor p"
    and "du_id p' = du_id p" and "du_user p' = du_user p"
  shows "keeps_factors st (save_profile p' st)"
proof -
  have "x = p" if "x \<in> set (da_users st)" "du_id x = du_id p" for x
    using that assms(1,2) by (auto simp: distinct_map inj_on_def)
  then show ?thesis
    using assms(3-5) by (auto simp: keeps_factors_def save_profile_def list_all2_map2 list_all2_same)
qed

lemma keeps_factors_maps:
  "keeps_factors st st' \<Longrightarrow> map du_id (da_users st') = map du_id (da_users st) \<and> map du_user (da_users st') = map du_user (da_users st)"
  unfolding keeps_factors_def by (induction rule: list_all2_induct) auto

lemma keeps_factors_profile:
  assumes "keeps_factors st st'" and "profile_of st uid = Some p" and "has_second_factor p"
  shows "profile_of st' uid = Some p"
proof -
  have "List.find (\<lambda>p. du_user p = uid) xs = Some p \<Longrightarrow> List.find (\<lambda>p. du_user p = uid) ys = Some p"
    if "list_all2 (\<lambda>p p'. du_id p' = du_id p \<and> du_user p' = du_user p \<and> (has_second_factor p \<longrightarrow> p' = p)) xs ys" for xs ys
    using that assms(3) by (induction rule: list_all2_induct) (auto split: if_splits)
  then show ?thesis using assms(1,2) by (simp add: keeps_factors_def profile_of_def)
qed

lemma current_profile_Some:
  "current_profile st sid = Some p \<Longrightarrow> p \<in> set (da_users st) \<and> se_user (da_sessions st sid) = Some (du_user p)"
  by (auto simp: current_profile_def bind_eq_Some_conv dest: profile_of_user)

lemma signed_in_Inr:
  "signed_in st sid = Inr p \<longleftrightarrow>
     current_profile st sid = Some p \<and> has_second_factor p \<and> se_factor (da_sessions st sid) = Some True"
  by (auto simp: signed_in_def split: option.splits)

lemma set_session_simps [simp]:
  "da_users (set_session sid s st) = da_users st"
  "da_sessions (set_session sid s st) = (da_sessions st)(sid := s)"
  "da_kv (set_session sid s st) = da_kv st"
  by (simp_all add: set_session_def)

lemma save_profile_simps [simp]: "da_sessions (save_profile p st) = da_sessions st" "da_kv (save_profile p st) = da_kv st"
  by (simp_all add: save_profile_def)

text \<open>What each view can do to the state.\<close>

lemma sign_in_effect:
  assumes "snd (sign_in sv re sid email password st) = st'"
  shows "da_users st' = da_users st \<and> (da_sessions st' = da_sessions st \<or>
    (\<exists>uid g. sv_password sv email password = Some uid \<and>
       da_sessions st' = (da_sessions st)(sid := \<lparr>se_user = Some uid, se_factor = Some False, se_generation = g\<rparr>)))"
  using assms by (auto simp: sign_in_def start_session_def Let_def split: option.splits if_splits)

lemma verify_view_effect:
  assumes "snd (verify_view sv re sid posted st) = st'"
  shows "da_users st' = da_users st \<and> (da_sessions st' = da_sessions st \<or>
    (\<exists>p code g. posted = Some code \<and> current_profile st sid = Some p \<and> has_second_factor p \<and>
       sv_totp sv (du_totp_secret p) (re_now re) code \<and>
       da_sessions st' = (da_sessions st)(sid := (da_sessions st sid)\<lparr>se_factor := Some True, se_generation := g\<rparr>)))"
  using assms
  by (auto simp: verify_view_def verify_second_factor_def Let_def split: option.splits if_splits prod.splits)

lemma enrolment_page_effect:
  assumes "snd (enrolment_page re n err p st) = st'"
  shows "st' = st \<or> (\<exists>secret. st' = save_profile (p\<lparr>du_totp_secret := secret, du_totp_confirmed_at := None\<rparr>) st)"
proof (cases "begin_enrolment (re_secret re) p st")
  case None
  with assms show ?thesis by (simp add: enrolment_page_def)
next
  case (Some r)
  obtain secret st1 where r: "r = (secret, st1)" by (cases r)
  with Some assms have "st' = st1" by (simp add: enrolment_page_def)
  moreover have "st1 = st \<or> st1 = save_profile (p\<lparr>du_totp_secret := secret, du_totp_confirmed_at := None\<rparr>) st"
    using Some r unfolding begin_enrolment_def Let_def by (auto simp: has_second_factor_def split: if_splits)
  ultimately show ?thesis by blast
qed

lemma enrol_view_effect:
  assumes "snd (enrol_view sv re sid posted st) = st'"
  shows "st' = st \<or> (\<exists>p. current_profile st sid = Some p \<and> \<not> has_second_factor p \<and>
     ((\<exists>secret. st' = save_profile (p\<lparr>du_totp_secret := secret, du_totp_confirmed_at := None\<rparr>) st) \<or>
      (\<exists>code. posted = Some code \<and> du_totp_secret p \<noteq> [] \<and> sv_totp sv (du_totp_secret p) (re_now re) code \<and>
         st' = set_session sid ((da_sessions st sid)\<lparr>se_factor := Some True\<rparr>)
                 (save_profile (p\<lparr>du_totp_confirmed_at := Some (re_now re)\<rparr>) st))))"
proof -
  show ?thesis
  proof (cases "current_profile st sid")
    case None
    with assms show ?thesis by (simp add: enrol_view_def)
  next
    case (Some p)
    show ?thesis
    proof (cases "has_second_factor p")
      case True
      with Some assms show ?thesis by (simp add: enrol_view_def)
    next
      case factor: False
      show ?thesis
      proof (cases posted)
        case None
        with Some factor assms have "snd (enrolment_page re 200 [] p st) = st'" by (simp add: enrol_view_def)
        from enrolment_page_effect [OF this] Some factor show ?thesis by blast
      next
        case posted: (Some code)
        show ?thesis
        proof (cases "du_totp_secret p = [] \<or> \<not> sv_totp sv (du_totp_secret p) (re_now re) code")
          case True
          with Some factor posted assms have "snd (enrolment_page re 400 ''That code did not match.'' p st) = st'"
            by (simp add: enrol_view_def confirm_enrolment_def)
          from enrolment_page_effect [OF this] Some factor show ?thesis by blast
        next
          case False
          with Some factor posted assms show ?thesis by (auto simp: enrol_view_def confirm_enrolment_def)
        qed
      qed
    qed
  qed
qed

lemma sign_out_effect:
  "da_users (sign_out sid st) = da_users st"
  "da_sessions (sign_out sid st) = (da_sessions st)(sid :=
     \<lparr>se_user = None, se_factor = None, se_generation = Suc (se_generation (da_sessions st sid))\<rparr>)"
  by (simp_all add: sign_out_def)

lemma perform_keeps_factors:
  assumes "dash_inv st"
  shows "keeps_factors st (snd (perform sv re ev st))"
proof (cases ev)
  case (Sign_in sid email password)
  then show ?thesis using sign_in_effect [of sv re sid email password st] by simp
next
  case (Verify sid posted)
  then show ?thesis using verify_view_effect [of sv re sid posted st] by simp
next
  case (Enrol sid posted)
  have save: "keeps_factors st (save_profile p' st)"
    if "current_profile st sid = Some p" "\<not> has_second_factor p" "du_id p' = du_id p" "du_user p' = du_user p" for p p'
    using that assms current_profile_Some [OF that(1)] by (intro keeps_factors_save [of p]) (simp_all add: dash_inv_def)
  have "keeps_factors st (set_session sid s st') = keeps_factors st st'" for s st' by (simp add: keeps_factors_def)
  with enrol_view_effect [of sv re sid posted st, OF refl] save show ?thesis
    by (auto simp: Enrol simp del: perform.simps(3)) (auto simp: Enrol)
next
  case (Sign_out sid)
  then show ?thesis by (simp add: sign_out_effect)
qed


lemma profile_of_save:
  assumes "profile_of st u = Some p" and "distinct (map du_id (da_users st))"
    and "du_id p' = du_id p" and "du_user p' = du_user p"
  shows "profile_of (save_profile p' st) u = Some p'"
proof -
  have "List.find (\<lambda>q. du_user q = u) (map (\<lambda>x. if du_id x = du_id p' then p' else x) xs) = Some p'"
    if "List.find (\<lambda>q. du_user q = u) xs = Some p" and "distinct (map du_id xs)" for xs
    using that
  proof (induction xs)
    case (Cons x xs)
    show ?case
    proof (cases "du_user x = u")
      case True
      with Cons.prems assms(3,4) show ?thesis by simp
    next
      case False
      with Cons.prems have found: "List.find (\<lambda>q. du_user q = u) xs = Some p" by simp
      then have "p \<in> set xs" by (auto simp: find_Some_iff)
      with Cons.prems(2) assms(3) have "du_id x \<noteq> du_id p'" by (metis distinct.simps(2) image_eqI list.set_map list.simps(9))
      with Cons.IH [OF found] Cons.prems(2) False show ?thesis by simp
    qed
  qed simp
  from this [OF assms(1) [unfolded profile_of_def] assms(2)] show ?thesis
    by (simp add: profile_of_def save_profile_def)
qed

text \<open>The one way a session's factor flag comes to be set.\<close>

definition opens :: "services \<Rightarrow> request_env \<Rightarrow> dash_event \<Rightarrow> nat \<Rightarrow> dashboard_user \<Rightarrow> string \<Rightarrow> bool" where
  "opens sv re ev sid p code \<longleftrightarrow>
     du_totp_secret p \<noteq> [] \<and> sv_totp sv (du_totp_secret p) (re_now re) code \<and>
     ev = (if has_second_factor p then Verify sid (Some code) else Enrol sid (Some code))"

lemma perform_session:
  assumes "dash_inv st" and "st' = snd (perform sv re ev st)"
  shows "da_sessions st' sid = da_sessions st sid \<or> se_factor (da_sessions st' sid) \<noteq> Some True \<or>
    (\<exists>p p' code. current_profile st sid = Some p \<and> opens sv re ev sid p code \<and>
       se_user (da_sessions st' sid) = se_user (da_sessions st sid) \<and>
       profile_of st' (du_user p) = Some p' \<and> has_second_factor p' \<and>
       du_user p' = du_user p \<and> du_totp_secret p' = du_totp_secret p)"
proof (cases ev)
  case (Sign_in s email password)
  with assms(2) have "snd (sign_in sv re s email password st) = st'" by simp
  from sign_in_effect [OF this] show ?thesis by auto
next
  case (Verify s posted)
  with assms(2) have "snd (verify_view sv re s posted st) = st'" by simp
  from verify_view_effect [OF this]
  consider "da_sessions st' = da_sessions st"
    | p code g where "posted = Some code" "current_profile st s = Some p" "has_second_factor p"
      "sv_totp sv (du_totp_secret p) (re_now re) code" "da_users st' = da_users st"
      "da_sessions st' = (da_sessions st)(s := (da_sessions st s)\<lparr>se_factor := Some True, se_generation := g\<rparr>)"
    by blast
  then show ?thesis
  proof cases
    case 2
    have "profile_of st (du_user p) = Some p"
      using 2(2) by (auto simp: current_profile_def bind_eq_Some_conv dest: profile_of_user)
    then have "profile_of st' (du_user p) = Some p" using 2(5) by (simp add: profile_of_def)
    moreover have "du_totp_secret p \<noteq> []" using 2(3) by (simp add: has_second_factor_def)
    ultimately show ?thesis using 2 Verify by (cases "sid = s") (auto simp: opens_def)
  qed simp
next
  case (Enrol s posted)
  with assms(2) have "snd (enrol_view sv re s posted st) = st'" by simp
  from enrol_view_effect [OF this]
  consider "da_sessions st' = da_sessions st"
    | p code where "posted = Some code" "current_profile st s = Some p" "\<not> has_second_factor p"
      "du_totp_secret p \<noteq> []" "sv_totp sv (du_totp_secret p) (re_now re) code"
      "st' = set_session s ((da_sessions st s)\<lparr>se_factor := Some True\<rparr>)
               (save_profile (p\<lparr>du_totp_confirmed_at := Some (re_now re)\<rparr>) st)"
    by auto
  then show ?thesis
  proof cases
    case 2
    let ?p = "p\<lparr>du_totp_confirmed_at := Some (re_now re)\<rparr>"
    have "profile_of st (du_user p) = Some p"
      using 2(2) by (auto simp: current_profile_def bind_eq_Some_conv dest: profile_of_user)
    then have "profile_of (save_profile ?p st) (du_user p) = Some ?p"
      by (rule profile_of_save) (use assms(1) in \<open>simp_all add: dash_inv_def\<close>)
    then have "profile_of st' (du_user p) = Some ?p" using 2(6) by (simp add: profile_of_def)
    moreover have "has_second_factor ?p" using 2(4) by (simp add: has_second_factor_def)
    ultimately show ?thesis using 2 Enrol by (cases "sid = s") (auto simp: opens_def)
  qed simp
next
  case (Sign_out s)
  with assms(2) show ?thesis by (simp add: sign_out_effect)
qed

lemma perform_inv:
  assumes "dash_inv st"
  shows "dash_inv (snd (perform sv re ev st))"
proof -
  define st' where "st' = snd (perform sv re ev st)"
  have keep: "keeps_factors st st'" unfolding st'_def by (rule perform_keeps_factors [OF assms])
  have "\<exists>p. current_profile st' sid = Some p \<and> has_second_factor p" if on: "se_factor (da_sessions st' sid) = Some True" for sid
    using perform_session [OF assms st'_def, of sid]
  proof (elim disjE exE conjE)
    assume same: "da_sessions st' sid = da_sessions st sid"
    with on assms obtain p where "current_profile st sid = Some p" "has_second_factor p"
      by (auto simp: dash_inv_def)
    with same keep show ?thesis
      by (auto simp: current_profile_def bind_eq_Some_conv dest: keeps_factors_profile)
  next
    fix p p' code
    assume "current_profile st sid = Some p" "se_user (da_sessions st' sid) = se_user (da_sessions st sid)"
      "profile_of st' (du_user p) = Some p'" "has_second_factor p'"
    then show ?thesis
      by (auto simp: current_profile_def bind_eq_Some_conv dest: profile_of_user)
  qed (use on in simp)
  then show ?thesis
    using assms keeps_factors_maps [OF keep] unfolding dash_inv_def st'_def [symmetric] by simp
qed

definition no_session :: session where
  "no_session = \<lparr>se_user = None, se_factor = None, se_generation = 0\<rparr>"

definition fresh_dashboard :: "dashboard_user list \<Rightarrow> redis_kv \<Rightarrow> dashboard" where
  "fresh_dashboard users kv = \<lparr>da_users = users, da_sessions = (\<lambda>_. no_session), da_kv = kv\<rparr>"

lemma fresh_dashboard_inv:
  "distinct (map du_id us) \<Longrightarrow> distinct (map du_user us) \<Longrightarrow> dash_inv (fresh_dashboard us kv)"
  by (simp add: dash_inv_def fresh_dashboard_def no_session_def)

interpretation signing_in: step_invariant "dash_step sv" dash_inv
  by unfold_locales (auto elim!: dash_stepE intro: perform_inv)

text \<open>C24. The gate in front of every dashboard page opens only by a one-time code. In any run
  from no sessions, if a session is turned away before a request and let in as \<open>p\<close> after it, then the
  password step had already put \<open>p\<close>'s user in that session, and the request carried a code that the
  authenticator secret of \<open>p\<close> accepts: through \<open>verify\<close> when the account had a confirmed factor, and
  through \<open>enrol\<close> only when it had none.\<close>

theorem gate_opens_only_by_code:
  assumes "(dash_step sv)\<^sup>*\<^sup>* (fresh_dashboard us kv) st"
    and "distinct (map du_id us)" and "distinct (map du_user us)"
    and "signed_in st sid = Inl where_to" and "signed_in (snd (perform sv re ev st)) sid = Inr p"
  shows "se_user (da_sessions st sid) = Some (du_user p) \<and>
    (\<exists>before code. profile_of st (du_user p) = Some before \<and> sv_totp sv (du_totp_secret p) (re_now re) code \<and>
       (if has_second_factor before then before = p \<and> ev = Verify sid (Some code) else ev = Enrol sid (Some code)))"
proof -
  define st' where "st' = snd (perform sv re ev st)"
  have inv: "dash_inv st" using signing_in.run_keeps [OF assms(1)] fresh_dashboard_inv assms(2,3) by blast
  have keep: "keeps_factors st st'" unfolding st'_def by (rule perform_keeps_factors [OF inv])
  have after: "current_profile st' sid = Some p" "has_second_factor p" "se_factor (da_sessions st' sid) = Some True"
    using assms(5) by (simp_all add: st'_def signed_in_Inr)
  have "da_sessions st' sid \<noteq> da_sessions st sid"
  proof
    assume same: "da_sessions st' sid = da_sessions st sid"
    with after(3) inv obtain q where q: "current_profile st sid = Some q" "has_second_factor q"
      by (auto simp: dash_inv_def)
    with same after(3) have "signed_in st sid = Inr q" by (simp add: signed_in_Inr)
    with assms(4) show False by simp
  qed
  with perform_session [OF inv st'_def, of sid] after(3)
  obtain q q' code where q: "current_profile st sid = Some q" "opens sv re ev sid q code"
    "se_user (da_sessions st' sid) = se_user (da_sessions st sid)"
    "profile_of st' (du_user q) = Some q'" "du_user q' = du_user q" "du_totp_secret q' = du_totp_secret q"
    by blast
  have user: "se_user (da_sessions st sid) = Some (du_user q)" and found: "profile_of st (du_user q) = Some q"
    using q(1) by (auto simp: current_profile_def bind_eq_Some_conv dest: profile_of_user)
  have "q' = p" using after(1) user q(3,4) by (simp add: current_profile_def)
  moreover have "q' = q" if "has_second_factor q"
    using keeps_factors_profile [OF keep found that] q(4) by simp
  ultimately show ?thesis
    using q(2,5,6) user found by (auto simp: opens_def intro!: exI [of _ q] split: if_splits)
qed


definition demo_person :: dashboard_user where
  "demo_person = \<lparr>du_id = ''p1'', du_user = ''ama'', du_tenant = ''t1'', du_role = COMPLIANCE_OFFICER,
     du_totp_secret = ''JBSW'', du_totp_confirmed_at = Some 1\<rparr>"

definition demo_services :: services where
  "demo_services =
     \<lparr>sv_password = (\<lambda>email password. if password = ''pw'' then Some email else None),
      sv_totp = (\<lambda>secret now code. secret = ''JBSW'' \<and> code = ''492039''),
      sv_sha = id\<rparr>"

definition demo_env :: request_env where
  "demo_env = \<lparr>re_now = 1000, re_client = Link True True, re_secret = ''NBSW''\<rparr>"

definition demo_half_in :: dashboard where
  "demo_half_in = snd (perform demo_services demo_env (Sign_in 7 ''ama'' ''pw'') (fresh_dashboard [demo_person] Map.empty))"

lemma demo_half_in_eq:
  "demo_half_in = fresh_dashboard [demo_person] Map.empty
     \<lparr>da_sessions := (\<lambda>_. no_session)(7 := \<lparr>se_user = Some ''ama'', se_factor = Some False, se_generation = 1\<rparr>)\<rparr>"
  by (simp add: demo_half_in_def sign_in_def start_session_def lockout_seconds_def redis_get_def clear_def
      profile_of_def fresh_dashboard_def demo_services_def demo_env_def demo_person_def set_session_def
      no_session_def throttle_consts)

lemma demo_half_in_reachable: "(dash_step demo_services)\<^sup>*\<^sup>* (fresh_dashboard [demo_person] Map.empty) demo_half_in"
  unfolding demo_half_in_def by (rule r_into_rtranclp) (rule dash_step.performed)

theorem gate_opens_only_by_code_witness:
  "signed_in demo_half_in 7 = Inl ''dashboard:verify'' \<and>
   signed_in (snd (perform demo_services demo_env (Verify 7 (Some ''492039'')) demo_half_in)) 7 = Inr demo_person \<and>
   se_user (da_sessions demo_half_in 7) = Some (du_user demo_person)"
proof -
  have shut: "signed_in demo_half_in 7 = Inl ''dashboard:verify''"
    by (simp add: demo_half_in_eq signed_in_def current_profile_def profile_of_def fresh_dashboard_def
        demo_person_def has_second_factor_def)
  have in': "signed_in (snd (perform demo_services demo_env (Verify 7 (Some ''492039'')) demo_half_in)) 7 = Inr demo_person"
    by (simp add: demo_half_in_eq signed_in_def current_profile_def profile_of_def fresh_dashboard_def
        demo_person_def has_second_factor_def verify_view_def lockout_seconds_def redis_get_def consume_code_def
        redis_set_nx_def verify_second_factor_def demo_env_def demo_services_def clear_def set_session_def Let_def throttle_consts)
  have "distinct (map du_id [demo_person])" and "distinct (map du_user [demo_person])" by simp_all
  from gate_opens_only_by_code [OF demo_half_in_reachable this shut in'] shut in' show ?thesis by blast
qed

text \<open>C25. Enrolment is first-time only. Whatever requests arrive, from whichever sessions, with
  whatever passwords and codes, an account whose second factor is confirmed keeps exactly that profile:
  its secret is not replaced and its confirmation is not undone.\<close>

theorem confirmed_factor_is_kept:
  assumes "(dash_step sv)\<^sup>*\<^sup>* st st'" and "dash_inv st"
    and "profile_of st u = Some p" and "has_second_factor p"
  shows "profile_of st' u = Some p"
proof -
  have "\<forall>p. profile_of st u = Some p \<and> has_second_factor p \<longrightarrow> profile_of st' u = Some p"
    using assms(1,2)
  proof (rule signing_in.run_relates)
    fix x y
    assume "dash_inv x" and "dash_step sv x y"
    then have "keeps_factors x y" by (auto elim!: dash_stepE intro: perform_keeps_factors)
    then show "\<forall>p. profile_of x u = Some p \<and> has_second_factor p \<longrightarrow> profile_of y u = Some p"
      by (blast intro: keeps_factors_profile)
  qed auto
  with assms(3,4) show ?thesis by blast
qed

theorem confirmed_factor_is_kept_witness:
  "profile_of (snd (perform demo_services demo_env (Enrol 7 (Some ''492039'')) demo_half_in)) ''ama'' = Some demo_person"
proof (rule confirmed_factor_is_kept)
  show "(dash_step demo_services)\<^sup>*\<^sup>* demo_half_in (snd (perform demo_services demo_env (Enrol 7 (Some ''492039'')) demo_half_in))"
    by (rule r_into_rtranclp) (rule dash_step.performed)
  show "dash_inv demo_half_in"
    by (rule signing_in.run_keeps [OF demo_half_in_reachable]) (simp add: fresh_dashboard_inv)
  show "profile_of demo_half_in ''ama'' = Some demo_person" "has_second_factor demo_person"
    by (simp_all add: demo_half_in_eq fresh_dashboard_def profile_of_def demo_person_def has_second_factor_def)
qed

end
