(* ===== verification/Ast_Walk.thy ===== *)
theory Ast_Walk
  imports Dsl_Validator
begin

text \<open>
  \<open>ast.walk\<close>: the breadth-first traversal that \<open>src/complylayer/backtest/replay.py\<close> and
  \<open>src/complylayer/dashboard/diff.py\<close> read rules with. A call's keyword arguments are nodes of their
  own; operators and expression contexts have no children and nobody asks for them, so the traversal
  leaves them out.
\<close>

datatype ast_node = E expr | K keyword

fun children :: "ast_node \<Rightarrow> ast_node list" where
  "children (E (Constant v)) = []"
| "children (E (Name n)) = []"
| "children (E (BoolOp b es)) = map E es"
| "children (E (UnaryOp u e)) = [E e]"
| "children (E (BinOp l op r)) = [E l, E r]"
| "children (E (Compare l ops es)) = E l # map E es"
| "children (E (Call f as ks)) = E f # map E as @ map K ks"
| "children (E (List_e es)) = map E es"
| "children (E (Tuple_e es)) = map E es"
| "children (E (Attribute e a)) = [E e]"
| "children (E (Subscript e i)) = [E e, E i]"
| "children (E (Other k es)) = map E es"
| "children (K kw) = [E (kw_value kw)]"

fun weight :: "ast_node \<Rightarrow> nat" where
  "weight (E e) = node_count e"
| "weight (K kw) = Suc (node_count (kw_value kw))"

lemma weight_keyword: "(\<lambda>k. case k of Keyword _ e \<Rightarrow> Suc (node_count e)) = weight \<circ> K"
  by (auto simp: fun_eq_iff split: keyword.splits)

lemma weight_children: "sum_list (map weight (children n)) < weight n"
proof (cases n)
  case (E e)
  then show ?thesis by (cases e) (simp_all add: comp_def weight_keyword del: weight.simps(2))
qed simp

text \<open>The queue of \<open>ast.walk\<close>: take the first node, append its children.\<close>

function walk :: "ast_node list \<Rightarrow> ast_node list" where
  "walk [] = []"
| "walk (n # todo) = n # walk (todo @ children n)"
  by pat_completeness auto
termination
  by (relation "measure (\<lambda>ns. sum_list (map weight ns))") (use weight_children in \<open>simp_all\<close>)

fun node_exprs :: "ast_node \<Rightarrow> expr list" where
  "node_exprs (E e) = subexprs e"
| "node_exprs (K kw) = subexprs (kw_value kw)"

lemma node_exprs_keyword: "(\<lambda>k. case k of Keyword _ e \<Rightarrow> subexprs e) = node_exprs \<circ> K"
  by (auto simp: fun_eq_iff split: keyword.splits)

lemma node_exprs_children:
  "node_exprs (E e) = e # concat (map node_exprs (children (E e)))"
  "node_exprs (K kw) = concat (map node_exprs (children (K kw)))"
  by (cases e) (simp_all add: comp_def node_exprs_keyword)

definition walked_exprs :: "ast_node list \<Rightarrow> expr list" where
  "walked_exprs ns = concat (map (\<lambda>n. case n of E e \<Rightarrow> [e] | K kw \<Rightarrow> []) (walk ns))"

text \<open>Every expression of the tree is visited, exactly as often as it occurs.\<close>

lemma walked_exprs_mset: "mset (walked_exprs ns) = mset (concat (map node_exprs ns))"
proof (induction ns rule: walk.induct)
  case 1
  show ?case by (simp add: walked_exprs_def)
next
  case (2 n todo)
  then show ?case
    by (cases n) (simp_all add: walked_exprs_def node_exprs_children del: node_exprs.simps children.simps)
qed

lemma walked_exprs_set [simp]: "set (walked_exprs [E t]) = set (subexprs t)"
  using mset_eq_setD [OF walked_exprs_mset [of "[E t]"]] by simp

end
