(* ===== verification/Backtest.thy ===== *)
theory Backtest
  imports Decision_Handler Ast_Walk
begin

text \<open>
  Running a rule against decisions that already happened: \<open>src/complylayer/backtest/replay.py\<close> and
  \<open>impact_of\<close> of \<open>src/complylayer/dashboard/views.py\<close>, and the rule analytics of
  \<open>src/complylayer/backtest/analytics.py\<close>.

  The rows are those \<open>save\<close> writes (\<open>Decision_Handler\<close>). The column of resolved facts comes back as it
  was written. \<open>Sample\<close> keeps the instant of the decision rather than its text; the text of a
  percentage is a parameter. A set of names is an Isabelle set. The em dash of one sentence is
  written with its Windows-1252 code, as \<^typ>\<open>char\<close> stops at 255.
\<close>


section \<open>Data\<close>

datatype confidence = EXACT | PARTIAL | UNAVAILABLE

record sample =
  sp_decision_id :: pyval
  sp_transaction_ref :: string
  sp_amount_minor :: int
  sp_currency :: string
  sp_decided_at :: int
  sp_original_outcome :: pyval

record impact =
  im_confidence :: confidence
  im_considered :: nat
  im_skipped :: nat
  im_matched :: nat
  im_errored :: nat
  im_samples :: "sample list"
  im_missing_facts :: "string set"

definition impact_total :: "impact \<Rightarrow> nat" where
  "impact_total i = im_considered i + im_skipped i"

definition match_rate :: "impact \<Rightarrow> rat" where
  "match_rate i = (if im_considered i \<noteq> 0 then of_nat (im_matched i) / of_nat (im_considered i) else 0)"

text \<open>\<open>f"{n:,}"\<close>.\<close>

fun thousands :: "nat \<Rightarrow> string" where
  "thousands n =
     (if n < 1000 then str_of_nat n
      else thousands (n div 1000) @ '','' @ drop 1 (str_of_nat (1000 + n mod 1000)))"

declare thousands.simps [simp del]

definition impact_sentence :: "(rat \<Rightarrow> string) \<Rightarrow> impact \<Rightarrow> string" where
  "impact_sentence percent i =
     (if im_confidence i = UNAVAILABLE then
        (let names = str_join '', '' (sorted_list_of_set (im_missing_facts i));
             missing = (if names = [] then ''a fact'' else names)
         in ''This rule cannot be tested against history: it needs '' @ missing @
            '', which was not recorded with past decisions. Run it in shadow mode '' @
            ''instead '' @ em_dash @ '' it will be evaluated on live traffic without affecting anyone.'')
      else
        (let base = ''Would have matched '' @ thousands (im_matched i) @ '' of '' @ thousands (im_considered i) @
                    '' transactions ('' @ percent (match_rate i) @ '').''
         in if im_confidence i = PARTIAL then
              base @ '' '' @ thousands (im_skipped i) @
              '' more could not be checked, because the facts this rule needs were not recorded at the time.''
            else base))"


section \<open>Backtesting\<close>

datatype backtest_error = Syntax rule_syntax_error | Raised exn

definition required_names :: "expr \<Rightarrow> string set" where
  "required_names tree = set (concat (map (\<lambda>e. case e of Name n \<Rightarrow> [n] | _ \<Rightarrow> []) (walked_exprs [E tree])))"

definition required_facts :: "python_parser \<Rightarrow> string \<Rightarrow> rule_syntax_error + string set" where
  "required_facts py expression = bindE (parse py expression) (\<lambda>tree. Inr (required_names tree))"

fun retuple :: "pyval \<Rightarrow> pyval" where
  "retuple (PList vs) = PTuple vs"
| "retuple v = v"

fun dict_items :: "pyval \<Rightarrow> pyval dict" where
  "dict_items (PDict kvs) = kvs"
| "dict_items _ = []"

definition stored_facts :: "decision_row \<Rightarrow> pyval dict" where
  "stored_facts r = dict_items (dr_resolved_facts r)"

definition row_context :: "decision_row \<Rightarrow> (string \<rightharpoonup> py_function) option \<Rightarrow> evaluation_context" where
  "row_context r functions =
     \<lparr>ctx_facts = map_of (map (\<lambda>(k, v). (k, retuple v)) (stored_facts r)),
      ctx_functions = (case functions of Some fs \<Rightarrow> fs | None \<Rightarrow> Map.empty)\<rparr>"

definition sample_of :: "decision_row \<Rightarrow> sample" where
  "sample_of r =
     \<lparr>sp_decision_id = dr_id r, sp_transaction_ref = dr_transaction_ref r, sp_amount_minor = dr_amount_minor r,
      sp_currency = dr_currency r, sp_decided_at = dr_decided_at r, sp_original_outcome = dr_outcome r\<rparr>"

definition missing_in :: "string set \<Rightarrow> decision_row \<Rightarrow> string set" where
  "missing_in needed r = needed - set (map fst (stored_facts r))"

fun backtest_loop ::
  "expr \<Rightarrow> string set \<Rightarrow> nat \<Rightarrow> (string \<rightharpoonup> py_function) option \<Rightarrow> decision_row list \<Rightarrow> impact \<Rightarrow> backtest_error + impact" where
  "backtest_loop tree needed limit functions [] i = Inr i"
| "backtest_loop tree needed limit functions (r # rs) i =
     (let missing = missing_in needed r
      in if missing \<noteq> {} then
           backtest_loop tree needed limit functions rs
             (i\<lparr>im_skipped := Suc (im_skipped i), im_missing_facts := im_missing_facts i \<union> missing\<rparr>)
         else
           (let i1 = i\<lparr>im_considered := Suc (im_considered i)\<rparr>
            in case evaluate tree (row_context r functions) MAX_STEPS of
                 Inl (RuleEvaluationError _) \<Rightarrow>
                   backtest_loop tree needed limit functions rs (i1\<lparr>im_errored := Suc (im_errored i1)\<rparr>)
               | Inl e \<Rightarrow> Inl (Raised e)
               | Inr matched \<Rightarrow>
                   backtest_loop tree needed limit functions rs
                     (if matched
                      then i1\<lparr>im_matched := Suc (im_matched i1),
                              im_samples := (if length (im_samples i1) < limit
                                             then im_samples i1 @ [sample_of r] else im_samples i1)\<rparr>
                      else i1)))"

definition confidence_of :: "impact \<Rightarrow> confidence" where
  "confidence_of i =
     (if im_considered i = 0 \<and> im_skipped i \<noteq> 0 then UNAVAILABLE
      else if im_skipped i \<noteq> 0 then PARTIAL else im_confidence i)"

definition no_impact :: impact where
  "no_impact =
     \<lparr>im_confidence = EXACT, im_considered = 0, im_skipped = 0, im_matched = 0, im_errored = 0,
      im_samples = [], im_missing_facts = {}\<rparr>"

definition backtest ::
  "python_parser \<Rightarrow> string \<Rightarrow> decision_row list \<Rightarrow> nat \<Rightarrow> (string \<rightharpoonup> py_function) option \<Rightarrow> backtest_error + impact" where
  "backtest py expression rows limit functions =
     (case parse py expression of
        Inl e \<Rightarrow> Inl (Syntax e)
      | Inr tree \<Rightarrow>
          (case required_facts py expression of
             Inl e \<Rightarrow> Inl (Syntax e)
           | Inr needed \<Rightarrow>
               bindE (backtest_loop tree needed limit functions rows no_impact) (\<lambda>i.
                 Inr (i\<lparr>im_confidence := confidence_of i\<rparr>))))"

text \<open>\<open>impact_of\<close>: no history and no syntax give no impact; any other exception is the page's.\<close>

definition impact_of :: "python_parser \<Rightarrow> string \<Rightarrow> decision_row list \<Rightarrow> exn + impact option" where
  "impact_of py expression rows =
     (if rows = [] then Inr None
      else
        (case backtest py expression rows 20 None of
           Inr i \<Rightarrow> Inr (Some i)
         | Inl (Syntax _) \<Rightarrow> Inr None
         | Inl (Raised e) \<Rightarrow> Inl e))"


section \<open>Replaying a decision\<close>

definition replay_decision ::
  "decision_row \<Rightarrow> rule_set \<Rightarrow> (string \<rightharpoonup> py_function) option \<Rightarrow> exn + decision" where
  "replay_decision r rs functions = decide rs (row_context r functions) None MAX_STEPS"


section \<open>Divergence of a shadow rule\<close>

record divergence_report =
  dv_decisions :: nat
  dv_shadow_matches :: nat
  dv_would_have_blocked :: nat
  dv_samples :: "sample list"

definition agrees_always :: "divergence_report \<Rightarrow> bool" where
  "agrees_always d \<longleftrightarrow> dv_shadow_matches d = 0"

definition divergence_sentence :: "divergence_report \<Rightarrow> string" where
  "divergence_sentence d =
     (if agrees_always d then
        ''Over '' @ thousands (dv_decisions d) @ '' decisions this rule would not have changed a single outcome.''
      else
        ''Over '' @ thousands (dv_decisions d) @ '' decisions this rule would have fired '' @
        thousands (dv_shadow_matches d) @ '' times, blocking '' @ thousands (dv_would_have_blocked d) @
        '' transactions that were allowed.'')"

fun list_items :: "pyval \<Rightarrow> pyval list" where
  "list_items (PList vs) = vs"
| "list_items _ = []"

fun divergence_loop :: "string \<Rightarrow> nat \<Rightarrow> decision_row list \<Rightarrow> divergence_report \<Rightarrow> divergence_report" where
  "divergence_loop rid limit [] d = d"
| "divergence_loop rid limit (r # rs) d =
     divergence_loop rid limit rs
       (let d1 = d\<lparr>dv_decisions := Suc (dv_decisions d)\<rparr>
        in if PStr rid \<notin> set (list_items (dr_shadow_matches r)) then d1
           else
             (let d2 = d1\<lparr>dv_shadow_matches := Suc (dv_shadow_matches d1)\<rparr>
              in if dr_outcome r = PStr ''block'' then d2
                 else d2\<lparr>dv_would_have_blocked := Suc (dv_would_have_blocked d2),
                         dv_samples := (if length (dv_samples d2) < limit
                                        then dv_samples d2 @ [sample_of r] else dv_samples d2)\<rparr>))"

definition divergence :: "decision_row list \<Rightarrow> string \<Rightarrow> nat \<Rightarrow> divergence_report" where
  "divergence rows rid limit =
     divergence_loop rid limit rows
       \<lparr>dv_decisions = 0, dv_shadow_matches = 0, dv_would_have_blocked = 0, dv_samples = []\<rparr>"


section \<open>What the loop computes\<close>

definition answerable :: "string set \<Rightarrow> decision_row \<Rightarrow> bool" where
  "answerable needed r \<longleftrightarrow> missing_in needed r = {}"

definition row_verdict :: "expr \<Rightarrow> (string \<rightharpoonup> py_function) option \<Rightarrow> decision_row \<Rightarrow> exn + bool" where
  "row_verdict tree fs r = evaluate tree (row_context r fs) MAX_STEPS"

fun unevaluable :: "exn + bool \<Rightarrow> bool" where
  "unevaluable (Inl (RuleEvaluationError _)) = True"
| "unevaluable _ = False"

lemma backtest_loop_Inr:
  assumes "backtest_loop tree needed limit fs rows i = Inr j" and "length (im_samples i) \<le> limit"
  defines "ok \<equiv> filter (answerable needed) rows"
  defines "hits \<equiv> filter (\<lambda>r. row_verdict tree fs r = Inr True) ok"
  shows "j = i\<lparr>im_considered := im_considered i + length ok,
               im_skipped := im_skipped i + length (filter (\<lambda>r. \<not> answerable needed r) rows),
               im_matched := im_matched i + length hits,
               im_errored := im_errored i + length (filter (\<lambda>r. unevaluable (row_verdict tree fs r)) ok),
               im_samples := im_samples i @ map sample_of (take (limit - length (im_samples i)) hits),
               im_missing_facts := im_missing_facts i \<union> (\<Union>r \<in> set rows. missing_in needed r)\<rparr>"
  using assms(1,2) unfolding ok_def hits_def
proof (induction rows arbitrary: i)
  case Nil
  then show ?case by simp
next
  case (Cons r rows)
  show ?case
  proof (cases "answerable needed r")
    case False
    with Cons.prems have "backtest_loop tree needed limit fs rows
        (i\<lparr>im_skipped := Suc (im_skipped i), im_missing_facts := im_missing_facts i \<union> missing_in needed r\<rparr>) = Inr j"
      by (simp add: answerable_def Let_def)
    from Cons.IH [OF this] Cons.prems(2) False show ?thesis by (simp add: Un_assoc)
  next
    case True
    then have none: "missing_in needed r = {}" by (simp add: answerable_def)
    let ?i = "i\<lparr>im_considered := Suc (im_considered i)\<rparr>"
    show ?thesis
    proof (cases "row_verdict tree fs r")
      case (Inl e)
      with Cons.prems none obtain x where x: "e = RuleEvaluationError x"
        by (cases e) (simp_all add: row_verdict_def Let_def)
      with Cons.prems none Inl have "backtest_loop tree needed limit fs rows (?i\<lparr>im_errored := Suc (im_errored i)\<rparr>) = Inr j"
        by (simp add: row_verdict_def Let_def)
      from Cons.IH [OF this] Cons.prems(2) True Inl x none show ?thesis by simp
    next
      case (Inr m)
      consider "\<not> m" | "m" "length (im_samples i) < limit" | "m" "\<not> length (im_samples i) < limit" by blast
      then show ?thesis
      proof cases
        case 1
        with Cons.prems none Inr have "backtest_loop tree needed limit fs rows ?i = Inr j"
          by (simp add: row_verdict_def Let_def)
        from Cons.IH [OF this] Cons.prems(2) True Inr 1 none show ?thesis by simp
      next
        case 2
        have suc: "limit - length (im_samples i) = Suc (limit - Suc (length (im_samples i)))" using 2(2) by simp
        from 2 Cons.prems none Inr have "backtest_loop tree needed limit fs rows
            (?i\<lparr>im_matched := Suc (im_matched i), im_samples := im_samples i @ [sample_of r]\<rparr>) = Inr j"
          by (simp add: row_verdict_def Let_def)
        from Cons.IH [OF this] 2 True Inr none show ?thesis by (simp add: suc)
      next
        case 3
        from 3 Cons.prems none Inr have "backtest_loop tree needed limit fs rows (?i\<lparr>im_matched := Suc (im_matched i)\<rparr>) = Inr j"
          by (simp add: row_verdict_def Let_def)
        from Cons.IH [OF this] Cons.prems(2) 3 True Inr none show ?thesis by simp
      qed
    qed
  qed
qed

lemma backtest_Inr:
  assumes "backtest py e rows limit fs = Inr i" and "parse py e = Inr tree"
  defines "ok \<equiv> filter (answerable (required_names tree)) rows"
  defines "hits \<equiv> filter (\<lambda>r. row_verdict tree fs r = Inr True) ok"
  shows "im_considered i = length ok"
    and "im_skipped i = length (filter (\<lambda>r. \<not> answerable (required_names tree) r) rows)"
    and "im_matched i = length hits"
    and "im_errored i = length (filter (\<lambda>r. unevaluable (row_verdict tree fs r)) ok)"
    and "im_samples i = map sample_of (take limit hits)"
    and "im_missing_facts i = (\<Union>r \<in> set rows. missing_in (required_names tree) r)"
    and "im_confidence i = (if im_skipped i = 0 then EXACT else if im_considered i = 0 then UNAVAILABLE else PARTIAL)"
proof -
  from assms(1,2) obtain j where j: "backtest_loop tree (required_names tree) limit fs rows no_impact = Inr j"
    "i = j\<lparr>im_confidence := confidence_of j\<rparr>"
    by (auto simp: backtest_def required_facts_def)
  note eq = backtest_loop_Inr [OF j(1), unfolded no_impact_def, simplified, folded no_impact_def]
  show "im_considered i = length ok"
    "im_skipped i = length (filter (\<lambda>r. \<not> answerable (required_names tree) r) rows)"
    "im_matched i = length hits"
    "im_errored i = length (filter (\<lambda>r. unevaluable (row_verdict tree fs r)) ok)"
    "im_samples i = map sample_of (take limit hits)"
    "im_missing_facts i = (\<Union>r \<in> set rows. missing_in (required_names tree) r)"
    "im_confidence i = (if im_skipped i = 0 then EXACT else if im_considered i = 0 then UNAVAILABLE else PARTIAL)"
    unfolding j(2) eq ok_def hits_def confidence_of_def by simp_all
qed


section \<open>Names and calls\<close>

lemma required_names_eq: "required_names t = {n. Name n \<in> set (subexprs t)}"
  by (auto simp: required_names_def split: expr.splits)

lemma node_exprs_trans: "x \<in> set (subexprs y) \<Longrightarrow> y \<in> set (node_exprs n) \<Longrightarrow> x \<in> set (node_exprs n)"
proof (induction n rule: measure_induct_rule [of weight])
  case (less n)
  have child: "x \<in> set (node_exprs m)" if "m \<in> set (children n)" "y \<in> set (node_exprs m)" for m
  proof -
    have "weight m \<le> sum_list (map weight (children n))" using that(1) by (intro member_le_sum_list) simp_all
    then have "weight m < weight n" using weight_children [of n] by linarith
    from less.IH [OF this less.prems(1) that(2)] show ?thesis .
  qed
  show ?case
  proof (cases n)
    case (E e)
    from less.prems(2) consider "y = e" | m where "m \<in> set (children n)" "y \<in> set (node_exprs m)"
      unfolding E node_exprs_children(1) by auto
    then show ?thesis
    proof cases
      case 1
      with less.prems(1) E show ?thesis by simp
    next
      case 2
      with child have "x \<in> set (node_exprs m)" by blast
      with 2(1) show ?thesis unfolding E node_exprs_children(1) by auto
    qed
  next
    case (K kw)
    with less.prems(2) child [of "E (kw_value kw)"] show ?thesis by simp
  qed
qed

lemma subexprs_trans: "x \<in> set (subexprs y) \<Longrightarrow> y \<in> set (subexprs z) \<Longrightarrow> x \<in> set (subexprs z)"
  using node_exprs_trans [of x y "E z"] by simp

lemma fact_names_subexprs: "n \<in> set (fact_names e) \<Longrightarrow> Name n \<in> set (subexprs e)"
  by (induction e rule: fact_names.induct) (fastforce split: keyword.splits)+

lemma fact_names_required: "set (fact_names e) \<subseteq> required_names e"
  by (auto simp: required_names_eq fact_names_subexprs)

lemma callee_required: "Call (Name f) as ks \<in> set (subexprs e) \<Longrightarrow> f \<in> required_names e"
  unfolding required_names_eq by (auto intro: subexprs_trans [of _ "Call (Name f) as ks"])

fun is_call :: "expr \<Rightarrow> bool" where
  "is_call (Call f as ks) = True"
| "is_call _ = False"

definition calls_nothing :: "expr \<Rightarrow> bool" where
  "calls_nothing e \<longleftrightarrow> (\<forall>x \<in> set (subexprs e). \<not> is_call x)"

definition facts_agree :: "string set \<Rightarrow> evaluation_context \<Rightarrow> evaluation_context \<Rightarrow> bool" where
  "facts_agree N c d \<longleftrightarrow> (\<forall>n \<in> N. ctx_facts c n = ctx_facts d n)"

lemma facts_agree_Un [simp]: "facts_agree (M \<union> N) c d \<longleftrightarrow> facts_agree M c d \<and> facts_agree N c d"
  by (auto simp: facts_agree_def)

lemma calls_nothing_simps [simp]:
  "calls_nothing (BoolOp b es) \<longleftrightarrow> (\<forall>e \<in> set es. calls_nothing e)"
  "calls_nothing (UnaryOp u e) \<longleftrightarrow> calls_nothing e"
  "calls_nothing (BinOp l op r) \<longleftrightarrow> calls_nothing l \<and> calls_nothing r"
  "calls_nothing (Compare l ops es) \<longleftrightarrow> calls_nothing l \<and> (\<forall>e \<in> set es. calls_nothing e)"
  "\<not> calls_nothing (Call f as ks)"
  "calls_nothing (List_e es) \<longleftrightarrow> (\<forall>e \<in> set es. calls_nothing e)"
  "calls_nothing (Tuple_e es) \<longleftrightarrow> (\<forall>e \<in> set es. calls_nothing e)"
  by (auto simp: calls_nothing_def)

lemma denote_without_calls:
  "calls_nothing e \<Longrightarrow> facts_agree (set (fact_names e)) c d \<Longrightarrow> denote c e = denote d e"
  "\<forall>e \<in> set es. calls_nothing e \<Longrightarrow> facts_agree (\<Union>e \<in> set es. set (fact_names e)) c d \<Longrightarrow> denote_and c es = denote_and d es"
  "\<forall>e \<in> set es. calls_nothing e \<Longrightarrow> facts_agree (\<Union>e \<in> set es. set (fact_names e)) c d \<Longrightarrow> denote_or c es = denote_or d es"
  "\<forall>e \<in> set es. calls_nothing e \<Longrightarrow> facts_agree (\<Union>e \<in> set es. set (fact_names e)) c d \<Longrightarrow>
     denote_compare c v ops es = denote_compare d v ops es"
  "\<forall>e \<in> set es. calls_nothing e \<Longrightarrow> facts_agree (\<Union>e \<in> set es. set (fact_names e)) c d \<Longrightarrow> denote_all c es = denote_all d es"
  "denote_keywords c kw ks = denote_keywords c kw ks"
proof (induction c e and c es and c es and c v ops es and c es and c kw ks
    rule: denote_denote_and_denote_or_denote_compare_denote_all_denote_keywords.induct)
  case (2 c n)
  then show ?case by (simp add: facts_agree_def read_fact_def)
next
  case (7 c f as ks)
  then show ?case by simp
qed (auto intro!: bindE_cong)


section \<open>Reading a row back\<close>

lemma set_dict_put: "set (dict_put k v d) \<subseteq> insert (k, v) (set d)"
  unfolding dict_put_def by (induction d) auto

lemma set_dict_of: "set (dict_of d kvs) \<subseteq> set d \<union> set kvs"
proof (induction d kvs rule: dict_of.induct)
  case (2 d k v kvs)
  then show ?case using set_dict_put [of k v d] by auto
qed simp

fun is_list :: "pyval \<Rightarrow> bool" where
  "is_list (PList _) = True"
| "is_list _ = False"

lemma retuple_serialisable: "\<not> is_list v \<Longrightarrow> retuple (serialisable v) = v"
  by (cases v) simp_all

lemma aggregates_no_lists:
  assumes "(k, v) \<in> set (g_aggregates (fst (gather_velocity key tx now ev rd)))"
  shows "\<not> is_list v"
proof -
  have facts: "\<exists>i. v = PInt i" if "(k, v) \<in> set (aggregate_facts w)" for w
    using that unfolding aggregate_facts_def as_facts_def by auto
  obtain w st where "record_and_gather (timestamp now) (tx_ref tx, tx_amount_minor tx, tx_type tx) (rd key) = (w, st)"
    by (cases "record_and_gather (timestamp now) (tx_ref tx, tx_amount_minor tx, tx_type tx) (rd key)")
  with assms have "(k, v) \<in> set (aggregate_facts w)"
    by (cases ev) (simp_all add: gather_velocity_def unavailable_velocity_def)
  with facts show ?thesis by fastforce
qed

lemma build_facts_no_lists:
  assumes "\<forall>(k, v) \<in> set (request_facts tx). \<not> is_list v" and "\<forall>(k, v) \<in> set (g_aggregates vel). \<not> is_list v"
    and "(k, v) \<in> set (build_facts tx vel named)"
  shows "\<not> is_list v"
proof -
  let ?items = "request_facts tx @ g_aggregates vel @ map (\<lambda>(n, vs). (n, PTuple vs)) named"
  have "build_facts tx vel named = dict_of [] ?items"
    unfolding build_facts_def request_facts_def by (simp only: append_assoc)
  with assms(3) set_dict_of [of "[]" ?items] have "(k, v) \<in> set ?items" by auto
  with assms(1,2) show ?thesis by auto
qed


lemma map_of_retuple:
  assumes "\<forall>(k, v) \<in> set facts. \<not> is_list v"
  shows "map_of (map (\<lambda>(k, v). (k, retuple v)) (map (\<lambda>(k, v). (k, serialisable v)) facts)) = map_of facts"
proof -
  have "map (\<lambda>(k, v). (k, retuple v)) (map (\<lambda>(k, v). (k, serialisable v)) facts) = facts"
    using assms by (auto simp: comp_def retuple_serialisable intro!: map_idI)
  then show ?thesis by simp
qed

lemma decision_body_facts:
  "body_get (dict_put ''latency_ms'' ms (decision_body pf mo v d facts)) ''_resolved_facts'' dflt = PDict (map (\<lambda>(k, v). (k, serialisable v)) facts)"
  by (simp add: body_get_def decision_body_def)

text \<open>The row a request leaves behind, read back, gives the context the request was decided in.\<close>

lemma recorded_row:
  assumes "record_decision pf h (dict_put ''latency_ms'' ms (decision_body pf mo v d facts)) tx key db = Inr db2"
    and "r = List.last (dd_decisions db2)" and "\<forall>(k, v) \<in> set facts. \<not> is_list v"
  shows "row_context r fs = \<lparr>ctx_facts = map_of facts, ctx_functions = (case fs of Some f \<Rightarrow> f | None \<Rightarrow> Map.empty)\<rparr>"
    and "dr_outcome r = PStr (outcome_text (dec_outcome d))"
    and "dr_matched_rules r = PList (map rule_json (matched_rules d))"
    and "dr_degraded r = PBool (degraded d)"
proof -
  note saved = assms(1) [unfolded record_decision_def save_def, simplified]
  have row: "dr_resolved_facts r = PDict (map (\<lambda>(k, v). (k, serialisable v)) facts)
      \<and> dr_outcome r = PStr (outcome_text (dec_outcome d))
      \<and> dr_matched_rules r = PList (map rule_json (matched_rules d)) \<and> dr_degraded r = PBool (degraded d)"
    using saved assms(2)
    by (auto simp: insert_decision_def get_or_create_def decision_body_facts body_item_def decision_body_items
        split: if_splits option.splits)
  then show "row_context r fs = \<lparr>ctx_facts = map_of facts, ctx_functions = (case fs of Some f \<Rightarrow> f | None \<Rightarrow> Map.empty)\<rparr>"
    using map_of_retuple [OF assms(3)] by (simp add: row_context_def stored_facts_def)
  show "dr_outcome r = PStr (outcome_text (dec_outcome d))" "dr_matched_rules r = PList (map rule_json (matched_rules d))"
    "dr_degraded r = PBool (degraded d)" using row by simp_all
qed


section \<open>Properties\<close>



text \<open>A rule that calls a function is never tested against history, whatever was recorded and
  whatever functions are passed: the name of the function counts as a fact the rule needs, so unless
  some row recorded a fact of that name the result is unavailable, and the function is reported as a
  missing fact.\<close>

theorem calling_rules_cannot_be_tested:
  assumes "parse py source = Inr tree" and "Call (Name f) as ks \<in> set (subexprs tree)"
    and "rows \<noteq> []" and "\<forall>r \<in> set rows. f \<notin> set (map fst (stored_facts r))"
  shows "\<exists>i. backtest py source rows limit functions = Inr i \<and> im_confidence i = UNAVAILABLE
    \<and> im_considered i = 0 \<and> im_skipped i = length rows \<and> f \<in> im_missing_facts i"
proof -
  have f: "f \<in> required_names tree" by (rule callee_required [OF assms(2)])
  have missing: "f \<in> missing_in (required_names tree) r" if "r \<in> set rows" for r
    using assms(4) f that by (auto simp: missing_in_def)
  have "\<exists>j. backtest_loop tree (required_names tree) limit functions rs i = Inr j"
    if "set rs \<subseteq> set rows" for rs i
    using that
  proof (induction rs arbitrary: i)
    case (Cons r rs)
    then have "missing_in (required_names tree) r \<noteq> {}" using missing by fastforce
    with Cons show ?case by (simp add: Let_def)
  qed simp
  then obtain j where "backtest_loop tree (required_names tree) limit functions rows no_impact = Inr j" by blast
  then have i: "backtest py source rows limit functions = Inr (j\<lparr>im_confidence := confidence_of j\<rparr>)"
    by (simp add: backtest_def required_facts_def assms(1))
  note spec = backtest_Inr [OF i assms(1)]
  have "filter (answerable (required_names tree)) rows = []" "filter (\<lambda>r. \<not> answerable (required_names tree) r) rows = rows"
    using missing by (auto simp: answerable_def filter_empty_conv filter_id_conv)
  then have counts: "im_considered (j\<lparr>im_confidence := confidence_of j\<rparr>) = 0"
    "im_skipped (j\<lparr>im_confidence := confidence_of j\<rparr>) = length rows"
    unfolding spec(1,2) by simp_all
  moreover have "f \<in> im_missing_facts (j\<lparr>im_confidence := confidence_of j\<rparr>)"
    unfolding spec(6) using missing assms(3) by (cases rows) auto
  ultimately show ?thesis using i spec(7) assms(3) by auto
qed

text \<open>The consequence for replaying: without the functions of the moment, which the function defaults
  to, a decision an active block rule with a call allowed is blocked when it is replayed.\<close>

lemma replay_without_functions_blocks:
  assumes "well_keyed rs" and "rule \<in> set (active rs)" and "rule_severity rule = BLOCK"
    and "rule_tree rule = Compare (Call (Name f) as ks) ops es" and "replay_decision r rs None = Inr d"
  shows "dec_outcome d = BLOCK_OUT"
proof -
  have run: "eval_node MAX_STEPS (row_context r None) (rule_tree rule) 0 = (Inl (RuleEvaluationError (NotAvailable f)), 2)"
    by (simp add: assms(4) row_context_def bind_run_def tick_def limit_defs lift_run_def eval_error_def)
  have "counts (fallback_policy None) MAX_STEPS (row_context r None) rule"
    using assms(2,3) run
    by (auto simp: counts_def active_def verdict_of_def interpreter_run_def fallback_policy_def DEFAULT_FALLBACK_def)
  moreover have "rule \<in> set (rs_rules rs)" using assms(2) by (simp add: active_def)
  ultimately show ?thesis
    unfolding decide_Inr(2) [OF assms(1) assms(5) [unfolded replay_decision_def]] combine_BLOCK using assms(3) by auto
qed

text \<open>A shadow rule of any severity that fired on an allowed transaction counts as a block.\<close>

lemma divergence_ignores_severity:
  assumes "dr_shadow_matches r = PList (map PStr ids)" and "rid \<in> set ids" and "dr_outcome r = PStr ''allow''"
  shows "dv_would_have_blocked (divergence [r] rid limit) = 1"
  using assms by (auto simp: divergence_def Let_def)



section \<open>Concrete rows\<close>

definition demo_stored :: "int \<Rightarrow> decision_row" where
  "demo_stored n =
     \<lparr>dr_id = PStr ''dec'', dr_decided_at = 1, dr_tenant = ''t'', dr_idempotency_key = ''k'', dr_ruleset_version = 1,
      dr_transaction_ref = ''TXN'', dr_customer_ref_hash = ''h'', dr_amount_minor = n, dr_currency = ''NGN'',
      dr_context = [], dr_resolved_facts = PDict [(''amount_minor'', PInt n)], dr_outcome = PStr ''allow'',
      dr_matched_rules = PList [], dr_shadow_matches = PList [], dr_reason = PStr [], dr_degraded = PBool False,
      dr_errored_rules = PList [], dr_latency_ms = PInt 1\<rparr>"

lemma demo_stored_context: "ctx_facts (row_context (demo_stored n) None) = ctx_facts (example_context n)"
  by (simp add: row_context_def stored_facts_def demo_stored_def example_context_def)

lemma demo_backtest: "\<exists>i. backtest example_parser example_source [demo_stored 50, demo_stored 500] 20 None = Inr i
    \<and> im_confidence i = EXACT"
proof -
  have names: "required_names example_tree = {''amount_minor''}"
    by (auto simp: required_names_eq example_tree_def)
  have none: "missing_in {''amount_minor''} (demo_stored n) = {}" for n
    by (simp add: missing_in_def stored_facts_def demo_stored_def)
  have run: "evaluate example_tree (row_context (demo_stored n) None) MAX_STEPS = Inr (100 < n)" for n
  proof -
    have "ctx_facts (row_context (demo_stored n) None) ''amount_minor'' = Some (PInt n)"
      by (simp add: demo_stored_context) (simp add: example_context_def)
    from run_example_amount [OF this] show ?thesis by (simp add: evaluate_def)
  qed
  show ?thesis
    by (simp add: backtest_def required_facts_def parse_example names none run Let_def no_impact_def confidence_of_def)
qed


definition calling_tree :: expr where
  "calling_tree = Compare (Call (Name ''hour_of_day'') [] []) [Lt] [Constant (PInt 6)]"

definition calling_parser :: python_parser where
  "calling_parser = \<lparr>parse_eval = (\<lambda>s. if s = ''hour_of_day() < 6'' then Parsed calling_tree else NotParsed), parse_exec = (\<lambda>_. False)\<rparr>"

lemma calling_guard: "guard_source ''hour_of_day() < 6'' = Inr ''hour_of_day() < 6''"
  by code_simp

lemma calling_parsed: "parse calling_parser ''hour_of_day() < 6'' = Inr calling_tree"
  using calling_guard by (simp add: parse_def calling_parser_def calling_tree_def tree_nodes_def limit_defs)

theorem calling_rules_cannot_be_tested_witness:
  "\<exists>i. backtest calling_parser ''hour_of_day() < 6'' [demo_stored 50] 20 (Some (build Map.empty silent_provider 0)) = Inr i
     \<and> im_confidence i = UNAVAILABLE \<and> ''hour_of_day'' \<in> im_missing_facts i"
proof -
  have "Call (Name ''hour_of_day'') [] [] \<in> set (subexprs calling_tree)" by (simp add: calling_tree_def)
  moreover have "\<forall>r \<in> set [demo_stored 50]. ''hour_of_day'' \<notin> set (map fst (stored_facts r))"
    by (simp add: stored_facts_def demo_stored_def)
  ultimately show ?thesis
    using calling_rules_cannot_be_tested [OF calling_parsed, of "''hour_of_day''" "[]" "[]" "[demo_stored 50]" 20
        "Some (build Map.empty silent_provider 0)"] by auto
qed


end
