(* ===== verification/Reports.thy ===== *)
theory Reports
  imports Backtest
begin

text \<open>
  What leaves the system for people: the per-rule analytics of
  \<open>src/complylayer/backtest/analytics.py\<close> and the regulator's export of
  \<open>src/complylayer/backtest/export.py\<close>, down to the characters the \<open>csv\<close> module writes (its \<open>excel\<close>
  dialect). \<open>str\<close> of a date and of a value that is no text, the text of a percentage and the wording of
  a chain fault are parameters; the em dash is written with its Windows-1252 code.
\<close>


section \<open>Analytics\<close>

record reviewed_row = decision_row +
  dr_review_status :: string
  dr_reviewed_by :: string
  dr_review_notes :: string

record rule_performance =
  rp_rule_id :: string
  rp_name :: string
  rp_fired :: nat
  rp_reviewed :: nat
  rp_cleared :: nat
  rp_confirmed :: nat

definition false_positive_rate :: "rule_performance \<Rightarrow> rat option" where
  "false_positive_rate p =
     (if rp_reviewed p = 0 then None else Some (of_nat (rp_cleared p) / of_nat (rp_reviewed p)))"

definition performance_verdict :: "(rat \<Rightarrow> string) \<Rightarrow> rule_performance \<Rightarrow> string" where
  "performance_verdict percent p =
     (case false_positive_rate p of
        None \<Rightarrow> ''Fired '' @ thousands (rp_fired p) @ '' times. None reviewed yet, so its accuracy is unknown.''
      | Some rate \<Rightarrow>
          if rate \<ge> 9 / 10 then
            ''Fired '' @ thousands (rp_fired p) @ '' times and '' @ percent rate @ '' were cleared on review. '' @
            ''This rule is spending reviewer time rather than catching anything '' @ em_dash @
            '' consider tightening it or moving it to shadow.''
          else if rate \<ge> 6 / 10 then
            ''Fired '' @ thousands (rp_fired p) @ '' times, '' @ percent rate @
            '' cleared. Worth tightening if the review queue is under pressure.''
          else ''Fired '' @ thousands (rp_fired p) @ '' times, '' @ percent rate @ '' cleared. This rule is earning its place.'')"

fun matched_id :: "pyval \<Rightarrow> exn + string" where
  "matched_id (PDict kvs) =
     (case map_of kvs ''id'' of Some (PStr i) \<Rightarrow> Inr i | Some _ \<Rightarrow> Inl TypeError | None \<Rightarrow> Inl KeyError)"
| "matched_id (PStr i) = Inr i"
| "matched_id _ = Inl TypeError"

definition count_in :: "nat dict \<Rightarrow> string \<Rightarrow> nat" where
  "count_in d k = (case map_of d k of Some n \<Rightarrow> n | None \<Rightarrow> 0)"

definition bump :: "string \<Rightarrow> nat dict \<Rightarrow> nat dict" where
  "bump k d = dict_put k (count_in d k + 1) d"

type_synonym tallies = "nat dict \<times> nat dict \<times> nat dict"

fun tally_match :: "string \<Rightarrow> pyval \<Rightarrow> tallies \<Rightarrow> exn + tallies" where
  "tally_match status matched (fired, reviewed, cleared) =
     bindE (matched_id matched) (\<lambda>rid.
       if status = [] then Inr (bump rid fired, reviewed, cleared)
       else Inr (bump rid fired, bump rid reviewed, if status = ''cleared'' then bump rid cleared else cleared))"

fun foldE :: "('a \<Rightarrow> 's \<Rightarrow> 'e + 's) \<Rightarrow> 'a list \<Rightarrow> 's \<Rightarrow> 'e + 's" where
  "foldE f [] s = Inr s"
| "foldE f (x # xs) s = bindE (f x s) (foldE f xs)"

definition tally_row :: "reviewed_row \<Rightarrow> tallies \<Rightarrow> exn + tallies" where
  "tally_row r t = foldE (tally_match (dr_review_status r)) (list_items (dr_matched_rules r)) t"

definition performance_key :: "rule_performance \<Rightarrow> rat \<times> int" where
  "performance_key p =
     (- (case false_positive_rate p of Some rate \<Rightarrow> rate | None \<Rightarrow> 0), - int (rp_fired p))"

definition performance :: "reviewed_row list \<Rightarrow> (string \<rightharpoonup> string) \<Rightarrow> exn + rule_performance list" where
  "performance rows names =
     bindE (foldE tally_row rows ([], [], [])) (\<lambda>(fired, reviewed, cleared).
       Inr (sort_key performance_key
         (map (\<lambda>(rid, n).
            \<lparr>rp_rule_id = rid, rp_name = (case names rid of Some name \<Rightarrow> name | None \<Rightarrow> rid), rp_fired = n,
             rp_reviewed = count_in reviewed rid, rp_cleared = count_in cleared rid,
             rp_confirmed = count_in reviewed rid - count_in cleared rid\<rparr>) fired)))"


section \<open>The export\<close>

definition FORMULA_PREFIXES :: string where
  "FORMULA_PREFIXES = [CHR ''='', CHR ''+'', CHR ''-'', CHR ''@'', CHR 9, CHR 13]"

definition safe :: "string \<Rightarrow> string" where
  "safe text = (case text of c # cs \<Rightarrow> if c \<in> set FORMULA_PREFIXES then CHR 39 # text else text | [] \<Rightarrow> [])"

definition safe_value :: "(pyval \<Rightarrow> string) \<Rightarrow> pyval option \<Rightarrow> string" where
  "safe_value str v =
     safe (case v of None \<Rightarrow> [] | Some PNone \<Rightarrow> [] | Some (PStr s) \<Rightarrow> s | Some w \<Rightarrow> str w)"

text \<open>\<open>csv.writer\<close>: a field is quoted when it holds the delimiter, a quote or a line break.\<close>

definition needs_quotes :: "string \<Rightarrow> bool" where
  "needs_quotes s \<longleftrightarrow> list_ex (\<lambda>c. c \<in> {CHR '','', CHR 34, CHR 10, CHR 13}) s"

definition double_quotes :: "string \<Rightarrow> string" where
  "double_quotes s = concat (map (\<lambda>c. if c = CHR 34 then [CHR 34, CHR 34] else [c]) s)"

definition csv_field :: "string \<Rightarrow> string" where
  "csv_field s = (if needs_quotes s then CHR 34 # double_quotes s @ [CHR 34] else s)"

definition writerow :: "string list \<Rightarrow> string" where
  "writerow cells = (if cells = [[]] then [CHR 34, CHR 34] else str_join '','' (map csv_field cells)) @ [CHR 13, CHR 10]"

definition RULES_HEADER :: "string list" where
  "RULES_HEADER =
     [''rule_id'', ''name'', ''state'', ''severity'', ''expression'', ''regulatory_reference'', ''created_by'',
      ''approved_by'', ''activated_at'']"

definition rule_cells :: "(int \<Rightarrow> string) \<Rightarrow> rule_row \<Rightarrow> string list" where
  "rule_cells date r =
     [safe (rr_id r), safe (rr_name r), safe (state_text (rr_state r)), safe (rr_severity r), safe (rr_expression r),
      safe (rr_regulatory_reference r), safe (rr_created_by r), safe (rr_approved_by r),
      safe (case rr_activated_at r of None \<Rightarrow> [] | Some t \<Rightarrow> date t)]"

definition rules_csv :: "(int \<Rightarrow> string) \<Rightarrow> rule_row list \<Rightarrow> string" where
  "rules_csv date rules = writerow RULES_HEADER @ concat (map (writerow \<circ> rule_cells date) rules)"

definition HISTORY_HEADER :: "string list" where
  "HISTORY_HEADER = [''recorded_at'', ''event'', ''actor'', ''role'', ''subject'', ''hash'']"

definition history_cells :: "(int \<Rightarrow> string) \<Rightarrow> (pyval \<Rightarrow> string) \<Rightarrow> audit_record \<Rightarrow> string list" where
  "history_cells date str r =
     [safe (date (ar_recorded_at r)), safe (ar_event_type r),
      safe_value str (map_of (dict_items (ar_actor r)) ''id''), safe_value str (map_of (dict_items (ar_actor r)) ''role''),
      safe_value str (map_of (dict_items (ar_subject r)) ''id''), safe (ar_hash r)]"

definition history_csv :: "(int \<Rightarrow> string) \<Rightarrow> (pyval \<Rightarrow> string) \<Rightarrow> audit_record list \<Rightarrow> string" where
  "history_csv date str records = writerow HISTORY_HEADER @ concat (map (writerow \<circ> history_cells date str) records)"

definition pad_left :: "nat \<Rightarrow> string \<Rightarrow> string" where
  "pad_left n s = replicate (n - length s) CHR '' '' @ s"

definition pad_right :: "nat \<Rightarrow> string \<Rightarrow> string" where
  "pad_right n s = s @ replicate (n - length s) CHR '' ''"

definition attestation_lines ::
  "(chain_fault \<Rightarrow> string) \<Rightarrow> string \<Rightarrow> verification_result \<Rightarrow> (string \<times> nat) list \<Rightarrow> string list" where
  "attestation_lines wording tenant v volumes =
     [''ComplyLayer compliance export '' @ em_dash @ '' tenant '' @ tenant, [], ''Audit chain'', ''-----------'']
     @ (if vr_ok v then
          [''  Verified. '' @ thousands (vr_checked v) @
           '' records form an unbroken hash chain, each covering its own contents and the record before it.'']
        else
          [''  FAILED at record '' @ (case vr_broken_at v of Some i \<Rightarrow> i | None \<Rightarrow> ''None'') @ ''. '' @ wording (vr_detail v),
           ''  This export should not be relied upon until that is explained.''])
     @ [[], ''Decision volumes'', ''----------------'']
     @ map (\<lambda>(out, n). ''  '' @ pad_right 10 out @ '' '' @ pad_left 12 (thousands n)) (sort_key fst volumes)"

definition attestation ::
  "(chain_fault \<Rightarrow> string) \<Rightarrow> string \<Rightarrow> verification_result \<Rightarrow> (string \<times> nat) list \<Rightarrow> string" where
  "attestation wording tenant v volumes = str_join [CHR 10] (attestation_lines wording tenant v volumes) @ [CHR 10]"


section \<open>Reading the export back\<close>

text \<open>A reader of comma-separated values: quoted cells with doubled quotes, lines ended by a line feed,
  carriage returns outside quotes skipped.\<close>

datatype csv_mode = At_start | In_plain | In_quotes | After_quote

fun csv_read :: "csv_mode \<Rightarrow> string \<Rightarrow> string list \<Rightarrow> string \<Rightarrow> string list list" where
  "csv_read m f r [] = (if m = At_start \<and> f = [] \<and> r = [] then [] else [r @ [f]])"
| "csv_read In_quotes f r (c # cs) =
     (if c = CHR 34 then csv_read After_quote f r cs else csv_read In_quotes (f @ [c]) r cs)"
| "csv_read m f r (c # cs) =
     (if c = CHR '','' then csv_read At_start [] (r @ [f]) cs
      else if c = CHR 10 then (r @ [f]) # csv_read At_start [] [] cs
      else if c = CHR 13 then csv_read m f r cs
      else if c = CHR 34 \<and> m = At_start then csv_read In_quotes f r cs
      else if c = CHR 34 \<and> m = After_quote then csv_read In_quotes (f @ [c]) r cs
      else csv_read In_plain (f @ [c]) r cs)"

lemma csv_read_doubled: "csv_read In_quotes f r (double_quotes s @ CHR 34 # cs) = csv_read After_quote (f @ s) r cs"
  by (induction s arbitrary: f) (auto simp: double_quotes_def)

lemma csv_read_plain:
  "\<not> needs_quotes s \<Longrightarrow> m \<noteq> In_quotes \<Longrightarrow>
     csv_read m f r (s @ cs) = csv_read (if s = [] then m else In_plain) (f @ s) r cs"
proof (induction s arbitrary: m f)
  case (Cons c s)
  then show ?case by (cases m) (auto simp: needs_quotes_def)
qed simp

lemma csv_read_separator:
  "m \<noteq> In_quotes \<Longrightarrow> csv_read m f r (CHR '','' # cs) = csv_read At_start [] (r @ [f]) cs"
  "m \<noteq> In_quotes \<Longrightarrow> csv_read m f r (CHR 13 # CHR 10 # cs) = (r @ [f]) # csv_read At_start [] [] cs"
  by (cases m; simp)+

lemma csv_read_field:
  "csv_read At_start [] r (csv_field s @ CHR '','' # cs) = csv_read At_start [] (r @ [s]) cs"
  "csv_read At_start [] r (csv_field s @ CHR 13 # CHR 10 # cs) = (r @ [s]) # csv_read At_start [] [] cs"
proof -
  have "\<exists>m. m \<noteq> In_quotes \<and> (\<forall>cs. csv_read At_start [] r (csv_field s @ cs) = csv_read m s r cs)"
  proof (cases "needs_quotes s")
    case True
    then have "csv_read At_start [] r (csv_field s @ cs) = csv_read After_quote s r cs" for cs
      using csv_read_doubled [of "[]" r s cs] by (simp add: csv_field_def)
    then show ?thesis by (metis csv_mode.distinct(11))
  next
    case False
    then have "csv_read At_start [] r (csv_field s @ cs) = csv_read (if s = [] then At_start else In_plain) s r cs" for cs
      using csv_read_plain [OF False, of At_start "[]" r cs] by (simp add: csv_field_def)
    then show ?thesis by (metis csv_mode.distinct(3,7))
  qed
  then show "csv_read At_start [] r (csv_field s @ CHR '','' # cs) = csv_read At_start [] (r @ [s]) cs"
    "csv_read At_start [] r (csv_field s @ CHR 13 # CHR 10 # cs) = (r @ [s]) # csv_read At_start [] [] cs"
    using csv_read_separator by metis+
qed

lemma csv_read_row:
  assumes "cells \<noteq> []"
  shows "csv_read At_start [] [] (writerow cells @ cs) = cells # csv_read At_start [] [] cs"
proof -
  have "csv_read At_start [] r (str_join '','' (map csv_field fs) @ CHR 13 # CHR 10 # cs) = (r @ fs) # csv_read At_start [] [] cs"
    if "fs \<noteq> []" for fs r
    using that
  proof (induction fs arbitrary: r)
    case (Cons s fs)
    then show ?case
      using csv_read_field [of r s] by (cases fs) simp_all
  qed simp
  from this [OF assms, of "[]"] show ?thesis by (simp add: writerow_def)
qed

lemma csv_read_rows:
  "\<forall>fs \<in> set rows. fs \<noteq> [] \<Longrightarrow> csv_read At_start [] [] (concat (map writerow rows)) = rows"
  by (induction rows) (simp_all add: csv_read_row)

definition inert :: "string \<Rightarrow> bool" where
  "inert cell \<longleftrightarrow> cell = [] \<or> hd cell \<notin> set FORMULA_PREFIXES"

lemma inert_safe [simp]: "inert (safe s)"
  by (auto simp: inert_def safe_def FORMULA_PREFIXES_def split: list.splits)

lemma inert_safe_value [simp]: "inert (safe_value str v)"
  by (simp add: safe_value_def)


end
