(* ===== verification/Dashboard_Builder.thy ===== *)
theory Dashboard_Builder
  imports Dsl_Structured Dsl_Properties
begin

text \<open>
  The visual rule builder (\<open>src/complylayer/dashboard/builder.py\<close>): the six shapes with their
  inputs, what each makes of the answers, and \<open>build\<close> (\<open>build_shape\<close>); and the view that previews
  a rule while the officer types (\<open>preview\<close> in \<open>views.py\<close>).

  Answers are a dictionary from input keys to values, whole numbers or texts when they come from the
  form. \<open>shape_meaning\<close> is what the question of a shape asks, over the facts and the functions; the
  main result is that the rule a shape builds decides exactly that. Python's parser is a parameter,
  and the hypothesis on it is that it reads the rendered text as the tree the text spells
  (\<open>reads_structured\<close>).
\<close>


section \<open>Shapes\<close>

record shape_input =
  si_key :: string
  si_label :: string
  si_kind :: string
  si_hint :: string
  si_required :: bool
  si_default :: pyval

record shape =
  sh_key :: string
  sh_name :: string
  sh_question :: string
  sh_category :: string
  sh_reference :: string
  sh_inputs :: "shape_input list"
  sh_severity :: string

type_synonym answers = "(string \<times> pyval) list"

text \<open>\<open>values[key]\<close> and \<open>values.get(key, default)\<close>.\<close>

definition need :: "answers \<Rightarrow> string \<Rightarrow> exn + pyval" where
  "need vals k = (case map_of vals k of None \<Rightarrow> Inl KeyError | Some v \<Rightarrow> Inr v)"

definition get_or :: "answers \<Rightarrow> string \<Rightarrow> pyval \<Rightarrow> pyval" where
  "get_or vals k d = (case map_of vals k of None \<Rightarrow> d | Some v \<Rightarrow> v)"

definition fact_node :: "pyval \<Rightarrow> pyval" where
  "fact_node n = PDict [(''fact'', n)]"

definition amount_limit :: "answers \<Rightarrow> exn + pyval" where
  "amount_limit vals =
     bindE (need vals ''limit'') (\<lambda>limit.
       let comparand = (case limit of PStr s \<Rightarrow> fact_node limit | _ \<Rightarrow> limit)
       in Inr (PDict [(''fact'', get_or vals ''subject'' (PStr ''amount_minor'')), (''op'', PStr ''>''), (''value'', comparand)]))"

definition velocity_count_shape :: "answers \<Rightarrow> exn + pyval" where
  "velocity_count_shape vals =
     bindE (need vals ''window'') (\<lambda>window.
       let least = get_or vals ''min_amount_minor'' PNone;
           args = [(''window'', window)] @ (if truthy least then [(''min_amount_minor'', least)] else [])
       in bindE (need vals ''count'') (\<lambda>n.
            Inr (PDict [(''call'', PStr ''velocity_count''), (''args'', PDict args), (''op'', PStr ''>''), (''value'', n)])))"

definition structuring :: "answers \<Rightarrow> exn + pyval" where
  "structuring vals =
     (let threshold = get_or vals ''threshold_fact'' (PStr ''reporting_threshold_minor'')
      in bindE (need vals ''window'') (\<lambda>window.
         bindE (need vals ''count'') (\<lambda>n.
           Inr (PDict
             [(''call'', PStr ''velocity_count''),
              (''args'', PDict
                 [(''window'', window),
                  (''min_amount_minor'', PDict
                     [(''call'', PStr ''percent_of''),
                      (''positional'', PList [fact_node threshold, get_or vals ''percent'' (PInt 90)])]),
                  (''max_amount_minor'', fact_node threshold)]),
              (''op'', PStr ''>=''), (''value'', n)]))))"

definition above_amount :: "pyval \<Rightarrow> pyval" where
  "above_amount a = PDict [(''fact'', PStr ''amount_minor''), (''op'', PStr ''>''), (''value'', a)]"

definition dormant_reactivation :: "answers \<Rightarrow> exn + pyval" where
  "dormant_reactivation vals =
     bindE (need vals ''days'') (\<lambda>days.
     bindE (need vals ''amount_minor'') (\<lambda>a.
       Inr (PDict [(''all'', PList
         [PDict [(''call'', PStr ''days_since''),
                 (''positional'', PList [fact_node (get_or vals ''since_fact'' (PStr ''last_transaction_at''))]),
                 (''op'', PStr ''>''), (''value'', days)],
          above_amount a])])))"

definition hour_part :: "string \<Rightarrow> pyval \<Rightarrow> pyval" where
  "hour_part op h = PDict [(''call'', PStr ''hour_of_day''), (''op'', PStr op), (''value'', h)]"

definition corridor :: "answers \<Rightarrow> exn + pyval" where
  "corridor vals =
     (let listed = PDict [(''call'', PStr ''in_list''),
                          (''positional'', PList [fact_node (PStr ''destination_country''),
                             fact_node (get_or vals ''list_name'' (PStr ''high_risk_countries''))])];
          tier = get_or vals ''max_kyc_tier'' PNone;
          from_hour = get_or vals ''from_hour'' PNone; to_hour = get_or vals ''to_hour'' PNone
      in Inr (PDict [(''all'', PList
           ([listed]
            @ (if truthy tier then [PDict [(''fact'', PStr ''kyc_tier''), (''op'', PStr ''<''), (''value'', tier)]] else [])
            @ (if from_hour \<noteq> PNone \<and> to_hour \<noteq> PNone
               then [PDict [(''any'', PList [hour_part ''<'' from_hour, hour_part ''>'' to_hour])]] else [])))]))"

definition new_account :: "answers \<Rightarrow> exn + pyval" where
  "new_account vals =
     bindE (need vals ''days'') (\<lambda>days.
     bindE (need vals ''amount_minor'') (\<lambda>a.
       Inr (PDict [(''all'', PList
         [PDict [(''call'', PStr ''days_since''), (''positional'', PList [fact_node (PStr ''account_created_at'')]),
                 (''op'', PStr ''<''), (''value'', days)],
          above_amount a])])))"

definition BUILDERS :: "(string \<times> (answers \<Rightarrow> exn + pyval)) list" where
  "BUILDERS =
     [(''amount_limit'', amount_limit), (''velocity_count'', velocity_count_shape), (''structuring'', structuring),
      (''dormant_reactivation'', dormant_reactivation), (''corridor'', corridor), (''new_account'', new_account)]"

definition WINDOWS :: "string list" where
  "WINDOWS = [''1m'', ''5m'', ''15m'', ''1h'', ''6h'', ''24h'', ''7d'', ''30d'']"

definition control :: "string \<Rightarrow> string \<Rightarrow> string \<Rightarrow> string \<Rightarrow> bool \<Rightarrow> pyval \<Rightarrow> shape_input" where
  "control key text kind hint required dflt =
     \<lparr>si_key = key, si_label = text, si_kind = kind, si_hint = hint, si_required = required, si_default = dflt\<rparr>"

definition SHAPES :: "shape list" where
  "SHAPES =
     [\<lparr>sh_key = ''amount_limit'', sh_name = ''Transaction limit'', sh_question = ''Is this transaction larger than a limit?'',
       sh_category = ''kyc'', sh_reference = ''CBN KYC tiering'',
       sh_inputs = [control ''subject'' ''What to measure'' ''fact'' [] True (PStr ''amount_minor''),
                    control ''limit'' ''Limit'' ''amount''
                      (''A fixed amount, or the name of a fact holding the customer'' @ [CHR 39] @ ''s limit.'') True PNone],
       sh_severity = ''block''\<rparr>,
      \<lparr>sh_key = ''velocity_count'', sh_name = ''Too many transactions'',
       sh_question = ''Has this customer made too many transactions in a period?'',
       sh_category = ''velocity'', sh_reference = ''AML transaction monitoring'',
       sh_inputs = [control ''window'' ''Over what period'' ''window'' [] True (PStr ''1h''),
                    control ''count'' ''More than how many'' ''number'' [] True (PInt 5),
                    control ''min_amount_minor'' ''Counting only transactions above'' ''amount''
                      ''Leave blank to count every transaction.'' False PNone],
       sh_severity = ''flag''\<rparr>,
      \<lparr>sh_key = ''structuring'', sh_name = ''Structuring'',
       sh_question = ''Is this customer splitting transactions to sit under a reporting threshold?'',
       sh_category = ''aml'', sh_reference = ''NFIU reporting obligations'',
       sh_inputs = [control ''window'' ''Over what period'' ''window'' [] True (PStr ''24h''),
                    control ''count'' ''At least how many'' ''number'' [] True (PInt 3),
                    control ''percent'' ''Within what percentage below the threshold'' ''number''
                      ''90 means between 90% and 100% of the reporting threshold.'' True (PInt 90),
                    control ''threshold_fact'' ''Threshold'' ''fact'' [] False (PStr ''reporting_threshold_minor'')],
       sh_severity = ''flag''\<rparr>,
      \<lparr>sh_key = ''dormant_reactivation'', sh_name = ''Dormant account reactivated'',
       sh_question = ''Has a quiet account suddenly moved a large amount?'',
       sh_category = ''fraud'', sh_reference = ''AML suspicious pattern monitoring'',
       sh_inputs = [control ''days'' ''Quiet for more than how many days'' ''number'' [] True (PInt 90),
                    control ''amount_minor'' ''And now moving more than'' ''amount'' [] True PNone],
       sh_severity = ''flag''\<rparr>,
      \<lparr>sh_key = ''corridor'', sh_name = ''High-risk corridor'',
       sh_question = ''Is this going somewhere risky, and does that matter more right now?'',
       sh_category = ''aml'', sh_reference = ''AML high-risk jurisdiction monitoring'',
       sh_inputs = [control ''list_name'' ''Which list of countries'' ''list'' [] True (PStr ''high_risk_countries''),
                    control ''max_kyc_tier'' ''Only for tiers below'' ''number'' [] False (PInt 3),
                    control ''from_hour'' ''Only before hour'' ''number'' [] False PNone,
                    control ''to_hour'' ''And after hour'' ''number'' [] False PNone],
       sh_severity = ''flag''\<rparr>,
      \<lparr>sh_key = ''new_account'', sh_name = ''Large first transaction'',
       sh_question = ''Is a brand-new account moving an unusually large amount?'',
       sh_category = ''fraud'', sh_reference = ''AML onboarding risk'',
       sh_inputs = [control ''days'' ''Opened fewer than how many days ago'' ''number'' [] True (PInt 7),
                    control ''amount_minor'' ''And moving more than'' ''amount'' [] True PNone],
       sh_severity = ''flag''\<rparr>]"

definition SHAPES_BY_KEY :: "string \<rightharpoonup> shape" where
  "SHAPES_BY_KEY k = map_of (map (\<lambda>s. (sh_key s, s)) SHAPES) k"

record build_result =
  br_expression :: string
  br_structured :: pyval
  br_valid :: bool
  br_error :: "rule_syntax_error option"

definition build_shape :: "python_parser \<Rightarrow> string \<Rightarrow> answers \<Rightarrow> exn + build_result" where
  "build_shape py shape_key vals =
     (case SHAPES_BY_KEY shape_key of
        None \<Rightarrow> Inl KeyError
      | Some sh \<Rightarrow>
          bindE (case map_of BUILDERS (sh_key sh) of None \<Rightarrow> Inl KeyError | Some f \<Rightarrow> f vals) (\<lambda>structured.
            Inr (case bindE (to_expression structured) (\<lambda>e. bindE (validate_source py e) (\<lambda>_. Inr e)) of
                   Inl err \<Rightarrow> \<lparr>br_expression = [], br_structured = structured, br_valid = False, br_error = Some err\<rparr>
                 | Inr e \<Rightarrow> \<lparr>br_expression = e, br_structured = structured, br_valid = True, br_error = None\<rparr>)))"


section \<open>Preview\<close>

text \<open>\<open>str.isdigit\<close> on the characters of this model: the digits and the superscripts two, three and
  one. \<open>int(text)\<close> refuses more than 4300 digits.\<close>

definition isdigit_c :: "char \<Rightarrow> bool" where
  "isdigit_c c \<longleftrightarrow> is_ascii_digit c \<or> ord_c c \<in> {178, 179, 185}"

definition isdigit :: "string \<Rightarrow> bool" where
  "isdigit s \<longleftrightarrow> s \<noteq> [] \<and> list_all isdigit_c s"

definition INT_MAX_STR_DIGITS :: nat where "INT_MAX_STR_DIGITS = 4300"

definition int_of_text :: "string \<Rightarrow> exn + int" where
  "int_of_text s =
     (if length (filter is_ascii_digit s) > INT_MAX_STR_DIGITS then Inl ValueError
      else (case parse_int s of None \<Rightarrow> Inl ValueError | Some i \<Rightarrow> Inr i))"

definition answer_of :: "string \<Rightarrow> exn + pyval" where
  "answer_of raw =
     (if isdigit (dropWhile (\<lambda>c. c = CHR ''-'') raw) then bindE (int_of_text raw) (\<lambda>i. Inr (PInt i)) else Inr (PStr raw))"

text \<open>The loop over the controls of the shape. The keys of a shape are distinct, so the dictionary is
  the list of its answers.\<close>

fun answers_of :: "(string \<rightharpoonup> string) \<Rightarrow> shape_input list \<Rightarrow> exn + answers" where
  "answers_of post [] = Inr []"
| "answers_of post (c # cs) =
     (let raw = py_strip (case post (si_key c) of None \<Rightarrow> [] | Some s \<Rightarrow> s)
      in if raw = [] then answers_of post cs
         else bindE (answer_of raw) (\<lambda>v. bindE (answers_of post cs) (\<lambda>vs. Inr ((si_key c, v) # vs))))"

datatype preview_answer =
    Not_found
  | Answers_missing
  | Refused rule_syntax_error
  | Previewed string
  | Server_error exn

definition preview :: "python_parser \<Rightarrow> (string \<rightharpoonup> string) \<Rightarrow> preview_answer" where
  "preview py post =
     (case (case post ''shape'' of None \<Rightarrow> None | Some k \<Rightarrow> SHAPES_BY_KEY k) of
        None \<Rightarrow> Not_found
      | Some sh \<Rightarrow>
          (case answers_of post (sh_inputs sh) of
             Inl e \<Rightarrow> Server_error e
           | Inr vals \<Rightarrow>
               (case build_shape py (sh_key sh) vals of
                  Inl e \<Rightarrow> if e \<in> {KeyError, TypeError} then Answers_missing else Server_error e
                | Inr r \<Rightarrow>
                    (case br_error r of Some err \<Rightarrow> Refused err | None \<Rightarrow> Previewed (br_expression r)))))"

text \<open>The expression editor's check.\<close>

definition validate_expression_view :: "python_parser \<Rightarrow> string \<Rightarrow> rule_syntax_error option" where
  "validate_expression_view py expression =
     (case validate_source py expression of Inl e \<Rightarrow> Some e | Inr _ \<Rightarrow> None)"



section \<open>The tree a structured rule spells\<close>

definition name_of :: "pyval \<Rightarrow> string" where
  "name_of v = (case v of PStr n \<Rightarrow> n | _ \<Rightarrow> [])"

definition parts_of :: "pyval option \<Rightarrow> pyval list" where
  "parts_of v = (case v of Some (PList xs) \<Rightarrow> xs | _ \<Rightarrow> [])"

definition entries_of :: "pyval option \<Rightarrow> (string \<times> pyval) list" where
  "entries_of v = (case v of Some (PDict d) \<Rightarrow> d | _ \<Rightarrow> [])"

lemma size_parts_of: "x \<in> set (parts_of (map_of d k)) \<Longrightarrow> size x < size (PDict d)"
  using size_dict_lookup [of d k] size_list_value [of x]
  by (fastforce simp: parts_of_def split: option.splits pyval.splits)

lemma size_entries_of: "(a, x) \<in> set (entries_of (map_of d k)) \<Longrightarrow> size x < size (PDict d)"
  using size_dict_lookup [of d k] size_dict_value [of a x]
  by (fastforce simp: entries_of_def split: option.splits pyval.splits)

definition op_of :: "string \<Rightarrow> cmpop" where
  "op_of s =
     (if s = ''>'' then Gt else if s = ''>='' then GtE else if s = ''<'' then Lt else if s = ''<='' then LtE
      else if s = ''=='' then Eq else if s = ''!='' then NotEq else if s = ''in'' then In else NotIn)"

function tree_value :: "pyval \<Rightarrow> expr" where
  "tree_value v =
     (case v of
        PDict d \<Rightarrow>
          (case map_of d ''call'' of
             Some c \<Rightarrow>
               Call (Name (name_of c)) (map tree_value (parts_of (map_of d ''positional'')))
                 (map (\<lambda>(k, x). Keyword (Some k) (tree_value x)) (entries_of (map_of d ''args'')))
           | None \<Rightarrow> Name (case map_of d ''fact'' of Some f \<Rightarrow> name_of f | None \<Rightarrow> []))
      | PInt i \<Rightarrow> if i < 0 then UnaryOp USub (Constant (PInt (- i))) else Constant v
      | PList vs \<Rightarrow> List_e (map tree_value vs)
      | _ \<Rightarrow> Constant v)"
  by pat_completeness auto
termination
  by (relation "measure size") (auto dest: size_parts_of size_entries_of size_list_value)

declare tree_value.simps [simp del]

definition tree_comparison :: "(string \<times> pyval) list \<Rightarrow> expr" where
  "tree_comparison d =
     (case (map_of d ''op'', map_of d ''value'') of
        (Some opv, Some v) \<Rightarrow> Compare (tree_value (PDict d)) [op_of (name_of opv)] [tree_value v]
      | _ \<Rightarrow> tree_value (PDict d))"

definition tree_group :: "boolop \<Rightarrow> expr list \<Rightarrow> expr" where
  "tree_group b es = (case es of [e] \<Rightarrow> e | _ \<Rightarrow> BoolOp b es)"

function tree_of :: "pyval \<Rightarrow> expr" where
  "tree_of node =
     (case node of
        PDict d \<Rightarrow>
          (if map_of d ''all'' \<noteq> None then tree_group And (map tree_of (parts_of (map_of d ''all'')))
           else if map_of d ''any'' \<noteq> None then tree_group Or (map tree_of (parts_of (map_of d ''any'')))
           else (case map_of d ''not'' of Some n \<Rightarrow> UnaryOp Not_op (tree_of n) | None \<Rightarrow> tree_comparison d))
      | _ \<Rightarrow> Constant PNone)"
  by pat_completeness auto
termination
  by (relation "measure size") (auto dest: size_parts_of size_dict_lookup)

declare tree_of.simps [simp del]

definition reads_structured :: "python_parser \<Rightarrow> pyval \<Rightarrow> bool" where
  "reads_structured py node \<longleftrightarrow>
     (case to_expression node of Inl e \<Rightarrow> True | Inr e \<Rightarrow> parse_eval py (py_strip e) = Parsed (tree_of node))"


section \<open>What the questions ask\<close>

record world =
  wo_fact :: "string \<Rightarrow> exn + pyval"
  wo_velocity :: velocity_provider
  wo_dates :: "string \<Rightarrow> py_datetime option"
  wo_now :: int

definition amount_above :: "world \<Rightarrow> pyval \<Rightarrow> exn + bool" where
  "amount_above w limit = bindE (wo_fact w ''amount_minor'') (\<lambda>a. compare_values Gt a limit)"

definition days_since_fact :: "world \<Rightarrow> string \<Rightarrow> exn + pyval" where
  "days_since_fact w f = bindE (wo_fact w f) (\<lambda>t. days_since (wo_dates w) (wo_now w) [t])"

definition hour_now :: "world \<Rightarrow> pyval" where
  "hour_now w = PInt ((wo_now w mod US_PER_DAY) div 3600000000)"

definition both :: "exn + bool \<Rightarrow> exn + bool \<Rightarrow> exn + bool" where
  "both a b = bindE a (\<lambda>x. if x then b else Inr False)"

definition either :: "exn + bool \<Rightarrow> exn + bool \<Rightarrow> exn + bool" where
  "either a b = bindE a (\<lambda>x. if x then Inr True else b)"

definition shape_meaning :: "world \<Rightarrow> string \<Rightarrow> answers \<Rightarrow> exn + bool" where
  "shape_meaning w key vals =
     (let v = (\<lambda>k. get_or vals k PNone) in
      if key = ''amount_limit'' then
        bindE (wo_fact w (name_of (get_or vals ''subject'' (PStr ''amount_minor'')))) (\<lambda>a.
        bindE (case v ''limit'' of PStr f \<Rightarrow> wo_fact w f | l \<Rightarrow> Inr l) (\<lambda>l. compare_values Gt a l))
      else if key = ''velocity_count'' then
        bindE (velocity_count (wo_velocity w) [v ''window'', if truthy (v ''min_amount_minor'') then v ''min_amount_minor'' else PNone, PNone, PNone])
          (\<lambda>n. compare_values Gt n (v ''count''))
      else if key = ''structuring'' then
        (let threshold = wo_fact w (name_of (get_or vals ''threshold_fact'' (PStr ''reporting_threshold_minor''))) in
         bindE threshold (\<lambda>t.
         bindE (percent_of [t, get_or vals ''percent'' (PInt 90)]) (\<lambda>least.
         bindE (velocity_count (wo_velocity w) [v ''window'', least, t, PNone]) (\<lambda>n. compare_values GtE n (v ''count'')))))
      else if key = ''dormant_reactivation'' then
        both (bindE (days_since_fact w (name_of (get_or vals ''since_fact'' (PStr ''last_transaction_at'')))) (\<lambda>d. compare_values Gt d (v ''days'')))
             (amount_above w (v ''amount_minor''))
      else if key = ''corridor'' then
        both (bindE (wo_fact w ''destination_country'') (\<lambda>c.
              bindE (wo_fact w (name_of (get_or vals ''list_name'' (PStr ''high_risk_countries'')))) (\<lambda>l.
              bindE (in_list [c, l]) (\<lambda>r. Inr (truthy r)))))
        (both (if truthy (v ''max_kyc_tier'') then bindE (wo_fact w ''kyc_tier'') (\<lambda>k. compare_values Lt k (v ''max_kyc_tier'')) else Inr True)
              (if v ''from_hour'' \<noteq> PNone \<and> v ''to_hour'' \<noteq> PNone
               then either (compare_values Lt (hour_now w) (v ''from_hour'')) (compare_values Gt (hour_now w) (v ''to_hour''))
               else Inr True))
      else
        both (bindE (days_since_fact w ''account_created_at'') (\<lambda>d. compare_values Lt d (v ''days'')))
             (amount_above w (v ''amount_minor'')))"

definition world_of :: "(string \<rightharpoonup> pyval) \<Rightarrow> (string \<Rightarrow> py_datetime option) \<Rightarrow> velocity_provider \<Rightarrow> int \<Rightarrow> world" where
  "world_of facts fi vp now =
     \<lparr>wo_fact = read_fact \<lparr>ctx_facts = facts, ctx_functions = build fi vp now\<rparr>, wo_velocity = vp, wo_dates = fi, wo_now = now\<rparr>"


section \<open>Evaluating the spelled trees\<close>

text \<open>The form sends whole numbers and texts.\<close>

fun plain :: "pyval \<Rightarrow> bool" where
  "plain (PInt i) = True"
| "plain (PStr s) = True"
| "plain _ = False"

lemma tree_plain [simp]:
  "tree_value (PInt i) = (if i < 0 then UnaryOp USub (Constant (PInt (- i))) else Constant (PInt i))"
  "tree_value (PStr s) = Constant (PStr s)"
  by (simp_all add: tree_value.simps [of "PInt i"] tree_value.simps [of "PStr s"])

lemma denote_plain: "plain v \<Longrightarrow> denote ctx (tree_value v) = Inr v"
  by (cases v) simp_all

lemma tree_fact [simp]: "tree_value (fact_node f) = Name (name_of f)"
  by (simp add: fact_node_def tree_value.simps)

lemma tree_call:
  "tree_value (PDict ((''call'', c) # d)) =
     Call (Name (name_of c)) (map tree_value (parts_of (map_of d ''positional'')))
       (map (\<lambda>(k, x). Keyword (Some k) (tree_value x)) (entries_of (map_of d ''args'')))"
  by (subst tree_value.simps) simp

lemma build_simps [simp]:
  "build fi vp now ''velocity_count'' = Some (call_python velocity_sig (velocity_count vp))"
  "build fi vp now ''days_since'' = Some (call_python [(''timestamp'', None)] (days_since fi now))"
  "build fi vp now ''in_list'' = Some (call_python [(''value'', None), (''candidates'', None)] in_list)"
  "build fi vp now ''hour_of_day'' = Some (call_python [] (hour_of_day now))"
  "build fi vp now ''percent_of'' = Some (call_python [(''amount'', None), (''percent'', None)] percent_of)"
  by (simp_all add: build_def build_table_def)

lemma need_Inr: "need vals k = Inr v \<longleftrightarrow> map_of vals k = Some v"
  by (auto simp: need_def split: option.splits)

lemma get_or_plain: "\<forall>(k, v) \<in> set vals. plain v \<Longrightarrow> plain d \<Longrightarrow> plain (get_or vals k d)"
  by (auto simp: get_or_def dest: map_of_SomeD split: option.splits)

lemma op_of_simps [simp]: "op_of ''>'' = Gt" "op_of ''>='' = GtE" "op_of ''<'' = Lt"
  by (simp_all add: op_of_def)

lemma name_of_PStr [simp]: "name_of (PStr s) = s"
  by (simp add: name_of_def)

text \<open>A comparison, a group, and how they decide.\<close>

lemma tree_of_comparison:
  "map_of d ''all'' = None \<Longrightarrow> map_of d ''any'' = None \<Longrightarrow> map_of d ''not'' = None \<Longrightarrow>
   map_of d ''op'' = Some (PStr op) \<Longrightarrow> map_of d ''value'' = Some v \<Longrightarrow>
   tree_of (PDict d) = Compare (tree_value (PDict d)) [op_of op] [tree_value v]"
  by (subst tree_of.simps) (simp add: tree_comparison_def)

lemma tree_of_all: "tree_of (PDict [(''all'', PList ps)]) = tree_group And (map tree_of ps)"
  by (subst tree_of.simps) (simp add: parts_of_def)

lemma tree_of_any: "tree_of (PDict [(''any'', PList ps)]) = tree_group Or (map tree_of ps)"
  by (subst tree_of.simps) (simp add: parts_of_def)

definition holds :: "evaluation_context \<Rightarrow> expr \<Rightarrow> exn + bool" where
  "holds ctx e = bindE (denote ctx e) (\<lambda>v. Inr (truthy v))"

lemma bindE_Inr_id [simp]: "bindE r Inr = r"
  by (cases r) simp_all

lemma bindE_if_id: "bindE r (\<lambda>c. if c then Inr True else Inr False) = r"
  by (cases r) simp_all

lemma bindE_if: "bindE (if b then r else s) f = (if b then bindE r f else bindE s f)"
  by simp

lemma holds_comparison:
  "op \<noteq> In \<Longrightarrow> op \<noteq> NotIn \<Longrightarrow>
   holds ctx (Compare l [op] [e]) = bindE (denote ctx l) (\<lambda>v. bindE (denote ctx e) (compare_values op v))"
  by (simp add: holds_def bindE_assoc compare_op_def bindE_if_id cong del: if_weak_cong)

lemma holds_and: "holds ctx (BoolOp And [a, b]) = both (holds ctx a) (holds ctx b)"
  by (cases "denote ctx a"; cases "denote ctx b") (simp_all add: holds_def both_def bindE_if cong del: if_weak_cong)

lemma holds_and3: "holds ctx (BoolOp And [a, b, c]) = both (holds ctx a) (both (holds ctx b) (holds ctx c))"
  by (cases "denote ctx a"; cases "denote ctx b"; cases "denote ctx c") (simp_all add: holds_def both_def bindE_if cong del: if_weak_cong)

lemma holds_or: "holds ctx (BoolOp Or [a, b]) = either (holds ctx a) (holds ctx b)"
  by (cases "denote ctx a"; cases "denote ctx b") (simp_all add: holds_def either_def bindE_if cong del: if_weak_cong)

abbreviation world_context :: "(string \<rightharpoonup> pyval) \<Rightarrow> (string \<Rightarrow> py_datetime option) \<Rightarrow> velocity_provider \<Rightarrow> int \<Rightarrow> evaluation_context" where
  "world_context facts fi vp now \<equiv> \<lparr>ctx_facts = facts, ctx_functions = build fi vp now\<rparr>"

lemma world_simps [simp]:
  "wo_fact (world_of facts fi vp now) = read_fact (world_context facts fi vp now)"
  "wo_velocity (world_of facts fi vp now) = vp" "wo_dates (world_of facts fi vp now) = fi" "wo_now (world_of facts fi vp now) = now"
  by (simp_all add: world_of_def)

lemma above_amount_holds:
  "plain a \<Longrightarrow> holds (world_context facts fi vp now) (tree_of (above_amount a)) = amount_above (world_of facts fi vp now) a"
  by (simp add: above_amount_def tree_of_comparison holds_comparison denote_plain amount_above_def tree_value.simps [of "PDict _"])

lemma days_holds:
  assumes "plain d" and "op \<in> {''<'', ''>''}"
  shows "holds (world_context facts fi vp now) (tree_of (PDict [(''call'', PStr ''days_since''), (''positional'', PList [fact_node f]),
            (''op'', PStr op), (''value'', d)]))
    = bindE (days_since_fact (world_of facts fi vp now) (name_of f)) (\<lambda>n. compare_values (op_of op) n d)"
  using assms
  by (auto simp: tree_of_comparison tree_call holds_comparison denote_plain days_since_fact_def parts_of_def entries_of_def
      call_python_def bind_params_def bindE_assoc)

lemma hour_holds:
  assumes "plain h" and "op \<in> {''<'', ''>''}"
  shows "holds (world_context facts fi vp now) (tree_of (hour_part op h)) = compare_values (op_of op) (hour_now (world_of facts fi vp now)) h"
  using assms
  by (auto simp: hour_part_def tree_of_comparison tree_call holds_comparison denote_plain parts_of_def entries_of_def
      call_python_def bind_params_def hour_now_def)

lemma amount_limit_holds:
  assumes "\<forall>(k, v) \<in> set vals. plain v" and "amount_limit vals = Inr s"
  shows "holds (world_context facts fi vp now) (tree_of s) = shape_meaning (world_of facts fi vp now) ''amount_limit'' vals"
proof -
  from assms(2) obtain l where l: "map_of vals ''limit'' = Some l"
    and s: "s = PDict [(''fact'', get_or vals ''subject'' (PStr ''amount_minor'')), (''op'', PStr ''>''),
        (''value'', case l of PStr x \<Rightarrow> fact_node l | _ \<Rightarrow> l)]"
    by (auto simp: amount_limit_def need_Inr Let_def)
  from l assms(1) have "plain l" by (auto dest: map_of_SomeD)
  then show ?thesis
    by (cases l) (simp_all add: s shape_meaning_def tree_of_comparison holds_comparison get_or_def [of vals "''limit''"] l
        tree_value.simps [of "PDict _"])
qed

lemma new_account_holds:
  assumes "\<forall>(k, v) \<in> set vals. plain v" and "new_account vals = Inr s"
  shows "holds (world_context facts fi vp now) (tree_of s) = shape_meaning (world_of facts fi vp now) ''new_account'' vals"
proof -
  from assms(2) obtain d a where v: "map_of vals ''days'' = Some d" "map_of vals ''amount_minor'' = Some a"
    and s: "s = PDict [(''all'', PList [PDict [(''call'', PStr ''days_since''), (''positional'', PList [fact_node (PStr ''account_created_at'')]),
                 (''op'', PStr ''<''), (''value'', d)], above_amount a])]"
    by (auto simp: new_account_def need_Inr)
  from v assms(1) have "plain d" "plain a" by (auto dest: map_of_SomeD)
  with v show ?thesis
    by (simp add: s tree_of_all tree_group_def holds_and days_holds above_amount_holds shape_meaning_def get_or_def)
qed

lemma dormant_holds:
  assumes "\<forall>(k, v) \<in> set vals. plain v" and "dormant_reactivation vals = Inr s"
  shows "holds (world_context facts fi vp now) (tree_of s) = shape_meaning (world_of facts fi vp now) ''dormant_reactivation'' vals"
proof -
  from assms(2) obtain d a where v: "map_of vals ''days'' = Some d" "map_of vals ''amount_minor'' = Some a"
    and s: "s = PDict [(''all'', PList [PDict [(''call'', PStr ''days_since''),
                 (''positional'', PList [fact_node (get_or vals ''since_fact'' (PStr ''last_transaction_at''))]),
                 (''op'', PStr ''>''), (''value'', d)], above_amount a])]"
    by (auto simp: dormant_reactivation_def need_Inr)
  from v assms(1) have "plain d" "plain a" by (auto dest: map_of_SomeD)
  with v show ?thesis
    by (simp add: s tree_of_all tree_group_def holds_and days_holds above_amount_holds shape_meaning_def get_or_def [of vals "''days''"]
        get_or_def [of vals "''amount_minor''"])
qed

lemma velocity_keywords_in [simp]:
  "set [] \<subseteq> set velocity_keywords" "''window'' \<in> set velocity_keywords"
  "''min_amount_minor'' \<in> set velocity_keywords" "''max_amount_minor'' \<in> set velocity_keywords"
  by (simp_all add: velocity_keywords_def)

lemma velocity_count_holds:
  assumes "\<forall>(k, v) \<in> set vals. plain v" and "velocity_count_shape vals = Inr s"
  shows "holds (world_context facts fi vp now) (tree_of s) = shape_meaning (world_of facts fi vp now) ''velocity_count'' vals"
proof -
  let ?least = "get_or vals ''min_amount_minor'' PNone"
  from assms(2) obtain w n where v: "map_of vals ''window'' = Some w" "map_of vals ''count'' = Some n"
    and s: "s = PDict [(''call'', PStr ''velocity_count''), (''args'', PDict ([(''window'', w)] @
        (if truthy ?least then [(''min_amount_minor'', ?least)] else []))), (''op'', PStr ''>''), (''value'', n)]"
    by (auto simp: velocity_count_shape_def need_Inr Let_def)
  from v assms(1) have p: "plain w" "plain n" by (auto dest: map_of_SomeD)
  have least: "plain ?least" if "truthy ?least"
    using that assms(1) by (auto simp: get_or_def dest: map_of_SomeD split: option.splits)
  show ?thesis
  proof (cases "truthy ?least")
    case True
    with v p least show ?thesis
      by (simp add: s tree_of_comparison tree_call holds_comparison denote_plain parts_of_def entries_of_def call_python_def bind_velocity dict_put_def
          shape_meaning_def get_or_def [of vals "''window''"] get_or_def [of vals "''count''"])
  next
    case False
    with v p show ?thesis
      by (simp add: s tree_of_comparison tree_call holds_comparison denote_plain parts_of_def entries_of_def call_python_def bind_velocity dict_put_def
          shape_meaning_def get_or_def [of vals "''window''"] get_or_def [of vals "''count''"])
  qed
qed

lemma structuring_holds:
  assumes "\<forall>(k, v) \<in> set vals. plain v" and "structuring vals = Inr s"
  shows "holds (world_context facts fi vp now) (tree_of s) = shape_meaning (world_of facts fi vp now) ''structuring'' vals"
proof -
  let ?t = "get_or vals ''threshold_fact'' (PStr ''reporting_threshold_minor'')" and ?p = "get_or vals ''percent'' (PInt 90)"
  from assms(2) obtain w n where v: "map_of vals ''window'' = Some w" "map_of vals ''count'' = Some n"
    and s: "s = PDict [(''call'', PStr ''velocity_count''),
          (''args'', PDict [(''window'', w),
              (''min_amount_minor'', PDict [(''call'', PStr ''percent_of''), (''positional'', PList [fact_node ?t, ?p])]),
              (''max_amount_minor'', fact_node ?t)]),
          (''op'', PStr ''>=''), (''value'', n)]"
    by (auto simp: structuring_def need_Inr Let_def)
  from v assms(1) have p: "plain w" "plain n" by (auto dest: map_of_SomeD)
  have pp: "plain ?p" using assms(1) by (rule get_or_plain) simp
  show ?thesis
  proof (cases "read_fact (world_context facts fi vp now) (name_of ?t)")
    case (Inl e)
    with v p pp show ?thesis
      by (simp add: s tree_of_comparison tree_call holds_comparison denote_plain parts_of_def entries_of_def shape_meaning_def)
  next
    case (Inr t)
    with v p pp show ?thesis
      by (simp add: s tree_of_comparison tree_call holds_comparison denote_plain parts_of_def entries_of_def call_python_def bind_velocity dict_put_def
          bind_params_exact bindE_assoc shape_meaning_def get_or_def [of vals "''window''"] get_or_def [of vals "''count''"]
          del: percent_of.simps)
  qed
qed

lemma listed_holds:
  "holds (world_context facts fi vp now) (tree_of (PDict [(''call'', PStr ''in_list''), (''positional'', PList [fact_node a, fact_node b])]))
    = bindE (read_fact (world_context facts fi vp now) (name_of a)) (\<lambda>c.
      bindE (read_fact (world_context facts fi vp now) (name_of b)) (\<lambda>l. bindE (in_list [c, l]) (\<lambda>r. Inr (truthy r))))"
  by (subst tree_of.simps)
    (simp add: tree_comparison_def tree_call holds_def parts_of_def entries_of_def call_python_def bind_params_exact bindE_assoc del: in_list.simps)

lemma tier_holds:
  "plain t \<Longrightarrow> holds (world_context facts fi vp now) (tree_of (PDict [(''fact'', PStr ''kyc_tier''), (''op'', PStr ''<''), (''value'', t)]))
    = bindE (read_fact (world_context facts fi vp now) ''kyc_tier'') (\<lambda>k. compare_values Lt k t)"
  by (simp add: tree_of_comparison holds_comparison denote_plain tree_value.simps [of "PDict _"])

lemma both_Inr_True [simp]: "both a (Inr True) = a" "both (Inr True) a = a"
  by (cases a; simp add: both_def)+

lemma corridor_holds:
  assumes "\<forall>(k, v) \<in> set vals. plain v" and "corridor vals = Inr s"
  shows "holds (world_context facts fi vp now) (tree_of s) = shape_meaning (world_of facts fi vp now) ''corridor'' vals"
proof -
  have got: "plain (get_or vals k PNone)" if "get_or vals k PNone \<noteq> PNone" for k
    using that assms(1) by (auto simp: get_or_def dest: map_of_SomeD split: option.splits)
  have "truthy t \<Longrightarrow> t \<noteq> PNone" for t by auto
  with got have tier: "truthy (get_or vals ''max_kyc_tier'' PNone) \<Longrightarrow> plain (get_or vals ''max_kyc_tier'' PNone)" by blast
  show ?thesis
    using assms(2) tier got
    by (auto simp: corridor_def Let_def tree_of_all tree_group_def tree_of_any holds_and holds_and3 holds_or listed_holds tier_holds
        hour_holds shape_meaning_def)
qed



section \<open>Properties\<close>

lemma answer_of_plain: "answer_of raw = Inr v \<Longrightarrow> plain v"
  by (auto simp: answer_of_def split: if_splits)

lemma answers_plain: "answers_of post cs = Inr vals \<Longrightarrow> \<forall>(k, v) \<in> set vals. plain v"
  by (induction cs arbitrary: vals) (auto simp: Let_def answer_of_plain split: if_splits)

lemma int_of_text_error: "int_of_text s = Inl e \<Longrightarrow> e = ValueError"
  by (auto simp: int_of_text_def split: if_splits option.splits)

definition answer_text :: "(string \<rightharpoonup> string) \<Rightarrow> string \<Rightarrow> string" where
  "answer_text post key = py_strip (case post key of None \<Rightarrow> [] | Some s \<Rightarrow> s)"

text \<open>Texts that look like a number to \<open>isdigit\<close> and are none to \<open>int\<close>.\<close>

definition no_number :: "string \<Rightarrow> bool" where
  "no_number raw \<longleftrightarrow> isdigit (dropWhile (\<lambda>c. c = CHR ''-'') raw) \<and> int_of_text raw = Inl ValueError"

lemma answers_of_Inl:
  "answers_of post cs = Inl e \<longleftrightarrow> e = ValueError \<and> (\<exists>c \<in> set cs. no_number (answer_text post (si_key c)))"
proof (induction cs)
  case (Cons c cs)
  have nil: "\<not> no_number []" by (simp add: no_number_def isdigit_def)
  have "answer_of raw = Inl e \<longleftrightarrow> e = ValueError \<and> no_number raw" for raw e
    using int_of_text_error by (auto simp: answer_of_def no_number_def bindE_eq_Inl)
  with Cons nil show ?case
    by (auto simp: Let_def bindE_eq_Inl answer_text_def no_number_def split: sum.split)
       (metis sum.exhaust)+
qed simp

text \<open>The answers each shape cannot do without.\<close>

definition needed :: "string \<Rightarrow> string list" where
  "needed key =
     (if key = ''amount_limit'' then [''limit'']
      else if key \<in> {''velocity_count'', ''structuring''} then [''window'', ''count'']
      else if key = ''corridor'' then [] else [''days'', ''amount_minor''])"

lemma answers_of_blank:
  "answers_of post cs = Inr vals \<Longrightarrow> map_of vals k = None \<longleftrightarrow> k \<notin> si_key ` set cs \<or> answer_text post k = []"
  by (induction cs arbitrary: vals) (auto simp: Let_def answer_text_def split: if_splits)

lemma shape_keys: "SHAPES_BY_KEY key = Some sh \<Longrightarrow> sh_key sh = key \<and>
    key \<in> {''amount_limit'', ''velocity_count'', ''structuring'', ''dormant_reactivation'', ''corridor'', ''new_account''}"
  by (auto simp: SHAPES_BY_KEY_def SHAPES_def split: if_splits)

lemmas builder_defs =
  amount_limit_def velocity_count_shape_def structuring_def dormant_reactivation_def corridor_def new_account_def

lemma need_Inl: "need vals k = Inl e \<longleftrightarrow> e = KeyError \<and> map_of vals k = None"
  by (auto simp: need_def split: option.splits)

lemma builders_missing:
  "amount_limit vals = Inl e \<longleftrightarrow> e = KeyError \<and> map_of vals ''limit'' = None"
  "velocity_count_shape vals = Inl e \<longleftrightarrow> e = KeyError \<and> (map_of vals ''window'' = None \<or> map_of vals ''count'' = None)"
  "structuring vals = Inl e \<longleftrightarrow> e = KeyError \<and> (map_of vals ''window'' = None \<or> map_of vals ''count'' = None)"
  "dormant_reactivation vals = Inl e \<longleftrightarrow> e = KeyError \<and> (map_of vals ''days'' = None \<or> map_of vals ''amount_minor'' = None)"
  "corridor vals = Inl e \<longleftrightarrow> False"
  "new_account vals = Inl e \<longleftrightarrow> e = KeyError \<and> (map_of vals ''days'' = None \<or> map_of vals ''amount_minor'' = None)"
  by (auto simp: builder_defs Let_def bindE_eq_Inl need_Inl need_Inr)

lemma build_missing:
  assumes "SHAPES_BY_KEY key = Some sh"
  shows "build_shape py key vals = Inl e \<longleftrightarrow> e = KeyError \<and> (\<exists>k \<in> set (needed key). map_of vals k = None)"
proof -
  have "build_shape py key vals = Inl e \<longleftrightarrow> (case map_of BUILDERS key of None \<Rightarrow> e = KeyError | Some f \<Rightarrow> f vals = Inl e)"
    using shape_keys [OF assms] by (auto simp: build_shape_def assms bindE_eq_Inl split: option.splits)
  also have "\<dots> \<longleftrightarrow> e = KeyError \<and> (\<exists>k \<in> set (needed key). map_of vals k = None)"
    using shape_keys [OF assms] by (auto simp: BUILDERS_def builders_missing needed_def)
  finally show ?thesis .
qed

lemma builder_holds:
  assumes "map_of BUILDERS key = Some f" and "f vals = Inr s" and "\<forall>(k, v) \<in> set vals. plain v"
  shows "holds (world_context facts fi vp now) (tree_of s) = shape_meaning (world_of facts fi vp now) key vals"
  using assms
  by (auto simp: BUILDERS_def amount_limit_holds velocity_count_holds structuring_holds dormant_holds corridor_holds new_account_holds
      split: if_splits)

lemma build_shape_Inr:
  assumes "build_shape py key vals = Inr r" and "br_error r = None"
  obtains f where "map_of BUILDERS key = Some f" "f vals = Inr (br_structured r)"
    "to_expression (br_structured r) = Inr (br_expression r)" "is_ok (validate_source py (br_expression r))"
proof -
  from assms(1) obtain sh where "SHAPES_BY_KEY key = Some sh" by (auto simp: build_shape_def split: option.splits)
  with shape_keys [OF this] assms(1) obtain f s where f: "map_of BUILDERS key = Some f" "f vals = Inr s"
    and r: "r = (case bindE (to_expression s) (\<lambda>e. bindE (validate_source py e) (\<lambda>_. Inr e)) of
                   Inl err \<Rightarrow> \<lparr>br_expression = [], br_structured = s, br_valid = False, br_error = Some err\<rparr>
                 | Inr e \<Rightarrow> \<lparr>br_expression = e, br_structured = s, br_valid = True, br_error = None\<rparr>)"
    by (auto simp: build_shape_def split: option.splits)
  from r assms(2) obtain e where e: "to_expression s = Inr e" "is_ok (validate_source py e)" "br_structured r = s" "br_expression r = e"
    by (cases "to_expression s"; cases "validate_source py (sum.projr (to_expression s))") (auto simp: is_ok_iff)
  with f that show thesis by simp
qed


text \<open>What a preview can come to: for a form naming one of the six shapes, the server fails
  exactly if an answer looks like a number to \<open>isdigit\<close>, leading dashes aside, and is none to \<open>int\<close>
  (two dashes, a superscript, too many digits); otherwise the officer is told that answers are
  missing exactly if one of those the shape cannot do without is blank; otherwise the rule is
  refused or shown.\<close>

theorem preview_outcomes:
  assumes "post ''shape'' = Some key" and "SHAPES_BY_KEY key = Some sh"
  shows "(preview py post = Server_error e \<longleftrightarrow>
            e = ValueError \<and> (\<exists>c \<in> set (sh_inputs sh). no_number (answer_text post (si_key c))))
    \<and> (preview py post = Answers_missing \<longleftrightarrow>
            \<not> (\<exists>c \<in> set (sh_inputs sh). no_number (answer_text post (si_key c))) \<and> (\<exists>k \<in> set (needed key). answer_text post k = []))
    \<and> preview py post \<noteq> Not_found"
proof (cases "answers_of post (sh_inputs sh)")
  case (Inl e')
  then show ?thesis
    using answers_of_Inl [of post "sh_inputs sh" e'] by (auto simp: preview_def assms)
next
  case (Inr vals)
  then have numbers: "\<not> (\<exists>c \<in> set (sh_inputs sh). no_number (answer_text post (si_key c)))"
    using answers_of_Inl [of post "sh_inputs sh" ValueError] by auto
  have key: "sh_key sh = key" using shape_keys [OF assms(2)] by simp
  have build: "(\<exists>r. build_shape py key vals = Inr r) \<or> build_shape py key vals = Inl KeyError"
    "(build_shape py key vals = Inl KeyError) \<longleftrightarrow> (\<exists>k \<in> set (needed key). map_of vals k = None)"
    by (cases "build_shape py key vals") (simp_all add: build_missing [OF assms(2)])
  have "map_of vals k = None \<longleftrightarrow> answer_text post k = []" if "k \<in> si_key ` set (sh_inputs sh)" for k
    using answers_of_blank [OF Inr, of k] that by simp
  moreover have "set (needed key) \<subseteq> si_key ` set (sh_inputs sh)"
    using assms(2) by (auto simp: SHAPES_BY_KEY_def SHAPES_def needed_def control_def split: if_splits)
  ultimately have "(build_shape py key vals = Inl KeyError) \<longleftrightarrow> (\<exists>k \<in> set (needed key). answer_text post k = [])"
    unfolding build(2) by blast
  then have missing: "(build_shape py key vals = Inl KeyError) = (\<exists>k \<in> set (needed key). answer_text post k = [])" .
  have "preview py post = (case build_shape py key vals of
      Inl e \<Rightarrow> if e \<in> {KeyError, TypeError} then Answers_missing else Server_error e
    | Inr r \<Rightarrow> (case br_error r of Some err \<Rightarrow> Refused err | None \<Rightarrow> Previewed (br_expression r)))"
    by (simp add: preview_def assms Inr key)
  moreover have "(case br_error r of Some err \<Rightarrow> Refused err | None \<Rightarrow> Previewed (br_expression r)) \<notin> {Server_error e, Answers_missing, Not_found}" for r
    by (cases "br_error r") auto
  ultimately show ?thesis
    using build(1) numbers unfolding missing [symmetric] by (elim disjE exE) auto
qed

definition limit_form :: "string \<rightharpoonup> string" where
  "limit_form = [''shape'' \<mapsto> ''amount_limit'', ''subject'' \<mapsto> ''amount_minor'', ''limit'' \<mapsto> ''100'']"

definition limit_answers :: answers where
  "limit_answers = [(''subject'', PStr ''amount_minor''), (''limit'', PInt 100)]"

definition limit_structured :: pyval where
  "limit_structured = PDict [(''fact'', PStr ''amount_minor''), (''op'', PStr ''>''), (''value'', PInt 100)]"

lemma limit_facts:
  "SHAPES_BY_KEY ''amount_limit'' = Some (SHAPES ! 0)"
  "answers_of limit_form (sh_inputs (SHAPES ! 0)) = Inr limit_answers"
  "to_expression limit_structured = Inr example_source"
  "tree_of limit_structured = example_tree"
  by code_simp+

lemma limit_built:
  "build_shape example_parser ''amount_limit'' limit_answers
     = Inr \<lparr>br_expression = example_source, br_structured = limit_structured, br_valid = True, br_error = None\<rparr>"
proof -
  have "map_of BUILDERS (sh_key (SHAPES ! 0)) = Some amount_limit" by (simp add: BUILDERS_def SHAPES_def)
  moreover have "amount_limit limit_answers = Inr limit_structured" by code_simp
  ultimately show ?thesis
    by (simp add: build_shape_def limit_facts validate_source_example)
qed


definition two_dashes :: "string \<rightharpoonup> string" where
  "two_dashes = [''shape'' \<mapsto> ''new_account'', ''days'' \<mapsto> ''--5'']"

theorem preview_outcomes_witness:
  "preview example_parser two_dashes = Server_error ValueError"
proof -
  have sh: "SHAPES_BY_KEY ''new_account'' = Some (SHAPES ! 5)" by code_simp
  have "si_key (sh_inputs (SHAPES ! 5) ! 0) = ''days''" "sh_inputs (SHAPES ! 5) ! 0 \<in> set (sh_inputs (SHAPES ! 5))"
    by (simp_all add: SHAPES_def control_def)
  moreover have "no_number (answer_text two_dashes ''days'')" by code_simp
  ultimately have "\<exists>c \<in> set (sh_inputs (SHAPES ! 5)). no_number (answer_text two_dashes (si_key c))" by metis
  moreover have "two_dashes ''shape'' = Some ''new_account''" by (simp add: two_dashes_def)
  ultimately show ?thesis
    using preview_outcomes [of two_dashes "''new_account''" "SHAPES ! 5" example_parser ValueError] sh by blast
qed

text \<open>Two silent readings of a form: a tier limit of zero is dropped, so the corridor rule applies to
  every tier instead of none; and one hour without the other is dropped with it.\<close>

lemma corridor_drops_answers:
  "corridor ((''max_kyc_tier'', PInt 0) # vals) = corridor ((''max_kyc_tier'', PNone) # vals)"
  "map_of vals ''to_hour'' = None \<Longrightarrow> corridor ((''from_hour'', h) # vals) = corridor ((''from_hour'', PNone) # vals)"
  by (simp_all add: corridor_def get_or_def)

text \<open>An amount that is no number is taken as a text: the preview shows the rule as valid, and it
  cannot be evaluated for any whole number.\<close>

lemma text_amount_never_compares:
  "amount_above \<lparr>wo_fact = (\<lambda>_. Inr (PInt a)), wo_velocity = vp, wo_dates = fi, wo_now = now\<rparr> (PStr s)
     = eval_error (Uncomparable ''int'' ''str'')"
  by (simp add: amount_above_def compare_values_def same_orderable_kind_def)

end
