(* ===== verification/Dashboard_Diff.thy ===== *)
theory Dashboard_Diff
  imports Backtest
begin

text \<open>
  The approval diff (\<open>src/complylayer/dashboard/diff.py\<close>): the numbers a rule compares with, the one
  threshold that changed, and the words a reviewer reads about it.

  \<open>Decimal\<close> values are rationals with the default context written out: a quotient or product keeps 28
  significant digits, rounded half to even, and \<open>quantize\<close> raises \<open>InvalidOperation\<close> when its result
  needs more. The currency symbols lie outside Latin-1 and are a parameter.
\<close>


section \<open>Decimals\<close>

datatype decimal_error = InvalidOperation

definition PRECISION :: nat where "PRECISION = 28"

definition round_half_even :: "rat \<Rightarrow> int" where
  "round_half_even q =
     (let f = \<lfloor>q\<rfloor>; rest = q - of_int f
      in if rest < 1 / 2 then f else if rest > 1 / 2 then f + 1 else if even f then f else f + 1)"

text \<open>How many places the point of a value below one must move to leave a digit before it.\<close>

fun lead :: "nat \<Rightarrow> rat \<Rightarrow> nat" where
  "lead 0 q = 0"
| "lead (Suc fuel) q = (if q \<ge> 1 then 0 else Suc (lead fuel (10 * q)))"

definition significant_pos :: "rat \<Rightarrow> rat" where
  "significant_pos q =
     (if q \<ge> 1 then
        (let n = length (str_of_nat (nat \<lfloor>q\<rfloor>))
         in if n \<ge> PRECISION
            then of_int (round_half_even (q / 10 ^ (n - PRECISION))) * 10 ^ (n - PRECISION)
            else of_int (round_half_even (q * 10 ^ (PRECISION - n))) / 10 ^ (PRECISION - n))
      else
        (let k = PRECISION - 1 + lead (length (str_of_nat (nat \<lceil>1 / q\<rceil>))) q
         in of_int (round_half_even (q * 10 ^ k)) / 10 ^ k))"

definition significant :: "rat \<Rightarrow> rat" where
  "significant q = (if q = 0 then 0 else if q < 0 then - significant_pos (- q) else significant_pos q)"

definition dec_div :: "rat \<Rightarrow> rat \<Rightarrow> rat" where "dec_div a b = significant (a / b)"

definition dec_mult :: "rat \<Rightarrow> rat \<Rightarrow> rat" where "dec_mult a b = significant (a * b)"

text \<open>\<open>quantize\<close>, in units of the last place.\<close>

definition quantize :: "nat \<Rightarrow> rat \<Rightarrow> decimal_error + int" where
  "quantize places q =
     (let c = round_half_even (q * 10 ^ places) in if \<bar>c\<bar> \<ge> 10 ^ PRECISION then Inl InvalidOperation else Inr c)"

definition two_digits :: "int \<Rightarrow> string" where
  "two_digits n = drop 1 (str_of_int (100 + n))"

text \<open>\<open>_trim\<close> on a value of two places, given in hundredths.\<close>

definition rstrip_char :: "char \<Rightarrow> string \<Rightarrow> string" where
  "rstrip_char c s = rev (dropWhile (\<lambda>x. x = c) (rev s))"

definition hundredths_text :: "int \<Rightarrow> string" where
  "hundredths_text h = str_of_int (h div 100) @ ''.'' @ two_digits (h mod 100)"

definition trim :: "string \<Rightarrow> string" where
  "trim text = (if CHR ''.'' \<notin> set text then text else rstrip_char (CHR ''.'') (rstrip_char (CHR ''0'') text))"


section \<open>A changed threshold\<close>

record threshold_change =
  tc_fact :: string
  tc_before :: int
  tc_after :: int
  tc_currency :: string

definition MINOR_UNITS :: "string \<rightharpoonup> int" where
  "MINOR_UNITS = [''NGN'' \<mapsto> 100, ''USD'' \<mapsto> 100, ''EUR'' \<mapsto> 100, ''GBP'' \<mapsto> 100, ''KES'' \<mapsto> 100, ''JPY'' \<mapsto> 1, ''GHS'' \<mapsto> 100]"

definition AMOUNT_SUFFIXES :: "string list" where
  "AMOUNT_SUFFIXES = [''_minor'', ''amount'', ''balance'', ''limit'', ''threshold'']"

definition is_amount :: "threshold_change \<Rightarrow> bool" where
  "is_amount t \<longleftrightarrow> list_ex (\<lambda>s. suffix s (tc_fact t)) AMOUNT_SUFFIXES"

definition looser :: "threshold_change \<Rightarrow> bool" where
  "looser t \<longleftrightarrow> tc_after t > tc_before t"

definition factor :: "threshold_change \<Rightarrow> decimal_error + int option" where
  "factor t =
     (if tc_before t = 0 then Inr None
      else bindE (quantize 2 (dec_div (of_int (tc_after t)) (of_int (tc_before t)))) (\<lambda>h. Inr (Some h)))"

definition signed_thousands :: "int \<Rightarrow> string" where
  "signed_thousands v = (if v < 0 then CHR ''-'' # thousands (nat (- v)) else thousands (nat v))"

definition render_amount :: "(string \<Rightarrow> string) \<Rightarrow> threshold_change \<Rightarrow> int \<Rightarrow> string" where
  "render_amount symbol t value =
     (if \<not> is_amount t then signed_thousands value
      else
        (let divisor = (case MINOR_UNITS (tc_currency t) of Some d \<Rightarrow> d | None \<Rightarrow> 100)
         in if divisor = 1 then symbol (tc_currency t) @ signed_thousands value
            else
              (let cents = round_half_even (dec_div (of_int value) (of_int divisor) * 100)
               in symbol (tc_currency t) @ signed_thousands (cents div 100) @ ''.'' @ two_digits (cents mod 100))))"

definition direction :: "threshold_change \<Rightarrow> string" where
  "direction t = (if looser t then ''higher'' else ''lower'')"

definition magnitude :: "threshold_change \<Rightarrow> decimal_error + string" where
  "magnitude t =
     bindE (factor t) (\<lambda>fo.
       (case fo of
          None \<Rightarrow> Inr (direction t)
        | Some h \<Rightarrow>
            bindE (if looser t then Inr h
                   else if h \<noteq> 0 then quantize 2 (dec_div 1 (of_int h / 100)) else Inr h) (\<lambda>times.
              if times \<ge> 200 then Inr (trim (hundredths_text times) @ [CHR 0xD7] @ '' '' @ direction t)
              else
                bindE (quantize 0 \<bar>dec_mult (dec_div (of_int (tc_after t - tc_before t)) (of_int (tc_before t))) 100\<bar>) (\<lambda>p.
                  Inr (str_of_int p @ ''% '' @ direction t)))))"


section \<open>Comparing two versions of a rule\<close>

record rule_diff =
  rd_before :: string
  rd_after :: string
  rd_threshold :: "threshold_change option"
  rd_changed_tokens :: "string list"
  rd_regulatory_reference :: string
  rd_author :: string
  rd_reason :: string

definition is_threshold_only :: "rule_diff \<Rightarrow> bool" where
  "is_threshold_only d \<longleftrightarrow> rd_threshold d \<noteq> None \<and> length (rd_changed_tokens d) = 1"

fun compared_name :: "expr \<Rightarrow> string" where
  "compared_name (Name n) = n"
| "compared_name (Call (Name n) as ks) = n"
| "compared_name _ = []"

fun int_constant :: "expr \<Rightarrow> int list" where
  "int_constant (Constant (PInt i)) = [i]"
| "int_constant (Constant (PBool b)) = [if b then 1 else 0]"
| "int_constant _ = []"

fun compare_numbers :: "expr \<Rightarrow> (string \<times> int) list" where
  "compare_numbers (Compare l ops es) = map (Pair (compared_name l)) (concat (map int_constant es))"
| "compare_numbers _ = []"

definition tree_numbers :: "expr \<Rightarrow> (string \<times> int) list" where
  "tree_numbers tree = concat (map compare_numbers (walked_exprs [E tree]))"

definition numbers :: "python_parser \<Rightarrow> string \<Rightarrow> rule_syntax_error + (string \<times> int) list" where
  "numbers py expression = bindE (parse py expression) (\<lambda>tree. Inr (tree_numbers tree))"

text \<open>\<open>str.split()\<close>.\<close>

fun split_words :: "string \<Rightarrow> string \<Rightarrow> string list" where
  "split_words w [] = (if w = [] then [] else [w])"
| "split_words w (c # cs) =
     (if isspace_c c then (if w = [] then split_words [] cs else w # split_words [] cs) else split_words (w @ [c]) cs)"

definition changed_threshold :: "string \<Rightarrow> (string \<times> int) list \<Rightarrow> (string \<times> int) list \<Rightarrow> threshold_change option" where
  "changed_threshold currency before after =
     (if length before = length after then
        (case filter (\<lambda>((_, old), (_, new)). old \<noteq> new) (zip before after) of
           [((name, old), (_, new))] \<Rightarrow>
             Some \<lparr>tc_fact = name, tc_before = old, tc_after = new, tc_currency = currency\<rparr>
         | _ \<Rightarrow> None)
      else None)"

definition compare_rules ::
  "python_parser \<Rightarrow> string \<Rightarrow> string \<Rightarrow> string \<Rightarrow> string \<Rightarrow> string \<Rightarrow> string \<Rightarrow> rule_syntax_error + rule_diff" where
  "compare_rules py before after currency reference author why =
     bindE (numbers py before) (\<lambda>old.
     bindE (numbers py after) (\<lambda>new.
       Inr \<lparr>rd_before = before, rd_after = after, rd_threshold = changed_threshold currency old new,
            rd_changed_tokens = filter (\<lambda>w. w \<notin> set (split_words [] before)) (split_words [] after),
            rd_regulatory_reference = reference, rd_author = author, rd_reason = why\<rparr>))"


section \<open>What the words mean\<close>

definition limit_tree :: "string \<Rightarrow> cmpop \<Rightarrow> int \<Rightarrow> expr" where
  "limit_tree f op n = Compare (Name f) [op] [Constant (PInt n)]"

lemma evaluate_limit:
  assumes "op \<in> {Lt, LtE, Gt, GtE}"
  shows "evaluate (limit_tree f op n) c MAX_STEPS = Inr b \<longleftrightarrow>
    (\<exists>i. ctx_facts c f = Some (PInt i) \<and> b = order_by op i n)"
proof -
  have "node_count (limit_tree f op n) \<le> MAX_STEPS" by (simp add: limit_tree_def limit_defs)
  then have run: "evaluate (limit_tree f op n) c MAX_STEPS = bindE (denote c (limit_tree f op n)) (\<lambda>v. Inr (truthy v))"
    by (rule evaluate_denote)
  have "compare_op op v (PInt n) = (case v of PInt i \<Rightarrow> Inr (order_by op i n) | _ \<Rightarrow> eval_error (Uncomparable (type_name v) ''int''))" for v
    using assms by (cases v) (auto simp: compare_op_def compare_values_def same_orderable_kind_def)
  note ops = this
  show ?thesis
  proof (cases "ctx_facts c f")
    case None
    then show ?thesis unfolding run by (simp add: limit_tree_def read_fact_def eval_error_def)
  next
    case (Some v)
    have "denote c (limit_tree f op n) = bindE (compare_op op v (PInt n)) (\<lambda>b. Inr (PBool b))"
      using Some by (cases "compare_op op v (PInt n)") (simp_all add: limit_tree_def read_fact_def)
    with Some show ?thesis unfolding run ops by (cases v) (auto simp: eval_error_def)
  qed
qed

lemma tree_numbers_limit: "tree_numbers (limit_tree f op n) = [(f, n)]"
  by (simp add: tree_numbers_def walked_exprs_def limit_tree_def)

lemma compare_limits:
  assumes "parse py before = Inr (limit_tree f op n)" and "parse py after = Inr (limit_tree f op m)" and "n \<noteq> m"
  shows "\<exists>d. compare_rules py before after currency reference author why = Inr d
    \<and> rd_threshold d = Some \<lparr>tc_fact = f, tc_before = n, tc_after = m, tc_currency = currency\<rparr>"
  using assms by (simp add: compare_rules_def numbers_def tree_numbers_limit changed_threshold_def)

text \<open>The diff calls every raised number looser, and that is right for upper limits only. When one
  comparison of a fact with a number has its number raised, the diff finds that threshold and says the
  control is looser. For \<open>>\<close> and \<open>>=\<close> whatever the new rule catches the old one caught. For \<open><\<close> and
  \<open><=\<close> it is the other way round: whatever the old rule caught the new one catches, and some
  transaction more.\<close>

theorem looser_is_right_for_upper_limits_only:
  assumes "parse py before = Inr (limit_tree f op n)" and "parse py after = Inr (limit_tree f op m)"
    and "n < m" and "op \<in> {Lt, LtE, Gt, GtE}"
  shows "\<exists>d t. compare_rules py before after currency reference author why = Inr d
    \<and> rd_threshold d = Some t \<and> looser t
    \<and> (if op = Gt \<or> op = GtE
       then \<forall>c. evaluate (limit_tree f op m) c MAX_STEPS = Inr True \<longrightarrow> evaluate (limit_tree f op n) c MAX_STEPS = Inr True
       else (\<forall>c. evaluate (limit_tree f op n) c MAX_STEPS = Inr True \<longrightarrow> evaluate (limit_tree f op m) c MAX_STEPS = Inr True)
         \<and> (\<exists>c. evaluate (limit_tree f op m) c MAX_STEPS = Inr True \<and> evaluate (limit_tree f op n) c MAX_STEPS = Inr False))"
proof -
  obtain d where "compare_rules py before after currency reference author why = Inr d"
    "rd_threshold d = Some \<lparr>tc_fact = f, tc_before = n, tc_after = m, tc_currency = currency\<rparr>"
    using compare_limits [OF assms(1,2)] assms(3) by blast
  moreover have gap: "\<exists>i. order_by op i m \<and> \<not> order_by op i n" if "op \<noteq> Gt" "op \<noteq> GtE"
    using that assms(3,4) by (intro exI [of _ "if op = Lt then n else m"]) auto
  have "\<exists>c. evaluate (limit_tree f op m) c MAX_STEPS = Inr True \<and> evaluate (limit_tree f op n) c MAX_STEPS = Inr False"
    if lower: "op \<noteq> Gt" "op \<noteq> GtE"
  proof -
    obtain i where "order_by op i m" "\<not> order_by op i n" using gap [OF lower] by blast
    then show ?thesis
      unfolding evaluate_limit [OF assms(4)]
      by (intro exI [of _ "\<lparr>ctx_facts = [f \<mapsto> PInt i], ctx_functions = Map.empty\<rparr>"]) simp
  qed
  moreover have "order_by op i n" if "order_by op i m" "op = Gt \<or> op = GtE" for i using that assms(3) by auto
  moreover have "order_by op i m" if "order_by op i n" "op \<noteq> Gt" "op \<noteq> GtE" for i using that assms(3,4) by auto
  ultimately show ?thesis
    unfolding evaluate_limit [OF assms(4)] using assms(3) by (auto simp: looser_def)
qed

lemma round_half_even_int [simp]: "round_half_even (of_int i) = i"
  by (simp add: round_half_even_def)

lemma significant_int:
  assumes "0 < k" and "k < 10 ^ 28"
  shows "significant (of_int k) = of_int k"
proof -
  let ?n = "length (str_of_nat (nat k))"
  have "nat k < 10 ^ 28" using assms by (simp add: nat_less_iff)
  then have n: "?n \<le> 28" by (rule length_str_of_nat_le) simp
  show ?thesis
  proof (cases "?n = 28")
    case True
    with assms show ?thesis by (simp add: significant_def significant_pos_def PRECISION_def)
  next
    case False
    with n have "\<not> ?n \<ge> PRECISION" by (simp add: PRECISION_def)
    moreover have "round_half_even (of_int k * 10 ^ j :: rat) = k * 10 ^ j" for j
      using round_half_even_int [of "k * 10 ^ j"] by simp
    ultimately show ?thesis using assms by (simp add: significant_def significant_pos_def Let_def)
  qed
qed

lemma rstrip_char_append: "rstrip_char c (s @ [c]) = rstrip_char c s"
  by (simp add: rstrip_char_def)

lemma rstrip_char_id: "s \<noteq> [] \<Longrightarrow> List.last s \<noteq> c \<Longrightarrow> rstrip_char c s = s"
  by (cases s rule: rev_cases) (simp_all add: rstrip_char_def)

lemma trim_whole:
  assumes "0 \<le> k"
  shows "trim (hundredths_text (100 * k)) = str_of_int k"
proof -
  have zero: "two_digits 0 = ''00''" by code_simp
  have digits: "\<forall>c \<in> set (str_of_int k). is_ascii_digit c"
    using assms str_of_nat_digits by (simp add: str_of_int_def)
  have "\<not> is_ascii_digit (CHR ''.'')" by code_simp
  with digits have no_dot: "CHR ''.'' \<notin> set (str_of_int k)" by blast
  have ne: "str_of_int k \<noteq> []" by (simp add: str_of_int_def)
  have "rstrip_char (CHR ''0'') (str_of_int k @ ''.00'') = str_of_int k @ ''.''"
    using rstrip_char_append [of "CHR ''0''" "str_of_int k @ ''.0''"] rstrip_char_append [of "CHR ''0''" "str_of_int k @ ''.''"]
      rstrip_char_id [of "str_of_int k @ ''.''" "CHR ''0''"] by simp
  moreover have "rstrip_char (CHR ''.'') (str_of_int k @ ''.'') = str_of_int k"
    using rstrip_char_append [of "CHR ''.''" "str_of_int k"] rstrip_char_id [OF ne, of "CHR ''.''"] no_dot last_in_set [OF ne]
    by (metis (no_types, lifting))
  ultimately show ?thesis by (simp add: trim_def hundredths_text_def zero)
qed

text \<open>A limit raised to a multiple is named by that multiple: from any positive number to \<open>k\<close> times
  it, for \<open>2 \<le> k < 10^26\<close>, the diff reads \<open>k\<close>, the multiplication sign and the word higher, however many
  zeros \<open>k\<close> ends with.\<close>

theorem multiples_are_named:
  assumes "0 < b" and "2 \<le> k" and "k < 10 ^ 26" and "tc_before t = b" and "tc_after t = k * b"
  shows "magnitude t = Inr (str_of_int k @ [CHR 0xD7] @ '' higher'')"
proof -
  have "looser t" using assms by (simp add: looser_def)
  have ratio: "of_int (k * b) / of_int b = (of_int k :: rat)" using assms(1) by simp
  have "dec_div (of_int (k * b)) (of_int b) = of_int k"
    unfolding dec_div_def ratio by (rule significant_int) (use assms(2,3) in simp_all)
  moreover have "quantize 2 (of_int k) = Inr (100 * k)"
    using round_half_even_int [of "k * 100"] assms(2,3) by (simp add: quantize_def PRECISION_def Let_def mult.commute)
  ultimately have "factor t = Inr (Some (100 * k))"
    using assms(1,4,5) by (simp add: factor_def del: of_int_mult)
  then show ?thesis
    using assms(2) \<open>looser t\<close> by (simp add: magnitude_def direction_def trim_whole)
qed


theorem multiples_are_named_witness:
  "magnitude \<lparr>tc_fact = ''amount_minor'', tc_before = 5000000, tc_after = 50000000, tc_currency = ''NGN''\<rparr>
     = Inr (''10'' @ [CHR 0xD7] @ '' higher'')"
  using multiples_are_named [of 5000000 10 "\<lparr>tc_fact = ''amount_minor'', tc_before = 5000000, tc_after = 50000000, tc_currency = ''NGN''\<rparr>"]
  by (simp add: str_of_int_def str_of_nat.simps)

text \<open>Downwards the multiple is computed from the rounded factor: a limit cut to a third reads 3.03 times
  lower, one cut to a hundred-and-fiftieth reads 100 times lower, and one cut to a thousandth reads 100%
  lower. A limit of 29 digits or more over a small one raises.\<close>

lemmas str_of_nat_values = str_of_nat.simps [of "numeral w"] str_of_nat.simps [of 0] str_of_nat.simps [of 1]
  str_of_nat.simps [of "Suc 0"] for w

lemma magnitude_lower:
  assumes "\<not> looser t" and "factor t = Inr (Some h)" and "h \<noteq> 0"
    and "quantize 2 (dec_div 1 (of_int h / 100)) = Inr w" and "200 \<le> w"
  shows "magnitude t = Inr (trim (hundredths_text w) @ [CHR 0xD7] @ '' lower'')"
  using assms by (simp add: magnitude_def direction_def)

lemma floor_numerals: "\<lfloor>(numeral a :: rat) / numeral b\<rfloor> = numeral a div numeral b" "\<lfloor>1 / (numeral b :: rat)\<rfloor> = 1 div numeral b"
  using floor_divide_of_int_eq [of "numeral a" "numeral b", where 'a = rat] floor_divide_of_int_eq [of 1 "numeral b", where 'a = rat] by simp_all

lemma ceiling_numerals: "\<lceil>(numeral a :: rat) / numeral b\<rceil> = - (- numeral a div numeral b)"
  using floor_divide_of_int_eq [of "- numeral a" "numeral b", where 'a = rat] by (simp add: ceiling_def)

lemmas decimal_values = dec_div_def dec_mult_def significant_def significant_pos_def PRECISION_def Let_def str_of_nat_values
  str_of_int_def round_half_even_def floor_numerals ceiling_numerals quantize_def hundredths_text_def two_digits_def trim_def rstrip_char_def

lemma lower_multiples_are_off:
  "magnitude \<lparr>tc_fact = ''n'', tc_before = 3, tc_after = 1, tc_currency = ''NGN''\<rparr> = Inr (''3.03'' @ [CHR 0xD7] @ '' lower'')"
  "magnitude \<lparr>tc_fact = ''n'', tc_before = 150, tc_after = 1, tc_currency = ''NGN''\<rparr> = Inr (''100'' @ [CHR 0xD7] @ '' lower'')"
  "magnitude \<lparr>tc_fact = ''n'', tc_before = 1000, tc_after = 1, tc_currency = ''NGN''\<rparr> = Inr ''100% lower''"
proof -
  let ?t = "\<lambda>n. \<lparr>tc_fact = ''n'', tc_before = n, tc_after = 1, tc_currency = ''NGN''\<rparr>"
  have "factor (?t 3) = Inr (Some 33)" by (simp add: factor_def decimal_values)
  moreover have "quantize 2 (dec_div 1 (of_int 33 / 100)) = Inr 303" by (simp add: decimal_values)
  moreover have "trim (hundredths_text 303) = ''3.03''" by (simp add: decimal_values)
  ultimately show "magnitude (?t 3) = Inr (''3.03'' @ [CHR 0xD7] @ '' lower'')"
    using magnitude_lower [of "?t 3" 33 303] by (simp add: looser_def)
  have "factor (?t 150) = Inr (Some 1)" by (simp add: factor_def decimal_values)
  moreover have "quantize 2 (dec_div 1 (of_int 1 / 100)) = Inr 10000" by (simp add: decimal_values)
  moreover have "trim (hundredths_text 10000) = ''100''" by (simp add: decimal_values)
  ultimately show "magnitude (?t 150) = Inr (''100'' @ [CHR 0xD7] @ '' lower'')"
    using magnitude_lower [of "?t 150" 1 10000] by (simp add: looser_def)
  have "factor (?t 1000) = Inr (Some 0)" by (simp add: factor_def decimal_values)
  moreover have "quantize 0 \<bar>dec_mult (dec_div (- 999) 1000) 100\<bar> = Inr 100" by (simp add: decimal_values)
  moreover have "str_of_int 100 = ''100''" by (simp add: decimal_values)
  ultimately show "magnitude (?t 1000) = Inr ''100% lower''"
    by (simp add: magnitude_def looser_def direction_def)
qed

lemma huge_ratio_raises:
  assumes "tc_before t = 1" and "tc_after t = 10 ^ 30"
  shows "magnitude t = Inl InvalidOperation"
proof -
  have "factor t = Inl InvalidOperation" using assms by (simp add: factor_def decimal_values)
  then show ?thesis by (simp add: magnitude_def)
qed

definition tier_parser :: python_parser where
  "tier_parser =
     \<lparr>parse_eval = (\<lambda>s. if s = ''kyc_tier < 2'' then Parsed (limit_tree ''kyc_tier'' Lt 2)
                      else if s = ''kyc_tier < 3'' then Parsed (limit_tree ''kyc_tier'' Lt 3) else NotParsed),
      parse_exec = (\<lambda>_. False)\<rparr>"

lemma tier_guards: "guard_source ''kyc_tier < 2'' = Inr ''kyc_tier < 2''" "guard_source ''kyc_tier < 3'' = Inr ''kyc_tier < 3''"
  by code_simp+

lemma tier_parsed:
  "parse tier_parser ''kyc_tier < 2'' = Inr (limit_tree ''kyc_tier'' Lt 2)"
  "parse tier_parser ''kyc_tier < 3'' = Inr (limit_tree ''kyc_tier'' Lt 3)"
  using tier_guards by (simp_all add: parse_def tier_parser_def limit_tree_def tree_nodes_def limit_defs)

theorem looser_is_right_for_upper_limits_only_witness:
  "\<exists>d t c. compare_rules tier_parser ''kyc_tier < 2'' ''kyc_tier < 3'' ''NGN'' [] [] [] = Inr d \<and> rd_threshold d = Some t \<and> looser t
     \<and> evaluate (limit_tree ''kyc_tier'' Lt 3) c MAX_STEPS = Inr True \<and> evaluate (limit_tree ''kyc_tier'' Lt 2) c MAX_STEPS = Inr False"
proof -
  have "Lt \<in> {Lt, LtE, Gt, GtE}" by simp
  from looser_is_right_for_upper_limits_only [OF tier_parsed _ this, of "''NGN''" "[]" "[]" "[]"] show ?thesis by auto
qed


section \<open>The two counts of a change\<close>

record change_impact =
  ci_total :: nat
  ci_before_matches :: nat
  ci_after_matches :: nat

definition delta :: "change_impact \<Rightarrow> int" where
  "delta c = int (ci_after_matches c) - int (ci_before_matches c)"

definition delta_sentence :: "change_impact \<Rightarrow> string" where
  "delta_sentence c =
     ''Would have matched '' @ thousands (ci_after_matches c) @ '' of '' @ thousands (ci_total c) @ '' transactions, '' @
       thousands (nat \<bar>delta c\<bar>) @ '' '' @ (if 0 < delta c then ''more'' else ''fewer'') @ '' than the current rule.''"

text \<open>The sentence gives the change exactly, with its direction, where there is one.\<close>

lemma delta_reported:
  "int (ci_before_matches c) = int (ci_after_matches c) - (if 0 < delta c then 1 else - 1) * int (nat \<bar>delta c\<bar>)"
  by (simp add: delta_def)

end
