(* ===== verification/Dashboard_Pages.thy ===== *)
theory Dashboard_Pages
  imports Reports Dashboard_Diff Dashboard_Builder
begin

text \<open>
  The dashboard's pages behind the sign-in (\<open>src/complylayer/dashboard/views.py\<close>) and the designed
  states they show (\<open>states.py\<close>): the rules, the approval of one rule, which also takes the approval,
  and the review queue.

  A page is the values its template gets. The approval template enables its button when the impact
  figure has been on screen, and never when there is none: \<open>button_of\<close> is that script. A signed-in
  user is the actor with the user's name and the profile's role.
\<close>


section \<open>States\<close>

definition QUEUE_PRESSURE_THRESHOLD :: nat where "QUEUE_PRESSURE_THRESHOLD = 500"

record screen_state =
  ss_key :: string
  ss_title :: string
  ss_detail :: string
  ss_tone :: string

definition pending_approval_seen_by_author :: "string \<Rightarrow> screen_state" where
  "pending_approval_seen_by_author author =
     \<lparr>ss_key = ''pending_own'', ss_title = ''Waiting for someone else to approve this'',
      ss_detail = ''You wrote this rule, so you cannot approve it yourself. '' @
        ''Editing it now will clear any approval it has already received, '' @
        ''because an approval that survives an edit is not an approval of '' @
        ''anything in particular.'',
      ss_tone = ''neutral''\<rparr>"

text \<open>\<open>percent\<close> is \<open>int(processed / total * 100)\<close>, a quotient of floats.\<close>

definition backtest_running :: "(nat \<Rightarrow> nat \<Rightarrow> nat) \<Rightarrow> nat \<Rightarrow> nat \<Rightarrow> screen_state" where
  "backtest_running percent processed whole =
     \<lparr>ss_key = ''backtest_running'',
      ss_title = ''Testing against history '' @ em_dash @ '' '' @ str_of_nat (if whole = 0 then 0 else percent processed whole) @ ''%'',
      ss_detail = ''Checked '' @ thousands processed @ '' of '' @ thousands whole @ '' transactions. '' @
        ''This runs on a copy of the data and cannot affect live decisions. '' @
        ''You can leave this page; the result will be here when you come back.'',
      ss_tone = ''neutral''\<rparr>"

definition shadow_no_divergence :: "nat \<Rightarrow> nat \<Rightarrow> screen_state" where
  "shadow_no_divergence days decisions =
     \<lparr>ss_key = ''shadow_agrees'', ss_title = ''This rule has agreed with the live rules every time'',
      ss_detail = ''Over '' @ str_of_nat days @ '' days and '' @ thousands decisions @ '' decisions, this rule would not have '' @
        ''changed a single outcome. That is what you want to see before '' @ ''activating it.'',
      ss_tone = ''reassuring''\<rparr>"

definition review_queue_empty :: screen_state where
  "review_queue_empty =
     \<lparr>ss_key = ''queue_empty'', ss_title = ''Nothing waiting for review'',
      ss_detail = ''Every flagged transaction has been looked at.'', ss_tone = ''reassuring''\<rparr>"

definition review_queue_under_pressure :: "nat \<Rightarrow> screen_state" where
  "review_queue_under_pressure depth =
     \<lparr>ss_key = ''queue_pressure'', ss_title = thousands depth @ '' transactions waiting'',
      ss_detail = ''Flags are arriving faster than they are being reviewed. This is '' @
        ''usually one rule firing too broadly rather than a genuine rise in '' @
        ''risk '' @ em_dash @ '' the rule analytics page ranks rules by how often they fire '' @
        ''and how often a review clears them.'',
      ss_tone = ''pressure''\<rparr>"

definition degraded_banner :: "nat \<Rightarrow> string \<Rightarrow> screen_state" where
  "degraded_banner n since =
     \<lparr>ss_key = ''degraded'',
      ss_title = thousands n @ '' decisions since '' @ since @ '' were made with a control that did not run'',
      ss_detail = ''A fallback was applied. Blocking rules failed closed and flagging '' @
        ''rules failed open. These decisions are marked and will be added to '' @
        ''the review queue once service returns, so the record has no gap.'',
      ss_tone = ''pressure''\<rparr>"

definition ALL_STATES :: "string list" where
  "ALL_STATES =
     [''pending_own'', ''backtest_running'', ''shadow_agrees'', ''queue_empty'', ''queue_pressure'', ''degraded'']"

lemma ALL_STATES_complete:
  "map ss_key [pending_approval_seen_by_author author, backtest_running percent processed whole,
     shadow_no_divergence days decisions, review_queue_empty, review_queue_under_pressure depth, degraded_banner n since] = ALL_STATES"
  by (simp add: ALL_STATES_def pending_approval_seen_by_author_def backtest_running_def shadow_no_divergence_def
      review_queue_empty_def review_queue_under_pressure_def degraded_banner_def)


section \<open>Pages\<close>

definition BACKTEST_SAMPLE :: nat where "BACKTEST_SAMPLE = 5000"

text \<open>\<open>_chrome\<close>: who is acting, and what they may do.\<close>

definition chrome :: "actor \<Rightarrow> action \<Rightarrow> bool" where
  "chrome who a = may (actor_role who) a"

definition rules_page :: "tenant_db \<Rightarrow> rule_row list" where
  "rules_page db = sort_key row_key (db_rules db)"

text \<open>The builder page: the shapes it offers and the windows of their controls.\<close>

definition builder_page :: "actor \<Rightarrow> (action \<Rightarrow> bool) \<times> shape list \<times> string list" where
  "builder_page who = (chrome who, SHAPES, WINDOWS)"

text \<open>Rows decided at the same moment come in any order; here, in the order of the table.\<close>

definition recent_decisions :: "string \<Rightarrow> reviewed_row list \<Rightarrow> decision_row list" where
  "recent_decisions tenant rows =
     map decision_row.truncate
       (take BACKTEST_SAMPLE (sort_key (\<lambda>r. - dr_decided_at r) (filter (\<lambda>r. dr_tenant r = tenant) rows)))"

definition previous_rule :: "rule_row \<Rightarrow> tenant_db \<Rightarrow> rule_row option" where
  "previous_rule r db =
     (case sort_key (\<lambda>x. - int (rr_version x)) (filter (\<lambda>x. rr_name x = rr_name r \<and> rr_id x \<noteq> rr_id r) (db_rules db)) of
        [] \<Rightarrow> None | x # _ \<Rightarrow> Some x)"

record approval_page =
  ap_rule :: rule_row
  ap_diff :: "rule_diff option"
  ap_impact :: "impact option"
  ap_is_author :: bool
  ap_can_approve :: bool
  ap_author_state :: "screen_state option"

datatype approval_answer =
    A_Not_found
  | A_Refused rule_row denial
  | A_Approved
  | A_Page approval_page
  | A_Server_error

text \<open>\<open>posted\<close> is the reason of a posted approval. A comparison of rules that do not parse raises, and
  so does a backtest that meets a \<open>TypeError\<close>.\<close>

definition approval ::
  "environment \<Rightarrow> actor \<Rightarrow> string \<Rightarrow> string option \<Rightarrow> reviewed_row list \<Rightarrow> tenant_db \<Rightarrow> approval_answer \<times> tenant_db" where
  "approval env who rid posted rows db =
     (case List.find (\<lambda>r. rr_id r = rid) (db_rules db) of
        None \<Rightarrow> (A_Not_found, db)
      | Some r \<Rightarrow>
          (case posted of
             Some why \<Rightarrow>
               (case approve env who rid why db of
                  Inr db1 \<Rightarrow> (A_Approved, db1)
                | Inl (L_Denied d) \<Rightarrow> (A_Refused r d, db)
                | Inl _ \<Rightarrow> (A_Server_error, db))
           | None \<Rightarrow>
               (let own = (rr_created_by r = actor_id who);
                    diff = (case previous_rule r db of
                              None \<Rightarrow> Inr None
                            | Some p \<Rightarrow>
                                (case compare_rules (env_parser env) (rr_expression p) (rr_expression r) ''NGN''
                                        (rr_regulatory_reference r) (rr_created_by r) [] of
                                   Inl e \<Rightarrow> Inl ()
                                 | Inr d \<Rightarrow> Inr (Some d)));
                    impact = (case impact_of (env_parser env) (rr_expression r) (recent_decisions (db_tenant db) rows) of
                                Inl e \<Rightarrow> Inl () | Inr i \<Rightarrow> Inr i)
                in (case bindE diff (\<lambda>d. bindE impact (\<lambda>i.
                      Inr \<lparr>ap_rule = r, ap_diff = d, ap_impact = i, ap_is_author = own,
                           ap_can_approve = (may (actor_role who) A_APPROVE \<and> \<not> own),
                           ap_author_state = (if own then Some (pending_approval_seen_by_author (rr_created_by r)) else None)\<rparr>)) of
                      Inl _ \<Rightarrow> (A_Server_error, db)
                    | Inr p \<Rightarrow> (A_Page p, db)))))"

datatype approve_button = Absent | Unlocks_on_impact | Stays_disabled

definition button_of :: "approval_page \<Rightarrow> approve_button" where
  "button_of p =
     (if \<not> ap_can_approve p then Absent else if ap_impact p \<noteq> None then Unlocks_on_impact else Stays_disabled)"

record queue_page =
  qp_decisions :: "reviewed_row list"
  qp_state :: "screen_state option"
  qp_degraded_banner :: "screen_state option"

definition queue_rows :: "string \<Rightarrow> reviewed_row list \<Rightarrow> reviewed_row list" where
  "queue_rows tenant rows =
     take 200 (sort_key (\<lambda>r. - dr_decided_at r)
       (filter (\<lambda>r. dr_tenant r = tenant \<and> dr_outcome r = PStr ''flag'' \<and> dr_review_status r = []) rows))"

definition queue :: "string \<Rightarrow> reviewed_row list \<Rightarrow> queue_page" where
  "queue tenant rows =
     (let decisions = queue_rows tenant rows; depth = length decisions;
          degraded = length (filter (\<lambda>r. dr_tenant r = tenant \<and> dr_degraded r = PBool True \<and> dr_review_status r = []) rows)
      in \<lparr>qp_decisions = decisions,
          qp_state = (if depth = 0 then Some review_queue_empty
                      else if depth \<ge> QUEUE_PRESSURE_THRESHOLD then Some (review_queue_under_pressure depth) else None),
          qp_degraded_banner = (if degraded \<noteq> 0 then Some (degraded_banner degraded ''today'') else None)\<rparr>)"


section \<open>Properties\<close>

lemma find_get_rule: "List.find (\<lambda>r. rr_id r = rid) (db_rules db) = Some r \<longleftrightarrow> get_rule rid db = Inr r"
  by (auto simp: get_rule_def split: option.splits)

lemma approve_Inl: "get_rule rid db = Inr r \<Longrightarrow> approve env who rid why db = Inl e \<Longrightarrow> \<exists>d. e = L_Denied d"
  by (auto simp: approve_def guard_def bindE_eq_Inl split: sum.splits)

lemma approve_accepted:
  "get_rule rid db = Inr r \<Longrightarrow> is_ok (approve env who rid why db) \<longleftrightarrow> may (actor_role who) A_APPROVE \<and> rr_created_by r \<noteq> actor_id who"
  by (auto simp: approve_def is_ok_iff may_def)

text \<open>C34. The page offers what the server accepts: whenever the approval page of a rule is shown, the
  approve button is on it exactly if posting the approval, with any reason and at any moment, is
  accepted; accepting it changes that rule's approver to the viewer, and a refused one changes
  nothing. Without recorded decisions the button never becomes active.\<close>

theorem approval_page_offers_what_post_accepts:
  assumes "approval env who rid None rows db = (A_Page p, db1)"
  shows "db1 = db \<and> ap_rule p \<in> set (db_rules db)
    \<and> (button_of p \<noteq> Absent \<longleftrightarrow> fst (approval env' who rid (Some why) rows' db) = A_Approved)
    \<and> (button_of p \<noteq> Absent \<longrightarrow>
         (\<exists>r. get_rule rid (snd (approval env' who rid (Some why) rows' db)) = Inr r \<and> rr_approved_by r = actor_id who))
    \<and> (button_of p = Absent \<longrightarrow> snd (approval env' who rid (Some why) rows' db) = db)
    \<and> (recent_decisions (db_tenant db) rows = [] \<longrightarrow> button_of p \<noteq> Unlocks_on_impact)"
proof -
  from assms obtain r where find: "List.find (\<lambda>r. rr_id r = rid) (db_rules db) = Some r"
    by (auto simp: approval_def split: option.splits)
  then have r: "get_rule rid db = Inr r" by (simp add: find_get_rule)
  from assms find have p: "db1 = db" "ap_rule p = r" "ap_can_approve p \<longleftrightarrow> may (actor_role who) A_APPROVE \<and> rr_created_by r \<noteq> actor_id who"
    "impact_of (env_parser env) (rr_expression r) (recent_decisions (db_tenant db) rows) = Inr (ap_impact p)"
    by (auto simp: approval_def Let_def bindE_def split: option.splits sum.splits)
  have button: "button_of p \<noteq> Absent \<longleftrightarrow> is_ok (approve env' who rid why db)"
    unfolding approve_accepted [OF r] p(3) [symmetric] by (simp add: button_of_def)
  have no_history: "recent_decisions (db_tenant db) rows = [] \<longrightarrow> button_of p \<noteq> Unlocks_on_impact"
    using p(4) by (auto simp: impact_of_def button_of_def)
  show ?thesis
  proof (cases "approve env' who rid why db")
    case (Inl e)
    with approve_Inl [OF r Inl] find button no_history p get_rule_Inr [OF r] show ?thesis
      by (auto simp: approval_def)
  next
    case (Inr db2)
    then have db2: "db2 = audit_append env' ''rule.approved'' who (rule_subject rid)
         (PDict [(''version'', PInt (int (rr_version r))), (''author'', PStr (rr_created_by r)), (''reason'', PStr why)])
         (save_rule (r\<lparr>rr_approved_by := actor_id who, rr_approved_at := Some (env_now env')\<rparr>) db)"
      using r by (auto simp: approve_def)
    then have "get_rule rid db2 = Inr (r\<lparr>rr_approved_by := actor_id who, rr_approved_at := Some (env_now env')\<rparr>)"
      using get_rule_save [OF r] get_rule_Inr [OF r] by simp
    with Inr find button no_history p get_rule_Inr [OF r] show ?thesis
      by (auto simp: approval_def)
  qed
qed

theorem approval_page_offers_what_post_accepts_witness:
  "\<exists>p. approval (demo_env ''aud_2'' 2) (person ''bob'' COMPLIANCE_OFFICER) ''rul_1'' None [] demo_created = (A_Page p, demo_created)
    \<and> button_of p = Stays_disabled
    \<and> fst (approval (demo_env ''aud_2'' 2) (person ''bob'' COMPLIANCE_OFFICER) ''rul_1'' (Some []) [] demo_created) = A_Approved"
proof -
  let ?p = "\<lparr>ap_rule = demo_row, ap_diff = None, ap_impact = None, ap_is_author = False, ap_can_approve = True, ap_author_state = None\<rparr>"
  have "approval (demo_env ''aud_2'' 2) (person ''bob'' COMPLIANCE_OFFICER) ''rul_1'' None [] demo_created = (A_Page ?p, demo_created)"
    by (simp add: approval_def demo_create demo_row_simps previous_rule_def recent_decisions_def impact_of_def person_def may_def)
  with approval_page_offers_what_post_accepts [OF this, of "demo_env ''aud_2'' 2" "[]" "[]"] show ?thesis
    by (auto simp: button_of_def)
qed

text \<open>The depth the queue page looks at is that of the slice it shows, so its pressure state is never
  shown, whatever waits.\<close>

theorem pressure_is_never_shown:
  "qp_state (queue tenant rows) \<noteq> Some (review_queue_under_pressure n)"
  by (simp add: queue_def Let_def queue_rows_def QUEUE_PRESSURE_THRESHOLD_def review_queue_empty_def
      review_queue_under_pressure_def)

lemma queue_empty_iff:
  "qp_state (queue tenant rows) = Some review_queue_empty \<longleftrightarrow>
     \<not> (\<exists>r \<in> set rows. dr_tenant r = tenant \<and> dr_outcome r = PStr ''flag'' \<and> dr_review_status r = [])"
proof -
  have "sort_key f xs = [] \<longleftrightarrow> xs = []" for f :: "reviewed_row \<Rightarrow> int" and xs
    by (metis length_0_conv length_sort)
  then show ?thesis
    by (auto simp: queue_def Let_def queue_rows_def QUEUE_PRESSURE_THRESHOLD_def filter_empty_conv)
qed

end
