(* ===== verification/Partitions.thy ===== *)
theory Partitions
  imports Py_Values
begin

text \<open>
  Monthly partitions of the decisions table (\<open>src/complylayer/partitions.py\<close>). A date is a triple of
  year, month and day in the lexicographic order. PostgreSQL is modelled by what it documents for
  \<open>CREATE TABLE ... PARTITION OF\<close>: a range that meets an existing partition's is refused, and so is one
  that a row of the default partition belongs to.
\<close>


section \<open>Months\<close>

type_synonym date = "int \<times> int \<times> int"

fun valid_date :: "date \<Rightarrow> bool" where
  "valid_date (y, m, d) \<longleftrightarrow> 1 \<le> y \<and> y \<le> 9999 \<and> 1 \<le> m \<and> m \<le> 12 \<and> 1 \<le> d \<and> d \<le> 31"

record partition =
  pt_name :: string
  pt_start :: date
  pt_end :: date

definition TABLE :: string where "TABLE = ''complylayer_decision''"

definition DEFAULT_PARTITION :: string where "DEFAULT_PARTITION = TABLE @ ''_default''"

definition safe_name :: "string \<Rightarrow> bool" where
  "safe_name name \<longleftrightarrow>
     (case name of
        [] \<Rightarrow> False
      | c # cs \<Rightarrow>
          (CHR ''a'' \<le> c \<and> c \<le> CHR ''z'' \<or> c = CHR ''_'') \<and>
          list_all (\<lambda>x. CHR ''a'' \<le> x \<and> x \<le> CHR ''z'' \<or> is_ascii_digit x \<or> x = CHR ''_'') cs)"

definition checked_identifier :: "string \<Rightarrow> exn + string" where
  "checked_identifier name = (if safe_name name then Inr name else Inl ValueError)"

definition two_digit :: "int \<Rightarrow> string" where
  "two_digit n = (if n < 10 then CHR ''0'' # str_of_int n else str_of_int n)"

fun month_label :: "char \<Rightarrow> date \<Rightarrow> string" where
  "month_label sep (y, m, d) = str_of_int y @ [sep] @ two_digit m"

definition partition_label :: "partition \<Rightarrow> string" where
  "partition_label p = month_label (CHR ''-'') (pt_start p)"

fun month_start :: "date \<Rightarrow> date" where
  "month_start (y, m, d) = (y, m, 1)"

text \<open>\<open>date(10000, 1, 1)\<close> raises.\<close>

fun next_month :: "date \<Rightarrow> exn + date" where
  "next_month (y, m, d) =
     (if m = 12 then (if y + 1 \<le> 9999 then Inr (y + 1, 1, 1) else Inl ValueError) else Inr (y, m + 1, 1))"

fun partitions_from :: "nat \<Rightarrow> date \<Rightarrow> exn + partition list" where
  "partitions_from 0 current = Inr []"
| "partitions_from (Suc n) current =
     bindE (next_month current) (\<lambda>following.
     bindE (partitions_from n following) (\<lambda>rest.
       Inr (\<lparr>pt_name = TABLE @ ''_'' @ month_label (CHR ''_'') current, pt_start = current, pt_end = following\<rparr> # rest)))"

definition partitions_for :: "date \<Rightarrow> nat \<Rightarrow> exn + partition list" where
  "partitions_for start months = partitions_from months (month_start start)"


section \<open>The table\<close>

datatype partition_error = Raised exn | Overlap | Default_rows

record pg_table =
  pg_partitions :: "partition list"
  pg_default_rows :: "date list"

definition covers :: "partition \<Rightarrow> date \<Rightarrow> bool" where
  "covers p d \<longleftrightarrow> pt_start p \<le> d \<and> d < pt_end p"

definition meets :: "partition \<Rightarrow> partition \<Rightarrow> bool" where
  "meets p q \<longleftrightarrow> pt_start p < pt_end q \<and> pt_start q < pt_end p"

definition create_partition :: "partition \<Rightarrow> pg_table \<Rightarrow> partition_error + pg_table" where
  "create_partition p t =
     (if list_ex (meets p) (pg_partitions t) then Inl Overlap
      else if list_ex (covers p) (pg_default_rows t) then Inl Default_rows
      else Inr (t\<lparr>pg_partitions := pg_partitions t @ [p]\<rparr>))"

definition regclass_exists :: "string \<Rightarrow> pg_table \<Rightarrow> bool" where
  "regclass_exists name t \<longleftrightarrow> name \<in> set (map pt_name (pg_partitions t))"

definition route :: "date \<Rightarrow> pg_table \<Rightarrow> partition option" where
  "route d t = List.find (\<lambda>p. covers p d) (pg_partitions t)"

definition insert_row :: "date \<Rightarrow> pg_table \<Rightarrow> pg_table" where
  "insert_row d t = (if route d t = None then t\<lparr>pg_default_rows := d # pg_default_rows t\<rparr> else t)"

definition rows_in_default_partition :: "pg_table \<Rightarrow> nat" where
  "rows_in_default_partition t = length (pg_default_rows t)"

definition existing_partitions :: "pg_table \<Rightarrow> string list" where
  "existing_partitions t = sort (DEFAULT_PARTITION # map pt_name (pg_partitions t))"

fun ensure_each :: "partition list \<Rightarrow> pg_table \<Rightarrow> partition_error + (string list \<times> pg_table)" where
  "ensure_each [] t = Inr ([], t)"
| "ensure_each (p # ps) t =
     (if regclass_exists (pt_name p) t then ensure_each ps t
      else
        (case checked_identifier (pt_name p) of
           Inl e \<Rightarrow> Inl (Raised e)
         | Inr _ \<Rightarrow>
             bindE (create_partition p t) (\<lambda>t1.
             bindE (ensure_each ps t1) (\<lambda>(created, t2). Inr (pt_name p # created, t2)))))"

definition ensure_partitions :: "date \<Rightarrow> nat \<Rightarrow> pg_table \<Rightarrow> partition_error + (string list \<times> pg_table)" where
  "ensure_partitions today months_ahead t =
     (case partitions_for today (months_ahead + 1) of
        Inl e \<Rightarrow> Inl (Raised e)
      | Inr ps \<Rightarrow> ensure_each ps t)"


section \<open>Months by number\<close>

fun month_index :: "date \<Rightarrow> int" where
  "month_index (y, m, d) = 12 * y + (m - 1)"

definition month_date :: "int \<Rightarrow> date" where
  "month_date i = (i div 12, i mod 12 + 1, 1)"

definition month_partition :: "int \<Rightarrow> partition" where
  "month_partition i =
     \<lparr>pt_name = TABLE @ ''_'' @ month_label (CHR ''_'') (month_date i), pt_start = month_date i, pt_end = month_date (i + 1)\<rparr>"

lemma month_start_date: "valid_date d \<Longrightarrow> month_start d = month_date (month_index d)"
  by (cases d) (simp add: month_date_def)

lemma month_split:
  fixes i :: int
  obtains q r where "i = 12 * q + r" "0 \<le> r" "r < 12"
  by (rule that [of "i div 12" "i mod 12"]) simp_all

lemma month_date_parts: "0 \<le> r \<Longrightarrow> r < 12 \<Longrightarrow> month_date (12 * q + r) = (q, r + 1, 1)"
  by (simp add: month_date_def)

lemma next_month_date:
  assumes "i < 120000"
  shows "next_month (month_date i) = (if i + 1 \<ge> 120000 then Inl ValueError else Inr (month_date (i + 1)))"
proof -
  obtain q r where i: "i = 12 * q + r" "0 \<le> r" "r < 12" by (rule month_split)
  show ?thesis
  proof (cases "r = 11")
    case True
    then have "month_date (i + 1) = (q + 1, 1, 1)" using month_date_parts [of 0 "q + 1"] i(1) by (simp add: algebra_simps)
    with True i show ?thesis by (auto simp: month_date_parts)
  next
    case False
    then have "month_date (i + 1) = (q, r + 2, 1)" using month_date_parts [of "r + 1" q] i by (simp add: algebra_simps)
    moreover have "i + 1 < 120000" using False i assms by presburger
    ultimately show ?thesis using False i by (simp add: month_date_parts)
  qed
qed

lemma partitions_from_date:
  assumes "i < 120000" and "partitions_from n (month_date i) = Inr ps"
  shows "ps = map (\<lambda>k. month_partition (i + int k)) [0..<n]"
  using assms
proof (induction n arbitrary: i ps)
  case (Suc n)
  then have more: "i + 1 < 120000" by (auto simp: next_month_date split: if_splits)
  with Suc.prems obtain rest where rest: "partitions_from n (month_date (i + 1)) = Inr rest" "ps = month_partition i # rest"
    by (auto simp: next_month_date month_partition_def)
  have "map (\<lambda>k. month_partition (i + int k)) [0..<Suc n]
      = month_partition i # map (\<lambda>k. month_partition (i + 1 + int k)) [0..<n]"
    by (simp add: upt_conv_Cons map_Suc_upt [symmetric] add.assoc del: upt_Suc)
  with Suc.IH [OF more rest(1)] rest(2) show ?case by simp
qed simp

lemma month_date_less: "month_date i < month_date j \<longleftrightarrow> i < j"
proof -
  obtain q r where i: "i = 12 * q + r" "0 \<le> r" "r < 12" by (rule month_split)
  obtain q' r' where j: "j = 12 * q' + r'" "0 \<le> r'" "r' < 12" by (rule month_split)
  have "q < q' \<or> q = q' \<and> r < r' \<longleftrightarrow> i < j" using i j by linarith
  with i j show ?thesis by (auto simp: month_date_parts less_prod_def')
qed

lemma covers_month:
  assumes "1 \<le> m" "m \<le> 12" "1 \<le> d"
  shows "covers (month_partition i) (y, m, d) \<longleftrightarrow> month_index (y, m, d) = i"
proof -
  have start: "month_date j \<le> (y, m, d) \<longleftrightarrow> j \<le> month_index (y, m, d)" for j
  proof -
    obtain q r where j: "j = 12 * q + r" "0 \<le> r" "r < 12" by (rule month_split)
    have "q < y \<or> q = y \<and> (r + 1 < m \<or> r + 1 = m) \<longleftrightarrow> j \<le> 12 * y + (m - 1)" using assms j by linarith
    with j assms(3) show ?thesis by (auto simp: month_date_parts less_eq_prod_def)
  qed
  have "(y, m, d) < month_date (i + 1) \<longleftrightarrow> \<not> month_date (i + 1) \<le> (y, m, d)" by (simp add: not_le)
  then show ?thesis unfolding covers_def by (simp add: month_partition_def start) linarith
qed


lemma month_date_le: "month_date i \<le> month_date j \<longleftrightarrow> i \<le> j"
  using month_date_less [of j i] by (simp add: not_less flip: not_le)

lemma meets_month: "meets (month_partition i) (month_partition j) \<longleftrightarrow> i = j"
  by (auto simp: meets_def month_partition_def month_date_less)

lemma partitions_for_months:
  assumes "valid_date today" and "partitions_for today n = Inr ps"
  shows "ps = map (\<lambda>k. month_partition (month_index today + int k)) [0..<n]"
proof -
  have "month_index today < 120000" using assms(1) by (cases today) simp
  then show ?thesis
    using partitions_from_date assms by (simp add: partitions_for_def month_start_date)
qed

text \<open>A table under maintenance: every partition is a month's, and no month has two.\<close>

definition monthly :: "pg_table \<Rightarrow> bool" where
  "monthly t \<longleftrightarrow> (\<exists>js. pg_partitions t = map month_partition js \<and> distinct js)"

definition months_of :: "pg_table \<Rightarrow> int set" where
  "months_of t = {i. month_partition i \<in> set (pg_partitions t)}"

lemma month_partition_inject [simp]: "month_partition i = month_partition j \<longleftrightarrow> i = j"
  using meets_month by metis

lemma str_of_int_inject [simp]: "str_of_int a = str_of_int b \<longleftrightarrow> a = b"
  using parse_int_str_of_int by (metis option.inject)

lemma two_digit_length: "1 \<le> m \<Longrightarrow> m \<le> 12 \<Longrightarrow> length (two_digit m) = 2"
proof -
  assume m: "1 \<le> m" "m \<le> 12"
  then have "nat m < 10 \<longleftrightarrow> m < 10" "nat m div 10 < 10" by (simp_all add: div_less_iff_less_mult) linarith
  with m show ?thesis
    by (simp add: two_digit_def str_of_int_def str_of_nat.simps [of "nat m"] str_of_nat.simps [of "nat m div 10"])
qed

lemma two_digit_value: "1 \<le> m \<Longrightarrow> parse_digits 0 (two_digit m) = Some m"
proof -
  assume m: "1 \<le> m"
  have zero: "is_ascii_digit (CHR ''0'')" "digit_value (CHR ''0'') = 0" by code_simp+
  show ?thesis using m parse_digits_str_of_nat [of "nat m"] by (simp add: two_digit_def str_of_int_def zero)
qed

lemma month_name_inject: "pt_name (month_partition i) = pt_name (month_partition j) \<longleftrightarrow> i = j"
proof
  assume names: "pt_name (month_partition i) = pt_name (month_partition j)"
  obtain q r where i: "i = 12 * q + r" "0 \<le> r" "r < 12" by (rule month_split)
  obtain q' r' where j: "j = 12 * q' + r'" "0 \<le> r'" "r' < 12" by (rule month_split)
  from names have eq: "str_of_int q @ CHR ''_'' # two_digit (r + 1) = str_of_int q' @ CHR ''_'' # two_digit (r' + 1)"
    by (simp add: month_partition_def i j month_date_parts)
  have len: "length (CHR ''_'' # two_digit (r + 1)) = length (CHR ''_'' # two_digit (r' + 1))"
    using i j by (simp add: two_digit_length)
  have "str_of_int q = str_of_int q' \<and> CHR ''_'' # two_digit (r + 1) = CHR ''_'' # two_digit (r' + 1)"
    by (rule iffD1 [OF append_eq_append_conv eq]) (rule disjI2 [OF len])
  then have parts: "str_of_int q = str_of_int q'" "two_digit (r + 1) = two_digit (r' + 1)" by simp_all
  then have "q = q'" by simp
  moreover have "1 \<le> r + 1" "1 \<le> r' + 1" using i j by simp_all
  then have "r + 1 = r' + 1" using parts(2) two_digit_value by (metis option.inject)
  ultimately show "i = j" using i(1) j(1) by simp
qed simp


section \<open>Maintenance\<close>

lemma create_month:
  assumes "pg_partitions t = map month_partition js"
  shows "create_partition (month_partition i) t =
    (if i \<in> set js then Inl Overlap
     else if list_ex (covers (month_partition i)) (pg_default_rows t) then Inl Default_rows
     else Inr (t\<lparr>pg_partitions := map month_partition (js @ [i])\<rparr>))"
  using assms by (auto simp: create_partition_def list_ex_iff meets_month)

lemma regclass_month:
  "pg_partitions t = map month_partition js \<Longrightarrow> regclass_exists (pt_name (month_partition i)) t \<longleftrightarrow> i \<in> set js"
  using month_name_inject by (auto simp: regclass_exists_def)

lemma ensure_each_months:
  assumes "pg_partitions t = map month_partition js" and "distinct js" and "distinct ks"
    and "ensure_each (map month_partition ks) t = Inr (created, t')"
  shows "pg_partitions t' = map month_partition (js @ filter (\<lambda>k. k \<notin> set js) ks)
    \<and> pg_default_rows t' = pg_default_rows t
    \<and> created = map (pt_name \<circ> month_partition) (filter (\<lambda>k. k \<notin> set js) ks)"
  using assms
proof (induction ks arbitrary: t js created)
  case (Cons k ks)
  show ?case
  proof (cases "k \<in> set js")
    case True
    with Cons show ?thesis by (simp add: regclass_month [OF Cons.prems(1)])
  next
    case False
    let ?t = "t\<lparr>pg_partitions := map month_partition (js @ [k])\<rparr>"
    have "bindE (create_partition (month_partition k) t) (\<lambda>t1.
        bindE (ensure_each (map month_partition ks) t1) (\<lambda>(names, t2). Inr (pt_name (month_partition k) # names, t2)))
        = Inr (created, t')"
      using Cons.prems(4) False
      by (cases "checked_identifier (pt_name (month_partition k))") (simp_all add: regclass_month [OF Cons.prems(1)])
    then obtain t1 names where t1: "create_partition (month_partition k) t = Inr t1"
      "ensure_each (map month_partition ks) t1 = Inr (names, t')" "created = pt_name (month_partition k) # names"
      by (auto split: prod.splits)
    moreover have "t1 = ?t" using t1(1) False by (simp add: create_month [OF Cons.prems(1)] split: if_splits)
    ultimately obtain rest where rest: "ensure_each (map month_partition ks) ?t = Inr (rest, t')"
      "created = pt_name (month_partition k) # rest" by blast
    have "filter (\<lambda>x. x \<notin> set (js @ [k])) ks = filter (\<lambda>x. x \<notin> set js) ks"
      using Cons.prems(3) by (auto intro!: filter_cong)
    with Cons.IH [of ?t "js @ [k]" rest] Cons.prems rest False show ?thesis by simp
  qed
qed simp

lemma ensure_each_present:
  assumes "pg_partitions t = map month_partition js" and "set ks \<subseteq> set js"
  shows "ensure_each (map month_partition ks) t = Inr ([], t)"
  using assms(2) by (induction ks) (simp_all add: regclass_month [OF assms(1)])

lemma find_unique:
  assumes "x \<in> set xs" and "P x" and "\<And>y. y \<in> set xs \<Longrightarrow> P y \<Longrightarrow> y = x"
  shows "List.find P xs = Some x"
  using assms
proof (induction xs)
  case (Cons a xs)
  show ?case
  proof (cases "P a")
    case True
    moreover have "a = x" by (rule Cons.prems(3)) (simp, rule True)
    ultimately show ?thesis by simp
  next
    case False
    with Cons.prems(1,2) have "x \<in> set xs" by auto
    moreover have "y = x" if "y \<in> set xs" "P y" for y by (rule Cons.prems(3)) (use that in simp_all)
    ultimately have "List.find P xs = Some x" using Cons.IH Cons.prems(2) by blast
    with False show ?thesis by simp
  qed
qed simp

lemma route_month:
  assumes "pg_partitions t = map month_partition js" and "valid_date d"
  shows "route d t = (if month_index d \<in> set js then Some (month_partition (month_index d)) else None)"
proof -
  have cov: "covers (month_partition i) d \<longleftrightarrow> month_index d = i" for i
    using assms(2) covers_month by (cases d) simp
  show ?thesis
  proof (cases "month_index d \<in> set js")
    case True
    then have "route d t = Some (month_partition (month_index d))"
      unfolding route_def assms(1) by (intro find_unique) (auto simp: cov)
    with True show ?thesis by simp
  next
    case False
    then show ?thesis by (auto simp: route_def assms(1) find_None_iff cov)
  qed
qed



section \<open>Properties\<close>

definition window_months :: "date \<Rightarrow> nat \<Rightarrow> int list" where
  "window_months today months_ahead = map (\<lambda>k. month_index today + int k) [0..<months_ahead + 1]"

lemma ensure_window:
  assumes "valid_date today" and "ensure_partitions today months_ahead t = Inr r"
  shows "ensure_each (map month_partition (window_months today months_ahead)) t = Inr r"
    and "partitions_for today (months_ahead + 1) = Inr (map month_partition (window_months today months_ahead))"
proof -
  obtain ps where ps: "partitions_for today (months_ahead + 1) = Inr ps" "ensure_each ps t = Inr r"
    using assms(2) by (auto simp: ensure_partitions_def split: sum.splits)
  have "ps = map month_partition (window_months today months_ahead)"
    unfolding partitions_for_months [OF assms(1) ps(1)] by (simp add: window_months_def)
  with ps show "ensure_each (map month_partition (window_months today months_ahead)) t = Inr r"
    "partitions_for today (months_ahead + 1) = Inr (map month_partition (window_months today months_ahead))" by simp_all
qed

lemma distinct_window: "distinct (window_months today n)"
  unfolding window_months_def distinct_map by (simp add: inj_on_def del: upt_Suc)

lemma set_window: "set (window_months today n) = {month_index today..month_index today + int n}"
proof -
  have "set (window_months today n) = (\<lambda>k. month_index today + int k) ` {..n}"
    unfolding window_months_def set_map set_upt by (rule arg_cong [where f = "image _"]) auto
  moreover have "i \<in> (\<lambda>k. month_index today + int k) ` {..n}" if "month_index today \<le> i" "i \<le> month_index today + int n" for i
    using that by (intro image_eqI [of _ _ "nat (i - month_index today)"]) simp_all
  ultimately show ?thesis by auto
qed

text \<open>While nothing has lapsed, maintenance succeeds.\<close>

lemma safe_month: "0 \<le> i \<Longrightarrow> safe_name (pt_name (month_partition i))"
proof -
  assume i: "0 \<le> i"
  obtain q r where p: "i = 12 * q + r" "0 \<le> r" "r < 12" by (rule month_split)
  have zero: "is_ascii_digit (CHR ''0'')" by code_simp
  have "0 \<le> q" using i p by linarith
  then have "list_all is_ascii_digit (str_of_int q)" "list_all is_ascii_digit (two_digit (r + 1))"
    using p(2) str_of_nat_digits zero by (simp_all add: list_all_iff two_digit_def str_of_int_def)
  then show ?thesis
    by (auto simp: safe_name_def month_partition_def p(1) month_date_parts p TABLE_def less_eq_char_def list_all_iff)
qed

lemma partitions_from_ok: "i + int n < 120000 \<Longrightarrow> is_ok (partitions_from n (month_date i))"
proof (induction n arbitrary: i)
  case (Suc n)
  then have "next_month (month_date i) = Inr (month_date (i + 1))" by (simp add: next_month_date)
  moreover obtain ps where "partitions_from n (month_date (i + 1)) = Inr ps"
    using Suc.IH [of "i + 1"] Suc.prems by (auto simp: is_ok_iff)
  ultimately show ?case by simp
qed simp

lemma ensure_succeeds:
  assumes "monthly t" and "pg_default_rows t = []" and "valid_date today" and "month_index today + int months_ahead + 1 < 120000"
  shows "is_ok (ensure_partitions today months_ahead t)"
proof -
  have ok: "is_ok (ensure_each (map month_partition ks) u)"
    if "pg_partitions u = map month_partition js" "pg_default_rows u = []" "\<forall>k \<in> set ks. 0 \<le> k" for ks js u
    using that
  proof (induction ks arbitrary: u js)
    case (Cons k ks)
    show ?case
    proof (cases "k \<in> set js")
      case True
      with Cons show ?thesis by (simp add: regclass_month [OF Cons.prems(1)])
    next
      case False
      let ?u = "u\<lparr>pg_partitions := map month_partition (js @ [k])\<rparr>"
      have "is_ok (ensure_each (map month_partition ks) ?u)" using Cons.IH [of ?u "js @ [k]"] Cons.prems(2,3) by simp
      moreover have "create_partition (month_partition k) u = Inr ?u"
        using False Cons.prems(2) by (simp add: create_month [OF Cons.prems(1)])
      moreover have "checked_identifier (pt_name (month_partition k)) = Inr (pt_name (month_partition k))"
        using Cons.prems(3) safe_month by (simp add: checked_identifier_def)
      ultimately show ?thesis using False by (auto simp: regclass_month [OF Cons.prems(1)] is_ok_iff)
    qed
  qed simp
  have "0 \<le> month_index today" using assms(3) by (cases today) simp
  then have pos: "\<forall>k \<in> set (window_months today months_ahead). 0 \<le> k" by (simp add: set_window)
  have "is_ok (partitions_for today (months_ahead + 1))"
    using partitions_from_ok [of "month_index today" "months_ahead + 1"] assms(3,4)
    by (simp add: partitions_for_def month_start_date del: partitions_from.simps)
  then obtain ps where ps: "partitions_for today (months_ahead + 1) = Inr ps" by (auto simp: is_ok_iff)
  have "ps = map month_partition (window_months today months_ahead)"
    unfolding partitions_for_months [OF assms(3) ps] by (simp add: window_months_def)
  with ps ok [OF _ assms(2) pos] assms(1) show ?thesis by (auto simp: ensure_partitions_def monthly_def)
qed

text \<open>C30. Maintenance makes the coming months ready and is safe to repeat. If \<open>ensure_partitions\<close> returns on a
  table whose partitions are months, each at most once, it is such a table again; every row dated from
  the first of this month to the end of the last month asked for is kept in the partition of its own
  month and not in the default; what it created is what was missing; nothing is taken away; and running
  it again creates nothing.\<close>

theorem ensure_partitions_ready:
  assumes "monthly t" and "valid_date today" and "ensure_partitions today months_ahead t = Inr (created, t')"
  shows "monthly t' \<and> set (pg_partitions t) \<subseteq> set (pg_partitions t')
    \<and> (\<forall>d. valid_date d \<longrightarrow> month_index today \<le> month_index d \<longrightarrow> month_index d \<le> month_index today + int months_ahead \<longrightarrow>
         route d t' = Some (month_partition (month_index d)) \<and> insert_row d t' = t')
    \<and> set (map pt_name (pg_partitions t')) = set (map pt_name (pg_partitions t)) \<union> set created
    \<and> set created \<inter> set (map pt_name (pg_partitions t)) = {}
    \<and> ensure_partitions today months_ahead t' = Inr ([], t')"
proof -
  let ?ks = "window_months today months_ahead"
  obtain js where js: "pg_partitions t = map month_partition js" "distinct js"
    using assms(1) by (auto simp: monthly_def)
  let ?new = "filter (\<lambda>k. k \<notin> set js) ?ks"
  note window = ensure_window [OF assms(2,3)]
  have t': "pg_partitions t' = map month_partition (js @ ?new)" "created = map (pt_name \<circ> month_partition) ?new"
    using ensure_each_months [OF js distinct_window window(1)] by simp_all
  have "distinct (js @ ?new)" using js(2) distinct_window by auto
  then have "monthly t'" unfolding monthly_def t'(1) by blast
  moreover have "route d t' = Some (month_partition (month_index d)) \<and> insert_row d t' = t'"
    if "valid_date d" "month_index today \<le> month_index d" "month_index d \<le> month_index today + int months_ahead" for d
  proof -
    have "month_index d \<in> set (js @ ?new)" using that(2,3) by (auto simp: set_window)
    then show ?thesis using route_month [OF t'(1) that(1)] by (simp add: insert_row_def)
  qed
  moreover have "ensure_partitions today months_ahead t' = Inr ([], t')"
    using window(2) ensure_each_present [OF t'(1), of ?ks] by (auto simp: ensure_partitions_def)
  moreover have "set created \<inter> set (map pt_name (pg_partitions t)) = {}"
    using month_name_inject by (auto simp: t'(2) js(1))
  ultimately show ?thesis by (auto simp: t' js(1))
qed

text \<open>Maintenance that lapsed does not recover by itself: once a row was kept in the default partition for
  a month that has no partition of its own, \<open>ensure_partitions\<close> fails for every window that holds the
  month, and the rows of that month keep going to the default.\<close>

theorem lapsed_month_blocks_maintenance:
  assumes "monthly t" and "valid_date today" and "valid_date d" and "route d t = None"
    and "month_index today \<le> month_index d" and "month_index d \<le> month_index today + int months_ahead"
  shows "\<not> is_ok (ensure_partitions today months_ahead (insert_row d t))
    \<and> rows_in_default_partition (insert_row d (insert_row d t)) = rows_in_default_partition t + 2"
proof -
  let ?t = "insert_row d t"
  obtain js where js: "pg_partitions t = map month_partition js" "distinct js"
    using assms(1) by (auto simp: monthly_def)
  have t: "pg_partitions ?t = map month_partition js" "pg_default_rows ?t = d # pg_default_rows t"
    using assms(4) js(1) by (simp_all add: insert_row_def)
  have out: "month_index d \<notin> set js" using route_month [OF js(1) assms(3)] assms(4) by (auto split: if_splits)
  have "\<not> is_ok (ensure_partitions today months_ahead ?t)"
  proof
    assume "is_ok (ensure_partitions today months_ahead ?t)"
    then obtain created t' where ok: "ensure_partitions today months_ahead ?t = Inr (created, t')"
      by (auto simp: is_ok_iff)
    have "is_ok (ensure_each (map month_partition ks) u) \<Longrightarrow> month_index d \<in> set ks \<Longrightarrow> False"
      if "pg_partitions u = map month_partition is" "month_index d \<notin> set is" "d \<in> set (pg_default_rows u)" for ks u "is"
      using that
    proof (induction ks arbitrary: u "is")
      case (Cons k ks)
      have cov: "covers (month_partition (month_index d)) d" using assms(3) covers_month by (cases d) simp
      show ?case
      proof (cases "k \<in> set is")
        case True
        with Cons.prems have "is_ok (ensure_each (map month_partition ks) u)" "month_index d \<in> set ks"
          by (auto simp: regclass_month [OF Cons.prems(3)])
        with Cons.IH Cons.prems(3-5) show ?thesis by blast
      next
        case False
        have "is_ok (bindE (create_partition (month_partition k) u) (\<lambda>t1.
            bindE (ensure_each (map month_partition ks) t1) (\<lambda>(names, t2). Inr (pt_name (month_partition k) # names, t2))))"
          using Cons.prems(1) False
          by (cases "checked_identifier (pt_name (month_partition k))") (simp_all add: regclass_month [OF Cons.prems(3)])
        then obtain u1 where u1: "create_partition (month_partition k) u = Inr u1" "is_ok (ensure_each (map month_partition ks) u1)"
          by (auto simp: is_ok_iff split: prod.splits)
        have "k \<noteq> month_index d" using u1(1) False cov Cons.prems(5)
          by (auto simp: create_month [OF Cons.prems(3)] list_ex_iff split: if_splits)
        moreover have "u1 = u\<lparr>pg_partitions := map month_partition (is @ [k])\<rparr>"
          using u1(1) False by (simp add: create_month [OF Cons.prems(3)] split: if_splits)
        ultimately show ?thesis using Cons.IH [of u1 "is @ [k]"] Cons.prems(2,4,5) u1(2) by auto
      qed
    qed simp
    moreover have "is_ok (ensure_each (map month_partition (window_months today months_ahead)) ?t)"
      using ensure_window(1) [OF assms(2) ok] by (simp only: is_ok.simps)
    moreover have "month_index d \<in> set (window_months today months_ahead)" using assms(5,6) by (simp add: set_window)
    ultimately show False using t out by (metis list.set_intros(1))
  qed
  moreover have "route d ?t = None" using route_month [OF t(1) assms(3)] out by simp
  ultimately show ?thesis using t(2) by (simp add: insert_row_def rows_in_default_partition_def)
qed

definition empty_table :: pg_table where "empty_table = \<lparr>pg_partitions = [], pg_default_rows = []\<rparr>"

lemma empty_monthly: "monthly empty_table"
  by (simp add: monthly_def empty_table_def)

theorem ensure_partitions_ready_witness:
  "\<exists>created t'. ensure_partitions (2026, 11, 20) 3 empty_table = Inr (created, t')
     \<and> route (2027, 1, 31) t' = Some (month_partition (12 * 2027)) \<and> ensure_partitions (2026, 11, 20) 3 t' = Inr ([], t')"
proof -
  have "is_ok (ensure_partitions (2026, 11, 20) 3 empty_table)"
    by (rule ensure_succeeds [OF empty_monthly]) (simp_all add: empty_table_def)
  then obtain created t' where r: "ensure_partitions (2026, 11, 20) 3 empty_table = Inr (created, t')"
    by (auto simp: is_ok_iff)
  have "valid_date (2026, 11, 20)" "valid_date (2027, 1, 31)" by simp_all
  note v = this
  note ready = ensure_partitions_ready [OF empty_monthly v(1) r]
  then have "\<forall>d. valid_date d \<longrightarrow> month_index (2026, 11, 20) \<le> month_index d \<longrightarrow> month_index d \<le> month_index (2026, 11, 20) + int 3 \<longrightarrow>
      route d t' = Some (month_partition (month_index d))" by blast
  from this [rule_format, OF v(2)] have "route (2027, 1, 31) t' = Some (month_partition (12 * 2027))" by simp
  moreover have "ensure_partitions (2026, 11, 20) 3 t' = Inr ([], t')" using ready by blast
  ultimately show ?thesis using r by blast
qed

theorem lapsed_month_blocks_maintenance_witness:
  "\<not> is_ok (ensure_partitions (2026, 8, 1) 3 (insert_row (2026, 9, 2) empty_table))"
proof -
  have "route (2026, 9, 2) empty_table = None" by (simp add: route_def empty_table_def)
  from lapsed_month_blocks_maintenance [OF empty_monthly _ _ this, of "(2026, 8, 1)" 3] show ?thesis by simp
qed

end
