(* ===== verification/Management.thy ===== *)
theory Management
  imports Api_Auth Reports Dsl_Structured
begin

text \<open>
  The management API (\<open>src/complylayer/api/management/views.py\<close>): every endpoint for rules, rule set
  versions, decisions, named lists and keys, with its queryset, its serializer's checks and its status
  codes, over the operations of \<open>Lifecycle\<close> and \<open>Api_Auth\<close>.

  \<open>handle\<close> serves one authenticated request: an error, or the answer and the new state. The bodies are
  the rows the serializers show; pages are in \<open>Routing\<close>, the spelling of JSON is not modelled. A named list is
  addressed by its name, which is unique in a tenant, where the routes use the row's number; and the
  values of a list are a list, where the column takes any JSON. \<open>same_for\<close> compares what belongs to
  one tenant, \<open>alike\<close> two results as that tenant sees them, \<open>leaves\<close> is that nothing of a tenant changed.
\<close>


section \<open>State, requests and answers\<close>

record management =
  mg_system :: key_system
  mg_decisions :: "reviewed_row list"

datatype management_error =
    M_Lifecycle lifecycle_error
  | M_Key key_error
  | M_Syntax rule_syntax_error
  | M_Denied denial
  | M_Not_found
  | M_Invalid
  | M_Python exn
  | M_Data

datatype request =
    Rules_list | Rule_retrieve string | Rule_create rule_fields | Rule_update string "field_edit list"
  | Rule_destroy string string | Rule_validate "string option" "pyval option" | Rule_request_approval string
  | Rule_approve string string | Rule_shadow string | Rule_activate string string | Rule_archive string string
  | Versions_list | Version_retrieve nat | Version_create "pyval option"
  | Decisions_list "string option" "string option" | Decision_retrieve string "string option" "string option" | Decision_create
  | Decision_review string "string option" "string option" "string option" "string option"
  | Lists_list | List_retrieve string | List_create string "pyval list" | List_update string "pyval list" | List_destroy string
  | Keys_list | Key_retrieve string | Key_create key_request | Key_revoke string string

text \<open>A key as \<open>ApiKeySerializer\<close> shows it: not its hash.\<close>

record key_view =
  kv_id :: string
  kv_name :: string
  kv_prefix :: string
  kv_environment :: string
  kv_role :: string
  kv_created_by :: string
  kv_revoked_at :: "int option"
  kv_active :: bool

definition key_view_of :: "api_key_row \<Rightarrow> key_view" where
  "key_view_of k =
     \<lparr>kv_id = ak_id k, kv_name = ak_name k, kv_prefix = ak_prefix k, kv_environment = ak_environment k,
      kv_role = ak_role k, kv_created_by = ak_created_by k, kv_revoked_at = ak_revoked_at k, kv_active = is_active k\<rparr>"

datatype body =
    Rule_bodies "rule_row list" | Rule_body rule_row | Rule_published rule_row nat
  | Version_bodies "rule_set_version list" | Version_body rule_set_version
  | Decision_bodies "reviewed_row list" | Decision_body reviewed_row
  | List_bodies "(string \<times> pyval list) list" | List_body string "pyval list"
  | Key_bodies "key_view list" | Key_body key_view | Key_issued key_view string
  | Expression_valid string | No_content

type_synonym answer = "nat \<times> body"

text \<open>\<open>M_Data\<close> is a row PostgreSQL refuses: a text too long for its column, or a decision without a
  tenant, which is what a plain \<open>POST\<close> to the decisions comes to, since every field of its serializer
  is read-only. \<open>handle_exception\<close>: the status of an error; what no clause names is the server's failure.\<close>

fun lifecycle_status :: "lifecycle_error \<Rightarrow> nat" where
  "lifecycle_status (L_Denied d) = 403"
| "lifecycle_status (L_Syntax e) = 400"
| "lifecycle_status (L_Not_editable s) = 409"
| "lifecycle_status (L_Not_awaiting s) = 409"
| "lifecycle_status L_Not_approved = 409"
| "lifecycle_status (L_No_version n) = 409"
| "lifecycle_status L_Not_found = 404"
| "lifecycle_status L_Integrity = 500"

fun key_status :: "key_error \<Rightarrow> nat" where
  "key_status (K_Denied d) = 403"
| "key_status K_Invalid = 400"
| "key_status K_Not_a_role = 400"
| "key_status K_Integrity = 500"
| "key_status K_Not_found = 404"
| "key_status K_Already_revoked = 409"

fun handle_exception :: "management_error \<Rightarrow> nat" where
  "handle_exception (M_Lifecycle e) = lifecycle_status e"
| "handle_exception (M_Key e) = key_status e"
| "handle_exception (M_Syntax e) = 400"
| "handle_exception (M_Denied d) = 403"
| "handle_exception M_Not_found = 404"
| "handle_exception M_Invalid = 400"
| "handle_exception (M_Python e) = 500"
| "handle_exception M_Data = 500"

record drawn =
  dw_env :: environment
  dw_token :: string
  dw_key_id :: string
  dw_worker :: nat
  dw_crypto :: crypto


section \<open>Serializers\<close>

definition text_column :: "nat \<Rightarrow> string \<Rightarrow> bool" where
  "text_column n s \<longleftrightarrow> s \<noteq> [] \<and> length s \<le> n"

definition rule_fields_valid :: "rule_fields \<Rightarrow> bool" where
  "rule_fields_valid f \<longleftrightarrow>
     text_column 128 (f_name f) \<and> text_column 64 (f_category f) \<and> length (f_regulatory_reference f) \<le> 255 \<and>
     f_expression f \<noteq> [] \<and> text_column 16 (f_severity f)"

fun field_edit_valid :: "field_edit \<Rightarrow> bool" where
  "field_edit_valid (Set_name v) = text_column 128 v"
| "field_edit_valid (Set_category v) = text_column 64 v"
| "field_edit_valid (Set_regulatory_reference v) = (length v \<le> 255)"
| "field_edit_valid (Set_expression v) = (v \<noteq> [])"
| "field_edit_valid (Set_severity v) = text_column 16 v"
| "field_edit_valid _ = True"


section \<open>Querysets\<close>

definition tenant_part :: "string \<Rightarrow> management \<Rightarrow> tenant_db" where
  "tenant_part tenant m = ks_dbs (mg_system m) tenant"

definition set_tenant_part :: "string \<Rightarrow> tenant_db \<Rightarrow> management \<Rightarrow> management" where
  "set_tenant_part tenant db m =
     m\<lparr>mg_system := (mg_system m)\<lparr>ks_dbs := (ks_dbs (mg_system m))(tenant := db)\<rparr>\<rparr>"

definition rule_queryset :: "tenant_db \<Rightarrow> rule_row list" where
  "rule_queryset db = sort_key row_key (db_rules db)"

definition version_queryset :: "tenant_db \<Rightarrow> rule_set_version list" where
  "version_queryset db = sort_key (\<lambda>v. - int (rv_version v)) (db_versions db)"

definition row_id_text :: "reviewed_row \<Rightarrow> string" where
  "row_id_text r = (case dr_id r of PStr s \<Rightarrow> s | _ \<Rightarrow> [])"

definition decision_queryset :: "string \<Rightarrow> string option \<Rightarrow> string option \<Rightarrow> management \<Rightarrow> reviewed_row list" where
  "decision_queryset tenant out status m =
     sort_key (\<lambda>r. (- dr_decided_at r, row_id_text r))
       (filter (\<lambda>r. dr_tenant r = tenant
          \<and> (case out of Some (c # cs) \<Rightarrow> dr_outcome r = PStr (c # cs) | _ \<Rightarrow> True)
          \<and> (case status of Some (c # cs) \<Rightarrow> dr_review_status r = c # cs | _ \<Rightarrow> True)) (mg_decisions m))"

definition key_queryset :: "string \<Rightarrow> management \<Rightarrow> api_key_row list" where
  "key_queryset tenant m = sort_key ak_id (filter (\<lambda>k. ak_tenant k = tenant) (ks_keys (mg_system m)))"

definition get_object :: "('a \<Rightarrow> bool) \<Rightarrow> 'a list \<Rightarrow> management_error + 'a" where
  "get_object P rows = (case List.find P rows of None \<Rightarrow> Inl M_Not_found | Some x \<Rightarrow> Inr x)"


section \<open>Endpoints\<close>

definition lifecycle :: "string \<Rightarrow> (tenant_db \<Rightarrow> lifecycle_error + tenant_db) \<Rightarrow> management \<Rightarrow> management_error + tenant_db" where
  "lifecycle tenant f m = (case f (tenant_part tenant m) of Inl e \<Rightarrow> Inl (M_Lifecycle e) | Inr db \<Rightarrow> Inr db)"

definition rule_answer :: "string \<Rightarrow> string \<Rightarrow> tenant_db \<Rightarrow> management \<Rightarrow> management_error + answer \<times> management" where
  "rule_answer tenant rid db m =
     bindE (get_object (\<lambda>r. rr_id r = rid) (db_rules db)) (\<lambda>r.
       Inr ((200, Rule_body r), set_tenant_part tenant db m))"

definition published_answer :: "string \<Rightarrow> string \<Rightarrow> tenant_db \<Rightarrow> management \<Rightarrow> management_error + answer \<times> management" where
  "published_answer tenant rid db m =
     bindE (get_object (\<lambda>r. rr_id r = rid) (db_rules db)) (\<lambda>r.
       Inr ((200, Rule_published r (rv_version (List.last (db_versions db)))), set_tenant_part tenant db m))"

definition validate_endpoint :: "python_parser \<Rightarrow> string option \<Rightarrow> pyval option \<Rightarrow> management_error + string" where
  "validate_endpoint py expression structured =
     bindE (case expression of
              Some e \<Rightarrow> Inr e
            | None \<Rightarrow>
                (case structured of
                   None \<Rightarrow> Inr []
                 | Some s \<Rightarrow> (case to_expression s of Inl e \<Rightarrow> Inl (M_Syntax e) | Inr e \<Rightarrow> Inr e))) (\<lambda>e.
       if e = [] then Inl M_Invalid
       else (case validate_source py e of Inl x \<Rightarrow> Inl (M_Syntax x) | Inr _ \<Rightarrow> Inr e))"

text \<open>\<open>int(revert_to)\<close>.\<close>

fun py_int :: "pyval \<Rightarrow> exn + int" where
  "py_int (PInt i) = Inr i"
| "py_int (PBool b) = Inr (if b then 1 else 0)"
| "py_int (PFloat q) = Inr (if q < 0 then \<lceil>q\<rceil> else \<lfloor>q\<rfloor>)"
| "py_int (PStr s) = (case parse_int s of Some i \<Rightarrow> Inr i | None \<Rightarrow> Inl ValueError)"
| "py_int _ = Inl TypeError"

definition create_ruleset ::
  "environment \<Rightarrow> actor \<Rightarrow> string \<Rightarrow> pyval option \<Rightarrow> management \<Rightarrow> management_error + answer \<times> management" where
  "create_ruleset env who tenant revert_to m =
     (case revert_to of
        None \<Rightarrow> Inl M_Invalid
      | Some PNone \<Rightarrow> Inl M_Invalid
      | Some v \<Rightarrow>
          bindE (case py_int v of Inl e \<Rightarrow> Inl (M_Python e) | Inr i \<Rightarrow> Inr i) (\<lambda>n.
          bindE (lifecycle tenant (\<lambda>db.
              if n < 0 then bindE (guard (require_action who A_REVERT)) (\<lambda>_. Inl (L_No_version 0))
              else revert env who (nat n) db) m) (\<lambda>db.
            Inr ((201, Version_body (List.last (db_versions db))), set_tenant_part tenant db m))))"

text \<open>The query parameters that filter the list of decisions also filter where one decision is looked up.\<close>

definition review :: "environment \<Rightarrow> actor \<Rightarrow> string \<Rightarrow> string \<Rightarrow> string option \<Rightarrow> string option \<Rightarrow> string option \<Rightarrow> string option \<Rightarrow>
    management \<Rightarrow> management_error + answer \<times> management" where
  "review env who tenant did out st status notes m =
     (case require_action who A_REVIEW_DECISION of
        Inl d \<Rightarrow> Inl (M_Denied d)
      | Inr _ \<Rightarrow>
          bindE (get_object (\<lambda>r. dr_id r = PStr did) (decision_queryset tenant out st m)) (\<lambda>r.
            let r1 = r\<lparr>dr_review_status := (case status of Some s \<Rightarrow> s | None \<Rightarrow> ''cleared''),
                       dr_reviewed_by := actor_id who,
                       dr_review_notes := (case notes of Some n \<Rightarrow> n | None \<Rightarrow> [])\<rparr>
            in if length (dr_review_status r1) > 16 then Inl M_Data
               else
                 (let db = audit_append env ''decision.reviewed'' who (PDict [(''type'', PStr ''decision''), (''id'', dr_id r)])
                        (PDict [(''status'', PStr (dr_review_status r1)), (''notes'', PStr (dr_review_notes r1))])
                        (tenant_part tenant m)
                  in Inr ((200, Decision_body r1),
                       set_tenant_part tenant db
                         (m\<lparr>mg_decisions := map (\<lambda>x. if dr_id x = dr_id r \<and> dr_decided_at x = dr_decided_at r \<and> dr_tenant x = tenant
                                                 then r1 else x) (mg_decisions m)\<rparr>)))))"

definition create_key_endpoint :: "drawn \<Rightarrow> credentials \<Rightarrow> key_request \<Rightarrow> management \<Rightarrow> management_error + answer \<times> management" where
  "create_key_endpoint dw cred rq m =
     (case create_key (dw_crypto dw) (dw_env dw) (dw_token dw) (dw_key_id dw) cred rq (mg_system m) of
        Inl e \<Rightarrow> Inl (M_Key e)
      | Inr (full, sys) \<Rightarrow> Inr ((201, Key_issued (key_view_of (List.last (ks_keys sys))) full), m\<lparr>mg_system := sys\<rparr>))"

definition revoke_key_endpoint :: "drawn \<Rightarrow> credentials \<Rightarrow> string \<Rightarrow> string \<Rightarrow> management \<Rightarrow> management_error + answer \<times> management" where
  "revoke_key_endpoint dw cred key_id why m =
     (case revoke_key (dw_env dw) (dw_worker dw) cred key_id why (mg_system m) of
        Inl e \<Rightarrow> Inl (M_Key e)
      | Inr sys \<Rightarrow>
          (case get_key (cd_tenant_id cred) key_id sys of
             Inl e \<Rightarrow> Inl (M_Key e)
           | Inr k \<Rightarrow> Inr ((200, Key_body (key_view_of k)), m\<lparr>mg_system := sys\<rparr>)))"

fun handle :: "drawn \<Rightarrow> credentials \<Rightarrow> request \<Rightarrow> management \<Rightarrow> management_error + answer \<times> management" where
  "handle dw c Rules_list m = Inr ((200, Rule_bodies (rule_queryset (tenant_part (cd_tenant_id c) m))), m)"
| "handle dw c (Rule_retrieve rid) m =
     bindE (get_object (\<lambda>r. rr_id r = rid) (rule_queryset (tenant_part (cd_tenant_id c) m))) (\<lambda>r. Inr ((200, Rule_body r), m))"
| "handle dw c (Rule_create f) m =
     (if \<not> rule_fields_valid f then Inl M_Invalid
      else
        bindE (lifecycle (cd_tenant_id c) (create_draft (dw_env dw) (cd_actor c) f) m) (\<lambda>db.
          Inr ((201, Rule_body (List.last (db_rules db))), set_tenant_part (cd_tenant_id c) db m)))"
| "handle dw c (Rule_update rid fs) m =
     bindE (get_object (\<lambda>r. rr_id r = rid) (rule_queryset (tenant_part (cd_tenant_id c) m))) (\<lambda>_.
     if \<not> list_all field_edit_valid fs then Inl M_Invalid
     else
       bindE (lifecycle (cd_tenant_id c) (edit_draft (dw_env dw) (cd_actor c) rid fs) m) (\<lambda>db.
         rule_answer (cd_tenant_id c) rid db m))"
| "handle dw c (Rule_destroy rid why) m =
     bindE (lifecycle (cd_tenant_id c) (archive (dw_env dw) (cd_actor c) rid why) m) (\<lambda>db.
       Inr ((204, No_content), set_tenant_part (cd_tenant_id c) db m))"
| "handle dw c (Rule_validate expression structured) m =
     bindE (validate_endpoint (env_parser (dw_env dw)) expression structured) (\<lambda>e. Inr ((200, Expression_valid e), m))"
| "handle dw c (Rule_request_approval rid) m =
     bindE (lifecycle (cd_tenant_id c) (request_approval (dw_env dw) (cd_actor c) rid) m) (\<lambda>db.
       rule_answer (cd_tenant_id c) rid db m)"
| "handle dw c (Rule_approve rid why) m =
     bindE (lifecycle (cd_tenant_id c) (approve (dw_env dw) (cd_actor c) rid why) m) (\<lambda>db.
       rule_answer (cd_tenant_id c) rid db m)"
| "handle dw c (Rule_shadow rid) m =
     bindE (lifecycle (cd_tenant_id c) (move_to_shadow (dw_env dw) (cd_actor c) rid) m) (\<lambda>db.
       rule_answer (cd_tenant_id c) rid db m)"
| "handle dw c (Rule_activate rid why) m =
     bindE (lifecycle (cd_tenant_id c) (activate (dw_env dw) (cd_actor c) rid why) m) (\<lambda>db.
       published_answer (cd_tenant_id c) rid db m)"
| "handle dw c (Rule_archive rid why) m =
     bindE (lifecycle (cd_tenant_id c) (archive (dw_env dw) (cd_actor c) rid why) m) (\<lambda>db.
       published_answer (cd_tenant_id c) rid db m)"
| "handle dw c Versions_list m = Inr ((200, Version_bodies (version_queryset (tenant_part (cd_tenant_id c) m))), m)"
| "handle dw c (Version_retrieve n) m =
     bindE (get_object (\<lambda>v. rv_version v = n) (version_queryset (tenant_part (cd_tenant_id c) m))) (\<lambda>v. Inr ((200, Version_body v), m))"
| "handle dw c (Version_create revert_to) m = create_ruleset (dw_env dw) (cd_actor c) (cd_tenant_id c) revert_to m"
| "handle dw c (Decisions_list out status) m = Inr ((200, Decision_bodies (decision_queryset (cd_tenant_id c) out status m)), m)"
| "handle dw c (Decision_retrieve did out status) m =
     bindE (get_object (\<lambda>r. dr_id r = PStr did) (decision_queryset (cd_tenant_id c) out status m)) (\<lambda>r. Inr ((200, Decision_body r), m))"
| "handle dw c Decision_create m = Inl M_Data"
| "handle dw c (Decision_review did out st status notes) m = review (dw_env dw) (cd_actor c) (cd_tenant_id c) did out st status notes m"
| "handle dw c Lists_list m = Inr ((200, List_bodies (sort_key fst (db_lists (tenant_part (cd_tenant_id c) m)))), m)"
| "handle dw c (List_retrieve name) m =
     bindE (get_object (\<lambda>l. fst l = name) (sort_key fst (db_lists (tenant_part (cd_tenant_id c) m)))) (\<lambda>l.
       Inr ((200, List_body (fst l) (snd l)), m))"
| "handle dw c (List_create name vals) m =
     (if \<not> text_column 64 name then Inl M_Invalid
      else
        bindE (lifecycle (cd_tenant_id c) (named_list_create (dw_env dw) (cd_actor c) name vals) m) (\<lambda>db.
          Inr ((201, List_body name vals), set_tenant_part (cd_tenant_id c) db m)))"
| "handle dw c (List_update name vals) m =
     bindE (lifecycle (cd_tenant_id c) (named_list_update (dw_env dw) (cd_actor c) name vals) m) (\<lambda>db.
       Inr ((200, List_body name vals), set_tenant_part (cd_tenant_id c) db m))"
| "handle dw c (List_destroy name) m =
     bindE (lifecycle (cd_tenant_id c) (named_list_destroy name) m) (\<lambda>db.
       Inr ((204, No_content), set_tenant_part (cd_tenant_id c) db m))"
| "handle dw c Keys_list m = Inr ((200, Key_bodies (map key_view_of (key_queryset (cd_tenant_id c) m))), m)"
| "handle dw c (Key_retrieve key_id) m =
     bindE (get_object (\<lambda>k. ak_id k = key_id) (key_queryset (cd_tenant_id c) m)) (\<lambda>k. Inr ((200, Key_body (key_view_of k)), m))"
| "handle dw c (Key_create rq) m = create_key_endpoint dw c rq m"
| "handle dw c (Key_revoke key_id why) m = revoke_key_endpoint dw c key_id why m"


section \<open>Isolation\<close>

definition same_for :: "string \<Rightarrow> management \<Rightarrow> management \<Rightarrow> bool" where
  "same_for T m m' \<longleftrightarrow>
     tenant_part T m = tenant_part T m' \<and>
     filter (\<lambda>k. ak_tenant k = T) (ks_keys (mg_system m)) = filter (\<lambda>k. ak_tenant k = T) (ks_keys (mg_system m')) \<and>
     filter (\<lambda>r. dr_tenant r = T) (mg_decisions m) = filter (\<lambda>r. dr_tenant r = T) (mg_decisions m')"

lemma same_for_refl [simp]: "same_for T m m"
  by (simp add: same_for_def)

lemma tenant_part_set [simp]: "tenant_part T (set_tenant_part U db m) = (if T = U then db else tenant_part T m)"
  by (simp add: tenant_part_def set_tenant_part_def)

lemma set_tenant_part_simps [simp]:
  "ks_keys (mg_system (set_tenant_part T db m)) = ks_keys (mg_system m)"
  "mg_decisions (set_tenant_part T db m) = mg_decisions m"
  by (simp_all add: set_tenant_part_def)

lemma same_for_set: "same_for T m m' \<Longrightarrow> same_for T (set_tenant_part U db m) (set_tenant_part U db m')"
  by (simp add: same_for_def)

lemma same_for_other: "T \<noteq> U \<Longrightarrow> same_for T m (set_tenant_part U db m)"
  by (simp add: same_for_def)

text \<open>Two results are alike for a tenant: the same error, or the same answer and states alike.\<close>

fun alike :: "string \<Rightarrow> management_error + answer \<times> management \<Rightarrow> management_error + answer \<times> management \<Rightarrow> bool" where
  "alike T (Inl e) (Inl e') = (e = e')"
| "alike T (Inr (a, m)) (Inr (a', m')) = (a = a' \<and> same_for T m m')"
| "alike T _ _ = False"

lemma alike_bind: "(\<And>x. alike T (f x) (g x)) \<Longrightarrow> alike T (bindE r f) (bindE r g)"
  by (cases r) auto

lemma alike_refl [simp]: "alike T r r"
  by (cases r) auto

lemma same_lifecycle: "same_for T m m' \<Longrightarrow> lifecycle T f m = lifecycle T f m'"
  by (simp add: lifecycle_def same_for_def)

lemma same_decisions: "same_for T m m' \<Longrightarrow> decision_queryset T out st m = decision_queryset T out st m'"
proof -
  assume "same_for T m m'"
  then have "filter P (filter (\<lambda>r. dr_tenant r = T) (mg_decisions m)) = filter P (filter (\<lambda>r. dr_tenant r = T) (mg_decisions m'))" for P
    by (simp add: same_for_def del: filter_filter)
  then show ?thesis by (simp add: decision_queryset_def)
qed

lemma same_keys: "same_for T m m' \<Longrightarrow> key_queryset T m = key_queryset T m'"
  by (simp add: key_queryset_def same_for_def)

lemma filter_map_update:
  "(\<And>x. Q x \<Longrightarrow> t (f x) = t x) \<Longrightarrow>
   filter (\<lambda>x. t x = T) (map (\<lambda>x. if Q x then f x else x) xs) = map (\<lambda>x. if Q x then f x else x) (filter (\<lambda>x. t x = T) xs)"
  by (induction xs) auto

lemma find_filter: "List.find (\<lambda>x. P x \<and> Q x) xs = List.find Q (filter P xs)"
  by (induction xs) auto

definition fresh_draw :: "drawn \<Rightarrow> request \<Rightarrow> management \<Rightarrow> bool" where
  "fresh_draw dw rq m \<longleftrightarrow>
     (case rq of
        Key_create kr \<Rightarrow>
          (\<forall>k \<in> set (ks_keys (mg_system m)). ak_id k \<noteq> dw_key_id dw \<and>
             ak_prefix k \<noteq> snd (generate_key (case kr_environment kr of Some e \<Rightarrow> e | None \<Rightarrow> ''live'') (dw_token dw)))
      | _ \<Rightarrow> True)"

lemma same_rule_answer: "same_for T m m' \<Longrightarrow> alike T (rule_answer T rid db m) (rule_answer T rid db m')"
  unfolding rule_answer_def by (rule alike_bind) (simp add: same_for_set)

lemma same_published_answer: "same_for T m m' \<Longrightarrow> alike T (published_answer T rid db m) (published_answer T rid db m')"
  unfolding published_answer_def by (rule alike_bind) (simp add: same_for_set)


lemma get_object_in: "get_object P xs = Inr x \<Longrightarrow> x \<in> set xs \<and> P x"
  by (auto simp: get_object_def find_Some_iff split: option.splits)

lemma same_review: "same_for T m m' \<Longrightarrow> alike T (review env who T did out st s notes m) (review env who T did out st s notes m')"
proof -
  assume same: "same_for T m m'"
  have upd: "filter (\<lambda>x. dr_tenant x = T) (map (\<lambda>x. if dr_id x = a \<and> dr_decided_at x = b \<and> dr_tenant x = T then r1 else x) rows)
      = map (\<lambda>x. if dr_id x = a \<and> dr_decided_at x = b \<and> dr_tenant x = T then r1 else x) (filter (\<lambda>x. dr_tenant x = T) rows)"
    if "dr_tenant r1 = T" for a b r1 and rows :: "reviewed_row list"
    using that by (intro filter_map_update) simp
  have own: "dr_tenant r = T" if "get_object P (decision_queryset T out' st' m) = Inr r" for P out' st' r
    using get_object_in [OF that] by (simp add: decision_queryset_def)
  show ?thesis
  proof (cases "require_action who A_REVIEW_DECISION")
    case (Inl d)
    then show ?thesis by (simp add: review_def)
  next
    case (Inr u)
    show ?thesis
    proof (cases "get_object (\<lambda>r. dr_id r = PStr did) (decision_queryset T out st m)")
      case (Inl e)
      with Inr show ?thesis by (simp add: review_def same_decisions [OF same] del: require_action_Inr)
    next
      case r: (Inr r)
      from own [OF r] have "dr_tenant r = T" .
      moreover have "get_object (\<lambda>r. dr_id r = PStr did) (decision_queryset T out st m') = Inr r"
        using r by (simp add: same_decisions [OF same])
      ultimately show ?thesis
        using Inr r same by (simp add: review_def Let_def same_for_def upd del: require_action_Inr)
    qed
  qed
qed

definition new_key :: "drawn \<Rightarrow> credentials \<Rightarrow> key_request \<Rightarrow> role \<Rightarrow> api_key_row" where
  "new_key dw c rq target =
     (let environ = (case kr_environment rq of Some e \<Rightarrow> e | None \<Rightarrow> ''live'');
          full = fst (generate_key environ (dw_token dw)); pre = snd (generate_key environ (dw_token dw))
      in \<lparr>ak_id = dw_key_id dw, ak_tenant = cd_tenant_id c, ak_name = kr_name rq, ak_prefix = pre,
          ak_hashed_secret = cr_hash (dw_crypto dw) full, ak_environment = environ,
          ak_role = role_text target, ak_created_by = actor_id (cd_actor c), ak_revoked_at = None\<rparr>)"

definition key_checks :: "credentials \<Rightarrow> key_request \<Rightarrow> key_error + role" where
  "key_checks c rq =
     bindE (key_denied (require_action (cd_actor c) A_MANAGE_KEYS)) (\<lambda>_.
     bindE (if key_request_valid rq then Inr () else Inl K_Invalid) (\<lambda>_.
     bindE (case role_of_text (kr_role rq) of None \<Rightarrow> Inl K_Not_a_role | Some t \<Rightarrow> Inr t) (\<lambda>target.
     bindE (key_denied (require_issuable (cd_actor c) target)) (\<lambda>_. Inr target))))"

lemma create_key_checks:
  "create_key cr env token key_id c rq sys =
     bindE (key_checks c rq) (\<lambda>target.
       let environ = (case kr_environment rq of Some e \<Rightarrow> e | None \<Rightarrow> ''live'');
           full = fst (generate_key environ token); pre = snd (generate_key environ token)
       in if list_ex (\<lambda>k. ak_prefix k = pre \<or> ak_id k = key_id) (ks_keys sys) then Inl K_Integrity
          else
            Inr (full, sys\<lparr>
              ks_keys := ks_keys sys @
                [\<lparr>ak_id = key_id, ak_tenant = cd_tenant_id c, ak_name = kr_name rq, ak_prefix = pre,
                  ak_hashed_secret = cr_hash cr full, ak_environment = environ,
                  ak_role = role_text target, ak_created_by = actor_id (cd_actor c), ak_revoked_at = None\<rparr>],
              ks_dbs := (ks_dbs sys)(cd_tenant_id c :=
                audit_append env ''apikey.issued'' (cd_actor c) (key_subject key_id)
                  (PDict [(''prefix'', PStr pre), (''role'', PStr (role_text target)), (''environment'', PStr environ)])
                  (ks_dbs sys (cd_tenant_id c)))\<rparr>))"
  by (simp add: create_key_def key_checks_def Let_def bindE_assoc)

text \<open>Issuing a key with a fresh draw: the checks, which read nothing of the state, and the new row.\<close>

lemma create_key_fresh:
  assumes "fresh_draw dw (Key_create rq) m"
  shows "create_key_endpoint dw c rq m =
    (case key_checks c rq of
       Inl e \<Rightarrow> Inl (M_Key e)
     | Inr target \<Rightarrow>
         (let row = new_key dw c rq target; full = fst (generate_key (ak_environment row) (dw_token dw)) in
          Inr ((201, Key_issued (key_view_of row) full),
            m\<lparr>mg_system := (mg_system m)\<lparr>
              ks_keys := ks_keys (mg_system m) @ [row],
              ks_dbs := (ks_dbs (mg_system m))(cd_tenant_id c :=
                audit_append (dw_env dw) ''apikey.issued'' (cd_actor c) (key_subject (ak_id row))
                  (PDict [(''prefix'', PStr (ak_prefix row)), (''role'', PStr (role_text target)),
                          (''environment'', PStr (ak_environment row))])
                  (ks_dbs (mg_system m) (cd_tenant_id c)))\<rparr>\<rparr>)))"
proof -
  let ?e = "case kr_environment rq of Some e \<Rightarrow> e | None \<Rightarrow> ''live''"
  have new: "\<not> list_ex (\<lambda>k. ak_prefix k = snd (generate_key ?e (dw_token dw)) \<or> ak_id k = dw_key_id dw) (ks_keys (mg_system m))"
    using assms by (auto simp: fresh_draw_def list_ex_iff)
  show ?thesis
    unfolding create_key_endpoint_def create_key_checks
    by (cases "key_checks c rq") (simp_all add: new new_key_def Let_def)
qed

lemma new_key_tenant [simp]: "ak_tenant (new_key dw c rq target) = cd_tenant_id c"
  by (simp add: new_key_def Let_def)

lemma same_create_key:
  assumes "same_for T m m'" and "cd_tenant_id c = T" and "fresh_draw dw (Key_create rq) m" and "fresh_draw dw (Key_create rq) m'"
  shows "alike T (create_key_endpoint dw c rq m) (create_key_endpoint dw c rq m')"
  using assms(1,2)
  by (cases "key_checks c rq")
    (simp_all add: create_key_fresh [OF assms(3)] create_key_fresh [OF assms(4)] Let_def same_for_def tenant_part_def)

lemma get_key_own:
  "get_key T j s =
     (case List.find (\<lambda>k. ak_id k = j) (filter (\<lambda>x. ak_tenant x = T) (ks_keys s)) of
        None \<Rightarrow> Inl K_Not_found | Some k \<Rightarrow> Inr k)"
  by (simp add: get_key_def find_filter)

lemma filter_revoked:
  "filter (\<lambda>x. ak_tenant x = T) (map (\<lambda>x. if ak_id x = i then x\<lparr>ak_revoked_at := t\<rparr> else x) ks)
     = map (\<lambda>x. if ak_id x = i then x\<lparr>ak_revoked_at := t\<rparr> else x) (filter (\<lambda>x. ak_tenant x = T) ks)"
  by (rule filter_map_update) simp

lemma same_revoke_key:
  assumes "same_for T m m'" and "cd_tenant_id c = T"
  shows "alike T (revoke_key_endpoint dw c key_id why m) (revoke_key_endpoint dw c key_id why m')"
proof -
  let ?own = "filter (\<lambda>x. ak_tenant x = T) (ks_keys (mg_system m'))"
  have keys: "filter (\<lambda>x. ak_tenant x = T) (ks_keys (mg_system m)) = ?own"
    and rest: "ks_dbs (mg_system m) T = ks_dbs (mg_system m') T"
      "filter (\<lambda>r. dr_tenant r = T) (mg_decisions m) = filter (\<lambda>r. dr_tenant r = T) (mg_decisions m')"
    using assms(1) by (simp_all add: same_for_def tenant_part_def)
  note defs = revoke_key_endpoint_def revoke_key_def Let_def assms(2) get_key_own keys
  show ?thesis
  proof (cases "key_denied (require_action (cd_actor c) A_MANAGE_KEYS)")
    case (Inl e)
    then show ?thesis by (simp add: defs)
  next
    case allowed: (Inr u)
    show ?thesis
    proof (cases "List.find (\<lambda>k. ak_id k = key_id) ?own")
      case None
      with allowed show ?thesis by (simp add: defs del: key_denied_Inr)
    next
      case (Some k)
      with allowed show ?thesis
        by (cases "ak_revoked_at k")
          (simp_all add: defs rest same_for_def filter_revoked tenant_part_def del: key_denied_Inr split: option.split)
    qed
  qed
qed

lemma same_tenant_part: "same_for T m m' \<Longrightarrow> tenant_part T m = tenant_part T m'"
  by (simp add: same_for_def)

lemma same_create_ruleset: "same_for T m m' \<Longrightarrow> alike T (create_ruleset env who T v m) (create_ruleset env who T v m')"
  unfolding create_ruleset_def
  by (auto simp: same_lifecycle [of T m m'] same_for_set intro!: alike_bind split: option.split pyval.split)

lemma handle_alike:
  assumes same: "same_for (cd_tenant_id c) m m'" and fresh: "fresh_draw dw rq m" "fresh_draw dw rq m'"
  shows "alike (cd_tenant_id c) (handle dw c rq m) (handle dw c rq m')"
proof -
  let ?T = "cd_tenant_id c"
  note eqs = same_tenant_part [OF same] same_lifecycle [OF same] same_decisions [OF same] same_keys [OF same]
  note alikes = same_rule_answer [OF same] same_published_answer [OF same] same_for_set [OF same]
    same_review [OF same] same_create_ruleset [OF same]
  show ?thesis
  proof (cases rq)
    case (Key_create k)
    with fresh same show ?thesis by (simp add: same_create_key)
  next
    case (Key_revoke k why)
    with same show ?thesis by (simp add: same_revoke_key)
  qed (auto simp: eqs alikes same intro!: alike_bind)
qed

text \<open>What a request leaves alone.\<close>

fun leaves :: "string \<Rightarrow> management \<Rightarrow> management_error + answer \<times> management \<Rightarrow> bool" where
  "leaves T m (Inl e) = True"
| "leaves T m (Inr (a, m1)) = same_for T m m1"

lemma leaves_bind: "(\<And>x. leaves T m (f x)) \<Longrightarrow> leaves T m (bindE r f)"
  by (cases r) auto

lemma rule_answer_leaves:
  "T \<noteq> U \<Longrightarrow> leaves T m (rule_answer U rid db m)" "T \<noteq> U \<Longrightarrow> leaves T m (published_answer U rid db m)"
  unfolding rule_answer_def published_answer_def by (auto intro!: leaves_bind same_for_other)

lemma create_ruleset_leaves: "T \<noteq> U \<Longrightarrow> leaves T m (create_ruleset env who U v m)"
  unfolding create_ruleset_def by (auto intro!: leaves_bind same_for_other split: option.split pyval.split)

lemma filter_map_other:
  "(\<And>x. x \<in> set xs \<Longrightarrow> Q x \<Longrightarrow> t x \<noteq> T \<and> t (f x) \<noteq> T) \<Longrightarrow> filter (\<lambda>x. t x = T) (map (\<lambda>x. if Q x then f x else x) xs) = filter (\<lambda>x. t x = T) xs"
  by (induction xs) auto

lemma review_leaves: "T \<noteq> U \<Longrightarrow> leaves T m (review env who U did out st s notes m)"
proof -
  assume other: "T \<noteq> U"
  have "leaves T m (Inr (a, set_tenant_part U db (m\<lparr>mg_decisions :=
      map (\<lambda>x. if dr_id x = i \<and> dr_decided_at x = t \<and> dr_tenant x = U then r1 else x) (mg_decisions m)\<rparr>)))"
    if "dr_tenant r1 = U" for a db i t r1
  proof -
    have "filter (\<lambda>x. dr_tenant x = T) (map (\<lambda>x. if dr_id x = i \<and> dr_decided_at x = t \<and> dr_tenant x = U then r1 else x) (mg_decisions m))
        = filter (\<lambda>x. dr_tenant x = T) (mg_decisions m)"
      using other that by (intro filter_map_other) auto
    with other show ?thesis by (simp add: same_for_def tenant_part_def set_tenant_part_def)
  qed
  moreover have "dr_tenant r = U" if "get_object P (decision_queryset U out st m) = Inr r" for P r
    using get_object_in [OF that] by (simp add: decision_queryset_def)
  ultimately show ?thesis
    by (cases "require_action who A_REVIEW_DECISION"; cases "get_object (\<lambda>r. dr_id r = PStr did) (decision_queryset U out st m)")
      (simp_all add: review_def Let_def del: require_action_Inr)
qed

lemma create_key_leaves: "T \<noteq> cd_tenant_id c \<Longrightarrow> leaves T m (create_key_endpoint dw c rq m)"
  unfolding create_key_endpoint_def create_key_checks
  by (cases "key_checks c rq") (auto simp: Let_def same_for_def tenant_part_def)

lemma revoke_key_leaves:
  assumes "T \<noteq> cd_tenant_id c" and "distinct (map ak_id (ks_keys (mg_system m)))"
  shows "leaves T m (revoke_key_endpoint dw c key_id why m)"
proof (cases "revoke_key (dw_env dw) (dw_worker dw) c key_id why (mg_system m)")
  case (Inl e)
  then show ?thesis by (simp add: revoke_key_endpoint_def)
next
  case (Inr sys)
  then obtain k where k: "get_key (cd_tenant_id c) key_id (mg_system m) = Inr k"
    and sys: "ks_keys sys = map (\<lambda>x. if ak_id x = ak_id k then x\<lparr>ak_revoked_at := Some (env_now (dw_env dw))\<rparr> else x) (ks_keys (mg_system m))"
      "ks_dbs sys T = ks_dbs (mg_system m) T"
    using assms(1) by (auto simp: revoke_key_def Let_def split: if_splits)
  have "ak_tenant x \<noteq> T" if "ak_id x = ak_id k" "x \<in> set (ks_keys (mg_system m))" for x
    using get_key_Inr [OF k] that assms by (auto simp: distinct_map dest: inj_onD)
  then have "filter (\<lambda>x. ak_tenant x = T) (ks_keys sys) = filter (\<lambda>x. ak_tenant x = T) (ks_keys (mg_system m))"
    unfolding sys by (intro filter_map_other) auto
  with sys(2) show ?thesis
    by (auto simp: revoke_key_endpoint_def Inr same_for_def tenant_part_def split: sum.split)
qed

lemma handle_leaves:
  assumes "T \<noteq> cd_tenant_id c" and "distinct (map ak_id (ks_keys (mg_system m)))"
  shows "leaves T m (handle dw c rq m)"
  using assms
  by (cases rq) (auto intro!: leaves_bind same_for_other rule_answer_leaves create_ruleset_leaves review_leaves
      create_key_leaves revoke_key_leaves)



section \<open>Properties\<close>

definition office_key :: "string \<Rightarrow> string \<Rightarrow> api_key_row" where
  "office_key i tenant =
     \<lparr>ak_id = i, ak_tenant = tenant, ak_name = ''office'', ak_prefix = ''cl_live_'' @ i,
      ak_hashed_secret = ''cl_live_'' @ i, ak_environment = ''live'', ak_role = ''compliance_officer'',
      ak_created_by = ''setup'', ak_revoked_at = None\<rparr>"

text \<open>Two offices: one holds a draft that its own officer's key wrote, the other nothing yet.\<close>

definition officer_row :: rule_row where
  "officer_row = demo_row\<lparr>rr_created_by := ''key_t''\<rparr>"

definition officer_db :: tenant_db where
  "officer_db = (empty_db ''t'')\<lparr>db_rules := [officer_row]\<rparr>"

definition two_offices :: "tenant_db \<Rightarrow> management" where
  "two_offices other =
     \<lparr>mg_system = \<lparr>ks_keys = [office_key ''key_t'' ''t'', office_key ''key_u'' ''u''],
                   ks_dbs = (\<lambda>x. if x = ''t'' then officer_db else other), ks_caches = (\<lambda>_. Map.empty)\<rparr>,
      mg_decisions = []\<rparr>"

definition officer :: credentials where
  "officer = credentials_of (office_key ''key_t'' ''t'') COMPLIANCE_OFFICER"

definition office_draw :: drawn where
  "office_draw = \<lparr>dw_env = demo_env ''a1'' 1, dw_token = ''xyzxyzxyzxyz'', dw_key_id = ''key_2'', dw_worker = 0, dw_crypto = demo_crypto\<rparr>"

definition second_key_request :: key_request where
  "second_key_request = \<lparr>kr_name = ''second'', kr_role = ''compliance_officer'', kr_environment = None\<rparr>"

text \<open>Tenant isolation of the management API: for every request, the answer (or the error) and the
  caller's own next state are functions of the caller's own rules, versions, lists, trail, decisions
  and keys: two states that agree on these and differ in any way elsewhere are indistinguishable
  through every endpoint, one tenant's id giving another the same 404 as an id that never existed.
  And no request changes anything of another tenant.\<close>

theorem management_noninterference:
  assumes "same_for (cd_tenant_id c) m m'" and "fresh_draw dw rq m" and "fresh_draw dw rq m'"
    and "distinct (map ak_id (ks_keys (mg_system m)))"
  shows "alike (cd_tenant_id c) (handle dw c rq m) (handle dw c rq m')
    \<and> (\<forall>T. T \<noteq> cd_tenant_id c \<longrightarrow> leaves T m (handle dw c rq m))"
  using handle_alike [OF assms(1-3)] handle_leaves [OF _ assms(4)] by blast

theorem management_noninterference_witness:
  "alike ''t'' (handle office_draw officer (Key_create second_key_request) (two_offices officer_db))
     (handle office_draw officer (Key_create second_key_request) (two_offices (empty_db ''u'')))"
proof -
  have "fresh_draw office_draw (Key_create second_key_request) (two_offices db)" for db
    by (simp add: fresh_draw_def two_offices_def office_key_def office_draw_def second_key_request_def generate_key_def PREFIX_LENGTH_def)
  moreover have "cd_tenant_id officer = ''t''" "distinct (map ak_id (ks_keys (mg_system (two_offices officer_db))))"
    by (simp_all add: officer_def credentials_of_def office_key_def two_offices_def)
  moreover have "same_for ''t'' (two_offices officer_db) (two_offices (empty_db ''u''))"
    by (simp add: same_for_def two_offices_def tenant_part_def)
  ultimately show ?thesis using management_noninterference [of officer "two_offices officer_db" "two_offices (empty_db ''u'')"] by metis
qed

lemma create_key_rules:
  "create_key cr env token key_id c rq sys = Inr (full, sys1) \<Longrightarrow> get_rule rid (ks_dbs sys1 T) = get_rule rid (ks_dbs sys T)"
  by (auto simp: create_key_checks Let_def split: if_splits)

text \<open>C32. One holder, two approvers: whoever's key may issue a key of a role that approves gets, from
  one request to the key endpoint, a second key that authenticates at once and whose approval of any
  rule the issuer wrote is accepted and recorded, since the four-eyes check compares the ids of keys,
  and the new key has a new id. No second person takes part.\<close>

theorem one_holder_two_approvers:
  assumes "keys_inv (dw_crypto dw) (mg_system m)"
    and "handle dw c (Key_create rq) m = Inr ((status, Key_issued v full), m1)"
    and "role_of_text (kr_role rq) = Some r" and "A_APPROVE \<in> PERMISSIONS r"
    and "cr_verify (dw_crypto dw) (cr_hash (dw_crypto dw) full) full" and "dw_token dw \<noteq> []" and "\<not> isspace_c (last (dw_token dw))"
    and "get_rule rid (tenant_part (cd_tenant_id c) m) = Inr rule" and "rr_created_by rule \<noteq> dw_key_id dw"
  shows "\<exists>c2 a m2 rule2. fst (attempt (dw_crypto dw) worker now (''Bearer '' @ full) (mg_system m1)) = Inr c2
    \<and> handle dw2 c2 (Rule_approve rid why) m1 = Inr (a, m2)
    \<and> get_rule rid (tenant_part (cd_tenant_id c) m2) = Inr rule2 \<and> rr_approved_by rule2 = kv_id v"
proof -
  from assms(2) have made: "create_key (dw_crypto dw) (dw_env dw) (dw_token dw) (dw_key_id dw) c rq (mg_system m) = Inr (full, mg_system m1)"
    and v: "v = key_view_of (last (ks_keys (mg_system m1)))"
    by (auto simp: create_key_endpoint_def split: sum.splits)
  obtain row target where c2: "fst (attempt (dw_crypto dw) worker now (''Bearer '' @ full) (mg_system m1)) = Inr (credentials_of row target)"
    "ak_tenant row = cd_tenant_id c" "ak_id row = dw_key_id dw" "role_of_text (kr_role rq) = Some target"
    using issued_key_credentials [OF assms(1) made assms(5-7)] by metis
  let ?c2 = "credentials_of row target"
  have who: "cd_tenant_id ?c2 = cd_tenant_id c" "actor_id (cd_actor ?c2) = dw_key_id dw" "actor_role (cd_actor ?c2) = r"
    using c2 assms(3) by (simp_all add: credentials_of_def)
  have kv: "kv_id v = dw_key_id dw"
    by (rule create_key_Inr [OF made]) (simp add: v key_view_of_def)
  have "get_rule rid (tenant_part (cd_tenant_id c) m1) = Inr rule"
    using create_key_rules [OF made] assms(8) by (simp add: tenant_part_def)
  moreover define rule2 where "rule2 = rule\<lparr>rr_approved_by := dw_key_id dw, rr_approved_at := Some (env_now (dw_env dw2))\<rparr>"
  moreover have "rr_id rule = rid" using get_rule_Inr [OF assms(8)] by simp
  ultimately obtain db where db: "approve (dw_env dw2) (cd_actor ?c2) rid why (tenant_part (cd_tenant_id c) m1) = Inr db"
    and rule2: "get_rule rid db = Inr rule2"
    using assms(4,9) who get_rule_save [of rid "tenant_part (cd_tenant_id c) m1" rule rule2] by (auto simp: approve_def)
  then have "handle dw2 ?c2 (Rule_approve rid why) m1 = Inr ((200, Rule_body rule2), set_tenant_part (cd_tenant_id c) db m1)"
    by (simp add: who lifecycle_def rule_answer_def get_object_def get_rule_def split: option.splits)
  with c2(1) rule2 show ?thesis unfolding kv by (force simp: rule2_def)
qed

theorem one_holder_two_approvers_witness:
  "\<exists>v m1 c2 a m2 rule2.
     handle office_draw officer (Key_create second_key_request) (two_offices officer_db) = Inr ((201, Key_issued v ''cl_live_xyzxyzxyzxyz''), m1)
   \<and> fst (attempt demo_crypto 3 7 (''Bearer '' @ ''cl_live_xyzxyzxyzxyz'') (mg_system m1)) = Inr c2
   \<and> handle office_draw c2 (Rule_approve ''rul_1'' []) m1 = Inr (a, m2)
   \<and> get_rule ''rul_1'' (tenant_part ''t'' m2) = Inr rule2 \<and> rr_approved_by rule2 = kv_id v"
proof -
  let ?m = "two_offices officer_db" and ?full = "''cl_live_xyzxyzxyzxyz''"
  have "initial_system (mg_system ?m)"
    by (simp add: initial_system_def two_offices_def office_key_def)
  then have inv: "keys_inv (dw_crypto office_draw) (mg_system ?m)" by (rule initial_keys_inv)
  have fresh: "fresh_draw office_draw (Key_create second_key_request) ?m"
    by (simp add: fresh_draw_def two_offices_def office_key_def office_draw_def second_key_request_def generate_key_def PREFIX_LENGTH_def)
  have role: "role_of_text (kr_role second_key_request) = Some COMPLIANCE_OFFICER"
    by (simp add: second_key_request_def role_of_text_def)
  then have checks: "key_checks officer second_key_request = Inr COMPLIANCE_OFFICER"
    by (simp add: key_checks_def key_denied_def guard_defs officer_def credentials_of_def key_request_valid_def second_key_request_def)
  obtain v m1 where made: "handle office_draw officer (Key_create second_key_request) ?m = Inr ((201, Key_issued v ?full), m1)"
    by (simp add: create_key_fresh [OF fresh] checks Let_def new_key_def)
      (simp add: office_draw_def second_key_request_def generate_key_def Let_def)
  have rule: "get_rule ''rul_1'' (tenant_part (cd_tenant_id officer) ?m) = Inr officer_row"
    by (simp add: get_rule_def tenant_part_def officer_def credentials_of_def office_key_def two_offices_def officer_db_def
        officer_row_def demo_row_simps)
  have draw: "cr_verify (dw_crypto office_draw) (cr_hash (dw_crypto office_draw) k) k" "dw_crypto office_draw = demo_crypto"
    "dw_token office_draw \<noteq> []" "\<not> isspace_c (last (dw_token office_draw))" "rr_created_by officer_row \<noteq> dw_key_id office_draw" for k
    by (simp_all add: office_draw_def demo_crypto_def char_class_defs officer_row_def)
  have "cd_tenant_id officer = ''t''" by (simp add: officer_def credentials_of_def office_key_def)
  with one_holder_two_approvers [OF inv made role _ draw(1,3,4) rule draw(5), of 3 7 office_draw "[]"] made show ?thesis
    unfolding draw(2) by fastforce
qed

end
