(* ===== verification/Metrics.thy ===== *)
theory Metrics
  imports Prelude
begin

text \<open>
  Metrics (\<open>src/complylayer/engine/metrics.py\<close>): the registry of one worker, the gauges the workers
  share through a Redis hash, and the text exposition of a scrape.

  A series is a name with its labels sorted by name; the worker's process id is one of them. \<open>client\<close>
  says whether Redis answers. The \<open>g\<close> format of a number is a parameter. Numbers are rationals.
\<close>


section \<open>Series\<close>

type_synonym labels = "(string \<times> string) list"

type_synonym series = "string \<times> labels"

definition STAGES :: "string list" where
  "STAGES = [''auth'', ''facts'', ''eval'', ''serialize'']"

definition BUCKETS_MS :: "nat list" where
  "BUCKETS_MS = [1, 2, 5, 10, 20, 50, 100, 250, 500]"

definition SHARED_GAUGE_TTL_SECONDS :: int where "SHARED_GAUGE_TTL_SECONDS = 120"

definition SHARED_GAUGE_KEY :: string where "SHARED_GAUGE_KEY = ''cl:metrics:gauge''"

definition series_of :: "nat \<Rightarrow> string \<Rightarrow> labels \<Rightarrow> series" where
  "series_of pid name ls =
     (name, sort (if ''worker'' \<in> set (map fst ls) then ls else ls @ [(''worker'', str_of_nat pid)]))"

definition render_label :: "string \<times> string \<Rightarrow> string" where
  "render_label l = fst l @ ''='' @ [CHR 34] @ snd l @ [CHR 34]"

definition render_key :: "series \<Rightarrow> string" where
  "render_key k =
     (case k of (name, ls) \<Rightarrow>
        if ls = [] then name else name @ ''{'' @ str_join '','' (map render_label ls) @ ''}'')"


section \<open>The registry of a worker\<close>

record registry =
  rg_counters :: "(series \<times> rat) list"
  rg_gauges :: "(series \<times> rat) list"
  rg_histograms :: "(series \<times> rat list) list"

definition increment :: "nat \<Rightarrow> string \<Rightarrow> labels \<Rightarrow> rat \<Rightarrow> registry \<Rightarrow> registry" where
  "increment pid name ls by_n rg =
     (let k = series_of pid name ls; old = (case map_of (rg_counters rg) k of None \<Rightarrow> 0 | Some v \<Rightarrow> v)
      in rg\<lparr>rg_counters := AList.update k (old + by_n) (rg_counters rg)\<rparr>)"

definition set_gauge :: "nat \<Rightarrow> string \<Rightarrow> rat \<Rightarrow> labels \<Rightarrow> registry \<Rightarrow> registry" where
  "set_gauge pid name v ls rg = rg\<lparr>rg_gauges := AList.update (series_of pid name ls) v (rg_gauges rg)\<rparr>"

definition observe :: "nat \<Rightarrow> string \<Rightarrow> rat \<Rightarrow> labels \<Rightarrow> registry \<Rightarrow> registry" where
  "observe pid name ms ls rg =
     (let k = series_of pid name ls; old = (case map_of (rg_histograms rg) k of None \<Rightarrow> [] | Some vs \<Rightarrow> vs)
      in rg\<lparr>rg_histograms := AList.update k (old @ [ms]) (rg_histograms rg)\<rparr>)"

definition reset :: "registry \<Rightarrow> registry" where
  "reset rg = \<lparr>rg_counters = [], rg_gauges = [], rg_histograms = []\<rparr>"

definition snapshot :: "registry \<Rightarrow> (string \<times> rat) list \<times> (string \<times> rat) list \<times> (string \<times> nat) list" where
  "snapshot rg =
     (map (\<lambda>(k, v). (render_key k, v)) (rg_counters rg), map (\<lambda>(k, v). (render_key k, v)) (rg_gauges rg),
      map (\<lambda>(k, vs). (render_key k, length vs)) (rg_histograms rg))"

definition bucket_line :: "series \<Rightarrow> rat list \<Rightarrow> nat \<Rightarrow> string" where
  "bucket_line k vs b =
     render_key (fst k @ ''_bucket'', snd k @ [(''le'', str_of_nat b)]) @ '' '' @
       str_of_nat (length (filter (\<lambda>v. v \<le> of_nat b) vs))"

definition histogram_lines :: "(rat \<Rightarrow> string) \<Rightarrow> series \<times> rat list \<Rightarrow> string list" where
  "histogram_lines g h =
     (case h of (k, vs) \<Rightarrow>
        map (bucket_line k vs) BUCKETS_MS
        @ [render_key (fst k @ ''_count'', snd k) @ '' '' @ str_of_nat (length vs),
           render_key (fst k @ ''_sum'', snd k) @ '' '' @ g (sum_list vs)])"


section \<open>Shared gauges\<close>

text \<open>One Redis hash for all gauges of all workers, with the moment it expires.\<close>

record shared_hash =
  sh_fields :: "(string \<times> rat) list"
  sh_expires :: int

definition live_fields :: "int \<Rightarrow> shared_hash \<Rightarrow> (string \<times> rat) list" where
  "live_fields now h = (if sh_expires h \<le> now then [] else sh_fields h)"

definition publish_gauge :: "bool \<Rightarrow> int \<Rightarrow> nat \<Rightarrow> string \<Rightarrow> rat \<Rightarrow> labels \<Rightarrow> shared_hash \<Rightarrow> shared_hash" where
  "publish_gauge client now pid name v ls h =
     (if \<not> client then h
      else \<lparr>sh_fields = AList.update (render_key (series_of pid name ls)) v (live_fields now h),
            sh_expires = now + SHARED_GAUGE_TTL_SECONDS\<rparr>)"

definition shared_gauges :: "bool \<Rightarrow> int \<Rightarrow> shared_hash \<Rightarrow> (string \<times> rat) list" where
  "shared_gauges client now h = (if client then live_fields now h else [])"

definition render_metrics :: "(rat \<Rightarrow> string) \<Rightarrow> bool \<Rightarrow> int \<Rightarrow> shared_hash \<Rightarrow> registry \<Rightarrow> string list" where
  "render_metrics g client now h rg =
     map (\<lambda>(f, v). f @ '' '' @ g v) (sort_key fst (shared_gauges client now h))
     @ map (\<lambda>(k, v). render_key k @ '' '' @ g v) (sort_key fst (rg_counters rg))
     @ map (\<lambda>(k, v). render_key k @ '' '' @ g v) (sort_key fst (rg_gauges rg))
     @ concat (map (histogram_lines g) (sort_key fst (rg_histograms rg)))"


section \<open>Facts\<close>

lemma counter_adds:
  "map_of (rg_counters (increment pid name ls n rg)) (series_of pid name ls)
     = Some ((case map_of (rg_counters rg) (series_of pid name ls) of None \<Rightarrow> 0 | Some v \<Rightarrow> v) + n)"
  by (simp add: increment_def Let_def update_conv')

text \<open>Prometheus' histograms are cumulative: so are these, and no bucket exceeds the count.\<close>

lemma buckets_cumulative:
  assumes "a \<le> b"
  shows "length (filter (\<lambda>v. v \<le> of_nat a) vs) \<le> length (filter (\<lambda>v. v \<le> (of_nat b :: rat)) vs)"
proof -
  have "v \<le> of_nat b" if "v \<le> (of_nat a :: rat)" for v using that assms by (meson of_nat_le_iff order_trans)
  then show ?thesis by (induction vs) (auto simp: le_SucI)
qed

text \<open>A run of publications, each within the time to live of the one before.\<close>

type_synonym publication = "int \<times> nat \<times> rat"

fun publish_all :: "string \<Rightarrow> (nat \<Rightarrow> labels) \<Rightarrow> publication list \<Rightarrow> shared_hash \<Rightarrow> shared_hash" where
  "publish_all name ls [] h = h"
| "publish_all name ls ((now, pid, v) # ps) h = publish_all name ls ps (publish_gauge True now pid name v (ls pid) h)"

fun busy :: "int \<Rightarrow> publication list \<Rightarrow> bool" where
  "busy t [] = True"
| "busy t ((now, pid, v) # ps) = (t \<le> now \<and> now < t + SHARED_GAUGE_TTL_SECONDS \<and> busy now ps)"

fun last_moment :: "int \<Rightarrow> publication list \<Rightarrow> int" where
  "last_moment t [] = t"
| "last_moment t ((now, pid, v) # ps) = last_moment now ps"

lemma published_field_stays:
  assumes "sh_expires h = t + SHARED_GAUGE_TTL_SECONDS" and "map_of (sh_fields h) f = Some v" and "busy t ps"
    and "\<forall>(now, pid, x) \<in> set ps. render_key (series_of pid name (ls pid)) \<noteq> f"
  shows "map_of (sh_fields (publish_all name ls ps h)) f = Some v
    \<and> sh_expires (publish_all name ls ps h) = last_moment t ps + SHARED_GAUGE_TTL_SECONDS"
  using assms
proof (induction ps arbitrary: h t)
  case (Cons p ps)
  obtain now pid x where p: "p = (now, pid, x)" by (cases p)
  let ?h = "publish_gauge True now pid name x (ls pid) h"
  from Cons.prems p have "sh_expires ?h = now + SHARED_GAUGE_TTL_SECONDS" "map_of (sh_fields ?h) f = Some v"
    by (auto simp: publish_gauge_def live_fields_def update_conv')
  with Cons p show ?case by auto
qed simp

text \<open>A worker that died keeps reporting: the time to live is that of the whole hash, so as long as
  any worker publishes a gauge every two minutes, the last value of a worker that stopped stays in
  every scrape, however long ago that was, and reads as a version skew that is not there.\<close>

theorem dead_worker_keeps_reporting:
  assumes "busy t ps" and "\<forall>(now, pid, x) \<in> set ps. render_key (series_of pid name (ls pid)) \<noteq> render_key (series_of dead name (ls dead))"
    and "last_moment t ps \<le> now" and "now < last_moment t ps + SHARED_GAUGE_TTL_SECONDS"
  shows "(render_key (series_of dead name (ls dead)), v)
    \<in> set (shared_gauges True now (publish_all name ls ((t, dead, v) # ps) h))"
proof -
  let ?f = "render_key (series_of dead name (ls dead))" and ?h = "publish_gauge True t dead name v (ls dead) h"
  have "sh_expires ?h = t + SHARED_GAUGE_TTL_SECONDS" "map_of (sh_fields ?h) ?f = Some v"
    by (simp_all add: publish_gauge_def update_conv')
  from published_field_stays [OF this assms(1,2)] assms(4) show ?thesis
    by (auto simp: shared_gauges_def live_fields_def dest: map_of_SomeD)
qed

definition tenant_labels :: "nat \<Rightarrow> labels" where
  "tenant_labels pid = [(''tenant'', ''t1'')]"

theorem dead_worker_keeps_reporting_witness:
  "(''complylayer_ruleset_version{tenant='' @ [CHR 34] @ ''t1'' @ [CHR 34] @ '',worker='' @ [CHR 34] @ ''7'' @ [CHR 34] @ ''}'', 45)
     \<in> set (shared_gauges True 300 (publish_all ''complylayer_ruleset_version'' tenant_labels
          [(0, 7, 45), (100, 8, 46), (200, 8, 46), (300, 8, 46)] \<lparr>sh_fields = [], sh_expires = 0\<rparr>))"
proof -
  have "render_key (series_of 7 ''complylayer_ruleset_version'' (tenant_labels 7))
      = ''complylayer_ruleset_version{tenant='' @ [CHR 34] @ ''t1'' @ [CHR 34] @ '',worker='' @ [CHR 34] @ ''7'' @ [CHR 34] @ ''}''"
    "render_key (series_of 8 ''complylayer_ruleset_version'' (tenant_labels 8))
      \<noteq> render_key (series_of 7 ''complylayer_ruleset_version'' (tenant_labels 7))"
    by code_simp+
  with dead_worker_keeps_reporting [of 0 "[(100, 8, 46), (200, 8, 46), (300, 8, 46)]" "''complylayer_ruleset_version''" tenant_labels 7 300 45]
  show ?thesis by (simp add: SHARED_GAUGE_TTL_SECONDS_def)
qed

end
