(* ===== verification/Health.thy ===== *)
theory Health
  imports Decision_Endpoint Metrics
begin

text \<open>
  Liveness, readiness and metrics (\<open>src/complylayer/api/health.py\<close>) with the part of the middleware
  that serves them (\<open>EXEMPT_PATHS\<close> in \<open>decision_middleware.py\<close>): a worker's caches in the order they
  were made, the first of which is the one readiness looks at.

  A worker's life is a sequence of events: probes, authenticated decision requests, which make and warm
  their tenant's cache, and the polls of the watchers. Each carries what it would read from the
  database. The text of the metrics is that of \<open>Metrics\<close>.
\<close>


section \<open>Views\<close>

type_synonym cache_list = "(string \<times> rule_set_cache) list"

definition EXEMPT_PATHS :: "string list" where
  "EXEMPT_PATHS = [''/healthz'', ''/readyz'', ''/metrics'']"

definition probe_cache :: "cache_list \<Rightarrow> rule_set_cache option" where
  "probe_cache cs = (case cs of [] \<Rightarrow> None | (t, c) # _ \<Rightarrow> Some c)"

definition healthz :: response where
  "healthz = Http 200 [(''status'', PStr ''ok'')]"

definition readyz :: "cache_list \<Rightarrow> response" where
  "readyz cs =
     (case probe_cache cs of
        None \<Rightarrow> Http 503 [(''status'', PStr ''warming''),
                  (''detail'', PStr ''the rule set is still compiling; this worker is not taking traffic yet'')]
      | Some c \<Rightarrow>
          (case cache_version c of
             None \<Rightarrow> Http 503 [(''status'', PStr ''warming''),
                       (''detail'', PStr ''the rule set is still compiling; this worker is not taking traffic yet'')]
           | Some v \<Rightarrow> Http 200 [(''status'', PStr ''ready''), (''ruleset_version'', PInt v)]))"

definition removeprefix :: "string \<Rightarrow> string \<Rightarrow> string" where
  "removeprefix p s = (if prefix p s then drop (length p) s else s)"

datatype metrics_response = Metrics_refused | Metrics_failed | Metrics_text "string list"

text \<open>\<open>hmac.compare_digest\<close> compares like any other comparison, but refuses text that is not ASCII
  with a \<open>TypeError\<close>, which the view does not catch.\<close>

definition ascii_text :: "string \<Rightarrow> bool" where
  "ascii_text s \<longleftrightarrow> list_all (\<lambda>c. (of_char c :: nat) < 128) s"

definition metrics_view ::
  "string \<Rightarrow> string option \<Rightarrow> (rat \<Rightarrow> string) \<Rightarrow> bool \<Rightarrow> int \<Rightarrow> shared_hash \<Rightarrow> registry \<Rightarrow> metrics_response" where
  "metrics_view expected authorization g client now h rg =
     (if expected = [] then Metrics_text (render_metrics g client now h rg)
      else
        (let presented = py_strip (removeprefix ''Bearer '' (case authorization of Some a \<Rightarrow> a | None \<Rightarrow> []))
         in if \<not> (ascii_text presented \<and> ascii_text expected) then Metrics_failed
            else if presented \<noteq> expected then Metrics_refused
            else Metrics_text (render_metrics g client now h rg)))"


section \<open>A worker's life\<close>

datatype worker_event =
    Probed string
  | Decided string int "published option"
  | Watched string int "published option"

definition ensure_cache :: "python_parser \<Rightarrow> int \<Rightarrow> string \<Rightarrow> published option \<Rightarrow> cache_list \<Rightarrow> (cache_error + rule_set_cache) \<times> cache_list" where
  "ensure_cache py now tenant load cs =
     (let c = (case map_of cs tenant of Some c \<Rightarrow> c | None \<Rightarrow> \<lparr>rc_tenant = tenant, rc_current = None\<rparr>);
          (r, c') = (if is_warm c then (Inr False, c) else refresh py now load False c)
      in (bindE r (\<lambda>_. Inr c'), AList.update tenant c' cs))"

fun live :: "python_parser \<Rightarrow> worker_event \<Rightarrow> cache_list \<Rightarrow> cache_list" where
  "live py (Probed path) cs = cs"
| "live py (Decided tenant now load) cs = snd (ensure_cache py now tenant load cs)"
| "live py (Watched tenant now load) cs =
     (case map_of cs tenant of
        None \<Rightarrow> cs
      | Some c \<Rightarrow> AList.update tenant (snd (refresh py now load False c)) cs)"

definition lifetime :: "python_parser \<Rightarrow> worker_event list \<Rightarrow> cache_list" where
  "lifetime py evs = foldl (\<lambda>cs e. live py e cs) [] evs"

text \<open>\<open>ensure_cache\<close> is the middleware's \<open>cache_for\<close>, with the order of the dictionary kept.\<close>

lemma ensure_cache_is_cache_for:
  assumes "map_of cs = wk_caches wk"
  shows "fst (ensure_cache py now tenant (load_published tenant db) cs) = fst (cache_for py now tenant db wk)
    \<and> map_of (snd (ensure_cache py now tenant (load_published tenant db) cs)) = wk_caches (snd (cache_for py now tenant db wk))"
  using assms by (simp add: ensure_cache_def cache_for_def Let_def update_conv' split: prod.split)


section \<open>Readiness\<close>

fun first_decided :: "worker_event list \<Rightarrow> string option" where
  "first_decided [] = None"
| "first_decided (Decided t now load # es) = Some t"
| "first_decided (e # es) = first_decided es"

definition usable :: "python_parser \<Rightarrow> published option \<Rightarrow> bool" where
  "usable py load \<longleftrightarrow> (case load of None \<Rightarrow> False | Some (v, s, l) \<Rightarrow> is_ok (compile_snapshot py v s))"

fun brings_rules :: "python_parser \<Rightarrow> string \<Rightarrow> worker_event \<Rightarrow> bool" where
  "brings_rules py t (Probed path) = False"
| "brings_rules py t (Decided u now load) = (t = u \<and> usable py load)"
| "brings_rules py t (Watched u now load) = (t = u \<and> usable py load)"

text \<open>Whether the first tenant asked for got rules from its first request on.\<close>

fun first_served :: "python_parser \<Rightarrow> worker_event list \<Rightarrow> bool" where
  "first_served py [] = False"
| "first_served py (Decided t now load # es) = (\<exists>e \<in> set (Decided t now load # es). brings_rules py t e)"
| "first_served py (e # es) = first_served py es"

lemma refresh_warm:
  "is_warm (snd (refresh py now load False c)) \<longleftrightarrow>
     is_warm c \<or> usable py load"
  by (auto simp: usable_def refresh_def is_warm_def is_ok_iff cache_version_def split: option.splits prod.splits sum.splits)

lemma live_first:
  "\<exists>c' rest'. live py e ((t, c) # rest) = (t, c') # rest' \<and> (is_warm c' \<longleftrightarrow> is_warm c \<or> brings_rules py t e)"
proof (cases e)
  case (Decided u now load)
  then show ?thesis
    using refresh_warm [of py now load c]
    by (auto simp: ensure_cache_def Let_def split: prod.splits)
next
  case (Watched u now load)
  then show ?thesis
    using refresh_warm [of py now load c]
    by (auto split: prod.splits option.splits)
qed simp

lemma lives_first:
  "\<exists>c' rest'. foldl (\<lambda>cs e. live py e cs) ((t, c) # rest) es = (t, c') # rest' \<and>
     (is_warm c' \<longleftrightarrow> is_warm c \<or> (\<exists>e \<in> set es. brings_rules py t e))"
proof (induction es arbitrary: c rest)
  case (Cons e es)
  obtain c1 rest1 where 1: "live py e ((t, c) # rest) = (t, c1) # rest1" "is_warm c1 \<longleftrightarrow> is_warm c \<or> brings_rules py t e"
    using live_first by blast
  obtain c2 rest2 where 2: "foldl (\<lambda>cs e. live py e cs) ((t, c1) # rest1) es = (t, c2) # rest2"
    "is_warm c2 \<longleftrightarrow> is_warm c1 \<or> (\<exists>e \<in> set es. brings_rules py t e)" using Cons.IH by blast
  from 1 2 show ?case by auto
qed simp

lemma readyz_first: "readyz ((t, c) # cs) = Http 200 b \<longleftrightarrow> is_warm c \<and> (\<exists>v. cache_version c = Some v \<and> b = [(''status'', PStr ''ready''), (''ruleset_version'', PInt v)])"
  by (auto simp: readyz_def probe_cache_def is_warm_def cache_version_def split: option.splits)

text \<open>C36. Readiness waits for traffic: a worker's readiness probe answers 200 exactly if some decision
  request came first, and from that request on something read, for that request's tenant, a version
  that compiles. So a worker that gets no traffic until it is ready never becomes ready, whatever is
  published and however long it is probed; and a worker whose first request was from a tenant without
  rules stays unready however many tenants it serves.\<close>

theorem readiness_waits_for_traffic:
  "(\<exists>b. readyz (lifetime py evs) = Http 200 b) \<longleftrightarrow> first_served py evs"
proof (induction py evs rule: first_served.induct)
  case (1 py)
  then show ?case by (simp add: lifetime_def readyz_def probe_cache_def)
next
  case (2 py t now load es)
  let ?c = "snd (refresh py now load False \<lparr>rc_tenant = t, rc_current = None\<rparr>)"
  have "live py (Decided t now load) [] = [(t, ?c)]"
    by (simp add: ensure_cache_def Let_def is_warm_def split: prod.split)
  moreover have "is_warm ?c \<longleftrightarrow> brings_rules py t (Decided t now load)"
    using refresh_warm [of py now load "\<lparr>rc_tenant = t, rc_current = None\<rparr>"] by (simp add: is_warm_def)
  ultimately obtain c where c: "live py (Decided t now load) [] = [(t, c)]" "is_warm c \<longleftrightarrow> brings_rules py t (Decided t now load)"
    by blast
  obtain c' rest where "foldl (\<lambda>cs e. live py e cs) [(t, c)] es = (t, c') # rest"
    "is_warm c' \<longleftrightarrow> is_warm c \<or> (\<exists>e \<in> set es. brings_rules py t e)" using lives_first by blast
  with c show ?case by (auto simp: lifetime_def readyz_first is_warm_def cache_version_def)
qed (simp_all add: lifetime_def)

text \<open>With a token in the settings the metrics, tenants' names included, go only to who presents it.\<close>

lemma metrics_need_token:
  "expected \<noteq> [] \<Longrightarrow> metrics_view expected authorization g client now h rg = Metrics_text ls \<Longrightarrow>
   \<exists>a. authorization = Some a \<and> py_strip (removeprefix ''Bearer '' a) = expected"
  by (auto simp: metrics_view_def Let_def removeprefix_def py_strip_def split: if_splits option.splits)

end
