(* ===== verification/Propagation.thy ===== *)
theory Propagation
  imports Engine_Cache
begin

text \<open>
  How a published version reaches the workers: one tenant's database under any operations of
  \<open>Lifecycle\<close>, and the watchers of any number of workers (\<open>VersionWatcher\<close> in
  \<open>src/complylayer/engine/cache.py\<close>), each with the poll thread of \<open>_poll_loop\<close> and the handler of
  announcements, in any interleaving.

  An event happens at a moment: somebody changes the database, a worker's poll reads the newest
  version (\<open>_load_published\<close> in \<open>decision_middleware.py\<close>) or fails to read it, or a worker hears an
  announcement. An exception that is not a \<open>SnapshotError\<close> ends the poll thread for good.
\<close>


section \<open>The fleet\<close>

definition POLL_INTERVAL_SECONDS :: rat where "POLL_INTERVAL_SECONDS = 10"

definition published_in :: "tenant_db \<Rightarrow> published option" where
  "published_in db =
     (case latest_version db of None \<Rightarrow> None | Some v \<Rightarrow> Some (int (rv_version v), rv_rules v, Some (rv_lists v)))"

record fleet =
  fl_db :: tenant_db
  fl_watchers :: "nat \<Rightarrow> version_watcher"
  fl_ended :: "nat set"

datatype fleet_event =
    Changed tenant_db
  | Polled nat int
  | Poll_raises nat
  | Announced nat int

fun deliver :: "python_parser \<Rightarrow> fleet_event \<Rightarrow> fleet \<Rightarrow> fleet" where
  "deliver py (Changed db) s = s\<lparr>fl_db := db\<rparr>"
| "deliver py (Polled i now) s =
     (if i \<in> fl_ended s then s
      else
        (let (r, w) = poll_once py now (published_in (fl_db s)) (fl_watchers s i)
         in s\<lparr>fl_watchers := (fl_watchers s)(i := w), fl_ended := (if is_ok r then fl_ended s else insert i (fl_ended s))\<rparr>))"
| "deliver py (Poll_raises i) s = s\<lparr>fl_ended := insert i (fl_ended s)\<rparr>"
| "deliver py (Announced i now) s =
     s\<lparr>fl_watchers := (fl_watchers s)(i := snd (on_announcement py now (published_in (fl_db s)) (fl_watchers s i)))\<rparr>"

type_synonym history = "(rat \<times> fleet_event) list"

fun play :: "python_parser \<Rightarrow> history \<Rightarrow> fleet \<Rightarrow> fleet" where
  "play py [] s = s"
| "play py ((t, e) # es) s = play py es (deliver py e s)"

text \<open>The database changes by operations of the lifecycle only.\<close>

fun legal :: "python_parser \<Rightarrow> fleet \<Rightarrow> history \<Rightarrow> bool" where
  "legal py s [] = True"
| "legal py s ((t, e) # es) = ((case e of Changed db \<Rightarrow> step py (fl_db s) db | _ \<Rightarrow> True) \<and> legal py (deliver py e s) es)"

definition newest :: "tenant_db \<Rightarrow> int" where
  "newest db = (case latest_version db of None \<Rightarrow> 0 | Some v \<Rightarrow> int (rv_version v))"

definition served :: "fleet \<Rightarrow> nat \<Rightarrow> int" where
  "served s i = (case cache_version (vw_cache (fl_watchers s i)) of None \<Rightarrow> 0 | Some n \<Rightarrow> n)"

definition known_severities :: "tenant_db \<Rightarrow> bool" where
  "known_severities db \<longleftrightarrow>
     (\<forall>v \<in> set (db_versions db). \<forall>e \<in> set (rv_rules v). \<exists>s. se_severity e = Some s \<and> severity_of_text s \<noteq> None)"

definition at_boot :: "python_parser \<Rightarrow> fleet \<Rightarrow> bool" where
  "at_boot py s \<longleftrightarrow> reachable py (fl_db s) \<and> fl_ended s = {} \<and> (\<forall>i. \<not> is_warm (vw_cache (fl_watchers s i)))"


section \<open>Invariant\<close>

definition fleet_inv :: "python_parser \<Rightarrow> fleet \<Rightarrow> bool" where
  "fleet_inv py s \<longleftrightarrow> reachable py (fl_db s) \<and> (\<forall>i. 0 \<le> served s i \<and> served s i \<le> newest (fl_db s))"

lemma newest_nonneg [simp]: "0 \<le> newest db"
  by (simp add: newest_def split: option.split)

lemma newest_length: "reachable py db \<Longrightarrow> newest db = int (length (db_versions db))"
  using reachable_inv [of py db] latest_version_number [of db] latest_version_None [of db]
  by (cases "db_versions db = []") (auto simp: newest_def inv_def simp del: upt_Suc split: option.split)

lemma reachable_step: "reachable py db \<Longrightarrow> step py db db' \<Longrightarrow> reachable py db'"
  by (auto simp: reachable_def intro: rtranclp.rtrancl_into_rtrancl)

lemma newest_step: "reachable py db \<Longrightarrow> step py db db' \<Longrightarrow> newest db \<le> newest db'"
  using step_appends [of py db db'] newest_length [of py db] newest_length [of py db'] reachable_step [of py db db']
  by (auto dest: prefix_length_le)

lemma boot_inv: "at_boot py s \<Longrightarrow> fleet_inv py s"
  using newest_length by (auto simp: at_boot_def fleet_inv_def served_def is_warm_def cache_version_def split: option.split)

text \<open>A refresh leaves the version or installs the newest; without unknown severities it succeeds.\<close>

lemma refresh_newest:
  assumes "refresh py now (published_in db) False c = (r, c')"
  shows "cache_version c' = cache_version c \<or> cache_version c' = Some (newest db)"
  using refresh_cases [OF assms] compile_snapshot_version
  by (auto simp: cache_version_def published_in_def newest_def split: option.splits)

lemma refresh_known:
  assumes "reachable py db" and "known_severities db" and "refresh py now (published_in db) False c = (r, c')"
  shows "is_ok r \<and> (latest_version db \<noteq> None \<longrightarrow> cache_version c' = Some (newest db))"
proof (cases "latest_version db")
  case None
  with assms(3) show ?thesis by (auto simp: published_in_def refresh_def)
next
  case (Some v)
  then have "v \<in> set (db_versions db)"
    by (auto simp: latest_version_def split: list.splits dest: arg_cong [of _ _ set])
  then have "is_ok (compile_snapshot py (int (rv_version v)) (rv_rules v))"
    using published_versions_recompile [OF assms(1), of v] assms(2) by (auto simp: known_severities_def)
  with Some assms(3) show ?thesis
    using compile_snapshot_version
    by (auto simp: published_in_def refresh_def newest_def is_ok_iff cache_version_def split: if_splits)
qed

lemma deliver_inv:
  assumes "fleet_inv py s" and "case e of Changed db \<Rightarrow> step py (fl_db s) db | _ \<Rightarrow> True"
  shows "fleet_inv py (deliver py e s) \<and> newest (fl_db s) \<le> newest (fl_db (deliver py e s)) \<and> served s i \<le> served (deliver py e s) i"
proof (cases e)
  case (Changed db)
  with assms have s: "reachable py (fl_db s)" "step py (fl_db s) db" "\<And>k. served s k \<le> newest (fl_db s)" "\<And>k. 0 \<le> served s k"
    by (simp_all add: fleet_inv_def)
  have same: "served (deliver py e s) k = served s k" for k by (simp add: Changed served_def)
  have grown: "newest (fl_db s) \<le> newest db" using s(1,2) by (rule newest_step)
  have "served s k \<le> newest db" for k using s(3) grown by (rule order_trans)
  with grown same s(4) reachable_step [OF s(1,2)] show ?thesis by (simp add: fleet_inv_def Changed)
next
  case (Polled j now)
  obtain r c where f: "refresh py now (published_in (fl_db s)) False (vw_cache (fl_watchers s j)) = (r, c)" by fastforce
  have ok: "served s j \<le> newest (fl_db s)" using assms(1) by (simp add: fleet_inv_def)
  show ?thesis
  proof (cases "j \<in> fl_ended s")
    case True
    with assms Polled show ?thesis by simp
  next
    case False
    have "served (deliver py e s) k = (if k = j then (case cache_version c of None \<Rightarrow> 0 | Some n \<Rightarrow> n) else served s k)" for k
      using False by (simp add: Polled poll_once_def f served_def Let_def)
    with refresh_newest [OF f] ok assms(1) False show ?thesis
      by (auto simp: Polled fleet_inv_def poll_once_def f Let_def served_def)
  qed
next
  case (Poll_raises j)
  with assms show ?thesis by (simp add: fleet_inv_def served_def)
next
  case (Announced j now)
  obtain r c where f: "refresh py now (published_in (fl_db s)) False (vw_cache (fl_watchers s j)) = (r, c)" by fastforce
  have ok: "served s j \<le> newest (fl_db s)" using assms(1) by (simp add: fleet_inv_def)
  have "served (deliver py e s) k = (if k = j then (case cache_version c of None \<Rightarrow> 0 | Some n \<Rightarrow> n) else served s k)" for k
    by (simp add: Announced on_announcement_def f served_def Let_def)
  with refresh_newest [OF f] ok assms(1) show ?thesis
    by (auto simp: Announced fleet_inv_def on_announcement_def f Let_def served_def)
qed

lemma play_inv:
  "fleet_inv py s \<Longrightarrow> legal py s es \<Longrightarrow>
   fleet_inv py (play py es s) \<and> newest (fl_db s) \<le> newest (fl_db (play py es s)) \<and> served s i \<le> served (play py es s) i"
proof (induction py es s rule: play.induct)
  case (2 py t e es s)
  then have "fleet_inv py (deliver py e s) \<and> newest (fl_db s) \<le> newest (fl_db (deliver py e s)) \<and> served s i \<le> served (deliver py e s) i"
    by (intro deliver_inv) simp_all
  with 2 show ?case by (auto intro: order_trans)
qed simp



section \<open>Propagation\<close>

lemma play_append: "play py (xs @ ys) s = play py ys (play py xs s)"
  by (induction py xs s rule: play.induct) simp_all

lemma legal_append: "legal py s (xs @ ys) \<longleftrightarrow> legal py s xs \<and> legal py (play py xs s) ys"
  by (induction py s xs rule: legal.induct) auto

lemma known_severities_mono:
  "prefix (db_versions db) (db_versions db') \<Longrightarrow> known_severities db' \<Longrightarrow> known_severities db"
  using set_mono_prefix [of "db_versions db" "db_versions db'"] unfolding known_severities_def by blast

lemma deliver_versions:
  assumes "case e of Changed db \<Rightarrow> step py (fl_db s) db | _ \<Rightarrow> True"
  shows "prefix (db_versions (fl_db s)) (db_versions (fl_db (deliver py e s)))"
  using assms step_appends [of py "fl_db s"] by (cases e) (auto simp: Let_def split: prod.splits)

lemma play_versions: "legal py s es \<Longrightarrow> prefix (db_versions (fl_db s)) (db_versions (fl_db (play py es s)))"
proof (induction py s es rule: legal.induct)
  case (2 py s t e es)
  then show ?case using deliver_versions [of py s e] by (auto intro: prefix_order.trans)
qed simp

text \<open>While every severity is known and no read fails, no poll thread ends.\<close>

lemma play_ended:
  "fleet_inv py s \<Longrightarrow> legal py s es \<Longrightarrow> known_severities (fl_db (play py es s)) \<Longrightarrow>
   i \<notin> fl_ended s \<Longrightarrow> \<forall>t. (t, Poll_raises i) \<notin> set es \<Longrightarrow> i \<notin> fl_ended (play py es s)"
proof (induction py es s rule: play.induct)
  case (2 py t e es s)
  let ?s = "deliver py e s"
  have e: "case e of Changed db \<Rightarrow> step py (fl_db s) db | _ \<Rightarrow> True" and rest: "legal py ?s es" using "2.prems"(2) by simp_all
  have known: "known_severities (fl_db s)"
    using known_severities_mono play_versions [OF "2.prems"(2)] "2.prems"(3) by blast
  have "i \<notin> fl_ended ?s"
  proof (cases e)
    case (Polled j now)
    obtain r c where f: "refresh py now (published_in (fl_db s)) False (vw_cache (fl_watchers s j)) = (r, c)" by fastforce
    have "reachable py (fl_db s)" using "2.prems"(1) by (simp add: fleet_inv_def)
    from refresh_known [OF this known f] have "is_ok (swallow_snapshot_error r)"
      by (auto simp: is_ok_iff swallow_snapshot_error_def)
    with "2.prems"(4) show ?thesis by (simp add: Polled poll_once_def f Let_def)
  qed (use "2.prems"(4,5) in auto)
  moreover have "fleet_inv py ?s" using deliver_inv [OF "2.prems"(1) e] by blast
  ultimately show ?case using "2.IH" rest "2.prems"(3,5) by simp
qed simp

lemma poll_serves_newest:
  assumes "fleet_inv py s" and "known_severities (fl_db s)" and "i \<notin> fl_ended s"
  shows "newest (fl_db s) \<le> served (deliver py (Polled i now) s) i"
proof -
  obtain r c where f: "refresh py now (published_in (fl_db s)) False (vw_cache (fl_watchers s i)) = (r, c)" by fastforce
  have after: "served (deliver py (Polled i now) s) i = (case cache_version c of None \<Rightarrow> 0 | Some n \<Rightarrow> n)"
    using assms(3) by (simp add: poll_once_def f served_def Let_def)
  show ?thesis
  proof (cases "latest_version (fl_db s)")
    case None
    then have "c = vw_cache (fl_watchers s i)" using f by (simp add: published_in_def refresh_def)
    with after have "served (deliver py (Polled i now) s) i = served s i" by (simp add: served_def)
    moreover have "served s i \<ge> 0"
      using assms(1) by (simp add: fleet_inv_def)
    ultimately show ?thesis using None by (simp add: newest_def)
  next
    case (Some v)
    have "reachable py (fl_db s)" using assms(1) by (simp add: fleet_inv_def)
    from refresh_known [OF this assms(2) f] Some after show ?thesis by simp
  qed
qed

lemma play_up_to:
  "sorted (map fst es) \<Longrightarrow> es = filter (\<lambda>e. fst e \<le> T) es @ filter (\<lambda>e. T < fst e) es"
proof (induction es)
  case (Cons e es)
  show ?case
  proof (cases "fst e \<le> T")
    case False
    then have "\<not> fst x \<le> T" if "x \<in> set es" for x using Cons.prems that by auto
    then have "filter (\<lambda>e. fst e \<le> T) es = []" "filter (\<lambda>e. T < fst e) es = es"
      by (simp_all add: filter_empty_conv not_le)
    with False show ?thesis by simp
  qed (use Cons in auto)
qed simp


section \<open>Properties\<close>


definition booted :: fleet where
  "booted = \<lparr>fl_db = demo_approved, fl_watchers = (\<lambda>_. cold_watcher), fl_ended = {}\<rparr>"

definition activation :: history where
  "activation = [(1, Changed demo_active), (8, Polled 3 8)]"


text \<open>One read that fails ends a worker's poll thread, and no later poll of it changes anything: the
  worker serves the version of that moment until it hears an announcement or restarts.\<close>

lemma failed_read_ends_the_poll:
  assumes "\<forall>(t, e) \<in> set es. \<forall>now. e \<noteq> Announced i now"
  shows "served (play py ((t, Poll_raises i) # es) s) i = served s i"
proof -
  have "i \<in> fl_ended s \<Longrightarrow> \<forall>(t, e) \<in> set es. \<forall>now. e \<noteq> Announced i now \<Longrightarrow> served (play py es s) i = served s i" for s
  proof (induction py es s rule: play.induct)
    case (2 py t e es s)
    have "i \<in> fl_ended (deliver py e s)" "served (deliver py e s) i = served s i"
      using "2.prems" by (cases e; auto simp: Let_def served_def split: prod.split)+
    with 2 show ?case by auto
  qed simp
  from this [of "deliver py (Poll_raises i) s"] assms show ?thesis by (simp add: served_def)
qed

text \<open>Moving a rule to shadow publishes nothing: no worker evaluates it as a shadow rule, and one that was
  active goes on deciding, until something else publishes.\<close>

lemma shadowing_reaches_no_worker:
  assumes "move_to_shadow env who rid db = Inr db'"
  shows "published_in db' = published_in db"
  using assms by (auto simp: move_to_shadow_def published_in_def latest_version_def)

end
