(* ===== verification/Row_Security.thy ===== *)
theory Row_Security
  imports Api_Auth
begin

text \<open>
  The isolation the database itself enforces: the roles, grants, policies and triggers that the
  migrations install (\<open>src/complylayer/migrations/0002\<close>, \<open>0005\<close>, \<open>0006\<close>, \<open>0008\<close>, \<open>0009\<close>, \<open>0011\<close>), the
  transaction-scoped tenant setting (\<open>src/complylayer/tenancy/scope.py\<close>) and the middleware that opens a
  scope for a management request (\<open>src/complylayer/api/middleware.py\<close>).

  A row is its tenant and its columns. A program is what the Python code does to one connection:
  statements with any condition at all, nested scopes, exceptions raised and caught. Of PostgreSQL it
  is modelled what its manual says of row security, privileges, triggers, savepoints and settings with
  \<open>SET LOCAL\<close>; a failed statement aborts the transaction up to the innermost savepoint.
\<close>


section \<open>What the migrations install\<close>

record table_row =
  tr_tenant :: string
  tr_columns :: "(string \<times> string) list"

type_synonym database = "string \<Rightarrow> table_row list"

definition AUDIT :: string where "AUDIT = ''complylayer_auditrecord''"

definition CHECKPOINT :: string where "CHECKPOINT = ''complylayer_auditcheckpoint''"

definition APIKEY :: string where "APIKEY = ''complylayer_apikey''"

definition DASHBOARD_USER :: string where "DASHBOARD_USER = ''complylayer_dashboarduser''"

definition TENANT_SCOPED_TABLES :: "string list" where
  "TENANT_SCOPED_TABLES =
     [''complylayer_rule'', ''complylayer_rulesetversion'', ''complylayer_decision'', ''complylayer_idempotency'',
      AUDIT, ''complylayer_namedlist'', APIKEY, DASHBOARD_USER, CHECKPOINT]"

definition APP_ROLE :: string where "APP_ROLE = ''complylayer_app''"

record pg_role =
  ro_name :: string
  ro_superuser :: bool
  ro_owner :: bool
  ro_bypassrls :: bool

datatype sql_command = SELECT | INSERT | UPDATE | DELETE | TRUNCATE

text \<open>Privileges: a superuser and the tables' owner have all; the application role the four it was granted, but on the audit
  tables only two.\<close>

definition granted :: "pg_role \<Rightarrow> string \<Rightarrow> sql_command \<Rightarrow> bool" where
  "granted r table c \<longleftrightarrow>
     ro_superuser r \<or> ro_owner r \<or>
     ro_name r = APP_ROLE \<and> c \<noteq> TRUNCATE \<and> (table \<in> {AUDIT, CHECKPOINT} \<longrightarrow> c \<in> {SELECT, INSERT})"

text \<open>The settings of a connection: the tenant, and the flag of a resolving function.\<close>

record pg_settings =
  st_tenant :: "string option"
  st_resolving :: bool

definition tenant_isolation :: "pg_settings \<Rightarrow> table_row \<Rightarrow> bool" where
  "tenant_isolation s row \<longleftrightarrow> st_tenant s = Some (tr_tenant row)"

definition resolution :: "pg_settings \<Rightarrow> string \<Rightarrow> bool" where
  "resolution s table \<longleftrightarrow> table \<in> {APIKEY, DASHBOARD_USER} \<and> st_resolving s"

text \<open>Policies are or'd; the resolution policies are for \<open>SELECT\<close> only. They are skipped for superusers
  and \<open>BYPASSRLS\<close> roles; \<open>FORCE\<close> makes them apply to a table's owner.\<close>

definition policy :: "pg_role \<Rightarrow> pg_settings \<Rightarrow> string \<Rightarrow> sql_command \<Rightarrow> table_row \<Rightarrow> bool" where
  "policy r s table c row \<longleftrightarrow>
     ro_superuser r \<or> ro_bypassrls r \<or> table \<notin> set TENANT_SCOPED_TABLES \<or>
     tenant_isolation s row \<or> c = SELECT \<and> resolution s table"

definition append_only :: "string \<Rightarrow> bool" where
  "append_only table \<longleftrightarrow> table \<in> {AUDIT, CHECKPOINT}"


section \<open>Statements\<close>

datatype statement =
    Read string "table_row \<Rightarrow> bool"
  | Add string table_row
  | Change string "table_row \<Rightarrow> bool" "table_row \<Rightarrow> table_row"
  | Remove string "table_row \<Rightarrow> bool"
  | Empty string
  | Resolve_api_key string
  | Resolve_dashboard_user string

datatype sql_error = Permission_denied | Policy_violation | Append_only

type_synonym sightings = "(string \<times> table_row) list"

definition column :: "string \<Rightarrow> table_row \<Rightarrow> string option" where
  "column c row = map_of (tr_columns row) c"

definition select_rows :: "pg_role \<Rightarrow> pg_settings \<Rightarrow> string \<Rightarrow> (table_row \<Rightarrow> bool) \<Rightarrow> database \<Rightarrow> sql_error + sightings" where
  "select_rows r s table P db =
     (if \<not> granted r table SELECT then Inl Permission_denied
      else Inr (map (\<lambda>row. (table, row)) (filter (\<lambda>row. policy r s table SELECT row \<and> P row) (db table))))"

fun execute :: "pg_role \<Rightarrow> pg_settings \<Rightarrow> statement \<Rightarrow> database \<Rightarrow> sql_error + sightings \<times> database" where
  "execute r s (Read table P) db = bindE (select_rows r s table P db) (\<lambda>rows. Inr (rows, db))"
| "execute r s (Add table row) db =
     (if \<not> granted r table INSERT then Inl Permission_denied
      else if \<not> policy r s table INSERT row then Inl Policy_violation
      else Inr ([], db(table := db table @ [row])))"
| "execute r s (Change table P f) db =
     (if \<not> granted r table UPDATE then Inl Permission_denied
      else
        (let hit = (\<lambda>row. policy r s table UPDATE row \<and> P row)
         in if append_only table \<and> list_ex hit (db table) then Inl Append_only
            else if list_ex (\<lambda>row. hit row \<and> \<not> policy r s table UPDATE (f row)) (db table) then Inl Policy_violation
            else Inr ([], db(table := map (\<lambda>row. if hit row then f row else row) (db table)))))"
| "execute r s (Remove table P) db =
     (if \<not> granted r table DELETE then Inl Permission_denied
      else
        (let hit = (\<lambda>row. policy r s table DELETE row \<and> P row)
         in if append_only table \<and> list_ex hit (db table) then Inl Append_only
            else Inr ([], db(table := filter (\<lambda>row. \<not> hit row) (db table)))))"
| "execute r s (Empty table) db =
     (if \<not> granted r table TRUNCATE then Inl Permission_denied
      else if append_only table then Inl Append_only
      else Inr ([], db(table := [])))"
| "execute r s (Resolve_api_key pre) db =
     bindE (select_rows r (s\<lparr>st_resolving := True\<rparr>) APIKEY (\<lambda>row. column ''prefix'' row = Some pre) db) (\<lambda>rows. Inr (rows, db))"
| "execute r s (Resolve_dashboard_user user) db =
     bindE (select_rows r (s\<lparr>st_resolving := True\<rparr>) DASHBOARD_USER (\<lambda>row. column ''user_id'' row = Some user) db) (\<lambda>rows. Inr (rows, db))"


section \<open>Programs on a connection\<close>

datatype program =
    Done
  | Statement statement
  | Then program program
  | Raise
  | Caught program
  | Scope string program

record connection =
  cn_db :: database
  cn_tenant :: "string option"
  cn_depth :: nat
  cn_aborted :: bool

datatype run_result = Completed | Raised

text \<open>\<open>current_tenant()\<close>: an empty setting counts as none.\<close>

definition current_tenant :: "connection \<Rightarrow> string option" where
  "current_tenant c = (case cn_tenant c of Some (x # xs) \<Rightarrow> Some (x # xs) | _ \<Rightarrow> None)"

text \<open>\<open>transaction.atomic()\<close>: entering it, and leaving it with or without an exception. Outside any
  transaction a local setting is gone. A statement outside a transaction is one of its own.\<close>

definition leave_atomic :: "connection \<Rightarrow> run_result \<Rightarrow> connection \<Rightarrow> connection" where
  "leave_atomic before result c =
     (let kept = (if result = Raised then before else c\<lparr>cn_depth := cn_depth before\<rparr>)
      in if cn_depth before = 0 then kept\<lparr>cn_tenant := None, cn_aborted := False\<rparr> else kept)"

fun run_program :: "pg_role \<Rightarrow> program \<Rightarrow> connection \<Rightarrow> run_result \<times> sightings \<times> connection" where
  "run_program r Done c = (Completed, [], c)"
| "run_program r Raise c = (Raised, [], c)"
| "run_program r (Statement st) c =
     (if cn_aborted c then (Raised, [], c)
      else
        (case execute r \<lparr>st_tenant = cn_tenant c, st_resolving = False\<rparr> st (cn_db c) of
           Inl e \<Rightarrow> (Raised, [], c\<lparr>cn_aborted := (cn_depth c \<noteq> 0)\<rparr>)
         | Inr (rows, db) \<Rightarrow> (Completed, rows, c\<lparr>cn_db := db\<rparr>)))"
| "run_program r (Then p q) c =
     (case run_program r p c of
        (Raised, rows, c1) \<Rightarrow> (Raised, rows, c1)
      | (Completed, rows, c1) \<Rightarrow> (case run_program r q c1 of (res, rows', c2) \<Rightarrow> (res, rows @ rows', c2)))"
| "run_program r (Caught p) c = (case run_program r p c of (_, rows, c1) \<Rightarrow> (Completed, rows, c1))"
| "run_program r (Scope tenant p) c =
     (if cn_aborted c then (Raised, [], c)
      else
        (let previous = current_tenant c
         in case run_program r p (c\<lparr>cn_depth := Suc (cn_depth c), cn_tenant := Some tenant\<rparr>) of
              (res, rows, c1) \<Rightarrow>
                (let res' = (if cn_aborted c1 then Raised else res);
                     c2 = (if cn_aborted c1 then c1 else c1\<lparr>cn_tenant := Some (case previous of Some t \<Rightarrow> t | None \<Rightarrow> [])\<rparr>)
                 in (res', rows, leave_atomic c res' c2))))"

fun scopes :: "program \<Rightarrow> string set" where
  "scopes (Scope tenant p) = insert tenant (scopes p)"
| "scopes (Then p q) = scopes p \<union> scopes q"
| "scopes (Caught p) = scopes p"
| "scopes _ = {}"


section \<open>The management middleware\<close>

datatype middleware_answer =
    Unauthorized string
  | Failed
  | Responds program

definition api_key_middleware ::
  "crypto \<Rightarrow> rat \<Rightarrow> string \<Rightarrow> string \<Rightarrow> api_key_row list \<Rightarrow> verified \<Rightarrow> (credentials option \<Rightarrow> program) \<Rightarrow> middleware_answer \<times> verified" where
  "api_key_middleware cr now path header keys cache view =
     (if path \<in> {''/healthz'', ''/readyz'', ''/metrics''} \<or> header = [] then (Responds (view None), cache)
      else
        (case authenticate cr now header keys cache of
           (Inl (AuthenticationFailed m), cache1) \<Rightarrow> (Unauthorized m, cache1)
         | (Inl Unknown_role, cache1) \<Rightarrow> (Failed, cache1)
         | (Inr cred, cache1) \<Rightarrow> (Responds (Scope (cd_tenant_id cred) (view (Some cred))), cache1)))"



section \<open>Confinement\<close>

text \<open>\<open>TRUNCATE\<close> is subject to no policy, so a role that owns the tables is not confined either.\<close>

definition subject_to_policies :: "pg_role \<Rightarrow> bool" where
  "subject_to_policies r \<longleftrightarrow> \<not> ro_superuser r \<and> \<not> ro_bypassrls r \<and> \<not> ro_owner r"

definition rows_of :: "string \<Rightarrow> string \<Rightarrow> database \<Rightarrow> table_row list" where
  "rows_of t table db = filter (\<lambda>row. tr_tenant row = t) (db table)"

text \<open>What the resolving functions were asked for.\<close>

fun doors :: "program \<Rightarrow> (string \<times> string \<times> string) set" where
  "doors (Statement (Resolve_api_key pre)) = {(APIKEY, ''prefix'', pre)}"
| "doors (Statement (Resolve_dashboard_user user)) = {(DASHBOARD_USER, ''user_id'', user)}"
| "doors (Then p q) = doors p \<union> doors q"
| "doors (Caught p) = doors p"
| "doors (Scope tenant p) = doors p"
| "doors _ = {}"

definition through :: "(string \<times> string \<times> string) set \<Rightarrow> string \<Rightarrow> table_row \<Rightarrow> bool" where
  "through D table row \<longleftrightarrow> (\<exists>(tb, c, v) \<in> D. tb = table \<and> column c row = Some v)"

definition confined :: "string \<Rightarrow> (string \<times> string \<times> string) set \<Rightarrow> sightings \<Rightarrow> bool" where
  "confined t D rows \<longleftrightarrow>
     (\<forall>(table, row) \<in> set rows. table \<in> set TENANT_SCOPED_TABLES \<longrightarrow> tr_tenant row = t \<longrightarrow> through D table row)"

lemma confined_simps [simp]:
  "confined t D []" "confined t D (xs @ ys) \<longleftrightarrow> confined t D xs \<and> confined t D ys"
  by (auto simp: confined_def)

lemma confined_mono: "confined t D rows \<Longrightarrow> D \<subseteq> D' \<Longrightarrow> confined t D' rows"
  by (fastforce simp: confined_def through_def)

lemma policy_other:
  "subject_to_policies r \<Longrightarrow> table \<in> set TENANT_SCOPED_TABLES \<Longrightarrow> st_tenant s \<noteq> Some (tr_tenant row) \<Longrightarrow> c \<noteq> SELECT \<or> \<not> st_resolving s \<Longrightarrow>
   \<not> policy r s table c row"
  by (auto simp: policy_def subject_to_policies_def tenant_isolation_def resolution_def)

lemma rows_of_map:
  "(\<And>row. row \<in> set xs \<Longrightarrow> hit row \<Longrightarrow> tr_tenant row \<noteq> t \<and> tr_tenant (f row) \<noteq> t) \<Longrightarrow>
   filter (\<lambda>row. tr_tenant row = t) (map (\<lambda>row. if hit row then f row else row) xs) = filter (\<lambda>row. tr_tenant row = t) xs"
  by (induction xs) auto

lemma rows_of_filter:
  "(\<And>row. row \<in> set xs \<Longrightarrow> hit row \<Longrightarrow> tr_tenant row \<noteq> t) \<Longrightarrow>
   filter (\<lambda>row. tr_tenant row = t) (filter (\<lambda>row. \<not> hit row) xs) = filter (\<lambda>row. tr_tenant row = t) xs"
  by (induction xs) auto

lemma execute_confined:
  assumes r: "subject_to_policies r" and t: "st_tenant s \<noteq> Some t" "\<not> st_resolving s"
    and "execute r s st db = Inr (rows, db')"
  shows "confined t (doors (Statement st)) rows \<and> (\<forall>table \<in> set TENANT_SCOPED_TABLES. rows_of t table db' = rows_of t table db)"
proof -
  have hidden: "\<not> policy r s table c row" if "table \<in> set TENANT_SCOPED_TABLES" "tr_tenant row = t" for table c row
    using policy_other [OF r that(1), of s row c] that(2) t by auto
  show ?thesis
  proof (cases st)
    case (Read table P)
    with assms(4) hidden show ?thesis
      by (auto simp: select_rows_def confined_def split: if_splits)
  next
    case (Add table row)
    with assms(4) hidden show ?thesis
      by (auto simp: rows_of_def split: if_splits)
  next
    case (Change table P f)
    define hit where "hit row \<longleftrightarrow> policy r s table UPDATE row \<and> P row" for row
    from assms(4) Change have rows: "rows = []" and db': "db' = db(table := map (\<lambda>row. if hit row then f row else row) (db table))"
      and checked: "\<not> list_ex (\<lambda>row. hit row \<and> \<not> policy r s table UPDATE (f row)) (db table)"
      by (auto simp: Let_def hit_def split: if_splits)
    have "tr_tenant row \<noteq> t \<and> tr_tenant (f row) \<noteq> t"
      if "table \<in> set TENANT_SCOPED_TABLES" "row \<in> set (db table)" "hit row" for row
    proof -
      have "policy r s table UPDATE (f row)" using checked that(2,3) by (auto simp: list_ex_iff)
      moreover have "policy r s table UPDATE row" using that(3) by (simp add: hit_def)
      ultimately show ?thesis using hidden [OF that(1)] by blast
    qed
    then show ?thesis
      unfolding rows db' rows_of_def by (auto intro: rows_of_map)
  next
    case (Remove table P)
    define hit where "hit row \<longleftrightarrow> policy r s table DELETE row \<and> P row" for row
    from assms(4) Remove have rows: "rows = []" and db': "db' = db(table := filter (\<lambda>row. \<not> hit row) (db table))"
      by (auto simp: Let_def hit_def split: if_splits)
    have "tr_tenant row \<noteq> t" if "table \<in> set TENANT_SCOPED_TABLES" "hit row" for row
      using hidden [OF that(1)] that(2) by (auto simp: hit_def)
    then show ?thesis
      unfolding rows db' rows_of_def by (auto intro: rows_of_filter simp del: filter_filter)
  next
    case (Empty table)
    with assms(4) r show ?thesis by (auto simp: granted_def subject_to_policies_def split: if_splits)
  next
    case (Resolve_api_key pre)
    with assms(4) show ?thesis
      by (auto simp: select_rows_def confined_def through_def split: if_splits)
  next
    case (Resolve_dashboard_user user)
    with assms(4) show ?thesis
      by (auto simp: select_rows_def confined_def through_def split: if_splits)
  qed
qed

lemma run_confined:
  assumes "subject_to_policies r" and "t \<noteq> []"
  shows "run_program r p c = (res, rows, c') \<Longrightarrow> t \<notin> scopes p \<Longrightarrow> cn_tenant c \<noteq> Some t \<Longrightarrow>
    confined t (doors p) rows \<and> cn_tenant c' \<noteq> Some t \<and>
    (\<forall>table \<in> set TENANT_SCOPED_TABLES. rows_of t table (cn_db c') = rows_of t table (cn_db c))"
proof (induction p arbitrary: c res rows c')
  case (Statement st)
  then show ?case
    using execute_confined [OF assms(1), of "\<lparr>st_tenant = cn_tenant c, st_resolving = False\<rparr>" t st "cn_db c"]
    by (auto split: if_splits sum.splits)
next
  case (Then p q)
  obtain res1 rows1 c1 where p: "run_program r p c = (res1, rows1, c1)" by (cases "run_program r p c")
  from Then.IH(1) [OF p] Then.prems have 1: "confined t (doors p) rows1" "cn_tenant c1 \<noteq> Some t"
    "\<forall>table \<in> set TENANT_SCOPED_TABLES. rows_of t table (cn_db c1) = rows_of t table (cn_db c)" by auto
  show ?case
  proof (cases res1)
    case Raised
    with Then.prems(1) p 1 show ?thesis by (auto intro: confined_mono)
  next
    case Completed
    obtain res2 rows2 c2 where q: "run_program r q c1 = (res2, rows2, c2)" by (cases "run_program r q c1")
    from Then.IH(2) [OF q _ 1(2)] Then.prems(2) have 2: "confined t (doors q) rows2" "cn_tenant c2 \<noteq> Some t"
      "\<forall>table \<in> set TENANT_SCOPED_TABLES. rows_of t table (cn_db c2) = rows_of t table (cn_db c1)" by auto
    with Then.prems(1) p q Completed 1 show ?thesis
      by (auto intro: confined_mono)
  qed
next
  case (Caught p)
  obtain res1 rows1 c1 where p: "run_program r p c = (res1, rows1, c1)" by (cases "run_program r p c")
  from Caught.IH [OF p] Caught.prems p show ?case by auto
next
  case (Scope tenant p)
  show ?case
  proof (cases "cn_aborted c")
    case True
    with Scope.prems show ?thesis by auto
  next
    case False
    let ?c0 = "c\<lparr>cn_depth := Suc (cn_depth c), cn_tenant := Some tenant\<rparr>"
    obtain res1 rows1 c1 where p: "run_program r p ?c0 = (res1, rows1, c1)" by (cases "run_program r p ?c0")
    from Scope.IH [OF p] Scope.prems(2) have 1: "confined t (doors p) rows1" "cn_tenant c1 \<noteq> Some t"
      "\<forall>table \<in> set TENANT_SCOPED_TABLES. rows_of t table (cn_db c1) = rows_of t table (cn_db c)" by auto
    have "(case current_tenant c of Some t \<Rightarrow> t | None \<Rightarrow> []) \<noteq> t"
      using Scope.prems(3) assms(2) by (auto simp: current_tenant_def split: option.splits list.splits)
    with Scope.prems(1,3) p 1 False show ?thesis
      by (auto simp: Let_def leave_atomic_def split: if_splits)
  qed
qed auto



section \<open>Scopes are lexical\<close>

definition at_rest :: "connection \<Rightarrow> bool" where
  "at_rest c \<longleftrightarrow> (cn_depth c = 0 \<longrightarrow> cn_tenant c = None \<and> \<not> cn_aborted c)"

lemma scope_exit:
  "current_tenant (c1\<lparr>cn_tenant := Some (case current_tenant c of Some t \<Rightarrow> t | None \<Rightarrow> [])\<rparr>) = current_tenant c"
  by (cases "cn_tenant c") (auto simp: current_tenant_def split: list.split)

lemma leave_restores:
  assumes "at_rest c" and "\<not> cn_aborted c" and "res = Raised \<or> \<not> cn_aborted c1 \<and> current_tenant c1 = current_tenant c"
  shows "at_rest (leave_atomic c res c1) \<and> cn_depth (leave_atomic c res c1) = cn_depth c \<and>
    current_tenant (leave_atomic c res c1) = current_tenant c"
  using assms by (cases "res = Raised"; cases "cn_depth c = 0") (auto simp: leave_atomic_def at_rest_def current_tenant_def)

lemma run_restores:
  "run_program r p c = (res, rows, c') \<Longrightarrow> at_rest c \<Longrightarrow>
   at_rest c' \<and> cn_depth c' = cn_depth c \<and> current_tenant c' = current_tenant c"
proof (induction p arbitrary: c res rows c')
  case (Statement st)
  then show ?case by (auto simp: at_rest_def current_tenant_def split: if_splits sum.splits)
next
  case (Then p q)
  obtain res1 rows1 c1 where p: "run_program r p c = (res1, rows1, c1)" by (cases "run_program r p c")
  from Then.IH(1) [OF p Then.prems(2)] have 1: "at_rest c1" "cn_depth c1 = cn_depth c" "current_tenant c1 = current_tenant c" by auto
  obtain res2 rows2 c2 where q: "run_program r q c1 = (res2, rows2, c2)" by (cases "run_program r q c1")
  from Then.IH(2) [OF q 1(1)] 1 Then.prems(1) p q show ?case by (cases res1) auto
next
  case (Caught p)
  obtain res1 rows1 c1 where p: "run_program r p c = (res1, rows1, c1)" by (cases "run_program r p c")
  from Caught.IH [OF p] Caught.prems p show ?case by auto
next
  case (Scope tenant p)
  show ?case
  proof (cases "cn_aborted c")
    case True
    with Scope.prems show ?thesis by auto
  next
    case False
    let ?c0 = "c\<lparr>cn_depth := Suc (cn_depth c), cn_tenant := Some tenant\<rparr>"
    obtain res1 rows1 c1 where p: "run_program r p ?c0 = (res1, rows1, c1)" by (cases "run_program r p ?c0")
    show ?thesis
    proof (cases "cn_aborted c1")
      case True
      with leave_restores [OF Scope.prems(2) False, of Raised] Scope.prems(1) p False show ?thesis
        by (auto simp: Let_def)
    next
      case kept: False
      have "current_tenant (c1\<lparr>cn_tenant := Some (case current_tenant c of Some t \<Rightarrow> t | None \<Rightarrow> [])\<rparr>) = current_tenant c"
        by (rule scope_exit)
      with leave_restores [OF Scope.prems(2) False, of res1] Scope.prems(1) p False kept show ?thesis
        by (auto simp: Let_def)
    qed
  qed
qed auto


section \<open>Append-only tables\<close>

lemma execute_appends:
  assumes "execute r s st db = Inr (rows, db')" and "append_only table"
  shows "prefix (db table) (db' table)"
proof (cases st)
  case (Change tb P f)
  have "map (\<lambda>row. if policy r s table UPDATE row \<and> P row then f row else row) xs = xs"
    if "\<not> list_ex (\<lambda>row. policy r s table UPDATE row \<and> P row) xs" for xs
    using that by (induction xs) auto
  with Change assms show ?thesis by (auto simp: Let_def split: if_splits)
next
  case (Remove tb P)
  have "filter (\<lambda>row. \<not> (policy r s table DELETE row \<and> P row)) xs = xs"
    if "\<not> list_ex (\<lambda>row. policy r s table DELETE row \<and> P row) xs" for xs
    using that by (auto simp: filter_id_conv list_ex_iff)
  with Remove assms show ?thesis by (auto simp: Let_def split: if_splits)
qed (use assms in \<open>auto split: if_splits\<close>)

lemma run_appends:
  "append_only table \<Longrightarrow> prefix (cn_db c table) (cn_db (snd (snd (run_program r p c))) table)"
proof (induction p arbitrary: c)
  case (Statement st)
  then show ?case
    using execute_appends [of r "\<lparr>st_tenant = cn_tenant c, st_resolving = False\<rparr>" st "cn_db c"]
    by (auto split: sum.split)
next
  case (Then p q)
  obtain res1 rows1 c1 where p: "run_program r p c = (res1, rows1, c1)" by (cases "run_program r p c")
  from Then.IH(1) [of c] Then.prems p have 1: "prefix (cn_db c table) (cn_db c1 table)" by simp
  from Then.IH(2) [of c1] Then.prems have 2: "prefix (cn_db c1 table) (cn_db (snd (snd (run_program r q c1))) table)" by simp
  from 1 2 p show ?case by (cases res1) (auto split: prod.splits intro: prefix_order.trans)
next
  case (Caught p)
  obtain res1 rows1 c1 where p: "run_program r p c = (res1, rows1, c1)" by (cases "run_program r p c")
  from Caught.IH [of c] Caught.prems p show ?case by simp
next
  case (Scope tenant p)
  let ?c0 = "c\<lparr>cn_depth := Suc (cn_depth c), cn_tenant := Some tenant\<rparr>"
  obtain res1 rows1 c1 where p: "run_program r p ?c0 = (res1, rows1, c1)" by (cases "run_program r p ?c0")
  from Scope.IH [of ?c0] Scope.prems p have "prefix (cn_db c table) (cn_db c1 table)" by simp
  with p show ?case by (auto simp: Let_def leave_atomic_def)
qed auto


section \<open>Properties\<close>


definition app_role :: pg_role where
  "app_role = \<lparr>ro_name = APP_ROLE, ro_superuser = False, ro_owner = False, ro_bypassrls = False\<rparr>"

definition two_tenants :: database where
  "two_tenants table = (if table = ''complylayer_rule'' then [\<lparr>tr_tenant = ''t'', tr_columns = []\<rparr>, \<lparr>tr_tenant = ''u'', tr_columns = []\<rparr>] else [])"

definition unscoped_view :: "credentials option \<Rightarrow> program" where
  "unscoped_view who = Then (Statement (Read ''complylayer_rule'' (\<lambda>_. True))) (Statement (Remove ''complylayer_rule'' (\<lambda>_. True)))"

definition at_start :: "database \<Rightarrow> connection" where
  "at_start db = \<lparr>cn_db = db, cn_tenant = None, cn_depth = 0, cn_aborted = False\<rparr>"



definition superuser :: pg_role where
  "superuser = \<lparr>ro_name = ''postgres'', ro_superuser = True, ro_owner = True, ro_bypassrls = True\<rparr>"


text \<open>A superuser is subject to no policy: the same request reads and removes everybody's rules.\<close>

lemma superuser_skips_policies: "policy superuser s table c row"
  by (simp add: policy_def superuser_def)

text \<open>An owner is subject to the policies, but not when it truncates: a table of rules is gone for all
  tenants.\<close>

lemma owner_truncates:
  assumes "ro_owner r" and "\<not> append_only table" and "\<not> cn_aborted c"
  shows "\<exists>c1. run_program r (Statement (Empty table)) c = (Completed, [], c1) \<and> cn_db c1 table = []"
  using assms by (simp add: granted_def)

text \<open>The scope sets the tenant on the connection of the default alias. A query set that asks for the replica
  runs on another connection, which no scope ever touches: it reads no row of any tenant.\<close>

lemma unscoped_connection_reads_nothing:
  assumes "subject_to_policies r" and "granted r table SELECT" and "table \<in> set TENANT_SCOPED_TABLES"
    and "cn_tenant c = None" and "\<not> cn_aborted c"
  shows "run_program r (Statement (Read table P)) c = (Completed, [], c)"
proof -
  have "\<not> policy r \<lparr>st_tenant = None, st_resolving = False\<rparr> table SELECT row" for row
    using policy_other [OF assms(1,3)] by simp
  with assms show ?thesis by (simp add: select_rows_def)
qed

end
