(* ===== verification/Dsl_Types.thy ===== *)
theory Dsl_Types
  imports Dsl_Properties Decision_Handler
begin

text \<open>
  Types for the rule language. The language has none: \<open>src/complylayer/dsl/interpreter.py\<close> finds a
  number where it wanted a text when the rule runs, and the rule then fails by its severity's fallback.
  Here a type is inferred for a rule from the types of the facts it names, and a rule that has one
  never fails that way.

  \<open>request_schema\<close> gives the types of the facts \<open>_build_facts\<close> in
  \<open>src/complylayer/api/handler.py\<close> puts together for a request that passed validation. The fields of
  the customer, the destination and the device are whatever JSON the client sent, so they have no type.
\<close>


section \<open>Inference\<close>

datatype vtype = T_bool | T_int | T_str | T_seq | T_any

fun has_type :: "pyval \<Rightarrow> vtype \<Rightarrow> bool" where
  "has_type v T_any = True"
| "has_type (PBool b) T_bool = True"
| "has_type (PInt i) T_int = True"
| "has_type (PStr s) T_str = True"
| "has_type (PTuple vs) T_seq = True"
| "has_type _ _ = False"

fun constant_type :: "pyval \<Rightarrow> vtype option" where
  "constant_type (PBool b) = Some T_bool"
| "constant_type (PInt i) = Some T_int"
| "constant_type (PStr s) = Some T_str"
| "constant_type _ = None"

text \<open>Which comparisons of a value of one type with a value of another never fail.\<close>

fun comparable :: "cmpop \<Rightarrow> vtype \<Rightarrow> vtype \<Rightarrow> bool" where
  "comparable Eq l r = True"
| "comparable NotEq l r = True"
| "comparable In l r = (r = T_seq \<or> r = T_str \<and> l = T_str)"
| "comparable NotIn l r = (r = T_seq \<or> r = T_str \<and> l = T_str)"
| "comparable _ l r = (l = r \<and> l \<in> {T_int, T_str})"

fun typed_chain :: "vtype \<Rightarrow> cmpop list \<Rightarrow> vtype option list \<Rightarrow> bool" where
  "typed_chain l [] [] = True"
| "typed_chain l (op # ops) (Some r # rs) = (comparable op l r \<and> typed_chain r ops rs)"
| "typed_chain l _ _ = False"

fun window_literal :: "expr \<Rightarrow> bool" where
  "window_literal (Constant (PStr s)) = (map_of WINDOW_SECONDS s \<noteq> None)"
| "window_literal e = False"

definition keyword_typed :: "string option \<times> bool \<times> vtype option \<Rightarrow> bool" where
  "keyword_typed k =
     (case k of (a, w, t) \<Rightarrow>
        a = Some ''window'' \<and> w
        \<or> a \<in> {Some ''min_amount_minor'', Some ''max_amount_minor''} \<and> t = Some T_int
        \<or> a = Some ''transaction_type'' \<and> t = Some T_str)"

fun member_types :: "vtype option list \<Rightarrow> bool" where
  "member_types [Some l, Some r] = comparable In l r"
| "member_types _ = False"

definition int_call :: "string \<Rightarrow> vtype option list \<Rightarrow> bool" where
  "int_call n ts \<longleftrightarrow>
     n = ''days_since'' \<and> ts = [Some T_str] \<or> n = ''hour_of_day'' \<and> ts = [] \<or> n = ''abs'' \<and> ts = [Some T_int]
     \<or> n \<in> {''min'', ''max'', ''percent_of''} \<and> ts = [Some T_int, Some T_int]"

definition call_type :: "string \<Rightarrow> vtype option list \<Rightarrow> (string option \<times> bool \<times> vtype option) list \<Rightarrow> vtype option" where
  "call_type n ts ks =
     (if n \<in> {''velocity_count'', ''velocity_sum''} then
        (if ts = [] \<and> list_all keyword_typed ks \<and> Some ''window'' \<in> set (map fst ks) then Some T_int else None)
      else if ks \<noteq> [] then None
      else if int_call n ts then Some T_int
      else if n = ''in_list'' \<and> member_types ts then Some T_bool
      else None)"

fun infer :: "(string \<rightharpoonup> vtype) \<Rightarrow> expr \<Rightarrow> vtype option" where
  "infer G (Constant v) = constant_type v"
| "infer G (Name n) = G n"
| "infer G (BoolOp b es) = (if list_all (\<lambda>e. infer G e \<noteq> None) es then Some T_bool else None)"
| "infer G (UnaryOp u e) =
     (case infer G e of
        None \<Rightarrow> None
      | Some t \<Rightarrow> if u = Not_op then Some T_bool else if t = T_int then Some T_int else None)"
| "infer G (BinOp l op r) = (if infer G l = Some T_int \<and> infer G r = Some T_int then Some T_int else None)"
| "infer G (Compare l ops es) =
     (case infer G l of
        None \<Rightarrow> None
      | Some t \<Rightarrow> if typed_chain t ops (map (\<lambda>e. infer G e) es) then Some T_bool else None)"
| "infer G (Call f as ks) =
     (case f of
        Name n \<Rightarrow> call_type n (map (\<lambda>e. infer G e) as) (map (\<lambda>k. case k of Keyword a e \<Rightarrow> (a, window_literal e, infer G e)) ks)
      | _ \<Rightarrow> None)"
| "infer G (List_e es) = (if list_all (\<lambda>e. infer G e \<noteq> None) es then Some T_seq else None)"
| "infer G (Tuple_e es) = (if list_all (\<lambda>e. infer G e \<noteq> None) es then Some T_seq else None)"
| "infer G _ = None"


section \<open>What a typed rule can do\<close>

text \<open>The failures types do not exclude: limits, division by zero, a text that is no date, velocity that
  is unavailable, and facts of \<open>M\<close> that are missing.\<close>

fun expected_reason :: "string set \<Rightarrow> eval_reason \<Rightarrow> bool" where
  "expected_reason M (UnknownFact n) = (n \<in> M)"
| "expected_reason M (ResultTooLarge b l) = True"
| "expected_reason M CannotDivideByZero = True"
| "expected_reason M CannotTakeRemainderByZero = True"
| "expected_reason M (NotADate s) = True"
| "expected_reason M (VelocityUnavailable c) = True"
| "expected_reason M _ = False"

definition yields :: "string set \<Rightarrow> ('a \<Rightarrow> bool) \<Rightarrow> exn + 'a \<Rightarrow> bool" where
  "yields M P r =
     (case r of
        Inr v \<Rightarrow> P v
      | Inl (RuleEvaluationError x) \<Rightarrow> expected_reason M x
      | Inl _ \<Rightarrow> False)"

lemma yields_simps [simp]:
  "yields M P (Inr v) = P v" "yields M P (eval_error x) = expected_reason M x"
  "yields M P (Inl (RuleEvaluationError x)) = expected_reason M x"
  by (simp_all add: yields_def eval_error_def)

lemma yields_bindE: "yields M P r \<Longrightarrow> (\<And>v. r = Inr v \<Longrightarrow> P v \<Longrightarrow> yields M Q (f v)) \<Longrightarrow> yields M Q (bindE r f)"
  by (cases r) (auto simp: yields_def split: exn.splits)

lemma yields_mono: "yields M P r \<Longrightarrow> (\<And>v. P v \<Longrightarrow> Q v) \<Longrightarrow> yields M Q r"
  by (auto simp: yields_def split: sum.splits exn.splits)

definition amount_arg :: "pyval \<Rightarrow> bool" where
  "amount_arg v \<longleftrightarrow> v = PNone \<or> has_type v T_int"

definition kind_arg :: "pyval \<Rightarrow> bool" where
  "kind_arg v \<longleftrightarrow> v = PNone \<or> has_type v T_str"

definition typed_provider :: "velocity_provider \<Rightarrow> bool" where
  "typed_provider vp \<longleftrightarrow>
     (\<forall>s a b k. amount_arg a \<and> amount_arg b \<and> kind_arg k \<longrightarrow>
        yields {} (\<lambda>v. has_type v T_int) (vp_count vp s a b k) \<and> yields {} (\<lambda>v. has_type v T_int) (vp_total vp s a b k))"

definition conforms :: "(string \<rightharpoonup> vtype) \<Rightarrow> string set \<Rightarrow> evaluation_context \<Rightarrow> bool" where
  "conforms G M ctx \<longleftrightarrow>
     (\<forall>n t. G n = Some t \<longrightarrow> (case ctx_facts ctx n of Some v \<Rightarrow> has_type v t | None \<Rightarrow> n \<in> M)) \<and>
     (\<exists>fi vp now. ctx_functions ctx = build fi vp now \<and> typed_provider vp)"

lemma has_type_iff:
  "has_type v T_bool \<longleftrightarrow> (\<exists>b. v = PBool b)" "has_type v T_int \<longleftrightarrow> (\<exists>i. v = PInt i)"
  "has_type v T_str \<longleftrightarrow> (\<exists>s. v = PStr s)" "has_type v T_seq \<longleftrightarrow> (\<exists>vs. v = PTuple vs)"
  by (cases v; simp)+

lemma constant_type_sound: "constant_type v = Some t \<Longrightarrow> has_type v t"
  by (cases v) auto

lemma comparable_sound:
  "comparable op l r \<Longrightarrow> has_type v l \<Longrightarrow> has_type w r \<Longrightarrow> yields M (\<lambda>_. True) (compare_op op v w)"
  by (cases op) (auto simp: compare_op_def compare_values_def same_orderable_kind_def has_type_iff)

lemma arith_sound: "yields M (\<lambda>_. True) (arith_op op i j)" "yields M (\<lambda>_. True) (guard_magnitude i)"
  by (cases op; simp add: guarded_multiply_def Let_def) (simp add: guard_magnitude_def)

lemma binop_sound: "has_type v T_int \<Longrightarrow> has_type w T_int \<Longrightarrow> yields M (\<lambda>x. has_type x T_int) (apply_binop op v w)"
  by (auto simp: has_type_iff apply_binop_def intro!: yields_bindE arith_sound)


section \<open>Calls\<close>

definition keyword_value :: "string \<Rightarrow> pyval \<Rightarrow> bool" where
  "keyword_value a v \<longleftrightarrow>
     a = ''window'' \<and> (\<exists>s. v = PStr s \<and> map_of WINDOW_SECONDS s \<noteq> None)
     \<or> a \<in> {''min_amount_minor'', ''max_amount_minor''} \<and> has_type v T_int
     \<or> a = ''transaction_type'' \<and> has_type v T_str"

definition keywords_value :: "(string \<times> pyval) list \<Rightarrow> bool" where
  "keywords_value kw \<longleftrightarrow> (\<forall>a v. map_of kw a = Some v \<longrightarrow> keyword_value a v)"

lemma keyword_value_names: "keyword_value a v \<Longrightarrow> a \<in> set velocity_keywords"
  by (auto simp: keyword_value_def velocity_keywords_def)

lemma velocity_args:
  assumes "keywords_value kw" and "''window'' \<in> set (map fst kw)"
  obtains s a b k where "bind_params velocity_sig [] kw = Inr [PStr s, a, b, k]" "map_of WINDOW_SECONDS s \<noteq> None"
    "amount_arg a" "amount_arg b" "kind_arg k"
proof -
  have "set (map fst kw) \<subseteq> set velocity_keywords"
  proof
    fix a assume "a \<in> set (map fst kw)"
    then have "map_of kw a \<noteq> None" by (simp add: map_of_eq_None_iff)
    with assms(1) show "a \<in> set velocity_keywords" by (auto simp: keywords_value_def dest: keyword_value_names)
  qed
  note bind = bind_velocity [OF this]
  obtain w where w: "map_of kw ''window'' = Some w"
    using assms(2) map_of_eq_None_iff [of kw "''window''"] by (cases "map_of kw ''window''") auto
  then have "keyword_value ''window'' w" using assms(1) by (simp add: keywords_value_def)
  then obtain s where s: "w = PStr s" "map_of WINDOW_SECONDS s \<noteq> None"
    by (auto simp: keyword_value_def)
  have amount: "amount_arg (case map_of kw a of None \<Rightarrow> PNone | Some v \<Rightarrow> v)" if "a \<in> {''min_amount_minor'', ''max_amount_minor''}" for a
    using assms(1) that by (auto simp: keywords_value_def keyword_value_def amount_arg_def split: option.split)
  have kind: "kind_arg (case map_of kw ''transaction_type'' of None \<Rightarrow> PNone | Some v \<Rightarrow> v)"
    using assms(1) by (auto simp: keywords_value_def keyword_value_def kind_arg_def split: option.split)
  show thesis
    by (rule that [OF _ s(2) amount amount kind, of "''min_amount_minor''" "''max_amount_minor''"])
      (simp_all add: bind w s(1))
qed

lemma velocity_sound:
  assumes "typed_provider vp" and "n \<in> {''velocity_count'', ''velocity_sum''}"
    and "keywords_value kw" and "''window'' \<in> set (map fst kw)" and "build fi vp now n = Some fn"
  shows "yields M (\<lambda>v. has_type v T_int) (fn [] kw)"
proof -
  obtain s a b k where b: "bind_params velocity_sig [] kw = Inr [PStr s, a, b, k]" and s: "map_of WINDOW_SECONDS s \<noteq> None"
    and args: "amount_arg a" "amount_arg b" "kind_arg k" using assms(3,4) by (rule velocity_args)
  obtain secs where secs: "window_seconds (PStr s) = Inr secs" using s by (auto simp: window_seconds_def)
  have "yields {} (\<lambda>v. has_type v T_int) (vp_count vp secs a b k)" "yields {} (\<lambda>v. has_type v T_int) (vp_total vp secs a b k)"
    using assms(1) args by (auto simp: typed_provider_def)
  then have "yields M (\<lambda>v. has_type v T_int) (vp_count vp secs a b k)" "yields M (\<lambda>v. has_type v T_int) (vp_total vp secs a b k)"
    by (auto simp: yields_def split: sum.splits exn.splits elim!: expected_reason.elims)
  with assms(2,5) show ?thesis
    by (auto simp: build_def build_table_def call_python_def b secs)
qed

lemma plain_call:
  assumes "call_type n ts ks = Some t" and "n \<notin> {''velocity_count'', ''velocity_sum''}"
  shows "ks = [] \<and> (int_call n ts \<and> t = T_int \<or> n = ''in_list'' \<and> member_types ts \<and> t = T_bool)"
  using assms(1) unfolding call_type_def if_not_P [OF assms(2)] by (cases "int_call n ts") (simp_all split: if_splits)

lemma plain_sound:
  assumes "call_type n ts [] = Some t" and "n \<notin> {''velocity_count'', ''velocity_sum''}"
    and "list_all2 (\<lambda>v t. \<exists>u. t = Some u \<and> has_type v u) vs ts" and "build fi vp now n = Some fn"
  shows "yields M (\<lambda>v. has_type v t) (fn vs [])"
proof -
  have "int_call n ts \<and> t = T_int \<or>
      n = ''in_list'' \<and> member_types ts \<and> t = T_bool"
    using plain_call [OF assms(1,2)] by simp
  then consider
      (days) "n = ''days_since''" "ts = [Some T_str]" "t = T_int"
    | (hour) "n = ''hour_of_day''" "ts = []" "t = T_int"
    | (abs) "n = ''abs''" "ts = [Some T_int]" "t = T_int"
    | (two) "n \<in> {''min'', ''max'', ''percent_of''}" "ts = [Some T_int, Some T_int]" "t = T_int"
    | (in_list) l r where "n = ''in_list''" "ts = [Some l, Some r]" "comparable In l r" "t = T_bool"
    unfolding int_call_def by (elim disjE conjE member_types.elims(2)) simp_all
  then show ?thesis
  proof cases
    case days
    with assms(3,4) show ?thesis
      by (auto simp: list_all2_Cons2 has_type_iff build_def build_table_def call_python_def bind_params_exact split: option.split)
  next
    case hour
    with assms(3,4) show ?thesis
      by (auto simp: build_def build_table_def call_python_def bind_params_exact)
  next
    case abs
    with assms(3,4) show ?thesis
      by (auto simp: list_all2_Cons2 has_type_iff build_def build_table_def call_python_def bind_params_exact whole_number_def)
  next
    case two
    with assms(3,4) show ?thesis
      by (auto simp: list_all2_Cons2 has_type_iff build_def build_table_def call_python_def bind_params_exact whole_number_def)
  next
    case in_list
    with assms(3,4) show ?thesis
      by (auto simp: list_all2_Cons2 has_type_iff build_def build_table_def call_python_def bind_params_exact)
  qed
qed


section \<open>Soundness\<close>

definition keyword_of :: "(string \<rightharpoonup> vtype) \<Rightarrow> keyword \<Rightarrow> string option \<times> bool \<times> vtype option" where
  "keyword_of G k = (case k of Keyword a e \<Rightarrow> (a, window_literal e, infer G e))"

lemma keyword_of_simp [simp]: "keyword_of G (Keyword a e) = (a, window_literal e, infer G e)"
  by (simp add: keyword_of_def)

lemma infer_Call: "infer G (Call (Name n) as ks) = call_type n (map (infer G) as) (map (keyword_of G) ks)"
  by (simp add: keyword_of_def [abs_def])

lemma call_type_args:
  assumes "call_type n ts ks = Some t"
  shows "list_all (\<lambda>t. t \<noteq> None) ts \<and> list_all keyword_typed ks"
proof (cases "n \<in> {''velocity_count'', ''velocity_sum''}")
  case True
  with assms show ?thesis unfolding call_type_def if_P [OF True] by (simp split: if_splits)
next
  case False
  note plain_call [OF assms this]
  moreover have "int_call n ts \<Longrightarrow> list_all (\<lambda>t. t \<noteq> None) ts" unfolding int_call_def by (elim conjE disjE) simp_all
  moreover have "member_types ts \<Longrightarrow> list_all (\<lambda>t. t \<noteq> None) ts" by (elim member_types.elims(2)) simp
  ultimately show ?thesis by auto
qed

lemma call_available:
  assumes "call_type n ts ks = Some t"
  shows "n \<in> set ALLOWED_FUNCTIONS"
proof (cases "n \<in> {''velocity_count'', ''velocity_sum''}")
  case True
  moreover have "{''velocity_count'', ''velocity_sum''} \<subseteq> set ALLOWED_FUNCTIONS"
    by (simp add: ALLOWED_FUNCTIONS_def SPECS_def)
  ultimately show ?thesis by blast
next
  case False
  have "set ALLOWED_FUNCTIONS \<supseteq> {''days_since'', ''hour_of_day'', ''abs'', ''in_list''} \<union> {''min'', ''max'', ''percent_of''}"
    by (simp add: ALLOWED_FUNCTIONS_def SPECS_def)
  with plain_call [OF assms False] show ?thesis unfolding int_call_def by (elim conjE disjE) blast+
qed

lemma call_sound:
  assumes "call_type n ts ks = Some t" and "conforms G M ctx"
    and "list_all2 (\<lambda>v t. \<exists>u. t = Some u \<and> has_type v u) vs ts"
    and "keywords_value kw" and "set (map fst kw) = {a. Some a \<in> set (map fst ks)}"
    and "ctx_functions ctx n = Some fn"
  shows "yields M (\<lambda>v. has_type v t) (fn vs kw)"
proof -
  obtain fi vp now where ctx: "build fi vp now n = Some fn" and vp: "typed_provider vp"
    using assms(2,6) by (auto simp: conforms_def)
  show ?thesis
  proof (cases "n \<in> {''velocity_count'', ''velocity_sum''}")
    case True
    then have "ts = []" "Some ''window'' \<in> set (map fst ks)" "t = T_int"
      using assms(1) unfolding call_type_def if_P [OF True] by (simp_all split: if_splits)
    moreover from this(2) have "''window'' \<in> set (map fst kw)" unfolding assms(5) by simp
    ultimately show ?thesis
      using velocity_sound [OF vp True assms(4) _ ctx] assms(3) by simp
  next
    case False
    then have ks: "ks = []" using plain_call [OF assms(1)] by simp
    then have "kw = []" using assms(5) by simp
    with plain_sound [OF _ False assms(3) ctx] assms(1) show ?thesis by (simp add: ks)
  qed
qed

lemma keyword_typed_value:
  assumes "keyword_typed (Some a, window_literal e, t)"
    and "\<And>u. t = Some u \<Longrightarrow> yields M (\<lambda>v. has_type v u) (denote ctx e)"
  shows "yields M (keyword_value a) (denote ctx e)"
proof -
  have "a = ''window'' \<and> window_literal e
      \<or> a \<in> {''min_amount_minor'', ''max_amount_minor''} \<and> t = Some T_int \<or> a = ''transaction_type'' \<and> t = Some T_str"
    using assms(1) by (simp add: keyword_typed_def)
  then show ?thesis
  proof (elim disjE conjE)
    assume a: "a = ''window''" and "window_literal e"
    then obtain s where "e = Constant (PStr s)" "map_of WINDOW_SECONDS s \<noteq> None" by (elim window_literal.elims(2))
    with a show ?thesis by (simp add: keyword_value_def)
  next
    assume "a \<in> {''min_amount_minor'', ''max_amount_minor''}" and t: "t = Some T_int"
    then show ?thesis by (intro yields_mono [OF assms(2) [OF t]]) (simp add: keyword_value_def)
  next
    assume "a = ''transaction_type''" and t: "t = Some T_str"
    then show ?thesis by (intro yields_mono [OF assms(2) [OF t]]) (simp add: keyword_value_def)
  qed
qed

lemma unary_sound:
  "has_type v u \<Longrightarrow> t = (if op = Not_op then T_bool else T_int) \<Longrightarrow> op \<noteq> Not_op \<longrightarrow> u = T_int \<Longrightarrow>
   yields M (\<lambda>v. has_type v t) (apply_unary op v)"
  by (cases op) (auto simp: has_type_iff)

lemma keywords_value_put: "keywords_value kw \<Longrightarrow> keyword_value a v \<Longrightarrow> keywords_value (dict_put a v kw)"
  by (auto simp: keywords_value_def)

lemma dict_put_names: "set (map fst (dict_put a v kw)) = insert a (set (map fst kw))"
  using dom_map_of_conv_image_fst [of "dict_put a v kw"] dom_map_of_conv_image_fst [of kw] by simp

definition args_typed :: "pyval list \<Rightarrow> vtype option list \<Rightarrow> bool" where
  "args_typed vs ts \<longleftrightarrow> list_all2 (\<lambda>v t. \<exists>u. t = Some u \<and> has_type v u) vs ts"

lemma args_typed_simps [simp]:
  "args_typed [] []" "args_typed (v # vs) (t # ts) \<longleftrightarrow> (\<exists>u. t = Some u \<and> has_type v u) \<and> args_typed vs ts"
  by (simp_all add: args_typed_def)

lemma denote_typed:
  "conforms G M ctx \<Longrightarrow> infer G e = Some t \<Longrightarrow> yields M (\<lambda>v. has_type v t) (denote ctx e)"
  "conforms G M ctx \<Longrightarrow> list_all (\<lambda>e. infer G e \<noteq> None) es \<Longrightarrow> yields M (\<lambda>_. True) (denote_and ctx es)"
  "conforms G M ctx \<Longrightarrow> list_all (\<lambda>e. infer G e \<noteq> None) es \<Longrightarrow> yields M (\<lambda>_. True) (denote_or ctx es)"
  "conforms G M ctx \<Longrightarrow> typed_chain u ops (map (infer G) es) \<Longrightarrow> has_type v u \<Longrightarrow> yields M (\<lambda>_. True) (denote_compare ctx v ops es)"
  "conforms G M ctx \<Longrightarrow> list_all (\<lambda>e. infer G e \<noteq> None) es \<Longrightarrow> yields M (\<lambda>vs. args_typed vs (map (infer G) es)) (denote_all ctx es)"
  "conforms G M ctx \<Longrightarrow> list_all (\<lambda>k. keyword_typed (keyword_of G k)) ks \<Longrightarrow> keywords_value kw \<Longrightarrow>
     yields M (\<lambda>kw'. keywords_value kw' \<and> set (map fst kw') = set (map fst kw) \<union> {a. Some a \<in> set (map (\<lambda>k. fst (keyword_of G k)) ks)})
       (denote_keywords ctx kw ks)"
proof (induction ctx e and ctx es and ctx es and ctx v ops es and ctx es and ctx kw ks arbitrary: t and and and u and and
    rule: denote_denote_and_denote_or_denote_compare_denote_all_denote_keywords.induct)
  case (1 ctx v)
  then show ?case by (simp add: constant_type_sound)
next
  case (2 ctx n)
  then show ?case by (auto simp: read_fact_def conforms_def split: option.split dest!: spec [of _ n])
next
  case (4 ctx u e)
  from "4.prems" obtain t' where t': "infer G e = Some t'" by (auto split: option.splits)
  show ?case
    unfolding denote.simps
    by (rule yields_bindE [OF "4.IH" [OF "4.prems"(1) t']], rule unary_sound, assumption)
      (use "4.prems"(2) t' in \<open>auto split: if_splits\<close>)
next
  case (5 ctx l ops es)
  from "5.prems" obtain u where u: "infer G l = Some u" "typed_chain u ops (map (infer G) es)" "t = T_bool"
    by (auto split: option.splits if_splits)
  show ?case
    unfolding denote.simps u(3)
    by (rule yields_bindE [OF "5.IH"(1) [OF "5.prems"(1) u(1)]], rule yields_bindE, rule "5.IH"(2) [OF _ "5.prems"(1) u(2)]) simp_all
next
  case (6 ctx l op r)
  then have t: "infer G l = Some T_int" "infer G r = Some T_int" "t = T_int" by (auto split: if_splits)
  show ?case
    unfolding denote.simps t(3)
    by (rule yields_bindE [OF "6.IH"(1) [OF "6.prems"(1) t(1)]], rule yields_bindE [OF "6.IH"(2) [OF _ "6.prems"(1) t(2)]])
      (auto intro: binop_sound)
next
  case (7 ctx f as ks)
  from "7.prems"(2) obtain n where f: "f = Name n" by (cases f) simp_all
  with "7.prems"(2) have call: "call_type n (map (infer G) as) (map (keyword_of G) ks) = Some t" using infer_Call by simp
  note typed = call_type_args [OF call]
  have vs: "yields M (\<lambda>vs. args_typed vs (map (infer G) as)) (denote_all ctx as)" if "ctx_functions ctx n = Some fn" for fn
    using "7.IH"(1) [OF f that "7.prems"(1)] typed by (simp add: list_all_iff)
  have kws: "yields M (\<lambda>kw'. keywords_value kw' \<and> set (map fst kw') = {a. Some a \<in> set (map fst (map (keyword_of G) ks))}) (denote_keywords ctx [] ks)"
    if "ctx_functions ctx n = Some fn" "denote_all ctx as = Inr vs" for fn vs
    using "7.IH"(2) [OF f that "7.prems"(1)] typed by (simp add: list_all_iff keywords_value_def comp_def)
  obtain fn where fn: "ctx_functions ctx n = Some fn"
    using call_available [OF call] "7.prems"(1) dom_build by (fastforce simp: conforms_def)
  show ?case
    unfolding denote.simps f expr.case fn option.case
    by (rule yields_bindE [OF vs [OF fn]], rule yields_bindE [OF kws [OF fn]], assumption)
      (auto simp: args_typed_def intro!: call_sound [OF call "7.prems"(1) _ _ _ fn])
next
  case (18 ctx left op ops e es)
  from "18.prems"(2) obtain r where r: "infer G e = Some r" "comparable op u r" "typed_chain r ops (map (infer G) es)"
    by (cases "infer G e") auto
  show ?case
    unfolding denote_compare.simps
    by (rule yields_bindE [OF "18.IH"(1) [OF "18.prems"(1) r(1)]], rule yields_bindE [OF comparable_sound [OF r(2) "18.prems"(3)]], assumption)
      (use "18.IH"(2) [OF _ _ _ "18.prems"(1) r(3)] in \<open>simp split: if_split\<close>)
next
  case (24 ctx kwargs a e ks)
  from "24.prems" have typed: "keyword_typed (Some a, window_literal e, infer G e)"
      "list_all (\<lambda>k. keyword_typed (keyword_of G k)) ks" by simp_all
  have v: "yields M (keyword_value a) (denote ctx e)"
    using typed(1) "24.IH"(1) [OF "24.prems"(1)] by (rule keyword_typed_value)
  show ?case
    unfolding denote_keywords.simps
    by (rule yields_bindE [OF v], rule yields_mono [OF "24.IH"(2) [OF _ "24.prems"(1) typed(2)]])
      (auto simp: keywords_value_put "24.prems"(3) dict_put_names simp del: set_map)
qed (auto split: if_splits intro!: yields_bindE)


section \<open>The decision handler's facts\<close>

lemma matching_typed:
  assumes "amount_arg a" and "amount_arg b"
  shows "\<exists>xs. matching w secs a b k = Inr xs"
proof -
  have bound: "\<exists>x. (if v = PNone then Inr False else cmp_amount rel n v) = Inr x" if "amount_arg v" for v rel n
    using that by (auto simp: amount_arg_def has_type_iff cmp_amount_def)
  have "\<exists>r. matching_one w secs a b k e = Inr r" for e
  proof -
    obtain x y where "(if a = PNone then Inr False else cmp_amount (<) (e_amount e) a) = Inr x"
      "(if b = PNone then Inr False else cmp_amount (>) (e_amount e) b) = Inr y"
      using bound assms by metis
    then show ?thesis unfolding matching_one_def by simp
  qed
  then have "\<exists>rs. mapE (matching_one w secs a b k) es = Inr rs" for es
    by (induction es) (auto split: sum.split, metis sum.simps(4))
  then show ?thesis by (auto simp: matching_def)
qed

lemma typed_provider_of: "typed_provider (provider_of w)"
  unfolding typed_provider_def
proof (intro allI impI)
  fix s a b k
  assume "amount_arg a \<and> amount_arg b \<and> kind_arg k"
  then obtain xs where "matching w s a b k = Inr xs" using matching_typed by blast
  then show "yields {} (\<lambda>v. has_type v T_int) (vp_count (provider_of w) s a b k) \<and>
      yields {} (\<lambda>v. has_type v T_int) (vp_total (provider_of w) s a b k)"
    by (simp add: provider_of_def window_count_def window_total_def)
qed

lemma typed_provider_unavailable: "typed_provider (g_provider (unavailable_velocity cause))"
  by (simp add: typed_provider_def unavailable_velocity_def)

definition request_schema :: "(string \<times> pyval list) list \<Rightarrow> string \<rightharpoonup> vtype" where
  "request_schema named =
     map_of ([(''amount_minor'', T_int), (''currency'', T_str), (''transaction_type'', T_str), (''channel'', T_str)]
       @ map (\<lambda>n. (n, T_int)) AGGREGATE_NAMES)
     ++ map_of (map (\<lambda>(n, vs). (n, T_seq)) named)"

text \<open>The facts that are missing when the customer's history cannot be read.\<close>

definition missing_facts :: "redis_event \<Rightarrow> string set" where
  "missing_facts ev = (case ev of Redis_ok \<Rightarrow> {} | Redis_raises cause applied \<Rightarrow> set AGGREGATE_NAMES)"

lemma request_fixed_facts:
  assumes "parse_transaction p = Inr tx" and "(n, v) \<in> set (request_facts tx)"
    and "n \<in> {''amount_minor'', ''currency'', ''transaction_type'', ''channel''}"
  shows "(n, v) \<in> {(''amount_minor'', PInt (tx_amount_minor tx)), (''currency'', PStr (tx_currency tx)),
         (''transaction_type'', PStr (tx_type tx)), (''channel'', PStr (tx_channel tx))}"
proof -
  from assms(1) have "acceptable p" "tx = transaction_of p" by (simp_all add: parse_transaction_Inr)
  then have "set (map fst (tx_customer tx)) \<subseteq> set CUSTOMER_FIELDS"
    using acceptable_objects by (simp add: transaction_of_def)
  moreover have "set CUSTOMER_FIELDS \<inter> {''amount_minor'', ''currency'', ''transaction_type'', ''channel''} = {}"
    by (simp add: CUSTOMER_FIELDS_def)
  ultimately have "(n, v) \<notin> set (tx_customer tx)" using assms(3) by force
  moreover have "(n, v) \<notin> set (map (\<lambda>(k, v). (''destination_'' @ k, v)) (tx_destination tx))"
    "(n, v) \<notin> set (map (\<lambda>(k, v). (''device_'' @ k, v)) (tx_device tx))"
    using assms(3) by auto
  ultimately show ?thesis using assms(2) by (simp add: request_facts_def)
qed

lemma request_conforms:
  assumes "parse_transaction p = Inr tx" and "gather_velocity key tx now ev rd = (vel, rd')"
  shows "conforms (request_schema named) (missing_facts ev) (context_of pf now tx vel named)"
proof -
  have vel: "typed_provider (g_provider vel)"
    "\<forall>(n, v) \<in> set (g_aggregates vel). n \<in> set AGGREGATE_NAMES \<and> has_type v T_int"
    "set AGGREGATE_NAMES \<subseteq> missing_facts ev \<union> set (map fst (g_aggregates vel))"
    using assms(2) typed_provider_of typed_provider_unavailable
    by (auto simp: gather_velocity_def Let_def missing_facts_def unavailable_velocity_def aggregate_facts_def as_facts_def AGGREGATE_NAMES_def
        split: prod.splits redis_event.splits)
  note facts = request_facts_names [OF assms(1)]
  let ?fixed = "[(''amount_minor'', T_int), (''currency'', T_str), (''transaction_type'', T_str), (''channel'', T_str)]"
  let ?ctx = "map_of (build_facts tx vel named)"
  have "case ?ctx n of Some v \<Rightarrow> has_type v t | None \<Rightarrow> n \<in> missing_facts ev" if t: "request_schema named n = Some t" for n t
  proof (cases "map_of (rev (map (\<lambda>(n, vs). (n, PTuple vs)) named)) n")
    case (Some v)
    then have "(n, v) \<in> set (map (\<lambda>(n, vs). (n, PTuple vs)) named)" by (auto dest: map_of_SomeD)
    then obtain vs where v: "v = PTuple vs" "(n, vs) \<in> set named" by auto
    then have "n \<in> fst ` set (map (\<lambda>(n, vs). (n, T_seq)) named)" by (force simp: image_iff)
    then have "map_of (map (\<lambda>(n, vs). (n, T_seq)) named) n \<noteq> None" by (simp add: map_of_eq_None_iff)
    then have "t = T_seq" using t by (auto simp: request_schema_def dest: map_of_SomeD split: option.splits)
    with Some v show ?thesis by (simp add: build_facts_map)
  next
    case None
    then have "n \<notin> fst ` set named" by (force simp: map_of_eq_None_iff)
    then have "map_of (map (\<lambda>(n, vs). (n, T_seq)) named) n = None" by (force simp: map_of_eq_None_iff)
    then have fixed: "(n, t) \<in> set (?fixed @ map (\<lambda>n. (n, T_int)) AGGREGATE_NAMES)"
      using t unfolding request_schema_def map_add_def by (simp only: option.case map_of_SomeD)
    have ctx: "?ctx n = (map_of (rev (request_facts tx)) ++ map_of (rev (g_aggregates vel))) n"
      using None by (simp add: build_facts_map map_add_def)
    show ?thesis
    proof (cases "n \<in> set AGGREGATE_NAMES")
      case True
      then have "t = T_int" using fixed by (auto simp: AGGREGATE_NAMES_def)
      moreover have "map_of (rev (request_facts tx)) n = None"
        using facts True by (auto simp: map_of_eq_None_iff)
      moreover have "has_type v T_int" if "map_of (rev (g_aggregates vel)) n = Some v" for v
        using map_of_SomeD [OF that] vel(2) by auto
      moreover have "n \<in> missing_facts ev" if "map_of (rev (g_aggregates vel)) n = None"
        using that vel(3) True by (auto simp: map_of_eq_None_iff)
      ultimately show ?thesis unfolding ctx by (auto simp: map_add_def split: option.split)
    next
      case False
      then have f: "(n, t) \<in> set ?fixed" using fixed by auto
      then have n: "n \<in> {''amount_minor'', ''currency'', ''transaction_type'', ''channel''}" by auto
      then have "n \<in> fst ` set (request_facts tx)" by (auto simp: request_facts_def)
      then obtain v where v: "map_of (rev (request_facts tx)) n = Some v"
        using map_of_eq_None_iff [of "rev (request_facts tx)" n] by (cases "map_of (rev (request_facts tx)) n") auto
      then have "(n, v) \<in> set (request_facts tx)" using map_of_SomeD [OF v] by simp
      from request_fixed_facts [OF assms(1) this n] f have "has_type v t" by auto
      moreover have "map_of (rev (g_aggregates vel)) n = None"
        using False vel(2) by (fastforce simp: map_of_eq_None_iff)
      ultimately show ?thesis unfolding ctx by (simp add: map_add_def v)
    qed
  qed
  with vel(1) show ?thesis by (auto simp: conforms_def context_of_def)
qed


section \<open>Properties\<close>

text \<open>C39. Typed rules do not go wrong: a rule that parses and to which a type is inferred from the schema
  of the decision handler's facts and the tenant's lists gives, for every request that passes
  validation and every state of the customer's history, a value of that type, or it fails for one of
  five reasons only: a result too large, a division or remainder by zero, a text that is no date, or,
  when Redis is down, the customer's history and the facts drawn from it. It never meets a value of the
  wrong type, an unknown window, a missing argument or an unknown name, and never raises anything but
  \<open>RuleEvaluationError\<close>.\<close>

theorem typed_rules_do_not_go_wrong:
  assumes "parse py src = Inr t" and "infer (request_schema named) t = Some u"
    and "parse_transaction p = Inr tx" and "gather_velocity key tx now ev rd = (vel, rd')"
  shows "\<exists>r. evaluate t (context_of pf now tx vel named) MAX_STEPS = bindE r (\<lambda>v. Inr (truthy v))
    \<and> yields (missing_facts ev) (\<lambda>v. has_type v u) r"
proof -
  let ?ctx = "context_of pf now tx vel named"
  from denote_typed(1) [OF request_conforms [OF assms(3,4)] assms(2)] show ?thesis
    by (intro exI [of _ "denote ?ctx t"] conjI evaluate_parsed [OF assms(1)])
qed

theorem typed_rules_do_not_go_wrong_witness:
  "infer (request_schema []) example_tree = Some T_bool \<and>
   (\<exists>vel rd' b. gather_velocity (''t'', ''h'') (transaction_of demo_payload) 0 (Redis_raises ''down'' False) demo_redis = (vel, rd')
     \<and> evaluate example_tree (context_of demo_platform 0 (transaction_of demo_payload) vel []) MAX_STEPS = Inr b)"
proof -
  have t: "infer (request_schema []) example_tree = Some T_bool"
    by (simp add: example_tree_def request_schema_def map_add_def)
  obtain vel rd' where g: "gather_velocity (''t'', ''h'') (transaction_of demo_payload) 0 (Redis_raises ''down'' False) demo_redis = (vel, rd')"
    by (cases "gather_velocity (''t'', ''h'') (transaction_of demo_payload) 0 (Redis_raises ''down'' False) demo_redis") 
  then have "g_aggregates vel = []" by (auto simp: gather_velocity_def unavailable_velocity_def split: prod.splits)
  from run_example_amount [OF demo_amount] this
  have "evaluate example_tree (context_of demo_platform 0 (transaction_of demo_payload) vel []) MAX_STEPS = Inr True"
    by (simp add: evaluate_def)
  with typed_rules_do_not_go_wrong [OF parse_example t demo_parsed g, of demo_platform] t g show ?thesis by blast
qed

end
