(* ===== verification/Dsl_Errors.thy ===== *)
theory Dsl_Errors
  imports Dsl_Validator Dsl_Functions Json
begin

text \<open>
  What people read when a rule is rejected: the texts of the error catalogue
  (\<open>src/complylayer/dsl/errors.py\<close>), whose errors \<open>Dsl_Ast.rule_syntax_error\<close> names, with the
  suggestion \<open>difflib.get_close_matches\<close> makes for a mistyped function.

  \<open>ast.unparse\<close> is a parameter.
\<close>


section \<open>A message\<close>

record message =
  mg_problem :: string
  mg_fix :: string
  mg_reason :: string

definition render_message :: "message \<Rightarrow> string" where
  "render_message m =
     str_join '' '' ([mg_problem m] @ (if mg_fix m = [] then [] else [mg_fix m])
       @ (if mg_reason m = [] then [] else [''('' @ mg_reason m @ '')'']))"

text \<open>No function of the catalogue gives an offset.\<close>

definition message_dict :: "message \<Rightarrow> (string \<times> pyval) list" where
  "message_dict m =
     [(''problem'', PStr (mg_problem m)), (''fix'', PStr (mg_fix m)), (''reason'', PStr (mg_reason m)), (''offset'', PNone)]"

text \<open>\<open>repr\<close> of a text, on the Latin-1 range.\<close>

definition repr_char :: "char \<Rightarrow> char \<Rightarrow> string" where
  "repr_char quote c =
     (if c = quote \<or> c = CHR 92 then [CHR 92, c]
      else if ord_c c = 9 then [CHR 92, CHR ''t'']
      else if ord_c c = 10 then [CHR 92, CHR ''n'']
      else if ord_c c = 13 then [CHR 92, CHR ''r'']
      else if ord_c c < 32 \<or> (127 \<le> ord_c c \<and> ord_c c \<le> 160) \<or> ord_c c = 173
      then [CHR 92, CHR ''x'', hex_digit (ord_c c div 16), hex_digit (ord_c c mod 16)]
      else [c])"

definition repr_str :: "string \<Rightarrow> string" where
  "repr_str s =
     (let quote = (if CHR 39 \<in> set s \<and> CHR 34 \<notin> set s then CHR 34 else CHR 39)
      in [quote] @ concat (map (repr_char quote) s) @ [quote])"


section \<open>Close names\<close>

text \<open>\<open>SequenceMatcher.find_longest_match\<close>: the longest block two sequences share, the leftmost of the
  longest. Letters so frequent that the matcher would ignore them occur in texts of 200 characters and
  more only, which are close to no name of a function.\<close>

fun common_prefix :: "string \<Rightarrow> string \<Rightarrow> nat" where
  "common_prefix (a # as) (b # bs) = (if a = b then Suc (common_prefix as bs) else 0)"
| "common_prefix _ _ = 0"

definition longer :: "nat \<times> nat \<times> nat \<Rightarrow> nat \<times> nat \<times> nat \<Rightarrow> nat \<times> nat \<times> nat" where
  "longer best m = (if snd (snd best) < snd (snd m) then m else best)"

definition longest_match :: "string \<Rightarrow> string \<Rightarrow> nat \<times> nat \<times> nat" where
  "longest_match a b =
     foldl longer (0, 0, 0)
       (map (\<lambda>(i, j). (i, j, common_prefix (drop i a) (drop j b))) (List.product [0..<length a] [0..<length b]))"

lemma common_prefix_le: "common_prefix a b \<le> length a" "common_prefix a b \<le> length b"
  by (induction a b rule: common_prefix.induct) auto

lemma common_prefix_take: "take (common_prefix a b) a = take (common_prefix a b) b"
  by (induction a b rule: common_prefix.induct) auto

lemma foldl_longer: "foldl longer m ms = m \<or> foldl longer m ms \<in> set ms"
  by (induction ms arbitrary: m) (auto simp: longer_def)

lemma foldl_longer_ge: "snd (snd m) \<le> snd (snd (foldl longer m ms)) \<and> (\<forall>x \<in> set ms. snd (snd x) \<le> snd (snd (foldl longer m ms)))"
proof (induction ms arbitrary: m)
  case Nil
  then show ?case by simp
next
  case (Cons x ms)
  have "snd (snd m) \<le> snd (snd (longer m x))" "snd (snd x) \<le> snd (snd (longer m x))" by (auto simp: longer_def)
  with Cons [of "longer m x"] show ?case by auto
qed

lemma longest_match_block:
  assumes "longest_match a b = (i, j, k)" and "k \<noteq> 0"
  shows "i + k \<le> length a" "j + k \<le> length b" "take k (drop i a) = take k (drop j b)"
proof -
  have "(i, j, k) \<in> set (map (\<lambda>(i, j). (i, j, common_prefix (drop i a) (drop j b))) (List.product [0..<length a] [0..<length b]))"
    using foldl_longer [of "(0, 0, 0)" "map (\<lambda>(i, j). (i, j, common_prefix (drop i a) (drop j b))) (List.product [0..<length a] [0..<length b])"]
      assms unfolding longest_match_def by simp
  then have k: "k = common_prefix (drop i a) (drop j b)" "i < length a" "j < length b" by auto
  then show "i + k \<le> length a" "j + k \<le> length b" "take k (drop i a) = take k (drop j b)"
    using common_prefix_le [of "drop i a" "drop j b"] common_prefix_take [of "drop i a" "drop j b"] by auto
qed

text \<open>The letters in the blocks of \<open>get_matching_blocks\<close>.\<close>

function matched_letters :: "string \<Rightarrow> string \<Rightarrow> nat" where
  "matched_letters a b =
     (case longest_match a b of (i, j, k) \<Rightarrow>
        if k = 0 then 0
        else k + matched_letters (take i a) (take j b) + matched_letters (drop (i + k) a) (drop (j + k) b))"
  by pat_completeness auto
termination
  by (relation "measure (\<lambda>(a, b). length a)") (auto dest!: longest_match_block(1) [OF sym])

declare matched_letters.simps [simp del]

definition similarity :: "nat \<Rightarrow> nat \<Rightarrow> rat" where
  "similarity matches len = (if len = 0 then 1 else 2 * of_nat matches / of_nat len)"

definition ratio :: "string \<Rightarrow> string \<Rightarrow> rat" where
  "ratio a b = similarity (matched_letters a b) (length a + length b)"

definition quick_ratio :: "string \<Rightarrow> string \<Rightarrow> rat" where
  "quick_ratio a b = similarity (size (mset a \<inter># mset b)) (length a + length b)"

definition real_quick_ratio :: "string \<Rightarrow> string \<Rightarrow> rat" where
  "real_quick_ratio a b = similarity (min (length a) (length b)) (length a + length b)"

definition close_enough :: "string \<Rightarrow> string \<Rightarrow> bool" where
  "close_enough name x \<longleftrightarrow> 3 / 4 \<le> real_quick_ratio x name \<and> 3 / 4 \<le> quick_ratio x name \<and> 3 / 4 \<le> ratio x name"

text \<open>The best of them; of two with the same ratio the greater text.\<close>

definition closest :: "string \<Rightarrow> string list \<Rightarrow> string option" where
  "closest name candidates =
     (case filter (close_enough name) candidates of
        [] \<Rightarrow> None
      | x # xs \<Rightarrow> Some (foldl (\<lambda>best y. if (ratio best name, best) < (ratio y name, y) then y else best) x xs))"


section \<open>The catalogue\<close>

definition CONSTRUCT_NAMES :: "(string \<times> string) list" where
  "CONSTRUCT_NAMES =
     [(''Lambda'', ''an inline function (lambda)''),
      (''ListComp'', ''a list comprehension''),
      (''SetComp'', ''a set comprehension''),
      (''DictComp'', ''a dictionary comprehension''),
      (''GeneratorExp'', ''a generator expression''),
      (''JoinedStr'', ''a formatted string (f-string)''),
      (''FormattedValue'', ''a formatted string (f-string)''),
      (''Dict'', ''a dictionary''),
      (''Set'', ''a set literal''),
      (''Starred'', ''argument unpacking (*)''),
      (''IfExp'', ''an inline if/else''),
      (''Await'', ''await''),
      (''Yield'', ''yield''),
      (''YieldFrom'', ''yield from''),
      (''NamedExpr'', ''an assignment inside an expression (:=)''),
      (''Slice'', ''a slice''),
      (''Attribute'', ''a dot (.)''),
      (''Subscript'', ''square-bracket indexing'')]"

definition in_quotes :: "string \<Rightarrow> string" where "in_quotes s = [CHR 39] @ s @ [CHR 39]"

text \<open>\<open>RuleValidator._describe\<close>: the node as it was written, if that is short.\<close>

definition describe :: "(expr \<Rightarrow> string option) \<Rightarrow> expr \<Rightarrow> string option" where
  "describe unparse e =
     (case unparse e of None \<Rightarrow> None | Some t \<Rightarrow> if length t \<le> 60 then Some t else None)"

fun kind_of_literal :: "pyval \<Rightarrow> string" where
  "kind_of_literal (PFloat _) = ''a decimal number''"
| "kind_of_literal (PComplex _ _) = ''an imaginary number''"
| "kind_of_literal (PBytes _) = ''raw bytes''"
| "kind_of_literal PNone = ''nothing''"
| "kind_of_literal PEllipsis = ''...''"
| "kind_of_literal v = ''a '' @ type_name v"

definition msg :: "string \<Rightarrow> string \<Rightarrow> string \<Rightarrow> message" where
  "msg problem fx reason = \<lparr>mg_problem = problem, mg_fix = fx, mg_reason = reason\<rparr>"

definition attribute_access :: "string option \<Rightarrow> message" where
  "attribute_access name =
     msg (py_strip (''Rules cannot use a dot (.). '' @
            (case name of Some (c # cs) \<Rightarrow> ''You wrote '' @ (c # cs) @ ''. '' | _ \<Rightarrow> [])))
         (''Facts are available by name on their own '' @ em_dash @ '' write kyc_tier, not customer.kyc_tier. '' @
          ''See the function reference for everything available.'')
         ''a dot is the main route a rule could use to break out of its sandbox''"

definition unknown_function :: "string \<Rightarrow> string list \<Rightarrow> message" where
  "unknown_function name available =
     msg (''There is no function called '' @ name @ ''.'')
         ((case closest name available of
             Some (c # cs) \<Rightarrow> ''Did you mean '' @ (c # cs) @ ''? '' | _ \<Rightarrow> [])
          @ ''Available functions: '' @ str_join '', '' (sort available) @ ''.'')
         ''rules may only call functions ComplyLayer provides''"

definition construct_not_allowed :: "string \<Rightarrow> message" where
  "construct_not_allowed node_class =
     msg (''Rules cannot use '' @ (case map_of CONSTRUCT_NAMES node_class of Some f \<Rightarrow> f | None \<Rightarrow> node_class) @ ''.'')
         (''A rule is a single yes-or-no question about one transaction '' @ em_dash @ '' a comparison, '' @
          ''possibly several joined with and/or. Anything more belongs in a new function, '' @
          ''which an engineer adds and reviews.'')
         (node_class @ '' is outside the permitted rule grammar'')"

definition unknown_keyword :: "string \<Rightarrow> string \<Rightarrow> string list \<Rightarrow> message" where
  "unknown_keyword f keyword available =
     msg (f @ '' has no setting called '' @ keyword @ ''.'')
         (if available \<noteq> [] then f @ '' accepts: '' @ str_join '', '' available @ ''.'' else f @ '' takes no settings.'')
         []"

definition wrong_arity :: "string \<Rightarrow> nat \<Rightarrow> nat \<Rightarrow> message" where
  "wrong_arity f given expected =
     msg (f @ '' needs '' @ str_of_nat expected @ '' '' @ (if expected = 1 then ''value'' else ''values'') @
            '', but was given '' @ str_of_nat given @ ''.'')
         (if expected \<noteq> 0 then ''Write '' @ f @ ''('' @ str_join '', '' (replicate expected ''...'') @ '').''
          else ''Write '' @ f @ ''() with nothing in the brackets.'')
         []"

definition number_too_large :: "nat \<Rightarrow> nat \<Rightarrow> message" where
  "number_too_large digits maximum =
     msg (''That number has '' @ str_of_nat digits @ '' digits, and the limit is '' @ str_of_nat maximum @ ''.'')
         ''Amounts are in minor units, so even large limits are far shorter than this.'' []"

definition malformed :: "string \<Rightarrow> message" where
  "malformed detail =
     msg ''The rule is not written correctly and could not be read.''
         (py_strip (''Check for a missing bracket or comparison. '' @ detail)) []"

definition subscript :: message where
  "subscript =
     msg ''Rules cannot use square brackets to pick an item out of a list.''
         ''To test whether a value is in a list, use in_list(country, high_risk_countries).''
         ''indexing is one of the steps an attacker needs, and no compliance rule needs it''"

definition indirect_call :: message where
  "indirect_call =
     msg ''Rules can only call a function directly by name.''
         (''Write velocity_count(window='' @ in_quotes ''1h'' @ ''), not something that produces a function first.'') []"

definition statement_not_expression :: message where
  "statement_not_expression =
     msg ''A rule must be a single question, not an instruction.''
         (''Write a comparison such as amount_minor > tier_daily_limit_minor. '' @
          ''Assignments, imports and loops are not part of the rule language.'') []"

definition empty_rule :: message where
  "empty_rule =
     msg ''The rule is empty.'' ''Write a comparison, for example amount_minor > 5_000_000.'' []"

definition too_long :: "nat \<Rightarrow> nat \<Rightarrow> message" where
  "too_long len maximum =
     msg (''The rule is too long: '' @ str_of_nat len @ '' characters, and the limit is '' @ str_of_nat maximum @ ''.'')
         (''Split it into two rules. Two rules that each say one thing are also easier to '' @
          ''approve, and easier to explain to a regulator.'') []"

definition too_deep :: "nat \<Rightarrow> message" where
  "too_deep maximum =
     msg (''The rule nests brackets more than '' @ str_of_nat maximum @ '' deep.'') ''Split it into two rules.''
         ''deeply nested expressions are a denial-of-service risk before they are even read''"

definition too_many_operators :: "nat \<Rightarrow> message" where
  "too_many_operators maximum =
     msg (''The rule has a run of more than '' @ str_of_nat maximum @ '' operators in a row.'')
         (''Remove the repetition '' @ em_dash @ '' '' @ in_quotes ''not not x'' @ '' is just '' @ in_quotes ''x'' @ ''.'') []"

definition too_complex :: "nat \<Rightarrow> nat \<Rightarrow> message" where
  "too_complex nodes maximum =
     msg (''The rule is too complex: '' @ str_of_nat nodes @ '' parts, and the limit is '' @ str_of_nat maximum @ ''.'')
         ''Split it into two rules.''
         ''every rule shares one evaluation budget, so one large rule slows every decision''"

definition reserved_name :: "string \<Rightarrow> message" where
  "reserved_name name =
     msg (name @ '' is not a fact you can use in a rule.'')
         (''Facts have plain names such as amount_minor, kyc_tier or destination_country. '' @
          ''Names starting with an underscore belong to Python itself.'')
         ''reserved names are refused so a rule can never reach the runtime behind it''"

definition non_ascii_name :: "string \<Rightarrow> message" where
  "non_ascii_name name =
     msg (repr_str name @ '' contains characters that are not plain English letters.'')
         (''Fact and function names use a-z, 0-9 and underscores only. If you copied this '' @
          ''from elsewhere, retype it.'')
         (''letters from other alphabets can look identical to English ones, so a rule '' @
          ''could read one way and behave another'')"

definition duplicate_keyword :: "string \<Rightarrow> string \<Rightarrow> message" where
  "duplicate_keyword f keyword =
     msg (f @ '' was given '' @ keyword @ '' twice.'') ''Remove one of them.''
         ''with two values there is no way to say which one the rule meant''"

definition bad_literal :: "pyval \<Rightarrow> message" where
  "bad_literal v =
     msg (''Rules cannot contain '' @ kind_of_literal v @ ''.'')
         (''Amounts are whole numbers of minor units '' @ em_dash @ '' write 1500000 for '' @
          [CHR 0xE2, CHR 0x82, CHR 0xA6] @ ''15,000.00, '' @ ''not 15000.00.'')
         (''decimals cannot be compared exactly, and a decision has to reproduce '' @ ''identically years later'')"

definition non_numeric_operand :: message where
  "non_numeric_operand =
     msg ''Arithmetic in a rule works on whole numbers only.'' ''Compare amounts and counts, not text or lists.''
         ''multiplying text or a list repeats it, which can exhaust memory in a single step''"

definition division_by_zero :: message where
  "division_by_zero =
     msg ''The rule divides by zero.'' ''Use a number other than zero.'' []"

definition not_a_condition :: message where
  "not_a_condition =
     msg ''This rule is a fixed value, so it would give the same answer every time.''
         ''A rule asks a question about the transaction, such as amount_minor > 5_000_000.''
         (''a rule that always fires blocks everything, and one that never fires is '' @ ''a control that is not there'')"

definition too_much_input :: "nat \<Rightarrow> message" where
  "too_much_input maximum =
     msg ''The rule has too many parts to build.'' ''Split it into two rules.''
         (''a built rule cannot exceed '' @ str_of_nat maximum @ '' characters once written out'')"

definition non_ascii_source :: "char \<Rightarrow> message" where
  "non_ascii_source c =
     msg (''The rule contains '' @ repr_str [c] @ '', which is not a plain English character.'')
         (''Retype the rule using a-z, 0-9 and the usual symbols. Accented characters are '' @
          ''fine inside quoted text, just not in names.'')
         (''characters from other alphabets can look identical to English ones, and the '' @
          ''rule would then read one way and behave another'')"

text \<open>The message of every error.\<close>

fun message_of :: "(expr \<Rightarrow> string option) \<Rightarrow> rule_syntax_error \<Rightarrow> message" where
  "message_of unparse (AttributeAccess e) = attribute_access (describe unparse e)"
| "message_of unparse SubscriptUsed = subscript"
| "message_of unparse (UnknownFunction name) = unknown_function name (sort ALLOWED_FUNCTIONS)"
| "message_of unparse IndirectCall = indirect_call"
| "message_of unparse (ConstructNotAllowed k) = construct_not_allowed k"
| "message_of unparse StatementNotExpression = statement_not_expression"
| "message_of unparse EmptyRule = empty_rule"
| "message_of unparse (TooLong len maximum) = too_long len maximum"
| "message_of unparse (TooDeep maximum) = too_deep maximum"
| "message_of unparse (TooManyOperators maximum) = too_many_operators maximum"
| "message_of unparse (TooComplex nodes maximum) = too_complex nodes maximum"
| "message_of unparse (Malformed detail) = malformed detail"
| "message_of unparse (UnknownKeyword f keyword) =
     unknown_keyword f keyword (case map_of SPECS f of Some spec \<Rightarrow> sort (spec_keywords spec) | None \<Rightarrow> [])"
| "message_of unparse (ReservedName name) = reserved_name name"
| "message_of unparse (NonAsciiName name) = non_ascii_name name"
| "message_of unparse (WrongArity f given expected) = wrong_arity f given expected"
| "message_of unparse (DuplicateKeyword f keyword) = duplicate_keyword f keyword"
| "message_of unparse (BadLiteral v) = bad_literal v"
| "message_of unparse NonNumericOperand = non_numeric_operand"
| "message_of unparse DivisionByZero = division_by_zero"
| "message_of unparse NotACondition = not_a_condition"
| "message_of unparse (NumberTooLarge digits maximum) = number_too_large digits maximum"
| "message_of unparse (TooMuchInput maximum) = too_much_input maximum"
| "message_of unparse (NonAsciiSource c) = non_ascii_source c"

lemmas catalogue_defs =
  msg_def attribute_access_def unknown_function_def construct_not_allowed_def malformed_def unknown_keyword_def wrong_arity_def
  number_too_large_def subscript_def indirect_call_def statement_not_expression_def empty_rule_def too_long_def too_deep_def too_many_operators_def
  too_complex_def reserved_name_def non_ascii_name_def duplicate_keyword_def bad_literal_def
  non_numeric_operand_def division_by_zero_def not_a_condition_def too_much_input_def non_ascii_source_def

text \<open>The reason a failed evaluation carries; \<open>repr\<close> is that of values that are no text.\<close>

fun reason_text :: "(pyval \<Rightarrow> string) \<Rightarrow> eval_reason \<Rightarrow> string" where
  "reason_text repr (UnknownFact n) = ''no value was supplied for '' @ n"
| "reason_text repr (StepBudgetExceeded n) = ''evaluation exceeded '' @ str_of_nat n @ '' steps''"
| "reason_text repr (Uncomparable l r) = ''cannot compare '' @ l @ '' with '' @ r"
| "reason_text repr (NotANumber t) = ''arithmetic needs whole numbers, got '' @ t"
| "reason_text repr (ResultTooLarge bits maximum) =
     ''arithmetic produced a '' @ str_of_nat bits @ ''-bit number, limit is '' @ str_of_nat maximum"
| "reason_text repr CannotDivideByZero = ''cannot divide by zero''"
| "reason_text repr CannotTakeRemainderByZero = ''cannot take a remainder by zero''"
| "reason_text repr (CannotEvaluate k) = ''cannot evaluate '' @ k"
| "reason_text repr (NotAvailable n) = n @ '' is not available in this context''"
| "reason_text repr (NotAWindow v) =
     (case v of PStr s \<Rightarrow> repr_str s | _ \<Rightarrow> repr v) @ '' is not a window. Use one of: '' @ str_join '', '' (map fst WINDOW_SECONDS)"
| "reason_text repr (MustBeWholeNumber label) = label @ '' must be a whole number''"
| "reason_text repr (NotADate s) = repr_str s @ '' is not a date''"
| "reason_text repr NeedsADate = ''days_since needs a date''"
| "reason_text repr NeedsAList = ''in_list needs a list to look in''"
| "reason_text repr (VelocityUnavailable cause) = ''velocity data is unavailable: '' @ cause"


section \<open>Facts\<close>

text \<open>The blocks hold letters of both texts, so both quick ratios are upper bounds and skip no name.\<close>

lemma matched_letters_shared: "\<exists>M. M \<subseteq># mset a \<and> M \<subseteq># mset b \<and> size M = matched_letters a b"
proof (induction a b rule: matched_letters.induct)
  case (1 a b)
  obtain i j k where m: "longest_match a b = (i, j, k)" by (cases "longest_match a b") auto
  show ?case
  proof (cases "k = 0")
    case True
    with m show ?thesis by (intro exI [of _ "{#}"]) (simp add: matched_letters.simps [of a b])
  next
    case False
    note blk = longest_match_block [OF m False]
    obtain L where L: "L \<subseteq># mset (take i a)" "L \<subseteq># mset (take j b)" "size L = matched_letters (take i a) (take j b)"
      using 1(1) [OF m [symmetric] refl False] by blast
    obtain R where R: "R \<subseteq># mset (drop (i + k) a)" "R \<subseteq># mset (drop (j + k) b)"
      "size R = matched_letters (drop (i + k) a) (drop (j + k) b)"
      using 1(2) [OF m [symmetric] refl False] by blast
    have split: "mset c = mset (take n c) + (mset (take k (drop n c)) + mset (drop (n + k) c))" for n and c :: string
      by (metis add.commute append_take_drop_id drop_drop mset_append)
    let ?B = "mset (take k (drop i a))"
    have "L + (?B + R) \<subseteq># mset a"
      unfolding split [of a i] by (intro subset_mset.add_mono L(1) R(1)) simp
    moreover have "L + (?B + R) \<subseteq># mset b"
      unfolding split [of b j] blk(3) by (intro subset_mset.add_mono L(2) R(2)) simp
    moreover have "size (L + (?B + R)) = matched_letters a b"
      using m False blk by (simp add: matched_letters.simps [of a b] L(3) R(3))
    ultimately show ?thesis by blast
  qed
qed

lemma similarity_mono: "m \<le> n \<Longrightarrow> similarity m len \<le> similarity n len"
  by (simp add: similarity_def divide_right_mono)

lemma close_enough_iff: "close_enough name x \<longleftrightarrow> 3 / 4 \<le> ratio x name"
proof -
  obtain M where M: "M \<subseteq># mset x" "M \<subseteq># mset name" "size M = matched_letters x name"
    using matched_letters_shared by blast
  then have "matched_letters x name \<le> size (mset x \<inter># mset name)"
    using size_mset_mono [of M "mset x \<inter># mset name"] by simp
  moreover have "size (mset x \<inter># mset name) \<le> min (length x) (length name)"
    using size_mset_mono [of "mset x \<inter># mset name" "mset x"] size_mset_mono [of "mset x \<inter># mset name" "mset name"] by simp
  ultimately have "ratio x name \<le> quick_ratio x name" "ratio x name \<le> real_quick_ratio x name"
    unfolding ratio_def quick_ratio_def real_quick_ratio_def by (auto intro: similarity_mono)
  then show ?thesis by (auto simp: close_enough_def)
qed

lemma foldl_best:
  "foldl (\<lambda>best y. if f best < f y then y else best) x xs \<in> set (x # xs)
   \<and> (\<forall>y \<in> set (x # xs). f y \<le> (f (foldl (\<lambda>best y. if f best < f y then y else best) x xs) :: 'k :: linorder))"
proof (induction xs arbitrary: x)
  case Nil
  then show ?case by simp
next
  case (Cons y ys)
  show ?case using Cons [of "if f x < f y then y else x"] by (auto split: if_splits)
qed

text \<open>A suggestion is one of the names, at least three quarters alike, and no other is more alike; there
  is none only where no name is that close.\<close>

lemma suggestion_is_best:
  assumes "closest name candidates = Some x"
  shows "x \<in> set candidates" "3 / 4 \<le> ratio x name" "y \<in> set candidates \<Longrightarrow> ratio y name \<le> ratio x name"
proof -
  obtain z zs where z: "filter (close_enough name) candidates = z # zs"
    "x = foldl (\<lambda>best y. if (ratio best name, best) < (ratio y name, y) then y else best) z zs"
    using assms by (auto simp: closest_def split: list.splits)
  have "x \<in> set (z # zs)" and best: "\<forall>y \<in> set (z # zs). (ratio y name, y) \<le> (ratio x name, x)"
    using foldl_best [of "\<lambda>y. (ratio y name, y)" z zs] unfolding z(2) by auto
  then have x: "x \<in> set (filter (close_enough name) candidates)" unfolding z(1) by blast
  then show "x \<in> set candidates" and x': "3 / 4 \<le> ratio x name" by (simp_all add: close_enough_iff)
  show "ratio y name \<le> ratio x name" if "y \<in> set candidates"
  proof (cases "3 / 4 \<le> ratio y name")
    case True
    then have "y \<in> set (z # zs)" using that unfolding z(1) [symmetric] by (simp add: close_enough_iff)
    with best show ?thesis by auto
  qed (use x' in simp)
qed

lemma no_suggestion_iff: "closest name candidates = None \<longleftrightarrow> (\<forall>x \<in> set candidates. ratio x name < 3 / 4)"
proof -
  have "closest name candidates = None \<longleftrightarrow> filter (close_enough name) candidates = []"
    by (simp add: closest_def split: list.splits)
  then show ?thesis by (simp add: filter_empty_conv close_enough_iff not_le)
qed

lemma mistyped_name: "closest ''velocity_cont'' (sort ALLOWED_FUNCTIONS) = Some ''velocity_count''"
  by code_simp

text \<open>Every rejection says what is wrong and what to write instead. Of the three things the module sets
  out to say, the why is missing from half of the messages.\<close>

lemma py_strip_Nil: "py_strip s = [] \<longleftrightarrow> list_all isspace_c s"
proof (cases "dropWhile isspace_c s")
  case Nil
  then have "\<forall>c \<in> set s. isspace_c c" unfolding dropWhile_eq_Nil_conv .
  then show ?thesis unfolding py_strip_def Nil by (simp add: list_all_iff)
next
  case (Cons c cs)
  then have "\<not> isspace_c c" "c \<in> set s" by (metis dropWhile_eq_Cons_conv, metis list.set_intros(1) set_dropWhileD)
  with Cons show ?thesis by (auto simp: py_strip_def list_all_iff dropWhile_eq_Nil_conv)
qed

lemma rejection_says_what_and_fix:
  "mg_problem (message_of unparse e) \<noteq> []" "mg_fix (message_of unparse e) \<noteq> []"
  by (cases e; simp add: catalogue_defs py_strip_Nil isspace_c_def ord_c_def; fail)+

fun explained :: "rule_syntax_error \<Rightarrow> bool" where
  "explained IndirectCall = False"
| "explained StatementNotExpression = False"
| "explained EmptyRule = False"
| "explained (TooLong _ _) = False"
| "explained (TooManyOperators _) = False"
| "explained (Malformed _) = False"
| "explained (UnknownKeyword _ _) = False"
| "explained (WrongArity _ _ _) = False"
| "explained DivisionByZero = False"
| "explained (NumberTooLarge _ _) = False"
| "explained _ = True"

lemma rejection_explained_iff: "mg_reason (message_of unparse e) \<noteq> [] \<longleftrightarrow> explained e"
  by (cases e) (simp_all add: catalogue_defs)

text \<open>A quoted name cannot break the line of its message.\<close>

lemma repr_str_one_line: "list_all (\<lambda>c. 32 \<le> ord_c c) (repr_str s)"
proof -
  have hex: "32 \<le> ord_c (hex_digit n)" if "n < 16" for n
  proof -
    have "list_all (\<lambda>n. 32 \<le> ord_c (hex_digit n)) [0..<16]" by code_simp
    with that show ?thesis by (simp add: list_all_iff)
  qed
  have "ord_c c < 256" for c by (simp add: ord_c_def)
  then have "list_all (\<lambda>c. 32 \<le> ord_c c) (repr_char quote c)" if "32 \<le> ord_c quote" for quote c
    using that hex [of "ord_c c div 16"] hex [of "ord_c c mod 16"]
    by (auto simp: repr_char_def not_less) (simp_all add: ord_c_def)
  then have "list_all (\<lambda>c. 32 \<le> ord_c c) (concat (map (repr_char quote) s))" if "32 \<le> ord_c quote" for quote
    using that by (induction s) auto
  moreover have "32 \<le> ord_c (CHR 34)" "32 \<le> ord_c (CHR 39)" by (simp_all add: ord_c_def)
  ultimately show ?thesis by (simp add: repr_str_def Let_def)
qed

end
