(* ===== verification/Preflight.thy ===== *)
theory Preflight
  imports Py_Values
begin

text \<open>
  The preflight: every check of \<open>src/complylayer/checks.py\<close> and the command that runs them,
  \<open>src/complylayer/management/commands/complylayer_doctor.py\<close>, over the settings of
  \<open>src/server/settings.py\<close> and \<open>src/server/settings_management.py\<close>, with the refusal at start of
  \<open>src/server/boot.py\<close>.

  What a check reads is a \<open>host_probe\<close>: an exception's text (\<open>Inl\<close>) or the value. The sample of a ping is
  two readings of the clock. How a number is written with a fixed number of digits and how \<open>repr\<close>
  writes a text are parameters. Seconds and milliseconds are rationals. The colours of the terminal
  are left out; a dash is the three bytes of its UTF-8 encoding.
\<close>


section \<open>Results\<close>

record check_result =
  cr_name :: string
  cr_ok :: bool
  cr_detail :: string
  cr_remediation :: string
  cr_fatal :: bool

definition passed :: "string \<Rightarrow> string \<Rightarrow> check_result" where
  "passed name detail = \<lparr>cr_name = name, cr_ok = True, cr_detail = detail, cr_remediation = [], cr_fatal = True\<rparr>"

definition failed :: "string \<Rightarrow> bool \<Rightarrow> string \<Rightarrow> string \<Rightarrow> check_result" where
  "failed name fatal detail remediation =
     \<lparr>cr_name = name, cr_ok = False, cr_detail = detail, cr_remediation = remediation, cr_fatal = fatal\<rparr>"

datatype status = Ok_status | Fail_status | Warn_status

definition result_status :: "check_result \<Rightarrow> status" where
  "result_status r = (if cr_ok r then Ok_status else if cr_fatal r then Fail_status else Warn_status)"

definition summarise :: "check_result list \<Rightarrow> nat \<times> nat" where
  "summarise rs =
     (length (filter (\<lambda>r. \<not> cr_ok r \<and> cr_fatal r) rs), length (filter (\<lambda>r. \<not> cr_ok r \<and> \<not> cr_fatal r) rs))"


section \<open>Remediations\<close>

definition FIX_PYTHON :: string where
  "FIX_PYTHON =
     ''Install Python 3.12 (`uv python install 3.12`) and re-sync.''"

definition FIX_CONNECT :: string where
  "FIX_CONNECT =
     ''Check COMPLYLAYER_DATABASE_URL, and that Postgres is running.''"

definition FIX_VERSION_UNREAD :: string where
  "FIX_VERSION_UNREAD =
     ''Unexpected. Check the connecting role has permission to read settings.''"

definition FIX_UPGRADE :: string where
  "FIX_UPGRADE =
     ''Upgrade to Postgres 16+. Declarative partitioning on the decisions table and row level '' @
     ''security both depend on it.''"

definition FIX_REDIS_DOWN :: string where
  "FIX_REDIS_DOWN =
     ''Check COMPLYLAYER_REDIS_URL, and that Redis is running.''"

definition FIX_REDIS_FAR :: string where
  "FIX_REDIS_FAR =
     ''Redis is too far away to meet the 100 ms p99 contract. Co-locate it in the same '' @
     ''availability zone as the decision workload.''"

definition FIX_REDIS_SLOW :: string where
  "FIX_REDIS_SLOW =
     ''Slower than expected for a co-located Redis. Worth confirming it is in the same zone '' @
     ''before the latency work in phase 4.''"

definition FIX_CLOCK_UNREAD :: string where
  "FIX_CLOCK_UNREAD =
     ''Not fatal, but velocity windows depend on these clocks agreeing.''"

definition FIX_CLOCK :: string where
  "FIX_CLOCK =
     ''Enable NTP on this host. Velocity windows are trimmed by timestamp, so a drifting clock '' @
     ''silently evaluates the wrong window and never raises an error.''"

definition FIX_TRIGGERS_UNREAD :: string where
  "FIX_TRIGGERS_UNREAD =
     ''Check the database connection and that migrations have run.''"

definition FIX_TRIGGERS :: string where
  "FIX_TRIGGERS =
     ''Run `manage.py migrate complylayer`. Until these exist the audit trail can be edited, '' @
     ''which means it is a log rather than evidence.''"

definition FIX_ROLE_UNREAD :: string where
  "FIX_ROLE_UNREAD =
     ''Check the database connection.''"

definition FIX_ROLE :: string where
  "FIX_ROLE =
     ''Connect as a role that is neither SUPERUSER nor BYPASSRLS, and which does not own the '' @
     ''tables. Until then tenant isolation rests on application code alone, and the database '' @
     ''layer is decoration.''"

definition FIX_SECRETS_DEBUG :: string where
  "FIX_SECRETS_DEBUG =
     ''Fine for a laptop. `--strict` makes this fatal, which is what a deploy pipeline should '' @
     ''run.''"

definition FIX_SECRETS :: string where
  "FIX_SECRETS =
     ''Generate both and set them in the environment:'' @ [CHR 10] @ ''      COMPLYLAYER_SECRET_KEY=$(python -c '' @
     [CHR 39] @ ''import secrets; print(secrets.token_urlsafe(64))'' @ [CHR 39] @ '')'' @ [CHR 10] @ ''      '' @
     ''COMPLYLAYER_CUSTOMER_SALT=$(python -c '' @ [CHR 39] @ ''import secrets; '' @
     ''print(secrets.token_urlsafe(32))'' @ [CHR 39] @ '')'' @ [CHR 10] @ ''    Changing the salt later re-pseudonymises every '' @
     ''future decision, so the history stops joining to the new one. Set it once, keep it in a '' @
     ''secret manager, and back it up with the database.''"

definition FIX_TRANSPORT :: string where
  "FIX_TRANSPORT =
     ''Serve the dashboard over HTTPS and set these. A session cookie without Secure is one an '' @
     ''attacker on the network reads in clear text, and it already carries the second factor.''"

definition FIX_ANCHOR :: string where
  "FIX_ANCHOR =
     ''Generate a pair with `manage.py complylayer_checkpoint --generate-key`, keep the '' @
     ''private half in a secret manager rather than in this database, and run `manage.py '' @
     ''complylayer_checkpoint` on a schedule. The interval between runs is the window in which '' @
     ''a rewrite is undetectable.''"



section \<open>The checks\<close>

definition REDIS_PING_WARN_MS :: rat where "REDIS_PING_WARN_MS = 2"

definition REDIS_PING_FAIL_MS :: rat where "REDIS_PING_FAIL_MS = 10"

definition CLOCK_SKEW_FAIL_SECONDS :: rat where "CLOCK_SKEW_FAIL_SECONDS = 1"

definition MIN_POSTGRES_VERSION :: int where "MIN_POSTGRES_VERSION = 16"

type_synonym fixed_digits = "nat \<Rightarrow> rat \<Rightarrow> string"

definition check_python_version :: "int \<times> int \<Rightarrow> check_result" where
  "check_python_version v =
     (case v of (major, minor) \<Rightarrow>
        (let ok = ((major, minor) = (3, 12))
         in \<lparr>cr_name = ''python version'', cr_ok = ok,
             cr_detail = ''running '' @ str_of_int major @ ''.'' @ str_of_int minor @ '', expected 3.12'',
             cr_remediation = (if ok then [] else FIX_PYTHON), cr_fatal = True\<rparr>))"

definition check_database :: "string + int option \<Rightarrow> check_result" where
  "check_database probe =
     (case probe of
        Inl e \<Rightarrow> failed ''database'' True (''could not connect: '' @ e) FIX_CONNECT
      | Inr None \<Rightarrow> failed ''database'' True ''connected but the server version could not be read'' FIX_VERSION_UNREAD
      | Inr (Some server_version) \<Rightarrow>
          (let major = server_version div 10000; ok = (MIN_POSTGRES_VERSION \<le> major)
           in \<lparr>cr_name = ''database'', cr_ok = ok,
               cr_detail = ''Postgres '' @ str_of_int major @ '' (need '' @ str_of_int MIN_POSTGRES_VERSION @ ''+)'',
               cr_remediation = (if ok then [] else FIX_UPGRADE), cr_fatal = True\<rparr>))"

text \<open>\<open>statistics.median\<close>; it refuses an empty sample with a \<open>ValueError\<close>.\<close>

definition median :: "rat list \<Rightarrow> exn + rat" where
  "median xs =
     (let ys = sort xs; n = length ys
      in if n = 0 then Inl ValueError
         else if odd n then Inr (ys ! (n div 2))
         else Inr ((ys ! (n div 2 - 1) + ys ! (n div 2)) / 2))"

text \<open>The pings after the first, each between two readings of the clock, up to one that raises.\<close>

fun timings :: "(nat \<Rightarrow> string option) \<Rightarrow> (nat \<Rightarrow> rat) \<Rightarrow> nat \<Rightarrow> nat \<Rightarrow> string + rat list" where
  "timings ping clock i 0 = Inr []"
| "timings ping clock i (Suc n) =
     (case ping (Suc i) of
        Some e \<Rightarrow> Inl e
      | None \<Rightarrow> bindE (timings ping clock (Suc i) n) (\<lambda>ts. Inr ((clock (2 * i + 1) - clock (2 * i)) * 1000 # ts)))"

definition check_redis :: "fixed_digits \<Rightarrow> (nat \<Rightarrow> string option) \<Rightarrow> (nat \<Rightarrow> rat) \<Rightarrow> nat \<Rightarrow> exn + check_result" where
  "check_redis fx ping clock samples =
     (case (case ping 0 of Some e \<Rightarrow> Inl e | None \<Rightarrow> timings ping clock 0 samples) of
        Inl e \<Rightarrow> Inr (failed ''redis'' True (''could not connect: '' @ e) FIX_REDIS_DOWN)
      | Inr ts \<Rightarrow>
          bindE (median ts) (\<lambda>elapsed_ms.
            if REDIS_PING_FAIL_MS \<le> elapsed_ms then
              Inr (failed ''redis'' True
                (''round trip '' @ fx 2 elapsed_ms @ '' ms (limit '' @ fx 0 REDIS_PING_FAIL_MS @ '' ms)'') FIX_REDIS_FAR)
            else if REDIS_PING_WARN_MS \<le> elapsed_ms then
              Inr (failed ''redis'' False
                (''round trip '' @ fx 2 elapsed_ms @ '' ms (want under '' @ fx 0 REDIS_PING_WARN_MS @ '' ms)'') FIX_REDIS_SLOW)
            else Inr (passed ''redis'' (''round trip '' @ fx 2 elapsed_ms @ '' ms''))))"

definition check_clock_skew :: "fixed_digits \<Rightarrow> rat option \<Rightarrow> rat \<Rightarrow> check_result" where
  "check_clock_skew fx redis_time local_time =
     (case redis_time of
        None \<Rightarrow> failed ''clock skew'' False ''could not read the Redis server time'' FIX_CLOCK_UNREAD
      | Some t \<Rightarrow>
          (let skew = \<bar>local_time - t\<bar>; ok = (skew < CLOCK_SKEW_FAIL_SECONDS)
           in \<lparr>cr_name = ''clock skew'', cr_ok = ok, cr_detail = fx 3 skew @ '' s between this host and Redis'',
               cr_remediation = (if ok then [] else FIX_CLOCK), cr_fatal = True\<rparr>))"

definition required_triggers :: "string list" where
  "required_triggers = [''complylayer_audit_append_only'', ''complylayer_audit_no_truncate'']"

definition check_audit_immutability :: "string + string list \<Rightarrow> check_result" where
  "check_audit_immutability probe =
     (case probe of
        Inl e \<Rightarrow> failed ''audit trail'' True (''could not read the triggers: '' @ e) FIX_TRIGGERS_UNREAD
      | Inr trigger_names \<Rightarrow>
          (let missing = sort (filter (\<lambda>t. t \<notin> set trigger_names) required_triggers)
           in if missing \<noteq> [] then
                failed ''audit trail'' True (''append-only enforcement is missing: '' @ str_join '', '' missing) FIX_TRIGGERS
              else passed ''audit trail'' ''append-only enforced by the database''))"

definition dash :: string where
  "dash = '' '' @ em_dash @ '' ''"

definition check_rls_effective :: "(string \<Rightarrow> string) \<Rightarrow> string + string \<times> bool \<times> bool \<Rightarrow> check_result" where
  "check_rls_effective repr probe =
     (case probe of
        Inl e \<Rightarrow> failed ''row level security'' True (''could not read the connecting role: '' @ e) FIX_ROLE_UNREAD
      | Inr (role, is_superuser, bypasses_rls) \<Rightarrow>
          if is_superuser \<or> bypasses_rls then
            failed ''row level security'' False
              (''connecting as '' @ repr role @ '', which is '' @ (if is_superuser then ''a superuser'' else ''granted BYPASSRLS'')
                 @ dash @ ''every policy is skipped'') FIX_ROLE
          else passed ''row level security'' (''policies apply to '' @ repr role))"

definition check_deployment_secrets :: "string \<Rightarrow> string \<Rightarrow> bool \<Rightarrow> string \<Rightarrow> string \<Rightarrow> check_result" where
  "check_deployment_secrets secret_key customer_salt debug insecure_secret_key insecure_customer_salt =
     (let unset = (if secret_key = insecure_secret_key then [''COMPLYLAYER_SECRET_KEY''] else [])
            @ (if customer_salt = insecure_customer_salt then [''COMPLYLAYER_CUSTOMER_SALT''] else []);
          named = str_join '', '' unset
      in if unset = [] then passed ''deployment secrets'' ''the signing key and the customer salt are both set''
         else if debug then
           failed ''deployment secrets'' False (''still on the development value: '' @ named @ '' (DEBUG is on)'') FIX_SECRETS_DEBUG
         else
           failed ''deployment secrets'' True (''still on the development value, and DEBUG is off: '' @ named) FIX_SECRETS)"

definition check_transport_security :: "bool \<Rightarrow> bool \<Rightarrow> int \<Rightarrow> bool \<Rightarrow> bool \<Rightarrow> check_result" where
  "check_transport_security session_cookie_secure csrf_cookie_secure hsts_seconds debug serves_sessions =
     (if \<not> serves_sessions then
        passed ''transport security'' ''not applicable: this workload issues no session cookie''
      else
        (let missing = (if session_cookie_secure then [] else [''SESSION_COOKIE_SECURE''])
               @ (if csrf_cookie_secure then [] else [''CSRF_COOKIE_SECURE''])
               @ (if hsts_seconds \<le> 0 then [''SECURE_HSTS_SECONDS''] else [])
         in if missing = [] then passed ''transport security'' ''cookies are HTTPS-only and HSTS is set''
            else failed ''transport security'' (\<not> debug) (''not set: '' @ str_join '', '' missing) FIX_TRANSPORT))"

definition check_audit_anchoring :: "string \<Rightarrow> string \<Rightarrow> bool \<Rightarrow> check_result" where
  "check_audit_anchoring private_key public_key debug =
     (if private_key \<noteq> [] \<and> public_key \<noteq> [] then
        passed ''audit anchoring'' ''chain heads are signed and verifiable''
      else
        (let missing = (if private_key = [] then [''COMPLYLAYER_CHECKPOINT_PRIVATE_KEY''] else [])
               @ (if public_key = [] then [''COMPLYLAYER_CHECKPOINT_PUBLIC_KEY''] else [])
         in failed ''audit anchoring'' (\<not> debug)
              (''not set: '' @ str_join '', '' missing @ dash @ ''nothing external anchors the audit chain'') FIX_ANCHOR))"


section \<open>Settings\<close>

text \<open>The environment, and the settings the code above reads. \<open>split_commas\<close> is \<open>str.split\<close>. Django's own
  defaults, for settings a module does not set: no secure cookie and no HSTS.\<close>

type_synonym environ = "string \<rightharpoonup> string"

definition env :: "environ \<Rightarrow> string \<Rightarrow> string \<Rightarrow> string" where
  "env e name fallback = (case e name of Some v \<Rightarrow> v | None \<Rightarrow> fallback)"

definition INSECURE_SECRET_KEY :: string where
  "INSECURE_SECRET_KEY = ''insecure-development-key-do-not-deploy''"

definition INSECURE_CUSTOMER_SALT :: string where
  "INSECURE_CUSTOMER_SALT = ''insecure-development-salt-do-not-deploy''"

record database_settings =
  db_name :: string
  db_user :: string
  db_password :: string
  db_host :: string
  db_port :: string

record django_settings =
  ds_secret_key :: string
  ds_debug :: bool
  ds_allowed_hosts :: "string list"
  ds_middleware :: "string list"
  ds_root_urlconf :: string
  ds_default_db :: database_settings
  ds_replica_db :: database_settings
  ds_redis_url :: string
  ds_customer_salt :: string
  ds_private_key :: string
  ds_public_key :: string
  ds_metrics_token :: string
  ds_watch :: bool
  ds_session_cookie_secure :: bool
  ds_csrf_cookie_secure :: bool
  ds_hsts_seconds :: int

fun split_commas :: "string \<Rightarrow> string list" where
  "split_commas [] = [[]]"
| "split_commas (c # cs) =
     (if c = CHR '','' then [] # split_commas cs
      else (case split_commas cs of [] \<Rightarrow> [[c]] | w # ws \<Rightarrow> (c # w) # ws))"

definition MIDDLEWARE :: "string list" where
  "MIDDLEWARE =
     [''django.middleware.security.SecurityMiddleware'', ''django.middleware.common.CommonMiddleware'',
      ''complylayer.api.decision_middleware.DecisionMiddleware'']"

definition decision_settings :: "environ \<Rightarrow> django_settings" where
  "decision_settings e =
     (let db = \<lparr>db_name = env e ''COMPLYLAYER_DB_NAME'' ''complylayer'', db_user = env e ''COMPLYLAYER_DB_USER'' ''complylayer'',
                db_password = env e ''COMPLYLAYER_DB_PASSWORD'' ''complylayer'', db_host = env e ''COMPLYLAYER_DB_HOST'' ''127.0.0.1'',
                db_port = env e ''COMPLYLAYER_DB_PORT'' ''5432''\<rparr>
      in \<lparr>ds_secret_key = env e ''COMPLYLAYER_SECRET_KEY'' INSECURE_SECRET_KEY,
          ds_debug = (env e ''COMPLYLAYER_DEBUG'' ''0'' = ''1''),
          ds_allowed_hosts = filter (\<lambda>h. h \<noteq> []) (split_commas (env e ''COMPLYLAYER_ALLOWED_HOSTS'' ''localhost,127.0.0.1'')),
          ds_middleware = MIDDLEWARE, ds_root_urlconf = ''server.urls'',
          ds_default_db = db,
          ds_replica_db = db\<lparr>db_host := env e ''COMPLYLAYER_REPLICA_HOST'' (db_host db),
                              db_port := env e ''COMPLYLAYER_REPLICA_PORT'' (db_port db)\<rparr>,
          ds_redis_url = env e ''COMPLYLAYER_REDIS_URL'' ''redis://127.0.0.1:6379/2'',
          ds_customer_salt = env e ''COMPLYLAYER_CUSTOMER_SALT'' INSECURE_CUSTOMER_SALT,
          ds_private_key = env e ''COMPLYLAYER_CHECKPOINT_PRIVATE_KEY'' [],
          ds_public_key = env e ''COMPLYLAYER_CHECKPOINT_PUBLIC_KEY'' [],
          ds_metrics_token = env e ''COMPLYLAYER_METRICS_TOKEN'' [],
          ds_watch = (env e ''COMPLYLAYER_WATCH_VERSIONS'' ''1'' = ''1''),
          ds_session_cookie_secure = False, ds_csrf_cookie_secure = False, ds_hsts_seconds = 0\<rparr>)"

definition management_settings :: "environ \<Rightarrow> django_settings" where
  "management_settings e =
     (let ds = decision_settings e
      in ds\<lparr>ds_root_urlconf := ''server.urls_management'',
            ds_session_cookie_secure := \<not> ds_debug ds, ds_csrf_cookie_secure := \<not> ds_debug ds,
            ds_hsts_seconds := (if ds_debug ds then 0 else 31536000),
            ds_middleware := filter (\<lambda>m. \<not> str_contains m ''decision_middleware'') (ds_middleware ds)
              @ [''django.contrib.sessions.middleware.SessionMiddleware'', ''django.middleware.csrf.CsrfViewMiddleware'',
                 ''django.contrib.auth.middleware.AuthenticationMiddleware'',
                 ''django.contrib.messages.middleware.MessageMiddleware'',
                 ''django.middleware.clickjacking.XFrameOptionsMiddleware'', ''complylayer.api.middleware.ApiKeyMiddleware'']\<rparr>)"

text \<open>\<open>ImproperlyConfigured\<close> with the names of the settings.\<close>

datatype improperly_configured = Development_secrets "string list"

definition refuse_development_secrets :: "django_settings \<Rightarrow> improperly_configured + unit" where
  "refuse_development_secrets ds =
     (if ds_debug ds then Inr ()
      else
        (let insecure = (if ds_secret_key ds = INSECURE_SECRET_KEY then [''COMPLYLAYER_SECRET_KEY''] else [])
               @ (if ds_customer_salt ds = INSECURE_CUSTOMER_SALT then [''COMPLYLAYER_CUSTOMER_SALT''] else [])
         in if insecure = [] then Inr () else Inl (Development_secrets insecure)))"


section \<open>The command\<close>

text \<open>What the command meets: the interpreter, the database, Redis and the clocks. Of \<open>pg_trigger\<close>, whose
  rows the command selects by table, it reads the name; \<open>tgenabled\<close> is the other column here.\<close>

record pg_trigger =
  tg_name :: string
  tg_enabled :: bool

record host_probe =
  pb_python :: "int \<times> int"
  pb_pg_version :: "string + int option"
  pb_ping :: "nat \<Rightarrow> string option"
  pb_clock :: "nat \<Rightarrow> rat"
  pb_redis_time :: "(int \<times> int) option"
  pb_local_time :: rat
  pb_triggers :: "string + pg_trigger list"
  pb_role :: "string + (string \<times> bool \<times> bool) option"

definition doctor_checks :: "fixed_digits \<Rightarrow> (string \<Rightarrow> string) \<Rightarrow> host_probe \<Rightarrow> django_settings \<Rightarrow> exn + check_result list" where
  "doctor_checks fx repr pb ds =
     bindE (check_redis fx (pb_ping pb) (pb_clock pb) 5) (\<lambda>redis.
     Inr [check_python_version (pb_python pb),
          check_database (pb_pg_version pb),
          redis,
          check_clock_skew fx
            (case pb_redis_time pb of None \<Rightarrow> None | Some (s, us) \<Rightarrow> Some (of_int s + of_int us / 1000000)) (pb_local_time pb),
          check_audit_immutability (case pb_triggers pb of Inl e \<Rightarrow> Inl e | Inr ts \<Rightarrow> Inr (map tg_name ts)),
          check_rls_effective repr
            (case pb_role pb of Inl e \<Rightarrow> Inl e | Inr None \<Rightarrow> Inl ''no such role'' | Inr (Some r) \<Rightarrow> Inr r),
          check_deployment_secrets (ds_secret_key ds) (ds_customer_salt ds) (ds_debug ds)
            INSECURE_SECRET_KEY INSECURE_CUSTOMER_SALT,
          check_transport_security (ds_session_cookie_secure ds) (ds_csrf_cookie_secure ds) (ds_hsts_seconds ds) (ds_debug ds)
            (list_ex (\<lambda>m. str_contains m ''SessionMiddleware'') (ds_middleware ds)),
          check_audit_anchoring (ds_private_key ds) (ds_public_key ds) (ds_debug ds)])"

fun marker :: "status \<Rightarrow> string" where
  "marker Ok_status = ''  ok  ''"
| "marker Warn_status = '' warn ''"
| "marker Fail_status = '' FAIL ''"

definition ljust :: "nat \<Rightarrow> string \<Rightarrow> string" where
  "ljust n s = s @ replicate (n - length s) CHR '' ''"

definition result_lines :: "nat \<Rightarrow> check_result \<Rightarrow> string list" where
  "result_lines width r =
     (''['' @ marker (result_status r) @ ''] '' @ ljust width (cr_name r) @ ''  '' @ cr_detail r)
     # (if cr_remediation r = [] then []
        else [''           '' @ replicate width CHR '' '' @ ''  -> '' @ cr_remediation r])"

definition widest :: "check_result list \<Rightarrow> nat" where
  "widest rs = foldr max (map (\<lambda>r. length (cr_name r)) rs) 0"

text \<open>The lines written and the exit code.\<close>

definition doctor_report :: "bool \<Rightarrow> check_result list \<Rightarrow> string list \<times> nat" where
  "doctor_report strict rs =
     (let (failures, warnings) = summarise rs;
          (failures, warnings) = (if strict then (failures + warnings, 0) else (failures, warnings));
          lines = concat (map (result_lines (widest rs)) rs) @ [[]]
      in if failures \<noteq> 0 then
           (lines @ [str_of_nat failures @ '' check(s) failed, '' @ str_of_nat warnings @ '' warning(s).''], 1)
         else if warnings \<noteq> 0 then
           (lines @ [''All checks passed with '' @ str_of_nat warnings @ '' warning(s).''], 0)
         else (lines @ [''All checks passed.''], 0))"

definition doctor :: "bool \<Rightarrow> fixed_digits \<Rightarrow> (string \<Rightarrow> string) \<Rightarrow> host_probe \<Rightarrow> django_settings \<Rightarrow> exn + string list \<times> nat" where
  "doctor strict fx repr pb ds = bindE (doctor_checks fx repr pb ds) (\<lambda>rs. Inr (doctor_report strict rs))"


section \<open>What passing means\<close>

lemma failed_simps [simp]:
  "cr_ok (failed n f d r) = False" "cr_fatal (failed n f d r) = f" "cr_ok (passed n d) = True"
  by (simp_all add: failed_def passed_def)

lemma timings_length: "timings ping clock i n = Inr ts \<Longrightarrow> length ts = n"
  by (induction n arbitrary: i ts) (auto split: option.splits)

lemma median_Inl: "median xs = Inl e \<longleftrightarrow> xs = [] \<and> e = ValueError"
  by (auto simp: median_def Let_def simp del: length_0_conv split: if_splits)

lemma median_5: "length xs = 5 \<Longrightarrow> median xs = Inr (sort xs ! 2)"
  by (simp add: median_def Let_def del: length_0_conv)

lemma check_redis_total: "\<exists>r. check_redis fx ping clock (Suc n) = Inr r"
proof (cases "case ping 0 of Some e \<Rightarrow> Inl e | None \<Rightarrow> timings ping clock 0 (Suc n)")
  case (Inl e)
  then show ?thesis by (simp add: check_redis_def)
next
  case (Inr ts)
  then have "length ts = Suc n" by (auto dest: timings_length simp del: timings.simps split: option.splits)
  then obtain m where "median ts = Inr m" using median_Inl by (cases "median ts") force+
  then show ?thesis
    unfolding check_redis_def Inr sum.case
    by (cases "REDIS_PING_FAIL_MS \<le> m"; cases "REDIS_PING_WARN_MS \<le> m") simp_all
qed

lemma exit_code: "snd (doctor_report strict rs) = 0 \<longleftrightarrow> (\<forall>r \<in> set rs. cr_ok r \<or> \<not> strict \<and> \<not> cr_fatal r)"
  by (auto simp: doctor_report_def summarise_def filter_empty_conv Let_def)

text \<open>Five pings of a quarter, none of which raises.\<close>

definition redis_near :: "host_probe \<Rightarrow> rat \<Rightarrow> bool" where
  "redis_near pb limit \<longleftrightarrow>
     (\<forall>i \<le> 5. pb_ping pb i = None) \<and>
     sort (map (\<lambda>i. (pb_clock pb (2 * i + 1) - pb_clock pb (2 * i)) * 1000) [0..<5]) ! 2 < limit"

lemma timings_Inr:
  "timings ping clock i n = Inr ts \<longleftrightarrow>
     (\<forall>j \<in> {i<..i + n}. ping j = None) \<and> ts = map (\<lambda>j. (clock (2 * j + 1) - clock (2 * j)) * 1000) [i..<i + n]"
proof (induction n arbitrary: i ts)
  case (Suc n)
  have "{i<..i + Suc n} = insert (Suc i) {Suc i<..Suc i + n}" by auto
  moreover have "[i..<i + Suc n] = i # [Suc i..<Suc i + n]" by (simp add: upt_rec)
  ultimately show ?case by (auto simp: Suc bindE_eq_Inr simp del: upt_Suc split: option.splits)
qed auto

lemma redis_passes:
  "(\<exists>r. check_redis fx (pb_ping pb) (pb_clock pb) 5 = Inr r \<and> cr_ok r) \<longleftrightarrow> redis_near pb REDIS_PING_WARN_MS"
proof (cases "\<forall>i \<le> 5. pb_ping pb i = None")
  case True
  then have "timings (pb_ping pb) (pb_clock pb) 0 5 = Inr (map (\<lambda>i. (pb_clock pb (2 * i + 1) - pb_clock pb (2 * i)) * 1000) [0..<5])"
    by (simp add: timings_Inr del: upt_Suc)
  with True show ?thesis
    using median_5 [of "map (\<lambda>i. (pb_clock pb (2 * i + 1) - pb_clock pb (2 * i)) * 1000) [0..<5]"]
    by (simp add: check_redis_def redis_near_def not_le REDIS_PING_WARN_MS_def REDIS_PING_FAIL_MS_def del: upt_Suc upt_rec_numeral)
next
  case False
  then obtain i where i: "i \<le> 5" "pb_ping pb i \<noteq> None" by blast
  have "(case pb_ping pb 0 of Some e \<Rightarrow> Inl e | None \<Rightarrow> timings (pb_ping pb) (pb_clock pb) 0 5) \<noteq> Inr ts" for ts
    using i by (cases i) (auto simp: timings_Inr simp del: upt_Suc upt_rec_numeral split: option.splits)
  then obtain e where "(case pb_ping pb 0 of Some e \<Rightarrow> Inl e | None \<Rightarrow> timings (pb_ping pb) (pb_clock pb) 0 5) = Inl e"
    by (metis sum.exhaust)
  with False show ?thesis by (auto simp: check_redis_def redis_near_def)
qed

definition serves_sessions :: "django_settings \<Rightarrow> bool" where
  "serves_sessions ds = list_ex (\<lambda>m. str_contains m ''SessionMiddleware'') (ds_middleware ds)"

text \<open>What a deployment has that the strict preflight lets through.\<close>

definition deployable :: "host_probe \<Rightarrow> django_settings \<Rightarrow> bool" where
  "deployable pb ds \<longleftrightarrow>
     pb_python pb = (3, 12) \<and>
     (\<exists>v. pb_pg_version pb = Inr (Some v) \<and> 160000 \<le> v) \<and>
     redis_near pb 2 \<and>
     (\<exists>s us. pb_redis_time pb = Some (s, us) \<and> \<bar>pb_local_time pb - (of_int s + of_int us / 1000000)\<bar> < 1) \<and>
     (\<exists>ts. pb_triggers pb = Inr ts \<and> set required_triggers \<subseteq> set (map tg_name ts)) \<and>
     (\<exists>role. pb_role pb = Inr (Some (role, False, False))) \<and>
     ds_secret_key ds \<noteq> INSECURE_SECRET_KEY \<and> ds_customer_salt ds \<noteq> INSECURE_CUSTOMER_SALT \<and>
     (serves_sessions ds \<longrightarrow> ds_session_cookie_secure ds \<and> ds_csrf_cookie_secure ds \<and> 0 < ds_hsts_seconds ds) \<and>
     ds_private_key ds \<noteq> [] \<and> ds_public_key ds \<noteq> []"

lemma checks_pass:
  "cr_ok (check_python_version v) \<longleftrightarrow> v = (3, 12)"
  "cr_ok (check_database db) \<longleftrightarrow> (\<exists>n. db = Inr (Some n) \<and> 160000 \<le> n)"
  "cr_ok (check_clock_skew fx t l) \<longleftrightarrow> (\<exists>x. t = Some x \<and> \<bar>l - x\<bar> < 1)"
  "cr_ok (check_audit_immutability tr) \<longleftrightarrow> (\<exists>ts. tr = Inr ts \<and> set required_triggers \<subseteq> set ts)"
  "cr_ok (check_rls_effective repr r) \<longleftrightarrow> (\<exists>role. r = Inr (role, False, False))"
  "cr_ok (check_deployment_secrets k s d k0 s0) \<longleftrightarrow> k \<noteq> k0 \<and> s \<noteq> s0"
  "cr_ok (check_transport_security a b h d ss) \<longleftrightarrow> (ss \<longrightarrow> a \<and> b \<and> 0 < h)"
  "cr_ok (check_audit_anchoring pr pu d) \<longleftrightarrow> pr \<noteq> [] \<and> pu \<noteq> []"
proof -
  show "cr_ok (check_python_version v) \<longleftrightarrow> v = (3, 12)"
    by (cases v) (simp add: check_python_version_def Let_def)
  show "cr_ok (check_database db) \<longleftrightarrow> (\<exists>n. db = Inr (Some n) \<and> 160000 \<le> n)"
    by (auto simp: check_database_def MIN_POSTGRES_VERSION_def Let_def split: sum.split option.split)
  show "cr_ok (check_clock_skew fx t l) \<longleftrightarrow> (\<exists>x. t = Some x \<and> \<bar>l - x\<bar> < 1)"
    by (auto simp: check_clock_skew_def CLOCK_SKEW_FAIL_SECONDS_def Let_def split: option.split)
  have "sort (filter (\<lambda>t. t \<notin> set ts) required_triggers) = [] \<longleftrightarrow> set required_triggers \<subseteq> set ts" for ts
    by (metis (mono_tags) filter_empty_conv set_empty set_sort subsetI subsetD)
  then show "cr_ok (check_audit_immutability tr) \<longleftrightarrow> (\<exists>ts. tr = Inr ts \<and> set required_triggers \<subseteq> set ts)"
    by (auto simp: check_audit_immutability_def Let_def split: sum.split)
  show "cr_ok (check_rls_effective repr r) \<longleftrightarrow> (\<exists>role. r = Inr (role, False, False))"
    by (auto simp: check_rls_effective_def split: sum.split prod.split)
  show "cr_ok (check_deployment_secrets k s d k0 s0) \<longleftrightarrow> k \<noteq> k0 \<and> s \<noteq> s0"
    by (simp add: check_deployment_secrets_def Let_def)
  show "cr_ok (check_transport_security a b h d ss) \<longleftrightarrow> (ss \<longrightarrow> a \<and> b \<and> 0 < h)"
    by (auto simp: check_transport_security_def Let_def)
  show "cr_ok (check_audit_anchoring pr pu d) \<longleftrightarrow> pr \<noteq> [] \<and> pu \<noteq> []"
    by (auto simp: check_audit_anchoring_def Let_def)
qed



section \<open>What it does not see\<close>

text \<open>Triggers somebody disabled still have a row: the verdict is that of the enabled ones, although
  migration 0002 itself tells how to disable them.\<close>

lemma disabled_triggers_pass:
  "pb_triggers pb = Inr ts \<Longrightarrow>
   doctor strict fx repr (pb\<lparr>pb_triggers := Inr (map (\<lambda>t. t\<lparr>tg_enabled := False\<rparr>) ts)\<rparr>) ds = doctor strict fx repr pb ds"
  by (simp add: doctor_def doctor_checks_def comp_def)

text \<open>The refusal at start looks for the two published values only. An environment that sets the salt to
  nothing gets past it, past the secrets check, and hashes customers' references with the empty key.\<close>

lemma refuse_iff:
  "refuse_development_secrets ds = Inr u \<longleftrightarrow>
     ds_debug ds \<or> ds_secret_key ds \<noteq> INSECURE_SECRET_KEY \<and> ds_customer_salt ds \<noteq> INSECURE_CUSTOMER_SALT"
  by (auto simp: refuse_development_secrets_def Let_def)

lemma empty_salt_starts:
  assumes "e ''COMPLYLAYER_SECRET_KEY'' = Some k" and "k \<noteq> INSECURE_SECRET_KEY" and "e ''COMPLYLAYER_CUSTOMER_SALT'' = Some []"
  shows "refuse_development_secrets (decision_settings e) = Inr () \<and> ds_customer_salt (decision_settings e) = []
    \<and> cr_ok (check_deployment_secrets k [] d INSECURE_SECRET_KEY INSECURE_CUSTOMER_SALT)"
  using assms
  by (simp add: refuse_iff decision_settings_def env_def Let_def checks_pass INSECURE_CUSTOMER_SALT_def)

text \<open>The settings serve sessions in the management workload only, and there they are secure unless
  debugging.\<close>

lemma workloads:
  "\<not> serves_sessions (decision_settings e)"
  "serves_sessions (management_settings e)"
  "\<not> ds_debug (decision_settings e) \<Longrightarrow>
   cr_ok (check_transport_security (ds_session_cookie_secure (management_settings e)) (ds_csrf_cookie_secure (management_settings e))
     (ds_hsts_seconds (management_settings e)) d True)"
proof -
  have "\<not> list_ex (\<lambda>m. str_contains m ''SessionMiddleware'') MIDDLEWARE"
    and "str_contains ''django.contrib.sessions.middleware.SessionMiddleware'' ''SessionMiddleware''" by code_simp+
  then show "\<not> serves_sessions (decision_settings e)" "serves_sessions (management_settings e)"
    by (simp_all add: serves_sessions_def decision_settings_def management_settings_def Let_def list_ex_append)
  show "\<not> ds_debug (decision_settings e) \<Longrightarrow>
   cr_ok (check_transport_security (ds_session_cookie_secure (management_settings e)) (ds_csrf_cookie_secure (management_settings e))
     (ds_hsts_seconds (management_settings e)) d True)"
    by (simp add: checks_pass management_settings_def Let_def)
qed

text \<open>Without checkpoint keys the preflight fails outright unless debugging, whatever is strict.\<close>

lemma unanchored_fails:
  "pr = [] \<or> pu = [] \<Longrightarrow> result_status (check_audit_anchoring pr pu False) = Fail_status"
  by (auto simp: check_audit_anchoring_def result_status_def Let_def)

end
