(* ===== verification/Commands.thy ===== *)
theory Commands
  imports Audit_Trail Partitions Engine_Cache
begin

text \<open>
  The rest of what operators run: the management commands
  \<open>complylayer_checkpoint\<close>, \<open>complylayer_partitions\<close> and \<open>complylayer_benchmark\<close>
  (\<open>src/complylayer/management/commands\<close>), the guard of \<open>src/scripts/no_eval_guard.py\<close>, the database
  router (\<open>src/complylayer/db_router.py\<close>) and the static URLs of the dashboard
  (\<open>src/complylayer/templatetags/complylayer_static.py\<close>).

  Clocks, signing, tokenising and the file system are parameters. Colours of the terminal are left out.
\<close>


section \<open>Signing every chain\<close>

text \<open>What the command says of one tenant.\<close>

datatype checkpoint_line =
    Nothing_to_anchor string
  | Anchored string nat string

datatype checkpoint_exit =
    Key_pair string string
  | No_private_key
  | Bad_key
  | Chains_signed "checkpoint_line list" nat

text \<open>\<open>sign\<close> is \<open>None\<close> for text that is no Ed25519 private key; \<open>moment i\<close> is the clock at the \<open>i\<close>th tenant.
  Checkpoints written before an exception stay written.\<close>

fun sign_tenants ::
  "(string \<Rightarrow> (string \<Rightarrow> string) option) \<Rightarrow> (rat \<Rightarrow> string) \<Rightarrow> string \<Rightarrow> (nat \<Rightarrow> string) \<Rightarrow> (string \<Rightarrow> audit_record list) \<Rightarrow>
     nat \<Rightarrow> string list \<Rightarrow> checkpoint list \<Rightarrow> checkpoint_line list option \<times> checkpoint list" where
  "sign_tenants sign fl pem moment trail i [] cps = (Some [], cps)"
| "sign_tenants sign fl pem moment trail i (t # ts) cps =
     (if trail t = [] then
        (case sign_tenants sign fl pem moment trail (Suc i) ts cps of
           (r, cps') \<Rightarrow> (map_option (\<lambda>ls. Nothing_to_anchor t # ls) r, cps'))
      else
        (case sign pem of
           None \<Rightarrow> (None, cps)
         | Some s \<Rightarrow>
             (case write_checkpoint (\<lambda>_. s) fl pem t (moment i) (trail t) of
                None \<Rightarrow> (None, cps)
              | Some cp \<Rightarrow>
                  (case sign_tenants sign fl pem moment trail (Suc i) ts (cps @ [cp]) of
                     (r, cps') \<Rightarrow>
                       (map_option (\<lambda>ls. Anchored t (cp_chain_length cp) (take 20 (cp_head_hash cp)) # ls) r, cps')))))"

definition anchored_line :: "checkpoint_line \<Rightarrow> bool" where
  "anchored_line l \<longleftrightarrow> (case l of Anchored t n h \<Rightarrow> True | Nothing_to_anchor t \<Rightarrow> False)"

definition checkpoint_command ::
  "bool \<Rightarrow> string \<times> string \<Rightarrow> string \<Rightarrow> (string \<Rightarrow> (string \<Rightarrow> string) option) \<Rightarrow> (rat \<Rightarrow> string) \<Rightarrow> string \<Rightarrow> (nat \<Rightarrow> string) \<Rightarrow>
     (string \<Rightarrow> audit_record list) \<Rightarrow> string list \<Rightarrow> checkpoint list \<Rightarrow> checkpoint_exit \<times> checkpoint list" where
  "checkpoint_command generate_key fresh only sign fl pem moment trail tenants cps =
     (if generate_key then (Key_pair (fst fresh) (snd fresh), cps)
      else if pem = [] then (No_private_key, cps)
      else
        (case sign_tenants sign fl pem moment trail 0 (filter (\<lambda>t. only = [] \<or> t = only) tenants) cps of
           (None, cps') \<Rightarrow> (Bad_key, cps')
         | (Some ls, cps') \<Rightarrow> (Chains_signed ls (length (filter anchored_line ls)), cps')))"

definition checkpoints_of :: "string \<Rightarrow> checkpoint list \<Rightarrow> checkpoint list" where
  "checkpoints_of t cps = filter (\<lambda>c. cp_tenant c = t) cps"

text \<open>A signature made is one the public key accepts.\<close>

definition accepted_by :: "(string \<Rightarrow> string) \<Rightarrow> (string \<Rightarrow> string \<Rightarrow> string \<Rightarrow> bool) \<Rightarrow> string \<Rightarrow> bool" where
  "accepted_by s check_sig pub \<longleftrightarrow> (\<forall>m. check_sig pub (s m) m)"


section \<open>Creating partitions\<close>

datatype partition_line = Created string | All_present | Stranded nat

definition partitions_command :: "date \<Rightarrow> nat \<Rightarrow> pg_table \<Rightarrow> partition_error + partition_line list \<times> pg_table" where
  "partitions_command today months_ahead t =
     bindE (ensure_partitions today months_ahead t) (\<lambda>(created, t').
     Inr (map Created created @ (if created = [] then [All_present] else [])
          @ (if rows_in_default_partition t' \<noteq> 0 then [Stranded (rows_in_default_partition t')] else []), t'))"


section \<open>The benchmark\<close>

definition CONTRACT_P99_MS :: rat where "CONTRACT_P99_MS = 100"

definition EVAL_BUDGET_MS :: rat where "EVAL_BUDGET_MS = 5"

definition pad3 :: "nat \<Rightarrow> string" where
  "pad3 n = replicate (3 - length (str_of_nat n)) CHR ''0'' @ str_of_nat n"

definition benchmark_entry :: "nat \<Rightarrow> snapshot_entry" where
  "benchmark_entry index =
     \<lparr>se_id = Some (''rul_'' @ pad3 index), se_name = Some (''Rule '' @ str_of_nat index),
      se_expression = Some (''amount_minor > '' @ str_of_nat (1000000 + index) @ '' and kyc_tier < 4''),
      se_severity = Some ''flag'', se_state = Some ''active'', se_priority = Some (int index),
      se_regulatory_reference = None, se_customer_message = None\<rparr>"

definition benchmark_context :: "(string \<rightharpoonup> py_function) \<Rightarrow> evaluation_context" where
  "benchmark_context functions =
     \<lparr>ctx_facts = [''amount_minor'' \<mapsto> PInt 7500000, ''kyc_tier'' \<mapsto> PInt 2], ctx_functions = functions\<rparr>"

record measured =
  ms_compile :: rat
  ms_p50 :: rat
  ms_p99 :: rat
  ms_exit :: nat

datatype benchmark_error = Not_compiled cache_error | Not_decided exn | No_data

text \<open>\<open>scaled n\<close> is \<open>int(n * 0.99)\<close>, a product of floats. \<open>clock i\<close> is the \<open>i\<close>th reading. The middle of an even
  number of timings is the mean of two.\<close>

definition middle :: "rat list \<Rightarrow> rat" where
  "middle ys =
     (let n = length ys
      in if odd n then ys ! (n div 2) else (ys ! (n div 2 - 1) + ys ! (n div 2)) / 2)"

definition percentile_99 :: "(nat \<Rightarrow> nat) \<Rightarrow> rat list \<Rightarrow> rat" where
  "percentile_99 scaled ys = ys ! min (length ys - 1) (scaled (length ys))"

definition benchmark ::
  "python_parser \<Rightarrow> (string \<rightharpoonup> py_function) \<Rightarrow> (nat \<Rightarrow> rat) \<Rightarrow> (nat \<Rightarrow> nat) \<Rightarrow> int \<Rightarrow> int \<Rightarrow> benchmark_error + measured" where
  "benchmark py functions clock scaled rule_count iterations =
     (case compile_snapshot py 1 (map benchmark_entry [0..<nat rule_count]) of
        Inl e \<Rightarrow> Inl (Not_compiled e)
      | Inr ruleset \<Rightarrow>
          (case decide ruleset (benchmark_context functions) None MAX_STEPS of
             Inl e \<Rightarrow> Inl (Not_decided e)
           | Inr d \<Rightarrow>
               (let timings = sort (map (\<lambda>i. (clock (2 * i + 3) - clock (2 * i + 2)) * 1000) [0..<nat iterations])
                in if timings = [] then Inl No_data
                   else Inr \<lparr>ms_compile = (clock 1 - clock 0) * 1000, ms_p50 = middle timings,
                             ms_p99 = percentile_99 scaled timings,
                             ms_exit = (if EVAL_BUDGET_MS < percentile_99 scaled timings then 1 else 0)\<rparr>)))"


section \<open>The guard against eval\<close>

datatype token_kind = NAME | OP | Other_token

record py_token =
  tk_kind :: token_kind
  tk_string :: string
  tk_line :: nat

definition FORBIDDEN :: "string list" where "FORBIDDEN = [''eval'', ''exec'']"

text \<open>\<open>str.splitlines\<close> on the Latin-1 range: the pair of a carriage return and a line feed is one break.\<close>

definition line_break :: "char \<Rightarrow> bool" where
  "line_break c \<longleftrightarrow> ord_c c \<in> {10, 11, 12, 13, 28, 29, 30, 133}"

fun splitlines :: "string \<Rightarrow> string list" where
  "splitlines [] = []"
| "splitlines [c] = (if line_break c then [[]] else [[c]])"
| "splitlines (c # d # cs) =
     (if ord_c c = 13 \<and> ord_c d = 10 then [] # splitlines cs
      else if line_break c then [] # splitlines (d # cs)
      else (case splitlines (d # cs) of [] \<Rightarrow> [[c]] | l # ls \<Rightarrow> (c # l) # ls))"

definition forbidden_call :: "py_token list \<Rightarrow> nat \<Rightarrow> bool" where
  "forbidden_call ms i \<longleftrightarrow>
     tk_kind (ms ! i) = NAME \<and> tk_string (ms ! i) \<in> set FORBIDDEN \<and>
     i + 1 < length ms \<and> tk_string (ms ! (i + 1)) = ''('' \<and>
     \<not> (0 < i \<and> tk_string (ms ! (i - 1)) = ''.'') \<and>
     \<not> (0 < i \<and> tk_string (ms ! (i - 1)) \<in> {''def'', ''class''})"

text \<open>\<open>tokens\<close> is what \<open>tokenize\<close> makes of a source, \<open>None\<close> where it raises.\<close>

definition scan_source :: "(string \<Rightarrow> py_token list option) \<Rightarrow> string \<Rightarrow> (nat \<times> string) list" where
  "scan_source tokens source =
     (case tokens source of
        None \<Rightarrow> []
      | Some ts \<Rightarrow>
          (let lines = splitlines source; meaningful = filter (\<lambda>t. tk_kind t \<in> {NAME, OP}) ts
           in map (\<lambda>i. let n = tk_line (meaningful ! i)
                      in (n, if n \<le> length lines then py_strip (lines ! (n - 1)) else []))
                (filter (forbidden_call meaningful) [0..<length meaningful])))"

text \<open>A path is the list of its parts, which is how paths are ordered.\<close>

definition scan_path :: "(string \<Rightarrow> py_token list option) \<Rightarrow> (string list \<times> string) list \<Rightarrow> (string list \<times> nat \<times> string) list" where
  "scan_path tokens files =
     concat (map (\<lambda>(path, text). map (\<lambda>(n, l). (path, n, l)) (scan_source tokens text)) (sort_key fst files))"

text \<open>The exit code with what was found; \<open>None\<close> is a target that does not exist.\<close>

definition guard_main ::
  "(string \<Rightarrow> py_token list option) \<Rightarrow> (string list \<times> string) list option \<Rightarrow> nat \<times> (string list \<times> nat \<times> string) list" where
  "guard_main tokens target =
     (case target of
        None \<Rightarrow> (1, [])
      | Some files \<Rightarrow> (let found = scan_path tokens files in (if found \<noteq> [] then 1 else 0, found)))"


section \<open>The router\<close>

definition REPLICA :: string where "REPLICA = ''replica''"

definition db_for_read :: "string option" where "db_for_read = None"

definition db_for_write :: "string option" where "db_for_write = Some ''default''"

definition allow_relation :: bool where "allow_relation = True"

definition allow_migrate :: "string \<Rightarrow> bool" where
  "allow_migrate db \<longleftrightarrow> db = ''default''"

text \<open>Django's choice for a query set: the alias the caller asked for, else the router's, else the
  default.\<close>

definition query_alias :: "bool \<Rightarrow> string option \<Rightarrow> string" where
  "query_alias write using =
     (case using of
        Some a \<Rightarrow> a
      | None \<Rightarrow> (case (if write then db_for_write else db_for_read) of Some a \<Rightarrow> a | None \<Rightarrow> ''default''))"


section \<open>Static URLs\<close>

definition mtime_stamp :: "(string \<Rightarrow> string option) \<Rightarrow> (string \<Rightarrow> int option) \<Rightarrow> string \<Rightarrow> string option" where
  "mtime_stamp finder mtime path =
     (case finder path of
        None \<Rightarrow> None
      | Some file \<Rightarrow> if file = [] then None else map_option str_of_int (mtime file))"

definition static_v ::
  "(string \<Rightarrow> string) \<Rightarrow> bool \<Rightarrow> string \<Rightarrow> (string \<Rightarrow> string option) \<Rightarrow> (string \<Rightarrow> int option) \<Rightarrow> string \<Rightarrow> string" where
  "static_v static debug release finder mtime path =
     (case (if debug then mtime_stamp finder mtime path else Some release) of
        Some (c # cs) \<Rightarrow> static path @ ''?v='' @ c # cs
      | _ \<Rightarrow> static path)"


section \<open>Facts\<close>

lemma latest_checkpoint_max:
  assumes "c \<in> set cps" and "\<And>d. d \<in> set cps \<Longrightarrow> d = c \<or> cp_chain_length d < cp_chain_length c"
  shows "latest_checkpoint cps = Some c"
proof -
  let ?k = "\<lambda>c. - int (cp_chain_length c)"
  obtain d ds where s: "sort_key ?k cps = d # ds"
    using assms(1) by (cases "sort_key ?k cps") (auto simp flip: set_sort [of ?k cps])
  have "sorted (map ?k (d # ds))" using sorted_sort_key [of ?k cps] unfolding s .
  then have "?k d \<le> ?k c" using assms(1) set_sort [of ?k cps] unfolding s by auto
  moreover have "d \<in> set cps" using set_sort [of ?k cps] unfolding s by auto
  ultimately have "d = c" using assms(2) [of d] by auto
  with s show ?thesis by (simp add: latest_checkpoint_def)
qed

text \<open>A checkpoint that is the latest one verifies over the trail it was written over, whatever the trail
  held later: a trail cut back to an earlier checkpoint, together with the later checkpoints, is still
  signed.\<close>

lemma checkpoint_verifies:
  assumes "write_checkpoint (\<lambda>_. s) fl pem t m recs = Some cp" and "latest_checkpoint cps = Some cp"
    and "accepted_by s check_sig pub" and "pub \<noteq> []"
  shows "verify_anchoring check_sig fl (Some pub) t cps recs = Some SIGNED"
  using assms
  by (auto simp: write_checkpoint_def verify_anchoring_def accepted_by_def Let_def last_map split: if_splits)

lemma sign_tenants_appends:
  assumes "sign_tenants sign fl pem moment trail i ts cps = (Some ls, cps')" and "distinct ts" and "sign pem = Some s"
  shows "\<exists>new j. cps' = cps @ new \<and>
    checkpoints_of t new = (if t \<in> set ts \<and> trail t \<noteq> [] then [the (write_checkpoint (\<lambda>_. s) fl pem t (moment j) (trail t))] else [])"
  using assms
proof (induction sign fl pem moment trail i ts cps arbitrary: ls rule: sign_tenants.induct)
  case (1 sign fl pem moment trail i cps)
  then show ?case by (simp add: checkpoints_of_def)
next
  case (2 sign fl pem moment trail i u ts cps)
  show ?case
  proof (cases "trail u = []")
    case True
    obtain r where r: "sign_tenants sign fl pem moment trail (Suc i) ts cps = (Some r, cps')"
      using "2.prems"(1) True by (auto split: prod.splits)
    with "2.IH"(1) [OF True r] "2.prems" True show ?thesis by auto
  next
    case False
    obtain cp where cp: "write_checkpoint (\<lambda>_. s) fl pem u (moment i) (trail u) = Some cp" "cp_tenant cp = u"
      using False by (auto simp: write_checkpoint_def Let_def)
    obtain r where r: "sign_tenants sign fl pem moment trail (Suc i) ts (cps @ [cp]) = (Some r, cps')"
      using "2.prems"(1,3) False cp by (auto split: prod.splits)
    from "2.IH"(2) [OF False "2.prems"(3) cp(1) r _ "2.prems"(3)] "2.prems"(2) obtain new j where
      new: "cps' = (cps @ [cp]) @ new"
        "checkpoints_of t new = (if t \<in> set ts \<and> trail t \<noteq> [] then [the (write_checkpoint (\<lambda>_. s) fl pem t (moment j) (trail t))] else [])"
      by auto
    show ?thesis
    proof (cases "t = u")
      case True
      with new "2.prems"(2) cp False show ?thesis
        by (intro exI [of _ "cp # new"] exI [of _ i]) (auto simp: checkpoints_of_def)
    next
      case neq: False
      with new cp show ?thesis
        by (intro exI [of _ "cp # new"] exI [of _ j]) (auto simp: checkpoints_of_def)
    qed
  qed
qed

text \<open>After the command every tenant with records is anchored to the end of its trail, if the trail grew
  since the checkpoints it had.\<close>

theorem command_anchors_every_tenant:
  assumes "checkpoint_command False fresh [] sign fl pem moment trail tenants cps = (Chains_signed ls n, cps')"
    and "distinct tenants" and "t \<in> set tenants" and "trail t \<noteq> []"
    and "\<forall>c \<in> set (checkpoints_of t cps). cp_chain_length c < length (trail t)"
    and "\<forall>s. sign pem = Some s \<longrightarrow> accepted_by s check_sig pub" and "pub \<noteq> []"
  shows "verify_anchoring check_sig fl (Some pub) t (checkpoints_of t cps') (trail t) = Some SIGNED"
proof -
  from assms(1) have run: "sign_tenants sign fl pem moment trail 0 tenants cps = (Some ls, cps')"
    by (auto simp: checkpoint_command_def split: if_splits prod.splits option.splits)
  have "sign pem \<noteq> None"
  proof
    assume none: "sign pem = None"
    have "sign_tenants sign fl pem moment trail i ts cps = (Some ls, cps') \<Longrightarrow> \<forall>t \<in> set ts. trail t = []" for i ts cps ls cps'
      using none by (induction ts arbitrary: i cps ls) (auto split: if_splits prod.splits)
    with run assms(3,4) show False by blast
  qed
  then obtain s where s: "sign pem = Some s" by blast
  obtain new j where new: "cps' = cps @ new"
    and mine: "checkpoints_of t new = [the (write_checkpoint (\<lambda>_. s) fl pem t (moment j) (trail t))]"
    using sign_tenants_appends [OF run assms(2) s, of t] assms(3,4) by auto
  obtain cp where cp: "write_checkpoint (\<lambda>_. s) fl pem t (moment j) (trail t) = Some cp" "cp_chain_length cp = length (trail t)"
    using assms(4) by (auto simp: write_checkpoint_def Let_def)
  have all: "checkpoints_of t cps' = checkpoints_of t cps @ [cp]"
    using mine cp(1) by (simp add: new checkpoints_of_def)
  then have "latest_checkpoint (checkpoints_of t cps') = Some cp"
    using assms(5) cp(2) by (intro latest_checkpoint_max) auto
  with checkpoint_verifies [OF cp(1)] assms(6,7) s show ?thesis by blast
qed

text \<open>At least as many timings as its index says are no worse than the percentile reported.\<close>

lemma percentile_covers:
  assumes "sorted ys" and "ys \<noteq> []"
  shows "min (length ys) (Suc (scaled (length ys))) \<le> length (filter (\<lambda>t. t \<le> percentile_99 scaled ys) ys)"
proof -
  define k where "k = min (length ys - 1) (scaled (length ys))"
  have k: "k < length ys" using assms(2) by (cases ys) (auto simp: k_def)
  have "\<forall>t \<in> set (take (Suc k) ys). t \<le> ys ! k"
    using assms(1) k by (auto simp: in_set_conv_nth intro!: sorted_nth_mono)
  then have "filter (\<lambda>t. t \<le> ys ! k) (take (Suc k) ys) = take (Suc k) ys" by (simp add: filter_id_conv)
  moreover have "filter (\<lambda>t. t \<le> ys ! k) ys
      = filter (\<lambda>t. t \<le> ys ! k) (take (Suc k) ys) @ filter (\<lambda>t. t \<le> ys ! k) (drop (Suc k) ys)"
    by (metis append_take_drop_id filter_append)
  ultimately show ?thesis using k by (simp add: percentile_99_def k_def [symmetric]) (simp add: k_def)
qed

text \<open>The guard finds every bare call of a file that it can tokenise, and lets any other file pass.\<close>

lemma guard_passes_iff:
  "fst (guard_main tokens (Some files)) = 0 \<longleftrightarrow>
     (\<forall>(path, source) \<in> set files. \<forall>ts. tokens source = Some ts \<longrightarrow>
        (let ms = filter (\<lambda>t. tk_kind t \<in> {NAME, OP}) ts in \<forall>i < length ms. \<not> forbidden_call ms i))"
proof -
  have "scan_source tokens source = [] \<longleftrightarrow> (\<forall>ts. tokens source = Some ts \<longrightarrow>
      (let ms = filter (\<lambda>t. tk_kind t \<in> {NAME, OP}) ts in \<forall>i < length ms. \<not> forbidden_call ms i))" for source
    by (auto simp: scan_source_def Let_def filter_empty_conv split: option.split)
  note scanned = this
  have "fst (guard_main tokens (Some files)) = 0 \<longleftrightarrow> (\<forall>(path, source) \<in> set files. scan_source tokens source = [])"
    by (auto simp: guard_main_def scan_path_def Let_def)
  then show ?thesis unfolding scanned .
qed

text \<open>A call of the same function through its module is none of these: \<open>builtins.eval(source)\<close> passes.\<close>

definition dotted_eval :: "py_token list" where
  "dotted_eval =
     [\<lparr>tk_kind = NAME, tk_string = ''builtins'', tk_line = 1\<rparr>, \<lparr>tk_kind = OP, tk_string = ''.'', tk_line = 1\<rparr>,
      \<lparr>tk_kind = NAME, tk_string = ''eval'', tk_line = 1\<rparr>, \<lparr>tk_kind = OP, tk_string = ''('', tk_line = 1\<rparr>,
      \<lparr>tk_kind = NAME, tk_string = ''source'', tk_line = 1\<rparr>, \<lparr>tk_kind = OP, tk_string = '')'', tk_line = 1\<rparr>]"

lemma dotted_eval_passes: "scan_source (\<lambda>_. Some dotted_eval) source = []"
proof -
  have "filter (forbidden_call dotted_eval) [0..<length dotted_eval] = []"
    and "filter (\<lambda>t. tk_kind t \<in> {NAME, OP}) dotted_eval = dotted_eval" by code_simp+
  then show ?thesis by (simp add: scan_source_def Let_def)
qed

text \<open>The router keeps writes off the replica unless the query set itself asks for it.\<close>

lemma replica_written_iff: "query_alias True using = REPLICA \<longleftrightarrow> using = Some REPLICA"
  by (auto simp: query_alias_def db_for_write_def REPLICA_def split: option.splits)


end
