(* ===== verification/Checkpoint_Keys.thy ===== *)
theory Checkpoint_Keys
  imports Commands
begin

text \<open>
  The signatures of checkpoints (\<open>src/complylayer/audit/checkpoint.py\<close>): the key pair, signing the bytes
  of a checkpoint and checking a signature that was stored as hexadecimal text.

  Ed25519 and the text form of its keys are the \<open>cryptography\<close> package, a record of parameters. What is
  used of them is \<open>genuine\<close>: a generated pair loads, and its public half accepts what its private half
  signed.
\<close>


section \<open>Keys and signatures\<close>

datatype 'k loaded = Ed25519 'k | Other_algorithm

record ('k, 'p) cryptography =
  cg_public_key :: "'k \<Rightarrow> 'p"
  cg_private_bytes :: "'k \<Rightarrow> string"
  cg_public_bytes :: "'p \<Rightarrow> string"
  cg_load_private :: "string \<Rightarrow> 'k loaded option"
  cg_load_public :: "string \<Rightarrow> 'p loaded option"
  cg_sign :: "'k \<Rightarrow> string \<Rightarrow> string"
  cg_verify :: "'p \<Rightarrow> string \<Rightarrow> string \<Rightarrow> bool"

definition generate_key_pair :: "('k, 'p) cryptography \<Rightarrow> 'k \<Rightarrow> string \<times> string" where
  "generate_key_pair cg k = (cg_private_bytes cg k, cg_public_bytes cg (cg_public_key cg k))"

text \<open>\<open>bytes.hex\<close> and \<open>bytes.fromhex\<close>, which takes either case and skips white space between bytes;
  \<open>None\<close> is its \<open>ValueError\<close>.\<close>

definition bytes_hex :: "string \<Rightarrow> string" where
  "bytes_hex bs = concat (map (\<lambda>b. [hex_digit (ord_c b div 16), hex_digit (ord_c b mod 16)]) bs)"

definition hex_value :: "char \<Rightarrow> nat option" where
  "hex_value c =
     (let n = ord_c c
      in if 48 \<le> n \<and> n \<le> 57 then Some (n - 48)
         else if 97 \<le> n \<and> n \<le> 102 then Some (n - 87)
         else if 65 \<le> n \<and> n \<le> 70 then Some (n - 55) else None)"

definition ascii_space :: "char \<Rightarrow> bool" where
  "ascii_space c \<longleftrightarrow> ord_c c \<in> {9, 10, 11, 12, 13, 32}"

fun bytes_fromhex :: "string \<Rightarrow> string option" where
  "bytes_fromhex [] = Some []"
| "bytes_fromhex [c] = (if ascii_space c then Some [] else None)"
| "bytes_fromhex (c # d # cs) =
     (if ascii_space c then bytes_fromhex (d # cs)
      else
        (case (hex_value c, hex_value d) of
           (Some m, Some n) \<Rightarrow> map_option (\<lambda>bs. char_of (16 * m + n) # bs) (bytes_fromhex cs)
         | _ \<Rightarrow> None))"

text \<open>A text that is no key raises what the package raises; here both failures are \<open>ValueError\<close>.\<close>

definition sign_head ::
  "('k, 'p) cryptography \<Rightarrow> (rat \<Rightarrow> string) \<Rightarrow> string \<Rightarrow> string \<Rightarrow> nat \<Rightarrow> string \<Rightarrow> string \<Rightarrow> exn + string" where
  "sign_head cg fl private_pem tenant len head signed_at =
     (case cg_load_private cg private_pem of
        Some (Ed25519 k) \<Rightarrow> Inr (bytes_hex (cg_sign cg k (canonical_checkpoint fl tenant len head signed_at)))
      | _ \<Rightarrow> Inl ValueError)"

definition verify_signature ::
  "('k, 'p) cryptography \<Rightarrow> (rat \<Rightarrow> string) \<Rightarrow> string \<Rightarrow> string \<Rightarrow> string \<Rightarrow> nat \<Rightarrow> string \<Rightarrow> string \<Rightarrow> exn + bool" where
  "verify_signature cg fl public_pem signature tenant len head signed_at =
     (case cg_load_public cg public_pem of
        Some (Ed25519 p) \<Rightarrow>
          Inr (case bytes_fromhex signature of
                 None \<Rightarrow> False
               | Some s \<Rightarrow> cg_verify cg p s (canonical_checkpoint fl tenant len head signed_at))
      | _ \<Rightarrow> Inl ValueError)"

text \<open>\<open>CheckpointResult.ok\<close>.\<close>

definition result_ok :: "anchoring \<Rightarrow> bool" where
  "result_ok a \<longleftrightarrow> a = SIGNED"


section \<open>Facts\<close>

definition genuine :: "('k, 'p) cryptography \<Rightarrow> bool" where
  "genuine cg \<longleftrightarrow>
     (\<forall>k m. cg_verify cg (cg_public_key cg k) (cg_sign cg k m) m) \<and>
     (\<forall>k. cg_load_private cg (cg_private_bytes cg k) = Some (Ed25519 k)) \<and>
     (\<forall>p. cg_load_public cg (cg_public_bytes cg p) = Some (Ed25519 p))"

lemma hex_value_digit:
  assumes "n < 16"
  shows "hex_value (hex_digit n) = Some n" "\<not> ascii_space (hex_digit n)"
proof -
  have "list_all (\<lambda>n. hex_value (hex_digit n) = Some n \<and> \<not> ascii_space (hex_digit n)) [0..<16]" by code_simp
  with assms show "hex_value (hex_digit n) = Some n" "\<not> ascii_space (hex_digit n)" by (simp_all add: list_all_iff)
qed

lemma bytes_fromhex_hex: "bytes_fromhex (bytes_hex bs) = Some bs"
proof (induction bs)
  case (Cons b bs)
  have "ord_c b < 256" by (simp add: ord_c_def)
  moreover have "char_of (16 * (ord_c b div 16) + ord_c b mod 16) = b" by (simp add: ord_c_def)
  ultimately show ?case using Cons by (simp add: bytes_hex_def hex_value_digit)
qed (simp add: bytes_hex_def)

lemma generated_pair_verifies:
  assumes "genuine cg" and "generate_key_pair cg k = (priv, pub)"
  obtains s where "sign_head cg fl priv t n h m = Inr s" and "verify_signature cg fl pub s t n h m = Inr True"
  using assms by (auto simp: genuine_def generate_key_pair_def sign_head_def verify_signature_def bytes_fromhex_hex)

text \<open>The parameters of the command and of the verification, made of these.\<close>

definition signer :: "('k, 'p) cryptography \<Rightarrow> string \<Rightarrow> (string \<Rightarrow> string) option" where
  "signer cg pem = (case cg_load_private cg pem of Some (Ed25519 k) \<Rightarrow> Some (\<lambda>m. bytes_hex (cg_sign cg k m)) | _ \<Rightarrow> None)"

definition checker :: "('k, 'p) cryptography \<Rightarrow> string \<Rightarrow> string \<Rightarrow> string \<Rightarrow> bool" where
  "checker cg pub signature m \<longleftrightarrow>
     (case (cg_load_public cg pub, bytes_fromhex signature) of (Some (Ed25519 p), Some s) \<Rightarrow> cg_verify cg p s m | _ \<Rightarrow> False)"

lemma sign_head_signer:
  "sign_head cg fl pem t n h m =
     (case signer cg pem of None \<Rightarrow> Inl ValueError | Some s \<Rightarrow> Inr (s (canonical_checkpoint fl t n h m)))"
  by (simp add: sign_head_def signer_def split: option.split loaded.split)

lemma verify_signature_checker:
  "verify_signature cg fl pub s t n h m = Inr b \<Longrightarrow> b = checker cg pub s (canonical_checkpoint fl t n h m)"
  by (auto simp: verify_signature_def checker_def split: option.splits loaded.splits)

text \<open>The pair the command prints, the private half given to it and the public half to the verification:
  every tenant with records is anchored.\<close>

theorem generated_pair_anchors:
  assumes "genuine cg" and "generate_key_pair cg k = (priv, pub)" and "pub \<noteq> []"
    and "checkpoint_command False fresh [] (signer cg) fl priv moment trail tenants cps = (Chains_signed ls n, cps')"
    and "distinct tenants" and "t \<in> set tenants" and "trail t \<noteq> []"
    and "\<forall>c \<in> set (checkpoints_of t cps). cp_chain_length c < length (trail t)"
  shows "verify_anchoring (checker cg) fl (Some pub) t (checkpoints_of t cps') (trail t) = Some SIGNED"
proof (rule command_anchors_every_tenant [OF assms(4-8) _ assms(3)])
  show "\<forall>s. signer cg priv = Some s \<longrightarrow> accepted_by s (checker cg) pub"
    using assms(1,2) by (auto simp: genuine_def generate_key_pair_def signer_def checker_def accepted_by_def bytes_fromhex_hex)
qed

end
