(* ===== verification/Watcher_Threads.thy ===== *)
theory Watcher_Threads
  imports Engine_Cache
begin

text \<open>
  The threads of a \<open>VersionWatcher\<close> (\<open>src/complylayer/engine/cache.py\<close>): \<open>start\<close>, \<open>stop\<close>, the poll loop and
  the subscription loop, step by step under any interleaving.

  What a step does to the cache is \<open>poll_once\<close> and \<open>on_announcement\<close> of \<open>Engine_Cache\<close>; here only the
  control of the loops is kept. A wait ends when its time is over or the stop event is set, so its end is
  always possible; a blocked \<open>listen\<close> ends only when Redis sends something or the connection drops.
  \<open>start\<close> and \<open>stop\<close> are called one after the other, as the lock of the middleware makes them.
\<close>


section \<open>The threads\<close>

datatype poll_pc = P_test | P_poll | P_wait | P_done

datatype sub_pc = S_test | S_connect | S_listen | S_handle | S_backoff | S_done

text \<open>The lists hold every thread ever started; \<open>wt_threads\<close> counts those the watcher still knows.\<close>

record watcher =
  wt_client :: bool
  wt_stop :: bool
  wt_joining :: bool
  wt_threads :: nat
  wt_pollers :: "poll_pc list"
  wt_subs :: "sub_pc list"
  wt_polls :: nat
  wt_announcements :: nat

datatype thread_event =
    Start | Set_stop | Joined
  | Poll_test nat | Poll_ends nat bool | Poll_waited nat
  | Sub_test nat | Connected nat bool | Message nat bool | Handled nat bool | Dropped nat | Sub_waited nat

definition at_pc :: "'a list \<Rightarrow> nat \<Rightarrow> 'a \<Rightarrow> bool" where
  "at_pc pcs i pc \<longleftrightarrow> i < length pcs \<and> pcs ! i = pc"

text \<open>\<open>None\<close> where the event cannot happen. \<open>Joined\<close> ends \<open>stop\<close>: each thread has ended or was waited for
  two seconds. The flag of \<open>Poll_ends\<close> and \<open>Handled\<close> says whether the call returned, that of \<open>Connected\<close>
  whether the subscription was made, that of \<open>Message\<close> whether it is one of a publisher.\<close>

fun advance :: "thread_event \<Rightarrow> watcher \<Rightarrow> watcher option" where
  "advance Start w =
     (if wt_joining w then None
      else Some (w\<lparr>wt_stop := False, wt_threads := (if wt_client w then 2 else 1), wt_pollers := wt_pollers w @ [P_test],
                    wt_subs := wt_subs w @ (if wt_client w then [S_test] else [])\<rparr>))"
| "advance Set_stop w = (if wt_joining w then None else Some (w\<lparr>wt_stop := True, wt_joining := True\<rparr>))"
| "advance Joined w = (if wt_joining w then Some (w\<lparr>wt_joining := False, wt_threads := 0\<rparr>) else None)"
| "advance (Poll_test i) w =
     (if at_pc (wt_pollers w) i P_test
      then Some (w\<lparr>wt_pollers := (wt_pollers w)[i := if wt_stop w then P_done else P_poll]\<rparr>) else None)"
| "advance (Poll_ends i ok) w =
     (if at_pc (wt_pollers w) i P_poll
      then Some (w\<lparr>wt_pollers := (wt_pollers w)[i := if ok then P_wait else P_done], wt_polls := Suc (wt_polls w)\<rparr>) else None)"
| "advance (Poll_waited i) w =
     (if at_pc (wt_pollers w) i P_wait then Some (w\<lparr>wt_pollers := (wt_pollers w)[i := P_test]\<rparr>) else None)"
| "advance (Sub_test i) w =
     (if at_pc (wt_subs w) i S_test
      then Some (w\<lparr>wt_subs := (wt_subs w)[i := if wt_stop w then S_done else S_connect]\<rparr>) else None)"
| "advance (Connected i ok) w =
     (if at_pc (wt_subs w) i S_connect
      then Some (w\<lparr>wt_subs := (wt_subs w)[i := if ok then S_listen else S_backoff]\<rparr>) else None)"
| "advance (Message i published) w =
     (if at_pc (wt_subs w) i S_listen
      then Some (w\<lparr>wt_subs := (wt_subs w)[i := if wt_stop w then S_test else if published then S_handle else S_listen]\<rparr>)
      else None)"
| "advance (Handled i ok) w =
     (if at_pc (wt_subs w) i S_handle
      then Some (w\<lparr>wt_subs := (wt_subs w)[i := if ok then S_listen else S_backoff],
                    wt_announcements := Suc (wt_announcements w)\<rparr>) else None)"
| "advance (Dropped i) w =
     (if at_pc (wt_subs w) i S_listen then Some (w\<lparr>wt_subs := (wt_subs w)[i := S_backoff]\<rparr>) else None)"
| "advance (Sub_waited i) w =
     (if at_pc (wt_subs w) i S_backoff then Some (w\<lparr>wt_subs := (wt_subs w)[i := S_test]\<rparr>) else None)"

fun happens :: "thread_event list \<Rightarrow> watcher \<Rightarrow> watcher option" where
  "happens [] w = Some w"
| "happens (e # es) w = Option.bind (advance e w) (happens es)"

definition new_watcher :: "bool \<Rightarrow> watcher" where
  "new_watcher client =
     \<lparr>wt_client = client, wt_stop = False, wt_joining = False, wt_threads = 0, wt_pollers = [], wt_subs = [],
      wt_polls = 0, wt_announcements = 0\<rparr>"

text \<open>\<open>announce\<close>: what Redis gets, nothing where it fails; the failure is swallowed.\<close>

definition VERSION_CHANNEL :: string where "VERSION_CHANNEL = ''complylayer:ruleset''"

definition announce :: "bool \<Rightarrow> string \<Rightarrow> int \<Rightarrow> (string \<times> string) list \<Rightarrow> (string \<times> string) list" where
  "announce up tenant version sent =
     (if up then sent @ [(VERSION_CHANNEL, tenant @ '':'' @ str_of_int version)] else sent)"


section \<open>After the stop\<close>

definition quiet :: "thread_event list \<Rightarrow> bool" where
  "quiet es \<longleftrightarrow> Start \<notin> set es"

lemma count_list_update:
  "i < length xs \<Longrightarrow> xs ! i \<noteq> x \<Longrightarrow> y \<noteq> x \<Longrightarrow> count_list (xs[i := y]) x = count_list xs x"
  "i < length xs \<Longrightarrow> xs ! i = x \<Longrightarrow> y \<noteq> x \<Longrightarrow> Suc (count_list (xs[i := y]) x) = count_list xs x"
  by (induction xs arbitrary: i; auto split: nat.splits)+

text \<open>A stopped watcher begins no poll and handles no further message: only the calls under way are
  finished.\<close>

lemma stopped_step:
  assumes "advance e w = Some w'" and "wt_stop w" and "e \<noteq> Start"
  shows "wt_stop w'"
    and "wt_polls w' + count_list (wt_pollers w') P_poll = wt_polls w + count_list (wt_pollers w) P_poll"
    and "wt_announcements w' + count_list (wt_subs w') S_handle = wt_announcements w + count_list (wt_subs w) S_handle"
  using assms
  by (cases e; auto simp: at_pc_def count_list_update split: if_splits)+

theorem stopped_watcher_ends_its_calls_only:
  assumes "happens es w = Some w'" and "wt_stop w" and "quiet es"
  shows "wt_polls w' \<le> wt_polls w + count_list (wt_pollers w) P_poll"
    and "wt_announcements w' \<le> wt_announcements w + count_list (wt_subs w) S_handle"
proof -
  have "wt_polls w' + count_list (wt_pollers w') P_poll = wt_polls w + count_list (wt_pollers w) P_poll \<and>
    wt_announcements w' + count_list (wt_subs w') S_handle = wt_announcements w + count_list (wt_subs w) S_handle"
    using assms
  proof (induction es arbitrary: w)
    case (Cons e es)
    then obtain v where v: "advance e w = Some v" "happens es v = Some w'" by (auto simp: Option.bind_eq_Some_conv)
    from Cons.prems have e: "e \<noteq> Start" "quiet es" by (auto simp: quiet_def)
    from Cons.IH [OF v(2) stopped_step(1) [OF v(1) Cons.prems(2) e(1)] e(2)] stopped_step(2,3) [OF v(1) Cons.prems(2) e(1)]
    show ?case by simp
  qed simp
  then show "wt_polls w' \<le> wt_polls w + count_list (wt_pollers w) P_poll"
    and "wt_announcements w' \<le> wt_announcements w + count_list (wt_subs w) S_handle" by simp_all
qed

text \<open>How many steps a thread of a stopped watcher still takes at most.\<close>

fun poll_rank :: "poll_pc \<Rightarrow> nat" where
  "poll_rank P_done = 0" | "poll_rank P_test = 1" | "poll_rank P_wait = 2" | "poll_rank P_poll = 3"

fun sub_rank :: "sub_pc \<Rightarrow> nat" where
  "sub_rank S_done = 0" | "sub_rank S_test = 1" | "sub_rank S_backoff = 2" | "sub_rank S_listen = 3"
| "sub_rank S_connect = 4" | "sub_rank S_handle = 4"

definition work :: "watcher \<Rightarrow> nat" where
  "work w = sum_list (map poll_rank (wt_pollers w)) + sum_list (map sub_rank (wt_subs w))"

definition of_thread :: "thread_event \<Rightarrow> bool" where
  "of_thread e \<longleftrightarrow> e \<notin> {Start, Set_stop, Joined}"

lemma rank_update:
  "i < length xs \<Longrightarrow> f y < (f (xs ! i) :: nat) \<Longrightarrow> sum_list (map f (xs[i := y])) < sum_list (map f xs)"
  by (induction xs arbitrary: i) (auto split: nat.splits)

lemma stopped_work:
  assumes "advance e w = Some w'" and "wt_stop w" and "of_thread e"
  shows "work w' < work w"
  using assms by (cases e) (auto simp: at_pc_def work_def of_thread_def intro!: rank_update split: if_splits)

theorem stopped_threads_run_out:
  assumes "happens es w = Some w'" and "wt_stop w" and "list_all of_thread es"
  shows "length es \<le> work w"
  using assms
proof (induction es arbitrary: w)
  case (Cons e es)
  then obtain v where v: "advance e w = Some v" "happens es v = Some w'" by (auto simp: Option.bind_eq_Some_conv)
  moreover have "e \<noteq> Start" using Cons.prems(3) by (auto simp: of_thread_def)
  ultimately have "length es \<le> work v" "work v < work w"
    using Cons stopped_step(1) [OF v(1)] stopped_work [OF v(1)] by auto
  then show ?case by simp
qed simp

text \<open>Where no thread can go on by itself every poll loop has ended, and a subscription has ended or is
  blocked in \<open>listen\<close>: it outlives \<open>stop\<close>, and \<open>shutdown\<close>, until Redis sends something.\<close>

definition from_outside :: "thread_event \<Rightarrow> bool" where
  "from_outside e \<longleftrightarrow> (\<exists>i b. e = Message i b) \<or> (\<exists>i. e = Dropped i)"

theorem threads_left_by_stop:
  assumes "wt_stop w" and "\<forall>e. of_thread e \<and> \<not> from_outside e \<longrightarrow> advance e w = None"
  shows "set (wt_pollers w) \<subseteq> {P_done}" and "set (wt_subs w) \<subseteq> {S_done, S_listen}"
proof -
  have "wt_pollers w ! i = P_done" if "i < length (wt_pollers w)" for i
    using assms(2) [rule_format, of "Poll_test i"] assms(2) [rule_format, of "Poll_ends i True"]
      assms(2) [rule_format, of "Poll_waited i"] that
    by (cases "wt_pollers w ! i") (auto simp: of_thread_def from_outside_def at_pc_def)
  then show "set (wt_pollers w) \<subseteq> {P_done}" by (auto simp: in_set_conv_nth)
  have "wt_subs w ! i \<in> {S_done, S_listen}" if "i < length (wt_subs w)" for i
    using assms(2) [rule_format, of "Sub_test i"] assms(2) [rule_format, of "Connected i True"]
      assms(2) [rule_format, of "Handled i True"] assms(2) [rule_format, of "Sub_waited i"] that
    by (cases "wt_subs w ! i") (auto simp: of_thread_def from_outside_def at_pc_def)
  then show "set (wt_subs w) \<subseteq> {S_done, S_listen}" unfolding subset_iff in_set_conv_nth by blast
qed

text \<open>Started again, such a watcher has two subscriptions, and the flag that would end the old one is
  cleared: every announcement is handled twice from then on.\<close>

definition stop_and_restart :: "thread_event list" where
  "stop_and_restart =
     [Start, Sub_test 0, Connected 0 True, Set_stop, Poll_test 0, Joined, Start, Sub_test 1, Connected 1 True,
      Message 0 True, Handled 0 True, Message 1 True, Handled 1 True]"

lemma restart_doubles_the_subscription:
  "\<exists>w. happens stop_and_restart (new_watcher True) = Some w \<and> wt_threads w = 2 \<and> wt_pollers w = [P_done, P_test]
     \<and> wt_subs w = [S_listen, S_listen] \<and> wt_announcements w = 2"
  by (simp add: stop_and_restart_def new_watcher_def at_pc_def)

end
