(* ===== verification/Memory_Store.thy ===== *)
theory Memory_Store
  imports Decision_Endpoint
begin

text \<open>
  The two stores of \<open>src/complylayer/api/store.py\<close> behind one contract: \<open>DatabaseStore\<close>, which is
  \<open>save\<close> and \<open>find_response\<close> of \<open>Decision_Handler\<close>, and \<open>InMemoryStore\<close>, over dicts. The contract
  is the interface \<open>DecisionStore\<close>.

  Both give back what was saved and mix up no keys; only the database keeps the first answer.
\<close>


section \<open>The contract\<close>

text \<open>\<open>saved k r s s'\<close> is a successful save of \<open>r\<close> under \<open>k\<close>, \<open>other s s'\<close> a step that leaves the answers
  alone.\<close>

locale response_store =
  fixes find :: "'k \<Rightarrow> 's \<Rightarrow> 'r option"
    and saved :: "'k \<Rightarrow> 'r \<Rightarrow> 's \<Rightarrow> 's \<Rightarrow> bool"
    and other :: "'s \<Rightarrow> 's \<Rightarrow> bool"
  assumes saved_fresh: "saved k r s s' \<Longrightarrow> find k s = None \<Longrightarrow> find k s' = Some r"
    and saved_self: "saved k r s s' \<Longrightarrow> find k s' = Some r \<or> find k s' = find k s"
    and saved_elsewhere: "saved k r s s' \<Longrightarrow> k' \<noteq> k \<Longrightarrow> find k' s' = find k' s"
    and left_alone: "other s s' \<Longrightarrow> find k s' = find k s"
begin

definition goes :: "'s \<Rightarrow> 's \<Rightarrow> bool" where
  "goes s s' \<longleftrightarrow> other s s' \<or> (\<exists>k r. saved k r s s')"

text \<open>An answer found was there from the start, or was saved under that very key on the way.\<close>

lemma answers_were_saved:
  assumes "goes\<^sup>*\<^sup>* s s'" and "find k s' = Some r"
  shows "find k s = Some r \<or> (\<exists>a b. goes\<^sup>*\<^sup>* s a \<and> saved k r a b \<and> goes\<^sup>*\<^sup>* b s')"
  using assms
proof (induction rule: rtranclp_induct)
  case (step y z)
  show ?case
  proof (cases "find k y = Some r")
    case True
    with step.IH step.hyps(2) show ?thesis by (blast intro: rtranclp.rtrancl_into_rtrancl)
  next
    case False
    then obtain k' r' where s: "saved k' r' y z"
      using step.hyps(2) step.prems left_alone unfolding goes_def by metis
    then have "k' = k" using saved_elsewhere step.prems False by metis
    moreover from this have "r' = r" using saved_self [OF s] step.prems False by auto
    ultimately show ?thesis using s step.hyps(1) by blast
  qed
qed simp

text \<open>No answer is lost.\<close>

lemma answered_stays_answered:
  assumes "goes\<^sup>*\<^sup>* s s'" and "find k s \<noteq> None"
  shows "find k s' \<noteq> None"
  using assms
proof (induction rule: rtranclp_induct)
  case (step y z)
  then have y: "find k y \<noteq> None" by blast
  from step.hyps(2) consider "other y z" | k' r' where "saved k' r' y z" unfolding goes_def by blast
  then show ?case
  proof cases
    case 1
    then show ?thesis using left_alone y by metis
  next
    case 2
    show ?thesis
    proof (cases "k' = k")
      case True
      with saved_self [OF 2] y show ?thesis by auto
    next
      case False
      with saved_elsewhere [OF 2] y show ?thesis by metis
    qed
  qed
qed

end

text \<open>A store whose first write wins keeps the contract, so the database does.\<close>

sublocale first_write_wins \<subseteq> answers: response_store find saved other
  by unfold_locales (auto dest: find_saved find_saved_other find_other split: option.splits)


section \<open>The store in memory\<close>

record memory_store =
  ms_responses :: "string \<times> string \<Rightarrow> pyval dict option"
  ms_saved :: "(pyval dict \<times> transaction \<times> string \<times> int) list"
  ms_fallback :: "severity \<Rightarrow> string option"
  ms_lists :: "(string \<times> pyval list) list"

definition memory_find :: "string \<times> string \<Rightarrow> memory_store \<Rightarrow> pyval dict option" where
  "memory_find k s = ms_responses s k"

definition memory_fallback :: "string \<Rightarrow> memory_store \<Rightarrow> severity \<Rightarrow> string option" where
  "memory_fallback tenant s = ms_fallback s"

definition memory_lists :: "string \<Rightarrow> int \<Rightarrow> memory_store \<Rightarrow> (string \<times> pyval list) list" where
  "memory_lists tenant version s = ms_lists s"

definition memory_save :: "string \<Rightarrow> pyval dict \<Rightarrow> transaction \<Rightarrow> string \<Rightarrow> string \<Rightarrow> int \<Rightarrow> memory_store \<Rightarrow> memory_store" where
  "memory_save tenant body tx key ch v s =
     s\<lparr>ms_responses := (ms_responses s)((tenant, key) \<mapsto> public_body body), ms_saved := ms_saved s @ [(body, tx, ch, v)]\<rparr>"

definition memory_saved :: "string \<times> string \<Rightarrow> pyval dict \<Rightarrow> memory_store \<Rightarrow> memory_store \<Rightarrow> bool" where
  "memory_saved k r s s' \<longleftrightarrow> (\<exists>body tx ch v. s' = memory_save (fst k) body tx (snd k) ch v s \<and> r = public_body body)"

definition memory_other :: "memory_store \<Rightarrow> memory_store \<Rightarrow> bool" where
  "memory_other s s' \<longleftrightarrow> ms_responses s' = ms_responses s"

interpretation mem: response_store memory_find memory_saved memory_other
  by unfold_locales (auto simp: memory_find_def memory_saved_def memory_save_def memory_other_def split: if_splits)


section \<open>What either store promises\<close>

text \<open>Whatever was saved and configured in between, an answer found in the database was saved under that
  tenant and key.\<close>

lemma database_answers_were_saved:
  assumes "idem.answers.goes\<^sup>*\<^sup>* w w'" and "find_response tenant key (wo_db w') = Some r"
  shows "find_response tenant key (wo_db w) = Some r \<or>
    (\<exists>a b. idem.answers.goes\<^sup>*\<^sup>* w a \<and> db_saved (tenant, key) r a b \<and> idem.answers.goes\<^sup>*\<^sup>* b w')"
  using idem.answers.answers_were_saved [OF assms(1), of "(tenant, key)" r] assms(2) by simp

lemma memory_answers_were_saved:
  assumes "mem.goes\<^sup>*\<^sup>* s s'" and "memory_find k s' = Some r"
  shows "memory_find k s = Some r \<or> (\<exists>a b. mem.goes\<^sup>*\<^sup>* s a \<and> memory_saved k r a b \<and> mem.goes\<^sup>*\<^sup>* b s')"
  using mem.answers_were_saved [OF assms] .

text \<open>Two requests with one key that both missed the store: the second save replaces the answer in memory,
  where the database keeps the first.\<close>

theorem second_save_replaces_in_memory:
  "memory_find (tenant, key) (memory_save tenant body2 tx2 key ch2 v2 (memory_save tenant body1 tx1 key ch1 v1 s)) = Some (public_body body2)"
  "db_saved (tenant, key) r1 w0 w1 \<Longrightarrow> db_saved (tenant, key) r2 w1 w2 \<Longrightarrow>
   find_response tenant key (wo_db w0) = None \<Longrightarrow> find_response tenant key (wo_db w2) = Some r1"
proof -
  show "memory_find (tenant, key) (memory_save tenant body2 tx2 key ch2 v2 (memory_save tenant body1 tx1 key ch1 v1 s)) = Some (public_body body2)"
    by (simp add: memory_find_def memory_save_def)
  assume "db_saved (tenant, key) r1 w0 w1" "db_saved (tenant, key) r2 w1 w2" "find_response tenant key (wo_db w0) = None"
  then show "find_response tenant key (wo_db w2) = Some r1"
    using idem.find_saved [of "(tenant, key)" r1 w0 w1] idem.find_saved [of "(tenant, key)" r2 w1 w2] by simp
qed

end
