(* ===== verification/Demo_Seed.thy ===== *)
theory Demo_Seed
  imports Propagation Api_Auth Dashboard_Auth Decision_Handler
begin

text \<open>
  The demonstration tenant (\<open>src/complylayer/management/commands/complylayer_demo_seed.py\<close>): three rules
  taken through the real lifecycle by two people, an API key, and for the dashboard two accounts, a
  replacement that waits for approval, and a history to backtest it over.

  \<open>env i\<close> is what the \<open>i\<close>th operation meets: the parser, the clock and the identifiers it draws. The
  key and the rules are one transaction, so an error there leaves nothing behind; what the dashboard gets
  comes after it, step by step. Of what is printed the key is kept.
\<close>


section \<open>The data\<close>

definition ANALYST :: actor where
  "ANALYST = \<lparr>actor_id = ''ada@demo.ng'', actor_role = COMPLIANCE_ANALYST, actor_ip = []\<rparr>"

definition OFFICER :: actor where
  "OFFICER = \<lparr>actor_id = ''chidi@demo.ng'', actor_role = COMPLIANCE_OFFICER, actor_ip = []\<rparr>"

definition DEMO_PASSWORD :: string where "DEMO_PASSWORD = ''demo-password-not-for-production''"

definition DEMO_TOTP_SECRET :: string where "DEMO_TOTP_SECRET = ''JBSWY3DPEHPK3PXP''"

definition LIMIT_RULE :: rule_fields where
  "LIMIT_RULE =
     \<lparr>f_name = ''Above the tier 1 daily limit'', f_description = [], f_category = ''limits'',
      f_regulatory_reference = ''CBN AML/CFT '' @ [CHR 0xA7] @ ''4.2.1'', f_expression = ''amount_minor > 1000000'',
      f_severity = ''block'', f_priority = 10,
      f_customer_message = ''This transfer is above your daily limit. Upgrade your tier to continue.''\<rparr>"

definition VELOCITY_RULE :: rule_fields where
  "VELOCITY_RULE =
     \<lparr>f_name = ''More than five transfers in an hour'', f_description = [], f_category = ''velocity'',
      f_regulatory_reference = ''CBN AML/CFT '' @ [CHR 0xA7] @ ''6.1'',
      f_expression = ''velocity_count(window='' @ [CHR 39] @ ''1h'' @ [CHR 39] @ '') > 5'',
      f_severity = ''flag'', f_priority = 20, f_customer_message = []\<rparr>"

definition STRUCTURING_RULE :: rule_fields where
  "STRUCTURING_RULE =
     \<lparr>f_name = ''Structuring under the reporting threshold'', f_description = [], f_category = ''aml'',
      f_regulatory_reference = ''NFIU Reporting Threshold Guidance'',
      f_expression = ''velocity_count(window='' @ [CHR 39] @ ''24h'' @ [CHR 39] @
        '', min_amount_minor=450000, max_amount_minor=500000) >= 3'',
      f_severity = ''block'', f_priority = 5,
      f_customer_message = ''We cannot complete this transfer. Please contact support.''\<rparr>"

definition RULES :: "rule_fields list" where
  "RULES = [LIMIT_RULE, VELOCITY_RULE, STRUCTURING_RULE]"


section \<open>Seeding\<close>

definition seed_rule :: "(nat \<Rightarrow> environment) \<Rightarrow> nat \<Rightarrow> rule_fields \<Rightarrow> tenant_db \<Rightarrow> lifecycle_error + tenant_db" where
  "seed_rule env i f db =
     (let rid = env_rule_id (env i)
      in bindE (create_draft (env i) ANALYST f db) (\<lambda>db1.
         bindE (request_approval (env (i + 1)) ANALYST rid db1) (\<lambda>db2.
         bindE (approve (env (i + 2)) OFFICER rid ''demo seed'' db2) (\<lambda>db3.
         activate (env (i + 3)) OFFICER rid [] db3))))"

fun seed_rules :: "(nat \<Rightarrow> environment) \<Rightarrow> nat \<Rightarrow> rule_fields list \<Rightarrow> tenant_db \<Rightarrow> lifecycle_error + tenant_db" where
  "seed_rules env i [] db = Inr db"
| "seed_rules env i (f # fs) db = bindE (seed_rule env i f db) (\<lambda>db1. seed_rules env (i + 4) fs db1)"

definition demo_api_key :: "crypto \<Rightarrow> string \<Rightarrow> string \<Rightarrow> string \<times> api_key_row" where
  "demo_api_key cr tenant secret =
     (case generate_key ''live'' secret of (full, pre) \<Rightarrow>
        (full, \<lparr>ak_id = ''key_'' @ drop (length pre - 8) pre, ak_tenant = tenant, ak_name = ''demo integration'', ak_prefix = pre,
                ak_hashed_secret = cr_hash cr full, ak_environment = ''live'', ak_role = role_text COMPLIANCE_OFFICER,
                ak_created_by = actor_id OFFICER, ak_revoked_at = None\<rparr>))"

text \<open>\<open>create_draft\<close> with a version of its own among the fields.\<close>

definition create_draft_at :: "nat \<Rightarrow> environment \<Rightarrow> actor \<Rightarrow> rule_fields \<Rightarrow> tenant_db \<Rightarrow> lifecycle_error + tenant_db" where
  "create_draft_at n e who f db =
     bindE (guard (require_action who A_CREATE_DRAFT)) (\<lambda>_.
     bindE (validate_expression e (f_expression f)) (\<lambda>_.
       let r = (new_rule e who f)\<lparr>rr_version := n\<rparr> in
       if name_taken r db \<or> list_ex (\<lambda>x. rr_id x = rr_id r) (db_rules db) then Inl L_Integrity
       else
         Inr (audit_append e ''rule.created'' who (rule_subject (rr_id r))
           (PDict [(''name'', PStr (rr_name r)), (''expression'', PStr (rr_expression r)), (''severity'', PStr (rr_severity r))])
           (db\<lparr>db_rules := db_rules db @ [r]\<rparr>))))"

definition newest_named :: "string \<Rightarrow> tenant_db \<Rightarrow> rule_row option" where
  "newest_named name db =
     (case sort_key (\<lambda>r. - int (rr_version r)) (filter (\<lambda>r. rr_name r = name) (db_rules db)) of
        [] \<Rightarrow> None | r # _ \<Rightarrow> Some r)"

definition LOOSER_LIMIT :: rule_fields where
  "LOOSER_LIMIT = LIMIT_RULE\<lparr>f_expression := ''amount_minor > 10000000''\<rparr>"

record accounts =
  ac_users :: "(string \<times> string) list"
  ac_profiles :: "dashboard_user list"

text \<open>\<open>get_or_create\<close> of the user and of the profile; \<open>d\<close> is the key the profile gets.\<close>

definition seed_account :: "string \<Rightarrow> int \<Rightarrow> string \<Rightarrow> actor \<Rightarrow> accounts \<Rightarrow> accounts" where
  "seed_account tenant now d who ac =
     \<lparr>ac_users = (if actor_id who \<in> set (map fst (ac_users ac)) then ac_users ac
                  else ac_users ac @ [(actor_id who, DEMO_PASSWORD)]),
      ac_profiles = (if list_ex (\<lambda>p. du_user p = actor_id who) (ac_profiles ac) then ac_profiles ac
                     else ac_profiles ac @
                       [\<lparr>du_id = d, du_user = actor_id who, du_tenant = tenant, du_role = actor_role who,
                         du_totp_secret = DEMO_TOTP_SECRET, du_totp_confirmed_at = Some now\<rparr>])\<rparr>"

definition seed_amount :: "nat \<Rightarrow> int" where
  "seed_amount index =
     (if index mod 8 = 0 then 10500000 + int index * 40000
      else if index mod 8 = 4 then 1500000 + int index * 15000
      else 20000 + int index * 37)"

definition pad4 :: "nat \<Rightarrow> string" where
  "pad4 n = replicate (4 - length (str_of_nat n)) CHR ''0'' @ str_of_nat n"

definition seed_decision :: "string \<Rightarrow> int \<Rightarrow> nat \<Rightarrow> decision_row" where
  "seed_decision tenant moment index =
     (let amount = seed_amount index
      in \<lparr>dr_id = PStr (''dec_seed_'' @ pad4 index), dr_decided_at = moment - 60000000 * int index, dr_tenant = tenant,
          dr_idempotency_key = ''seed-'' @ pad4 index, dr_ruleset_version = 1, dr_transaction_ref = ''TXN-SEED-'' @ pad4 index,
          dr_customer_ref_hash = replicate 64 CHR ''s'', dr_amount_minor = amount, dr_currency = ''NGN'', dr_context = [],
          dr_resolved_facts = PDict [(''amount_minor'', PInt amount), (''currency'', PStr ''NGN'')],
          dr_outcome = PStr (if 1000000 < amount then ''block'' else ''allow''), dr_matched_rules = PList [],
          dr_shadow_matches = PList [], dr_reason = PStr [], dr_degraded = PBool False, dr_errored_rules = PList [],
          dr_latency_ms = PInt 5\<rparr>)"

definition seed_history :: "string \<Rightarrow> int \<Rightarrow> nat \<Rightarrow> decision_row list" where
  "seed_history tenant moment n = map (seed_decision tenant moment) [0..<n]"

record demo =
  dm_db :: tenant_db
  dm_keys :: "api_key_row list"
  dm_accounts :: accounts
  dm_decisions :: "decision_row list"
  dm_printed :: "string option"

text \<open>\<open>ignore_conflicts\<close>: a row whose key is taken already is left out.\<close>

definition bulk_create :: "decision_row list \<Rightarrow> decision_row list \<Rightarrow> decision_row list" where
  "bulk_create new old =
     old @ filter (\<lambda>r. \<not> list_ex (\<lambda>x. dr_id x = dr_id r \<and> dr_decided_at x = dr_decided_at r) old) new"

text \<open>What the dashboard shows, with the error that ended it; what was stored before stays.\<close>

definition seed_dashboard :: "string \<Rightarrow> int \<Rightarrow> (nat \<Rightarrow> environment) \<Rightarrow> nat \<Rightarrow> demo \<Rightarrow> demo \<times> lifecycle_error option" where
  "seed_dashboard tenant moment env i w =
     (let db = dm_db w;
          w1 = w\<lparr>dm_accounts := seed_account tenant moment ''2'' OFFICER (seed_account tenant moment ''1'' ANALYST (dm_accounts w))\<rparr>;
          n = (case newest_named (f_name LIMIT_RULE) db of Some a \<Rightarrow> rr_version a | None \<Rightarrow> 1) + 1
      in case create_draft_at n (env i) ANALYST LOOSER_LIMIT db of
           Inl e \<Rightarrow> (w1, Some e)
         | Inr db1 \<Rightarrow>
             (case request_approval (env (i + 1)) ANALYST (env_rule_id (env i)) db1 of
                Inl e \<Rightarrow> (w1\<lparr>dm_db := db1\<rparr>, Some e)
              | Inr db2 \<Rightarrow>
                  (w1\<lparr>dm_db := db2, dm_decisions := bulk_create (seed_history tenant moment 400) (dm_decisions w)\<rparr>, None)))"

definition demo_seed :: "bool \<Rightarrow> crypto \<Rightarrow> string \<Rightarrow> int \<Rightarrow> (nat \<Rightarrow> environment) \<Rightarrow> demo \<Rightarrow> demo \<times> lifecycle_error option" where
  "demo_seed dashboard cr secret moment env w =
     (let tenant = db_tenant (dm_db w); (full, key) = demo_api_key cr tenant secret
      in case (if list_ex (\<lambda>k. ak_prefix k = ak_prefix key \<or> ak_id k = ak_id key) (dm_keys w) then Inl L_Integrity
               else seed_rules env 0 RULES (dm_db w)) of
           Inl e \<Rightarrow> (w, Some e)
         | Inr db \<Rightarrow>
             (let w1 = w\<lparr>dm_db := db, dm_keys := dm_keys w @ [key]\<rparr>;
                  (w2, failed) = (if dashboard then seed_dashboard tenant moment env 12 w1 else (w1, None))
              in case failed of
                   Some e \<Rightarrow> (w2, Some e)
                 | None \<Rightarrow> (w2\<lparr>dm_printed := Some full\<rparr>, None)))"


section \<open>What the seed makes\<close>

definition seeded_row :: "(nat \<Rightarrow> environment) \<Rightarrow> nat \<Rightarrow> rule_fields \<Rightarrow> rule_row" where
  "seeded_row env i f =
     (new_rule (env i) ANALYST f)\<lparr>rr_approved_by := actor_id OFFICER, rr_approved_at := Some (env_now (env (i + 2))),
        rr_state := ACTIVE, rr_activated_at := Some (env_now (env (i + 3)))\<rparr>"

definition seedable :: "(nat \<Rightarrow> environment) \<Rightarrow> nat \<Rightarrow> rule_fields \<Rightarrow> tenant_db \<Rightarrow> bool" where
  "seedable env i f db \<longleftrightarrow>
     is_ok (validate_source (env_parser (env i)) (f_expression f)) \<and>
     (\<forall>x \<in> set (db_rules db). rr_id x \<noteq> env_rule_id (env i) \<and> rr_name x \<noteq> f_name f)"

lemma find_last: "\<forall>x \<in> set xs. \<not> P x \<Longrightarrow> P y \<Longrightarrow> List.find P (xs @ [y]) = Some y"
  by (induction xs) auto

lemma map_last: "\<forall>x \<in> set xs. \<not> P x \<Longrightarrow> P y \<Longrightarrow> map (\<lambda>x. if P x then r else x) (xs @ [y]) = xs @ [r]"
  by (induction xs) auto

lemma actors_may [simp]:
  "require_action ANALYST A_CREATE_DRAFT = Inr ()" "require_action ANALYST A_REQUEST_APPROVAL = Inr ()"
  "require_action OFFICER A_APPROVE = Inr ()" "require_action OFFICER A_ACTIVATE = Inr ()"
  "require_not_author OFFICER (actor_id ANALYST) a = Inr ()" "actor_id OFFICER \<noteq> []"
  by (simp_all add: guard_defs ANALYST_def OFFICER_def)

lemma guard_ok [simp]: "guard (Inr u) = Inr u"
  by simp

lemma seed_rule_succeeds:
  assumes "seedable env i f db"
  obtains db' v where "seed_rule env i f db = Inr db'" and "db_rules db' = db_rules db @ [seeded_row env i f]"
    and "db_versions db' = db_versions db @ [v]" and "rv_rules v = map snapshot_of (published_rules db')"
proof -
  let ?rid = "env_rule_id (env i)" and ?r0 = "new_rule (env i) ANALYST f"
  let ?r1 = "?r0\<lparr>rr_approved_by := actor_id OFFICER, rr_approved_at := Some (env_now (env (i + 2)))\<rparr>"
  have fresh: "\<forall>x \<in> set (db_rules db). \<not> rr_id x = ?rid" using assms by (auto simp: seedable_def)
  have r0: "rr_id ?r0 = ?rid" "rr_name ?r0 = f_name f" "rr_state ?r0 = DRAFT" "rr_created_by ?r0 = actor_id ANALYST"
    by (simp_all add: new_rule_def)
  have row: "seeded_row env i f = ?r1\<lparr>rr_state := ACTIVE, rr_activated_at := Some (env_now (env (i + 3)))\<rparr>"
    by (simp add: seeded_row_def)
  have free: "\<not> (name_taken ?r0 db \<or> list_ex (\<lambda>x. rr_id x = rr_id ?r0) (db_rules db))"
    using assms by (auto simp: name_taken_def seedable_def list_ex_iff r0)
  obtain u where u: "validate_expression (env i) (f_expression f) = Inr u"
    using assms by (auto simp: seedable_def)
  obtain db1 where 1: "create_draft (env i) ANALYST f db = Inr db1" "db_rules db1 = db_rules db @ [?r0]" "db_versions db1 = db_versions db"
    using free by (simp add: create_draft_def u Let_def)
  have get: "get_rule ?rid d = Inr r" if "db_rules d = db_rules db @ [r]" "rr_id r = ?rid" for d r
    using find_last [OF fresh, of r] that by (simp add: get_rule_def)
  have save: "db_rules (save_rule r' d) = db_rules db @ [r']" if "db_rules d = db_rules db @ [r]" "rr_id r = ?rid" "rr_id r' = ?rid" for d r r'
    using map_last [OF fresh, of r r'] that by (simp add: save_rule_def)
  obtain db2 where 2: "request_approval (env (i + 1)) ANALYST ?rid db1 = Inr db2" "db_rules db2 = db_rules db @ [?r0]" "db_versions db2 = db_versions db"
    using 1 by (simp add: request_approval_def get [OF 1(2) r0(1)] r0)
  obtain db3 where 3: "approve (env (i + 2)) OFFICER ?rid ''demo seed'' db2 = Inr db3" "db_rules db3 = db_rules db @ [?r1]" "db_versions db3 = db_versions db"
    using 2 by (simp add: approve_def get [OF 2(2) r0(1)] r0 save [OF 2(2) r0(1)])
  obtain v d where pub: "publish_version OFFICER (save_rule (seeded_row env i f) db3) = (v, d)"
    by (cases "publish_version OFFICER (save_rule (seeded_row env i f) db3)")
  have r1: "rr_id ?r1 = ?rid" "rr_id (seeded_row env i f) = ?rid" by (simp_all add: r0 row)
  note pub' = publish_version_simps [OF pub, unfolded save [OF 3(2) r1] save_rule_simps 3(3)]
  obtain db4 where 4: "activate (env (i + 3)) OFFICER ?rid [] db3 = Inr db4" "db_rules db4 = db_rules d" "db_versions db4 = db_versions d"
    using pub by (simp add: activate_def get [OF 3(2) r1(1)] row)
  have "published_rules db4 = published_rules (save_rule (seeded_row env i f) db3)"
    by (simp add: published_rules_def 4(2) pub'(1) save [OF 3(2) r1])
  with 1 2 3 4 pub' show thesis
    by (intro that [of db4 v]) (simp_all add: seed_rule_def Let_def)
qed

lemma RULES_names: "f_name LIMIT_RULE \<noteq> f_name VELOCITY_RULE" "f_name LIMIT_RULE \<noteq> f_name STRUCTURING_RULE"
  "f_name VELOCITY_RULE \<noteq> f_name STRUCTURING_RULE"
  by (simp_all add: LIMIT_RULE_def VELOCITY_RULE_def STRUCTURING_RULE_def)

lemma seeded_row_simps [simp]:
  "rr_id (seeded_row env i f) = env_rule_id (env i)" "rr_name (seeded_row env i f) = f_name f"
  "rr_state (seeded_row env i f) = ACTIVE" "rr_created_by (seeded_row env i f) = actor_id ANALYST"
  "rr_approved_by (seeded_row env i f) = actor_id OFFICER" "rr_priority (seeded_row env i f) = f_priority f"
  "rr_version (seeded_row env i f) = 1"
  by (simp_all add: seeded_row_def new_rule_def)

text \<open>The seed takes the workflow it demonstrates: on a tenant without rules it publishes three times, and
  what it leaves are three active rules, each approved by somebody other than its author, the last
  version holding them in the order of their priority.\<close>

theorem seed_publishes_approved_rules:
  assumes "\<forall>i. \<forall>f \<in> set RULES. is_ok (validate_source (env_parser (env i)) (f_expression f))"
    and "db_rules db = []" and "distinct [env_rule_id (env 0), env_rule_id (env 4), env_rule_id (env 8)]"
  shows "\<exists>db'. seed_rules env 0 RULES db = Inr db'
    \<and> db_rules db' = [seeded_row env 0 LIMIT_RULE, seeded_row env 4 VELOCITY_RULE, seeded_row env 8 STRUCTURING_RULE]
    \<and> (\<forall>r \<in> set (db_rules db'). rr_state r = ACTIVE \<and> rr_approved_by r \<noteq> [] \<and> rr_approved_by r \<noteq> rr_created_by r)
    \<and> length (db_versions db') = length (db_versions db) + 3
    \<and> map se_name (rv_rules (last (db_versions db'))) = map (Some \<circ> f_name) [STRUCTURING_RULE, LIMIT_RULE, VELOCITY_RULE]"
proof -
  have ok: "is_ok (validate_source (env_parser (env i)) (f_expression f))" if "f \<in> {LIMIT_RULE, VELOCITY_RULE, STRUCTURING_RULE}" for i f
    using assms(1) that by (auto simp: RULES_def)
  have "seedable env 0 LIMIT_RULE db" using ok assms(2) by (simp add: seedable_def)
  then obtain d1 v1 where 1: "seed_rule env 0 LIMIT_RULE db = Inr d1" "db_rules d1 = [seeded_row env 0 LIMIT_RULE]"
    "db_versions d1 = db_versions db @ [v1]" by (rule seed_rule_succeeds) (simp add: assms(2))
  have "seedable env 4 VELOCITY_RULE d1" using ok assms(3) RULES_names by (simp add: seedable_def 1)
  then obtain d2 v2 where 2: "seed_rule env 4 VELOCITY_RULE d1 = Inr d2"
    "db_rules d2 = [seeded_row env 0 LIMIT_RULE, seeded_row env 4 VELOCITY_RULE]"
    "db_versions d2 = db_versions db @ [v1, v2]" by (rule seed_rule_succeeds) (simp add: 1)
  have "seedable env 8 STRUCTURING_RULE d2" using ok assms(3) RULES_names by (simp add: seedable_def 2)
  then obtain d3 v3 where 3: "seed_rule env 8 STRUCTURING_RULE d2 = Inr d3"
    "db_rules d3 = [seeded_row env 0 LIMIT_RULE, seeded_row env 4 VELOCITY_RULE, seeded_row env 8 STRUCTURING_RULE]"
    "db_versions d3 = db_versions db @ [v1, v2, v3]" "rv_rules v3 = map snapshot_of (published_rules d3)"
    by (rule seed_rule_succeeds) (simp add: 2)
  have "published_rules d3 = [seeded_row env 8 STRUCTURING_RULE, seeded_row env 0 LIMIT_RULE, seeded_row env 4 VELOCITY_RULE]"
    by (simp add: published_rules_def 3(2) row_key_def) (simp add: LIMIT_RULE_def VELOCITY_RULE_def STRUCTURING_RULE_def)
  then have "map se_name (rv_rules v3) = map (Some \<circ> f_name) [STRUCTURING_RULE, LIMIT_RULE, VELOCITY_RULE]"
    by (simp add: 3(4) snapshot_of_def)
  moreover have "actor_id OFFICER \<noteq> actor_id ANALYST" by (simp add: OFFICER_def ANALYST_def)
  ultimately show ?thesis using 1 2 3 by (simp add: RULES_def numeral_eq_Suc)
qed

text \<open>The tenant is taken or made, but the rules are made anew: seeding a tenant a second time fails, and
  the transaction leaves nothing behind.\<close>

lemma second_seed_fails:
  assumes "x \<in> set (db_rules db)" and "rr_name x = f_name LIMIT_RULE" and "rr_version x = 1"
    and "is_ok (validate_source (env_parser (env 0)) (f_expression LIMIT_RULE))"
  shows "seed_rules env 0 RULES db = Inl L_Integrity"
proof -
  let ?r = "new_rule (env 0) ANALYST LIMIT_RULE"
  have "rr_name ?r = f_name LIMIT_RULE" "rr_version ?r = 1" by (simp_all add: new_rule_def)
  then have "name_taken ?r db \<or> list_ex (\<lambda>x. rr_id x = rr_id ?r) (db_rules db)"
    using assms(1-3) by (auto simp: name_taken_def list_ex_iff)
  moreover obtain u where u: "validate_expression (env 0) (f_expression LIMIT_RULE) = Inr u" using assms(4) by auto
  ultimately have "create_draft (env 0) ANALYST LIMIT_RULE db = Inl L_Integrity"
    by (simp add: create_draft_def u Let_def)
  then show ?thesis by (simp add: RULES_def seed_rule_def Let_def)
qed

corollary second_seed_changes_nothing:
  assumes "x \<in> set (db_rules (dm_db w))" and "rr_name x = f_name LIMIT_RULE" and "rr_version x = 1"
    and "is_ok (validate_source (env_parser (env 0)) (f_expression LIMIT_RULE))"
  shows "demo_seed dashboard cr secret moment env w = (w, Some L_Integrity)"
  using second_seed_fails [OF assms(1-3), of env] assms(4) by (simp add: demo_seed_def Let_def split: prod.split)

text \<open>The bands of the history: the limit in force catches one request in four of it, the looser one that
  waits for approval one in eight.\<close>

lemma seed_amount_bands:
  assumes "index < 400"
  shows "1000000 < seed_amount index \<longleftrightarrow> index mod 4 = 0" "10000000 < seed_amount index \<longleftrightarrow> index mod 8 = 0"
proof -
  have "index mod 4 = 0 \<longleftrightarrow> index mod 8 = 0 \<or> index mod 8 = 4" by presburger
  with assms show "1000000 < seed_amount index \<longleftrightarrow> index mod 4 = 0" "10000000 < seed_amount index \<longleftrightarrow> index mod 8 = 0"
    by (auto simp: seed_amount_def)
qed

end
