(* ===== verification/Schema.thy ===== *)
theory Schema
  imports Row_Security Decision_Handler
begin

text \<open>
  The tables: the models of \<open>src/complylayer/models.py\<close> and what the migrations
  (\<open>src/complylayer/migrations\<close>) make, the decisions table among them, whose SQL is written out because
  Django cannot express a partitioned table.

  A column is its field with the options that bear on the database; names of reverse relations, verbose
  names and the names of indexes are left out. \<open>PROTECT\<close> is the \<open>on_delete\<close> of every foreign key. Of
  Django it is modelled what its manual says of the columns a field gets on PostgreSQL and of migration
  state.
\<close>


section \<open>Models\<close>

datatype field_type =
    CharField nat | TextField | IntegerField | PositiveIntegerField | BigIntegerField | BooleanField | JSONField
  | DateTimeField | BigAutoField | ForeignKey string | OneToOneField string

datatype field_default = No_default | Text_default string | Int_default int | Bool_default bool | Empty_dict | Empty_list

datatype stamped = Not_stamped | On_create | On_save

record model_field =
  co_name :: string
  co_type :: field_type
  co_null :: bool
  co_blank :: bool
  co_default :: field_default
  co_stamp :: stamped
  co_indexed :: bool
  co_unique :: bool
  co_primary :: bool

definition col :: "string \<Rightarrow> field_type \<Rightarrow> model_field" where
  "col n t =
     \<lparr>co_name = n, co_type = t, co_null = False, co_blank = False, co_default = No_default, co_stamp = Not_stamped,
      co_indexed = False, co_unique = False, co_primary = False\<rparr>"

text \<open>Composite primary key, unique together, indexes.\<close>

record db_table =
  ta_name :: string
  ta_columns :: "model_field list"
  ta_primary :: "string list"
  ta_unique :: "string list list"
  ta_indexes :: "string list list"

definition make_table :: "string \<Rightarrow> model_field list \<Rightarrow> string list \<Rightarrow> string list list \<Rightarrow> string list list \<Rightarrow> db_table" where
  "make_table n cols pk uniq idx =
     \<lparr>ta_name = n, ta_columns = cols, ta_primary = pk, ta_unique = uniq, ta_indexes = idx\<rparr>"

text \<open>\<open>default_auto_field\<close>: a model without a primary key gets one.\<close>

definition with_id :: "db_table \<Rightarrow> db_table" where
  "with_id t =
     (if ta_primary t \<noteq> [] \<or> list_ex co_primary (ta_columns t) then t
      else t\<lparr>ta_columns := (col ''id'' BigAutoField)\<lparr>co_primary := True\<rparr> # ta_columns t\<rparr>)"

definition model_tenant :: db_table where
  "model_tenant =
     make_table ''complylayer_tenant''
       [(col ''id'' (CharField 32))\<lparr>co_primary := True\<rparr>,
        col ''name'' (CharField 128),
        (col ''fallback_policy'' JSONField)\<lparr>co_blank := True, co_default := Empty_dict\<rparr>,
        (col ''created_at'' DateTimeField)\<lparr>co_stamp := On_create\<rparr>]
       [] [] []"

definition model_rule :: db_table where
  "model_rule =
     make_table ''complylayer_rule''
       [(col ''id'' (CharField 32))\<lparr>co_primary := True\<rparr>,
        col ''tenant'' (ForeignKey ''Tenant''),
        col ''name'' (CharField 128),
        (col ''description'' TextField)\<lparr>co_blank := True\<rparr>,
        col ''category'' (CharField 64),
        (col ''regulatory_reference'' (CharField 255))\<lparr>co_blank := True\<rparr>,
        col ''expression'' TextField,
        col ''severity'' (CharField 16),
        (col ''priority'' IntegerField)\<lparr>co_default := Int_default 0\<rparr>,
        (col ''applies_to'' JSONField)\<lparr>co_blank := True, co_default := Empty_dict\<rparr>,
        (col ''customer_message'' TextField)\<lparr>co_blank := True\<rparr>,
        (col ''state'' (CharField 16))\<lparr>co_default := Text_default ''draft''\<rparr>,
        (col ''version'' PositiveIntegerField)\<lparr>co_default := Int_default 1\<rparr>,
        col ''created_by'' (CharField 64),
        (col ''approved_by'' (CharField 64))\<lparr>co_blank := True\<rparr>,
        (col ''approved_at'' DateTimeField)\<lparr>co_null := True, co_blank := True\<rparr>,
        (col ''activated_at'' DateTimeField)\<lparr>co_null := True, co_blank := True\<rparr>,
        (col ''created_at'' DateTimeField)\<lparr>co_stamp := On_create\<rparr>]
       [] [[''tenant'', ''name'', ''version'']] [[''tenant'', ''state'']]"

definition model_rule_set_version :: db_table where
  "model_rule_set_version =
     make_table ''complylayer_rulesetversion''
       [col ''tenant'' (ForeignKey ''Tenant''),
        col ''version'' PositiveIntegerField,
        col ''rules_snapshot'' JSONField,
        (col ''lists_snapshot'' JSONField)\<lparr>co_blank := True, co_default := Empty_dict\<rparr>,
        (col ''published_at'' DateTimeField)\<lparr>co_stamp := On_create\<rparr>,
        col ''published_by'' (CharField 64)]
       [] [[''tenant'', ''version'']] []"

definition model_decision :: db_table where
  "model_decision =
     make_table ''complylayer_decision''
       [col ''id'' (CharField 32),
        (col ''decided_at'' DateTimeField)\<lparr>co_indexed := True\<rparr>,
        col ''tenant'' (ForeignKey ''Tenant''),
        col ''idempotency_key'' (CharField 128),
        col ''ruleset_version'' PositiveIntegerField,
        (col ''transaction_ref'' (CharField 128))\<lparr>co_indexed := True\<rparr>,
        (col ''customer_ref_hash'' (CharField 64))\<lparr>co_indexed := True\<rparr>,
        col ''amount_minor'' BigIntegerField,
        col ''currency'' (CharField 3),
        col ''context'' JSONField,
        (col ''resolved_facts'' JSONField)\<lparr>co_blank := True, co_default := Empty_dict\<rparr>,
        col ''outcome'' (CharField 16),
        (col ''matched_rules'' JSONField)\<lparr>co_default := Empty_list\<rparr>,
        (col ''shadow_matches'' JSONField)\<lparr>co_default := Empty_list\<rparr>,
        (col ''reason'' TextField)\<lparr>co_blank := True\<rparr>,
        (col ''degraded'' BooleanField)\<lparr>co_default := Bool_default False\<rparr>,
        (col ''errored_rules'' JSONField)\<lparr>co_blank := True, co_default := Empty_list\<rparr>,
        col ''latency_ms'' PositiveIntegerField,
        (col ''review_status'' (CharField 16))\<lparr>co_blank := True\<rparr>,
        (col ''reviewed_by'' (CharField 64))\<lparr>co_blank := True\<rparr>,
        (col ''review_notes'' TextField)\<lparr>co_blank := True\<rparr>]
       [''id'', ''decided_at''] [] [[''tenant'', ''outcome'', ''decided_at''], [''tenant'', ''review_status'', ''decided_at'']]"

definition model_idempotency_record :: db_table where
  "model_idempotency_record =
     make_table ''complylayer_idempotency''
       [col ''tenant'' (ForeignKey ''Tenant''),
        col ''key'' (CharField 128),
        col ''decision_id'' (CharField 32),
        col ''decision_decided_at'' DateTimeField,
        col ''response_body'' JSONField,
        (col ''created_at'' DateTimeField)\<lparr>co_stamp := On_create, co_indexed := True\<rparr>]
       [] [[''tenant'', ''key'']] []"

definition model_api_key :: db_table where
  "model_api_key =
     make_table ''complylayer_apikey''
       [(col ''id'' (CharField 32))\<lparr>co_primary := True\<rparr>,
        col ''tenant'' (ForeignKey ''Tenant''),
        col ''name'' (CharField 128),
        (col ''prefix'' (CharField 24))\<lparr>co_indexed := True, co_unique := True\<rparr>,
        col ''hashed_secret'' (CharField 255),
        (col ''environment'' (CharField 8))\<lparr>co_default := Text_default ''live''\<rparr>,
        col ''role'' (CharField 32),
        col ''created_by'' (CharField 64),
        (col ''created_at'' DateTimeField)\<lparr>co_stamp := On_create\<rparr>,
        (col ''revoked_at'' DateTimeField)\<lparr>co_null := True, co_blank := True\<rparr>]
       [] [] [[''tenant'', ''environment'']]"

definition model_dashboard_user :: db_table where
  "model_dashboard_user =
     make_table ''complylayer_dashboarduser''
       [col ''user'' (OneToOneField ''auth.User''),
        col ''tenant'' (ForeignKey ''Tenant''),
        col ''role'' (CharField 32),
        (col ''totp_secret'' (CharField 64))\<lparr>co_blank := True\<rparr>,
        (col ''totp_confirmed_at'' DateTimeField)\<lparr>co_null := True, co_blank := True\<rparr>,
        (col ''created_at'' DateTimeField)\<lparr>co_stamp := On_create\<rparr>]
       [] [] []"

definition model_named_list :: db_table where
  "model_named_list =
     make_table ''complylayer_namedlist''
       [col ''tenant'' (ForeignKey ''Tenant''),
        col ''name'' (CharField 64),
        (col ''values'' JSONField)\<lparr>co_default := Empty_list\<rparr>,
        col ''updated_by'' (CharField 64),
        (col ''updated_at'' DateTimeField)\<lparr>co_stamp := On_save\<rparr>]
       [] [[''tenant'', ''name'']] []"

definition model_audit_record :: db_table where
  "model_audit_record =
     make_table ''complylayer_auditrecord''
       [(col ''id'' (CharField 32))\<lparr>co_primary := True\<rparr>,
        col ''tenant'' (ForeignKey ''Tenant''),
        (col ''event_type'' (CharField 64))\<lparr>co_indexed := True\<rparr>,
        col ''occurred_at'' DateTimeField,
        (col ''recorded_at'' DateTimeField)\<lparr>co_stamp := On_create\<rparr>,
        (col ''actor'' JSONField)\<lparr>co_default := Empty_dict\<rparr>,
        (col ''subject'' JSONField)\<lparr>co_default := Empty_dict\<rparr>,
        (col ''payload'' JSONField)\<lparr>co_default := Empty_dict\<rparr>,
        (col ''prev_hash'' (CharField 71))\<lparr>co_blank := True\<rparr>,
        col ''hash'' (CharField 71)]
       [] [] [[''tenant'', ''recorded_at'']]"

definition model_audit_checkpoint :: db_table where
  "model_audit_checkpoint =
     make_table ''complylayer_auditcheckpoint''
       [(col ''id'' BigAutoField)\<lparr>co_primary := True\<rparr>,
        col ''tenant'' (ForeignKey ''Tenant''),
        col ''chain_length'' IntegerField,
        col ''head_hash'' (CharField 80),
        col ''signed_at'' DateTimeField,
        col ''signature'' (CharField 256),
        (col ''recorded_at'' DateTimeField)\<lparr>co_stamp := On_create\<rparr>]
       [] [] [[''tenant'', ''-chain_length'']]"

definition MODELS :: "db_table list" where
  "MODELS = map with_id
     [model_tenant, model_rule, model_rule_set_version, model_decision, model_idempotency_record, model_api_key, model_dashboard_user, model_named_list, model_audit_record, model_audit_checkpoint]"


section \<open>The decisions table\<close>

datatype sql_type = Varchar nat | Text | Integer | Bigint | Jsonb | Boolean | Timestamptz

record sql_column =
  sc_name :: string
  sc_type :: sql_type
  sc_not_null :: bool
  sc_default :: field_default
  sc_not_negative :: bool
  sc_references :: "string option"

definition sql :: "string \<Rightarrow> sql_type \<Rightarrow> sql_column" where
  "sql n t =
     \<lparr>sc_name = n, sc_type = t, sc_not_null = True, sc_default = No_default, sc_not_negative = False, sc_references = None\<rparr>"

definition CREATE_DECISION :: "sql_column list" where
  "CREATE_DECISION =
     [sql ''id'' (Varchar 32),
      sql ''decided_at'' Timestamptz,
      (sql ''tenant_id'' (Varchar 32))\<lparr>sc_references := Some ''complylayer_tenant''\<rparr>,
      sql ''idempotency_key'' (Varchar 128),
      (sql ''ruleset_version'' Integer)\<lparr>sc_not_negative := True\<rparr>,
      sql ''transaction_ref'' (Varchar 128),
      sql ''customer_ref_hash'' (Varchar 64),
      sql ''amount_minor'' Bigint,
      sql ''currency'' (Varchar 3),
      sql ''context'' Jsonb,
      (sql ''resolved_facts'' Jsonb)\<lparr>sc_default := Empty_dict\<rparr>,
      sql ''outcome'' (Varchar 16),
      (sql ''matched_rules'' Jsonb)\<lparr>sc_default := Empty_list\<rparr>,
      (sql ''shadow_matches'' Jsonb)\<lparr>sc_default := Empty_list\<rparr>,
      (sql ''reason'' Text)\<lparr>sc_default := Text_default []\<rparr>,
      (sql ''degraded'' Boolean)\<lparr>sc_default := Bool_default False\<rparr>,
      (sql ''errored_rules'' Jsonb)\<lparr>sc_default := Empty_list\<rparr>,
      (sql ''latency_ms'' Integer)\<lparr>sc_not_negative := True\<rparr>,
      (sql ''review_status'' (Varchar 16))\<lparr>sc_default := Text_default []\<rparr>,
      (sql ''reviewed_by'' (Varchar 64))\<lparr>sc_default := Text_default []\<rparr>,
      (sql ''review_notes'' Text)\<lparr>sc_default := Text_default []\<rparr>]"

definition DECISION_KEY :: "string list" where "DECISION_KEY = [''id'', ''decided_at'']"

definition DECISION_INDEXES :: "string list list" where
  "DECISION_INDEXES =
     [[''decided_at''], [''transaction_ref''], [''customer_ref_hash''], [''tenant_id'', ''review_status'', ''decided_at''],
      [''tenant_id'', ''outcome'', ''decided_at'']]"

text \<open>The column Django reads and writes for a field. A tenant is referred to by its key of 32 characters.\<close>

fun column_name :: "model_field \<Rightarrow> string" where
  "column_name f =
     (case co_type f of ForeignKey _ \<Rightarrow> co_name f @ ''_id'' | OneToOneField _ \<Rightarrow> co_name f @ ''_id'' | _ \<Rightarrow> co_name f)"

fun column_type :: "field_type \<Rightarrow> sql_type" where
  "column_type (CharField n) = Varchar n"
| "column_type TextField = Text"
| "column_type IntegerField = Integer"
| "column_type PositiveIntegerField = Integer"
| "column_type BigIntegerField = Bigint"
| "column_type BooleanField = Boolean"
| "column_type JSONField = Jsonb"
| "column_type DateTimeField = Timestamptz"
| "column_type BigAutoField = Bigint"
| "column_type (ForeignKey m) = (if m = ''Tenant'' then Varchar 32 else Integer)"
| "column_type (OneToOneField m) = (if m = ''Tenant'' then Varchar 32 else Integer)"

definition column_of :: "model_field \<Rightarrow> sql_column" where
  "column_of f =
     \<lparr>sc_name = column_name f, sc_type = column_type (co_type f), sc_not_null = (\<not> co_null f), sc_default = No_default,
      sc_not_negative = (co_type f = PositiveIntegerField),
      sc_references = (if co_type f = ForeignKey ''Tenant'' then Some ''complylayer_tenant'' else None)\<rparr>"

text \<open>What Django writes for a field that is given no value.\<close>

definition written_default :: "model_field \<Rightarrow> field_default" where
  "written_default f =
     (if co_default f \<noteq> No_default then co_default f
      else (case co_type f of CharField _ \<Rightarrow> Text_default [] | TextField \<Rightarrow> Text_default [] | _ \<Rightarrow> No_default))"

definition field_names :: "db_table \<Rightarrow> string list \<Rightarrow> string list" where
  "field_names t ns = map (\<lambda>n. case List.find (\<lambda>f. co_name f = n) (ta_columns t) of Some f \<Rightarrow> column_name f | None \<Rightarrow> n) ns"

definition wanted_indexes :: "db_table \<Rightarrow> string list list" where
  "wanted_indexes t =
     map (\<lambda>f. [column_name f]) (filter co_indexed (ta_columns t)) @ map (field_names t) (ta_indexes t)"


section \<open>Migrations\<close>

definition created_tenant :: db_table where
  "created_tenant =
     make_table ''complylayer_tenant''
       [(col ''id'' (CharField 32))\<lparr>co_primary := True\<rparr>,
        col ''name'' (CharField 128),
        (col ''fallback_policy'' JSONField)\<lparr>co_blank := True, co_default := Empty_dict\<rparr>,
        (col ''created_at'' DateTimeField)\<lparr>co_stamp := On_create\<rparr>]
       [] [] []"

definition created_rule :: db_table where
  "created_rule =
     make_table ''complylayer_rule''
       [(col ''id'' (CharField 32))\<lparr>co_primary := True\<rparr>,
        col ''name'' (CharField 128),
        (col ''description'' TextField)\<lparr>co_blank := True\<rparr>,
        col ''category'' (CharField 64),
        (col ''regulatory_reference'' (CharField 255))\<lparr>co_blank := True\<rparr>,
        col ''expression'' TextField,
        col ''severity'' (CharField 16),
        (col ''priority'' IntegerField)\<lparr>co_default := Int_default 0\<rparr>,
        (col ''applies_to'' JSONField)\<lparr>co_blank := True, co_default := Empty_dict\<rparr>,
        (col ''customer_message'' TextField)\<lparr>co_blank := True\<rparr>,
        (col ''state'' (CharField 16))\<lparr>co_default := Text_default ''draft''\<rparr>,
        (col ''version'' PositiveIntegerField)\<lparr>co_default := Int_default 1\<rparr>,
        col ''created_by'' (CharField 64),
        (col ''approved_by'' (CharField 64))\<lparr>co_blank := True\<rparr>,
        (col ''approved_at'' DateTimeField)\<lparr>co_null := True, co_blank := True\<rparr>,
        (col ''activated_at'' DateTimeField)\<lparr>co_null := True, co_blank := True\<rparr>,
        (col ''created_at'' DateTimeField)\<lparr>co_stamp := On_create\<rparr>,
        col ''tenant'' (ForeignKey ''Tenant'')]
       [] [[''tenant'', ''name'', ''version'']] [[''tenant'', ''state'']]"

definition created_rule_set_version :: db_table where
  "created_rule_set_version =
     make_table ''complylayer_rulesetversion''
       [(col ''id'' BigAutoField)\<lparr>co_primary := True\<rparr>,
        col ''version'' PositiveIntegerField,
        col ''rules_snapshot'' JSONField,
        (col ''lists_snapshot'' JSONField)\<lparr>co_blank := True, co_default := Empty_dict\<rparr>,
        (col ''published_at'' DateTimeField)\<lparr>co_stamp := On_create\<rparr>,
        col ''published_by'' (CharField 64),
        col ''tenant'' (ForeignKey ''Tenant'')]
       [] [[''tenant'', ''version'']] []"

definition created_decision :: db_table where
  "created_decision =
     make_table ''complylayer_decision''
       [col ''id'' (CharField 32),
        (col ''decided_at'' DateTimeField)\<lparr>co_indexed := True\<rparr>,
        col ''idempotency_key'' (CharField 128),
        col ''ruleset_version'' PositiveIntegerField,
        (col ''transaction_ref'' (CharField 128))\<lparr>co_indexed := True\<rparr>,
        (col ''customer_ref_hash'' (CharField 64))\<lparr>co_indexed := True\<rparr>,
        col ''amount_minor'' BigIntegerField,
        col ''currency'' (CharField 3),
        col ''context'' JSONField,
        (col ''resolved_facts'' JSONField)\<lparr>co_blank := True, co_default := Empty_dict\<rparr>,
        col ''outcome'' (CharField 16),
        (col ''matched_rules'' JSONField)\<lparr>co_default := Empty_list\<rparr>,
        (col ''shadow_matches'' JSONField)\<lparr>co_default := Empty_list\<rparr>,
        (col ''reason'' TextField)\<lparr>co_blank := True\<rparr>,
        (col ''degraded'' BooleanField)\<lparr>co_default := Bool_default False\<rparr>,
        (col ''errored_rules'' JSONField)\<lparr>co_blank := True, co_default := Empty_list\<rparr>,
        col ''latency_ms'' PositiveIntegerField,
        (col ''review_status'' (CharField 16))\<lparr>co_blank := True\<rparr>,
        (col ''reviewed_by'' (CharField 64))\<lparr>co_blank := True\<rparr>,
        (col ''review_notes'' TextField)\<lparr>co_blank := True\<rparr>,
        col ''tenant'' (ForeignKey ''Tenant'')]
       [''id'', ''decided_at''] [] [[''tenant'', ''outcome'', ''decided_at''], [''tenant'', ''review_status'', ''decided_at'']]"

definition created_idempotency_record :: db_table where
  "created_idempotency_record =
     make_table ''complylayer_idempotency''
       [(col ''id'' BigAutoField)\<lparr>co_primary := True\<rparr>,
        col ''key'' (CharField 128),
        col ''decision_id'' (CharField 32),
        col ''decision_decided_at'' DateTimeField,
        col ''response_body'' JSONField,
        (col ''created_at'' DateTimeField)\<lparr>co_stamp := On_create, co_indexed := True\<rparr>,
        col ''tenant'' (ForeignKey ''Tenant'')]
       [] [[''tenant'', ''key'']] []"

definition created_api_key :: db_table where
  "created_api_key =
     make_table ''complylayer_apikey''
       [(col ''id'' (CharField 32))\<lparr>co_primary := True\<rparr>,
        col ''name'' (CharField 128),
        (col ''prefix'' (CharField 24))\<lparr>co_indexed := True, co_unique := True\<rparr>,
        col ''hashed_secret'' (CharField 255),
        (col ''environment'' (CharField 8))\<lparr>co_default := Text_default ''live''\<rparr>,
        col ''role'' (CharField 32),
        col ''created_by'' (CharField 64),
        (col ''created_at'' DateTimeField)\<lparr>co_stamp := On_create\<rparr>,
        (col ''revoked_at'' DateTimeField)\<lparr>co_null := True, co_blank := True\<rparr>,
        col ''tenant'' (ForeignKey ''Tenant'')]
       [] [] [[''tenant'', ''environment'']]"

definition created_dashboard_user :: db_table where
  "created_dashboard_user =
     make_table ''complylayer_dashboarduser''
       [(col ''id'' BigAutoField)\<lparr>co_primary := True\<rparr>,
        col ''role'' (CharField 32),
        (col ''totp_secret'' (CharField 64))\<lparr>co_blank := True\<rparr>,
        (col ''totp_confirmed_at'' DateTimeField)\<lparr>co_null := True, co_blank := True\<rparr>,
        (col ''created_at'' DateTimeField)\<lparr>co_stamp := On_create\<rparr>,
        col ''tenant'' (ForeignKey ''Tenant''),
        col ''user'' (OneToOneField ''auth.User'')]
       [] [] []"

definition created_named_list :: db_table where
  "created_named_list =
     make_table ''complylayer_namedlist''
       [(col ''id'' BigAutoField)\<lparr>co_primary := True\<rparr>,
        col ''name'' (CharField 64),
        (col ''values'' JSONField)\<lparr>co_default := Empty_list\<rparr>,
        col ''updated_by'' (CharField 64),
        (col ''updated_at'' DateTimeField)\<lparr>co_stamp := On_save\<rparr>,
        col ''tenant'' (ForeignKey ''Tenant'')]
       [] [[''tenant'', ''name'']] []"

definition created_audit_record :: db_table where
  "created_audit_record =
     make_table ''complylayer_auditrecord''
       [(col ''id'' (CharField 32))\<lparr>co_primary := True\<rparr>,
        (col ''event_type'' (CharField 64))\<lparr>co_indexed := True\<rparr>,
        col ''occurred_at'' DateTimeField,
        (col ''recorded_at'' DateTimeField)\<lparr>co_stamp := On_create\<rparr>,
        (col ''actor'' JSONField)\<lparr>co_default := Empty_dict\<rparr>,
        (col ''subject'' JSONField)\<lparr>co_default := Empty_dict\<rparr>,
        (col ''payload'' JSONField)\<lparr>co_default := Empty_dict\<rparr>,
        (col ''prev_hash'' (CharField 71))\<lparr>co_blank := True\<rparr>,
        col ''hash'' (CharField 71),
        col ''tenant'' (ForeignKey ''Tenant'')]
       [] [] [[''tenant'', ''recorded_at'']]"

definition created_audit_checkpoint :: db_table where
  "created_audit_checkpoint =
     make_table ''complylayer_auditcheckpoint''
       [(col ''id'' BigAutoField)\<lparr>co_primary := True\<rparr>,
        col ''chain_length'' IntegerField,
        col ''head_hash'' (CharField 80),
        col ''signed_at'' DateTimeField,
        col ''signature'' (CharField 256),
        (col ''recorded_at'' DateTimeField)\<lparr>co_stamp := On_create\<rparr>,
        col ''tenant'' (ForeignKey ''Tenant'')]
       [] [] [[''tenant'', ''-chain_length'']]"

text \<open>What a migration does: a model made in state and database, a model made in the state whose table the
  migration writes itself, and SQL that protects tables or uses them.\<close>

datatype operation =
    Create_model db_table
  | Create_by_hand db_table "sql_column list"
  | Append_only_triggers string
  | Row_level_security "string list"
  | Uses "string list"

definition INITIAL_TABLES :: "string list" where
  "INITIAL_TABLES = take (length TENANT_SCOPED_TABLES - 2) TENANT_SCOPED_TABLES"

definition MIGRATIONS :: "(string \<times> string list \<times> operation list) list" where
  "MIGRATIONS =
     [(''0001_initial'', [],
        [Create_model created_tenant, Create_model created_rule_set_version, Create_model created_rule,
         Create_model created_idempotency_record, Create_by_hand created_decision CREATE_DECISION,
         Create_model created_audit_record]),
      (''0002_audit_immutability'', [''0001_initial''], [Append_only_triggers AUDIT]),
      (''0003_namedlist'', [''0002_audit_immutability''], [Create_model created_named_list]),
      (''0004_apikey'', [''0003_namedlist''], [Create_model created_api_key]),
      (''0005_row_level_security'', [''0004_apikey''], [Row_level_security INITIAL_TABLES]),
      (''0006_application_role'', [''0005_row_level_security''], [Uses [AUDIT]]),
      (''0007_dashboarduser'', [''0006_application_role''], [Create_model created_dashboard_user]),
      (''0008_api_key_resolution'', [''0007_dashboarduser''], [Uses [APIKEY]]),
      (''0009_dashboard_user_rls'', [''0008_api_key_resolution''], [Row_level_security [DASHBOARD_USER]]),
      (''0010_audit_checkpoint'', [''0009_dashboard_user_rls''], [Create_model created_audit_checkpoint]),
      (''0011_checkpoint_protection'', [''0010_audit_checkpoint''],
        [Row_level_security [CHECKPOINT], Append_only_triggers CHECKPOINT])]"

record schema_state =
  ps_applied :: "string list"
  ps_models :: "db_table list"
  ps_tables :: "(string \<times> sql_column list) list"
  ps_append_only :: "string list"
  ps_secured :: "string list"

definition empty_schema :: schema_state where
  "empty_schema = \<lparr>ps_applied = [], ps_models = [], ps_tables = [], ps_append_only = [], ps_secured = []\<rparr>"

definition create_table :: "db_table \<Rightarrow> sql_column list \<Rightarrow> schema_state \<Rightarrow> schema_state option" where
  "create_table t cols s =
     (if ta_name t \<in> set (map fst (ps_tables s)) then None
      else if list_ex (\<lambda>c. case sc_references c of Some r \<Rightarrow> r \<notin> set (map fst (ps_tables s)) | None \<Rightarrow> False) cols then None
      else Some (s\<lparr>ps_models := ps_models s @ [t], ps_tables := ps_tables s @ [(ta_name t, cols)]\<rparr>))"

text \<open>\<open>None\<close> is the error of a table that is there already, or is not.\<close>

fun apply_operation :: "operation \<Rightarrow> schema_state \<Rightarrow> schema_state option" where
  "apply_operation (Create_model t) s = create_table t (map column_of (ta_columns t)) s"
| "apply_operation (Create_by_hand t cols) s = create_table t cols s"
| "apply_operation (Append_only_triggers t) s =
     (if t \<in> set (map fst (ps_tables s)) then Some (s\<lparr>ps_append_only := ps_append_only s @ [t]\<rparr>) else None)"
| "apply_operation (Row_level_security ts) s =
     (if set ts \<subseteq> set (map fst (ps_tables s)) then Some (s\<lparr>ps_secured := ps_secured s @ ts\<rparr>) else None)"
| "apply_operation (Uses ts) s = (if set ts \<subseteq> set (map fst (ps_tables s)) then Some s else None)"

fun apply_operations :: "operation list \<Rightarrow> schema_state \<Rightarrow> schema_state option" where
  "apply_operations [] s = Some s"
| "apply_operations (op # ops) s = Option.bind (apply_operation op s) (apply_operations ops)"

fun migrate :: "(string \<times> string list \<times> operation list) list \<Rightarrow> schema_state \<Rightarrow> schema_state option" where
  "migrate [] s = Some s"
| "migrate ((name, needs, ops) # ms) s =
     (if set needs \<subseteq> set (ps_applied s)
      then Option.bind (apply_operations ops s) (\<lambda>s'. migrate ms (s'\<lparr>ps_applied := ps_applied s' @ [name]\<rparr>))
      else None)"

definition migrated :: schema_state where
  "migrated = (case migrate MIGRATIONS empty_schema of Some s \<Rightarrow> s | None \<Rightarrow> empty_schema)"


section \<open>What the migrations make\<close>

text \<open>Two tables with the same name, fields, keys and indexes, the fields in any order.\<close>

definition same_table :: "db_table \<Rightarrow> db_table \<Rightarrow> bool" where
  "same_table a b \<longleftrightarrow>
     ta_name a = ta_name b \<and> length (ta_columns a) = length (ta_columns b) \<and>
     list_all (\<lambda>f. f \<in> set (ta_columns b)) (ta_columns a) \<and> list_all (\<lambda>f. f \<in> set (ta_columns a)) (ta_columns b) \<and>
     ta_primary a = ta_primary b \<and> set (ta_unique a) = set (ta_unique b) \<and> set (ta_indexes a) = set (ta_indexes b)"

definition has_tenant :: "db_table \<Rightarrow> bool" where
  "has_tenant t \<longleftrightarrow> list_ex (\<lambda>f. co_type f = ForeignKey ''Tenant'') (ta_columns t)"

text \<open>All migrations apply, one after the other, and leave the tables the models describe.\<close>

lemma migrations_apply: "migrate MIGRATIONS empty_schema \<noteq> None"
  by code_simp

theorem migrations_build_the_models:
  "length (ps_models migrated) = length MODELS"
  "list_all (\<lambda>t. list_ex (same_table t) (ps_models migrated)) MODELS"
  by code_simp+

text \<open>The table written by hand is the one Django reads and writes: its columns, its key, its defaults
  where it has any, and its indexes but for the one a foreign key gets by itself.\<close>

theorem decision_table_is_the_model:
  "list_all (\<lambda>c. c\<lparr>sc_default := No_default\<rparr> \<in> set (map column_of (ta_columns model_decision))) CREATE_DECISION"
  "list_all (\<lambda>c. list_ex (\<lambda>c'. c'\<lparr>sc_default := No_default\<rparr> = c) CREATE_DECISION) (map column_of (ta_columns model_decision))"
  "list_all (\<lambda>f. list_all (\<lambda>c. sc_name c = column_name f \<and> sc_default c \<noteq> No_default \<longrightarrow> sc_default c = written_default f)
     CREATE_DECISION) (ta_columns model_decision)"
  "DECISION_KEY = ta_primary model_decision"
  "set DECISION_INDEXES = set (wanted_indexes model_decision)"
  by code_simp+

text \<open>Every table with a tenant is under row level security, and no other; the two tables of evidence are
  append-only, as \<open>Row_Security\<close> has it.\<close>

theorem every_tenant_table_is_secured:
  "list_all (\<lambda>t. has_tenant t \<longleftrightarrow> ta_name t \<in> set (ps_secured migrated)) (ps_models migrated)"
  "set (ps_secured migrated) = set TENANT_SCOPED_TABLES"
  "distinct (ps_secured migrated)"
  "table \<in> set (ps_append_only migrated) \<longleftrightarrow> append_only table"
proof -
  show "list_all (\<lambda>t. has_tenant t \<longleftrightarrow> ta_name t \<in> set (ps_secured migrated)) (ps_models migrated)"
    and "set (ps_secured migrated) = set TENANT_SCOPED_TABLES" and "distinct (ps_secured migrated)"
    by code_simp+
  have "ps_append_only migrated = [AUDIT, CHECKPOINT]" by code_simp
  then show "table \<in> set (ps_append_only migrated) \<longleftrightarrow> append_only table" by (simp add: append_only_def)
qed


section \<open>Requests the table has no room for\<close>

fun fits :: "field_type \<Rightarrow> pyval \<Rightarrow> bool" where
  "fits (CharField n) (PStr s) \<longleftrightarrow> length s \<le> n \<and> storable_text s"
| "fits TextField (PStr s) \<longleftrightarrow> storable_text s"
| "fits IntegerField (PInt i) \<longleftrightarrow> - (2 ^ 31) \<le> i \<and> i < 2 ^ 31"
| "fits PositiveIntegerField (PInt i) \<longleftrightarrow> 0 \<le> i \<and> i < 2 ^ 31"
| "fits BigIntegerField (PInt i) \<longleftrightarrow> - (2 ^ 63) \<le> i \<and> i < 2 ^ 63"
| "fits BooleanField (PBool b) \<longleftrightarrow> True"
| "fits JSONField v \<longleftrightarrow> json_storable v"
| "fits _ _ \<longleftrightarrow> False"

definition fits_column :: "db_table \<Rightarrow> string \<times> pyval \<Rightarrow> bool" where
  "fits_column t cell \<longleftrightarrow>
     (case List.find (\<lambda>f. co_name f = fst cell) (ta_columns t) of None \<Rightarrow> False | Some f \<Rightarrow> fits (co_type f) (snd cell))"

text \<open>The cells of a row that the request fills.\<close>

definition request_cells :: "decision_row \<Rightarrow> (string \<times> pyval) list" where
  "request_cells r =
     [(''idempotency_key'', PStr (dr_idempotency_key r)), (''transaction_ref'', PStr (dr_transaction_ref r)),
      (''amount_minor'', PInt (dr_amount_minor r)), (''currency'', PStr (dr_currency r)),
      (''context'', PDict (dr_context r))]"

definition row_of_request :: "string \<Rightarrow> transaction \<Rightarrow> decision_row \<Rightarrow> bool" where
  "row_of_request key tx r \<longleftrightarrow>
     dr_idempotency_key r = key \<and> dr_transaction_ref r = tx_ref tx \<and> dr_amount_minor r = tx_amount_minor tx \<and>
     dr_currency r = tx_currency tx \<and> dr_context r = as_context tx"

lemma decision_field_types:
  "fits_column model_decision (''idempotency_key'', v) = fits (CharField 128) v"
  "fits_column model_decision (''transaction_ref'', v) = fits (CharField 128) v"
  "fits_column model_decision (''amount_minor'', v) = fits BigIntegerField v"
  "fits_column model_decision (''currency'', v) = fits (CharField 3) v"
  "fits_column model_decision (''context'', v) = fits JSONField v"
  by (simp_all add: fits_column_def model_decision_def make_table_def col_def)

text \<open>For a request the endpoint accepted, the columns of the model are the condition of
  \<open>insert_decision\<close>, and there are three ways to miss it: an amount of 64 bits and more, a currency that
  grew on the way to upper case, and a NUL.\<close>

theorem accepted_request_fits_iff:
  assumes "require_idempotency_key headers = Inr key" and "parse_transaction p = Inr tx" and "row_of_request key tx r"
  shows "row_fits r \<longleftrightarrow> list_all (fits_column model_decision) (request_cells r)"
    and "row_fits r \<longleftrightarrow>
      tx_amount_minor tx < 2 ^ 63 \<and> length (tx_currency tx) \<le> 3 \<and> storable_text key \<and> json_storable (PDict (as_context tx))"
proof -
  from assms(2) have tx: "acceptable p" "tx = transaction_of p" by (simp_all add: parse_transaction_Inr)
  have key: "length key \<le> 128" using assms(1) by (auto simp: require_idempotency_key_def Let_def split: if_splits)
  obtain s where "map_of p ''transaction_ref'' = Some (PStr s)" "length s \<le> 128"
    using tx(1) by (cases "map_of p ''transaction_ref''" rule: short_text.cases) (auto simp: acceptable_def)
  then have ref: "length (tx_ref tx) \<le> 128" by (simp add: tx(2) transaction_of_def text_at_def)
  obtain a where "map_of p ''amount_minor'' = Some (PInt a)" "0 \<le> a"
    using tx(1) by (cases "map_of p ''amount_minor''" rule: amount_ok.cases) (auto simp: acceptable_def)
  then have amount: "0 \<le> tx_amount_minor tx" by (simp add: tx(2) transaction_of_def amount_at_def)
  have texts: "json_storable (PDict (as_context tx)) \<Longrightarrow> storable_text (tx_ref tx) \<and> storable_text (tx_currency tx)"
    by (simp add: as_context_def)
  note r = assms(3) [unfolded row_of_request_def]
  show "row_fits r \<longleftrightarrow> list_all (fits_column model_decision) (request_cells r)"
    using key ref texts
    by (auto simp: row_fits_def request_cells_def decision_field_types r simp del: json_storable.simps)
  show "row_fits r \<longleftrightarrow>
      tx_amount_minor tx < 2 ^ 63 \<and> length (tx_currency tx) \<le> 3 \<and> storable_text key \<and> json_storable (PDict (as_context tx))"
    using amount texts by (auto simp: row_fits_def r simp del: json_storable.simps)
qed

lemma nul_accepted_not_stored:
  "\<exists>p tx. parse_transaction p = Inr tx \<and> \<not> json_storable (PDict (as_context tx))"
proof (intro exI conjI)
  let ?p = "[(''transaction_ref'', PStr [CHR ''t'', CHR 0x00]), (''customer_ref'', PStr ''c1''),
      (''amount_minor'', PInt 5), (''currency'', PStr ''NGN'')]"
  show "parse_transaction ?p = Inr (transaction_of ?p)"
    unfolding parse_transaction_Inr by (rule conjI [OF _ refl]) code_simp
  show "\<not> json_storable (PDict (as_context (transaction_of ?p)))" by code_simp
qed

end
