(* ===== verification/Url_Tables.thy ===== *)
theory Url_Tables
  imports Prelude
begin

text \<open>
  From a path to a view: the URL tables (\<open>src/complylayer/urls.py\<close>, \<open>src/server/urls.py\<close>,
  \<open>src/server/urls_management.py\<close>, \<open>src/complylayer/api/management/urls.py\<close>,
  \<open>src/complylayer/dashboard/urls.py\<close>) and what the view sets declare of their routes and methods
  (\<open>src/complylayer/api/management/views.py\<close>).

  A pattern is a list of parts; Django takes the first pattern that matches the whole path. The routes a
  \<open>DefaultRouter\<close> makes of a registered view set are those of the table in the framework's manual, each a
  second time with a format suffix.
\<close>


section \<open>Patterns\<close>

datatype chars = Not_slash | Not_slash_dot | Lower_digit

fun in_chars :: "chars \<Rightarrow> char \<Rightarrow> bool" where
  "in_chars Not_slash c = (c \<noteq> CHR ''/'')"
| "in_chars Not_slash_dot c = (c \<noteq> CHR ''/'' \<and> c \<noteq> CHR ''.'')"
| "in_chars Lower_digit c = ((CHR ''a'' \<le> c \<and> c \<le> CHR ''z'') \<or> (CHR ''0'' \<le> c \<and> c \<le> CHR ''9''))"

text \<open>Literal text, a group of one or more characters of a class, and \<open>/?\<close>. What follows a group in the
  tables starts with a character outside its class, so the longest run is the only one that matches.\<close>

datatype part = Lit string | Run chars | Slash_opt

fun match_parts :: "part list \<Rightarrow> string \<Rightarrow> string list option" where
  "match_parts [] s = (if s = [] then Some [] else None)"
| "match_parts (Lit p # ps) s = (if prefix p s then match_parts ps (drop (length p) s) else None)"
| "match_parts (Run k # ps) s =
     (let w = takeWhile (in_chars k) s
      in if w = [] then None else map_option ((#) w) (match_parts ps (dropWhile (in_chars k) s)))"
| "match_parts (Slash_opt # ps) s = match_parts ps (case s of c # cs \<Rightarrow> if c = CHR ''/'' then cs else s | [] \<Rightarrow> [])"

datatype 'v urlconf = Url "part list" 'v | Include string "'v urlconf list"

fun resolve_url :: "'v urlconf list \<Rightarrow> string \<Rightarrow> ('v \<times> string list) option" where
  "resolve_url [] s = None"
| "resolve_url (Url ps v # us) s =
     (case match_parts ps s of Some args \<Rightarrow> Some (v, args) | None \<Rightarrow> resolve_url us s)"
| "resolve_url (Include p us' # us) s =
     (case (if prefix p s then resolve_url us' (drop (length p) s) else None) of
        Some r \<Rightarrow> Some r
      | None \<Rightarrow> resolve_url us s)"

text \<open>The same as one flat list of patterns.\<close>

fun flat :: "'v urlconf list \<Rightarrow> (part list \<times> 'v) list" where
  "flat [] = []"
| "flat (Url ps v # us) = (ps, v) # flat us"
| "flat (Include p us' # us) = map (\<lambda>(ps, v). (Lit p # ps, v)) (flat us') @ flat us"

fun first_match :: "(part list \<times> 'v) list \<Rightarrow> string \<Rightarrow> ('v \<times> string list) option" where
  "first_match [] s = None"
| "first_match ((ps, v) # rs) s = (case match_parts ps s of Some args \<Rightarrow> Some (v, args) | None \<Rightarrow> first_match rs s)"

lemma first_match_append:
  "first_match (rs @ rs') s = (case first_match rs s of Some r \<Rightarrow> Some r | None \<Rightarrow> first_match rs' s)"
  by (induction rs s rule: first_match.induct) (auto split: option.split)

lemma first_match_under:
  "first_match (map (\<lambda>(ps, v). (Lit p # ps, v)) rs) s = (if prefix p s then first_match rs (drop (length p) s) else None)"
proof (induction rs)
  case (Cons r rs)
  then show ?case by (cases r) (simp split: option.split)
qed simp

lemma resolve_flat: "resolve_url us s = first_match (flat us) s"
  by (induction us s rule: resolve_url.induct)
    (auto simp: first_match_append first_match_under split: option.split)

lemma first_match_in: "first_match rs s = Some (v, args) \<Longrightarrow> \<exists>ps. (ps, v) \<in> set rs \<and> match_parts ps s = Some args"
  by (induction rs s rule: first_match.induct) (auto split: option.splits)

text \<open>A request's path starts with a slash, which no pattern names.\<close>

definition route :: "'v urlconf list \<Rightarrow> string \<Rightarrow> ('v \<times> string list) option" where
  "route us path = (case path of c # cs \<Rightarrow> if c = CHR ''/'' then resolve_url us cs else None | [] \<Rightarrow> None)"


section \<open>View sets\<close>

datatype http_method = GET | HEAD | POST | PUT | PATCH | DELETE | OPTIONS | TRACE

datatype viewset = Rule_views | Version_views | Decision_views | List_views | Key_views

datatype view_action =
    Do_list | Do_create | Do_retrieve | Do_update | Do_partial_update | Do_destroy
  | Do_validate | Do_request_approval | Do_approve | Do_shadow | Do_activate | Do_archive | Do_review | Do_revoke

text \<open>The decorated methods: below the collection, and below one object.\<close>

fun list_actions :: "viewset \<Rightarrow> (string \<times> view_action) list" where
  "list_actions Rule_views = [(''validate'', Do_validate)]"
| "list_actions _ = []"

fun detail_actions :: "viewset \<Rightarrow> (string \<times> view_action) list" where
  "detail_actions Rule_views =
     [(''request-approval'', Do_request_approval), (''approve'', Do_approve), (''shadow'', Do_shadow),
      (''activate'', Do_activate), (''archive'', Do_archive)]"
| "detail_actions Decision_views = [(''review'', Do_review)]"
| "detail_actions Key_views = [(''revoke'', Do_revoke)]"
| "detail_actions _ = []"

definition READ_AND_POST :: "http_method list" where
  "READ_AND_POST = [GET, POST, HEAD, OPTIONS]"

fun http_method_names :: "viewset \<Rightarrow> http_method list" where
  "http_method_names Version_views = READ_AND_POST"
| "http_method_names Decision_views = READ_AND_POST"
| "http_method_names Key_views = READ_AND_POST"
| "http_method_names _ = [GET, POST, PUT, PATCH, DELETE, HEAD, OPTIONS, TRACE]"


section \<open>The tables\<close>

text \<open>A route of the router: its view set, whether it has a format suffix, and the action of each method.\<close>

datatype view =
    V_decisions | V_healthz | V_readyz | V_metrics
  | V_dashboard string
  | V_root bool
  | V_api viewset bool "(http_method \<times> view_action) list"

text \<open>\<open>DefaultRouter\<close>, from its manual: the collection, the extra actions of the collection, one object,
  the extra actions of one object, and the root; then each with a suffix.\<close>

definition router_routes :: "string \<Rightarrow> viewset \<Rightarrow> (part list \<times> (bool \<Rightarrow> view)) list" where
  "router_routes p vs =
     ([Lit p, Lit ''/''], \<lambda>sfx. V_api vs sfx [(GET, Do_list), (POST, Do_create)])
     # map (\<lambda>(u, a). ([Lit p, Lit ''/'', Lit u, Lit ''/''], \<lambda>sfx. V_api vs sfx [(POST, a)])) (list_actions vs)
     @ ([Lit p, Lit ''/'', Run Not_slash_dot, Lit ''/''],
          \<lambda>sfx. V_api vs sfx [(GET, Do_retrieve), (PUT, Do_update), (PATCH, Do_partial_update), (DELETE, Do_destroy)])
     # map (\<lambda>(u, a). ([Lit p, Lit ''/'', Run Not_slash_dot, Lit ''/'', Lit u, Lit ''/''], \<lambda>sfx. V_api vs sfx [(POST, a)]))
         (detail_actions vs)"

definition with_suffix :: "part list \<times> (bool \<Rightarrow> view) \<Rightarrow> view urlconf list" where
  "with_suffix r =
     [Url (fst r) (snd r False),
      Url ((if fst r = [] then [] else butlast (fst r)) @ [Lit ''.'', Run Lower_digit, Slash_opt]) (snd r True)]"

definition router_urls :: "(string \<times> viewset) list \<Rightarrow> view urlconf list" where
  "router_urls registry =
     concat (map with_suffix (concat (map (\<lambda>(p, vs). router_routes p vs) registry) @ [([], V_root)]))"

definition api_registry :: "(string \<times> viewset) list" where
  "api_registry =
     [(''rules'', Rule_views), (''rulesets'', Version_views), (''decisions'', Decision_views), (''lists'', List_views),
      (''keys'', Key_views)]"

definition management_api_urls :: "view urlconf list" where
  "management_api_urls = [Include ''v1/'' (router_urls api_registry)]"

definition dashboard_routes :: "(part list \<times> string) list" where
  "dashboard_routes =
     [([Lit ''sign-in''], ''sign-in''), ([Lit ''verify''], ''verify''), ([Lit ''enrol''], ''enrol''),
      ([Lit ''sign-out''], ''sign-out''), ([], ''rules''), ([Lit ''new''], ''builder''), ([Lit ''preview''], ''preview''),
      ([Lit ''validate''], ''validate''), ([Lit ''rules/'', Run Not_slash], ''approval''), ([Lit ''queue''], ''queue'')]"

definition dashboard_urls :: "view urlconf list" where
  "dashboard_urls = map (\<lambda>(ps, n). Url ps (V_dashboard n)) dashboard_routes"

definition complylayer_urls :: "view urlconf list" where
  "complylayer_urls =
     [Url [Lit ''v1/decisions''] V_decisions, Url [Lit ''healthz''] V_healthz, Url [Lit ''readyz''] V_readyz,
      Url [Lit ''metrics''] V_metrics]"

definition server_urls :: "view urlconf list" where
  "server_urls = [Include [] complylayer_urls]"

definition server_urls_management :: "view urlconf list" where
  "server_urls_management =
     [Include [] management_api_urls, Include ''dashboard/'' dashboard_urls,
      Url [Lit ''healthz''] V_healthz, Url [Lit ''readyz''] V_readyz, Url [Lit ''metrics''] V_metrics]"


section \<open>Where a path leads\<close>

text \<open>An id that can stand in a path, and a request whose id can.\<close>

definition path_id :: "string \<Rightarrow> bool" where
  "path_id s \<longleftrightarrow> s \<noteq> [] \<and> list_all (in_chars Not_slash_dot) s \<and> CHR 0x00 \<notin> set s"

lemmas table_defs = route_def server_urls_management_def management_api_urls_def router_urls_def api_registry_def router_routes_def
  with_suffix_def dashboard_urls_def dashboard_routes_def

lemma path_id_chars: "path_id i \<Longrightarrow> i \<noteq> []" "path_id i \<Longrightarrow> x \<in> set i \<Longrightarrow> in_chars Not_slash_dot x"
  by (auto simp: path_id_def list_all_iff simp del: in_chars.simps)

lemma run_id:
  assumes "path_id i" and "\<not> in_chars Not_slash_dot d"
  shows "takeWhile (in_chars Not_slash_dot) (i @ d # s) = i" "dropWhile (in_chars Not_slash_dot) (i @ d # s) = d # s"
  using assms path_id_chars(2) [OF assms(1)] by (simp_all add: takeWhile_append2 dropWhile_append2 del: in_chars.simps)

lemma match_word:
  assumes "path_id i" and "CHR ''/'' \<notin> set a"
  shows "match_parts (Lit a # Lit ''/'' # ps) (i @ CHR ''/'' # s) = (if i = a then match_parts ps s else None)"
    and "match_parts (Lit a # Lit ''.'' # ps) (i @ CHR ''/'' # s) = None"
proof -
  have i: "CHR ''/'' \<notin> set i" "CHR ''.'' \<notin> set i" using path_id_chars(2) [OF assms(1)] by auto
  have split: "\<exists>zs. i = a @ zs" if p: "prefix a (i @ CHR ''/'' # s)"
  proof -
    obtain us where "i = a @ us \<or> a = i @ us \<and> prefix us (CHR ''/'' # s)"
      using p by (auto simp: prefix_append prefix_def append_eq_append_conv2)
    with assms(2) show ?thesis by (cases us) auto
  qed
  have "match_parts (Lit a # Lit ''/'' # ps) (i @ CHR ''/'' # s) = (if i = a then match_parts ps s else None)
    \<and> match_parts (Lit a # Lit ''.'' # ps) (i @ CHR ''/'' # s) = None"
  proof (cases "prefix a (i @ CHR ''/'' # s)")
    case True
    then obtain zs where "i = a @ zs" using split by blast
    with i show ?thesis by (cases zs) auto
  qed auto
  then show "match_parts (Lit a # Lit ''/'' # ps) (i @ CHR ''/'' # s) = (if i = a then match_parts ps s else None)"
    and "match_parts (Lit a # Lit ''.'' # ps) (i @ CHR ''/'' # s) = None" by blast+
qed

lemma match_lit_cons: "match_parts (Lit p # ps) (c # s) = (if prefix p (c # s) then match_parts ps (drop (length p) (c # s)) else None)"
  "match_parts (Lit p # ps) [] = (if p = [] then match_parts ps [] else None)"
  by auto


definition object_actions :: "(http_method \<times> view_action) list" where
  "object_actions = [(GET, Do_retrieve), (PUT, Do_update), (PATCH, Do_partial_update), (DELETE, Do_destroy)]"

lemma collection_routes:
  "route server_urls_management ''/v1/rules/'' = Some (V_api Rule_views False [(GET, Do_list), (POST, Do_create)], [])"
  "route server_urls_management ''/v1/rulesets/'' = Some (V_api Version_views False [(GET, Do_list), (POST, Do_create)], [])"
  "route server_urls_management ''/v1/decisions/'' = Some (V_api Decision_views False [(GET, Do_list), (POST, Do_create)], [])"
  "route server_urls_management ''/v1/lists/'' = Some (V_api List_views False [(GET, Do_list), (POST, Do_create)], [])"
  "route server_urls_management ''/v1/keys/'' = Some (V_api Key_views False [(GET, Do_list), (POST, Do_create)], [])"
  "route server_urls_management ''/v1/rules/validate/'' = Some (V_api Rule_views False [(POST, Do_validate)], [])"
  by (simp_all add: table_defs)

lemma object_routes:
  assumes i: "path_id i"
  shows "i \<noteq> ''validate'' \<Longrightarrow>
      route server_urls_management (''/v1/rules/'' @ i @ ''/'') = Some (V_api Rule_views False object_actions, [i])"
    and "route server_urls_management (''/v1/rulesets/'' @ i @ ''/'') = Some (V_api Version_views False object_actions, [i])"
    and "route server_urls_management (''/v1/decisions/'' @ i @ ''/'') = Some (V_api Decision_views False object_actions, [i])"
    and "route server_urls_management (''/v1/lists/'' @ i @ ''/'') = Some (V_api List_views False object_actions, [i])"
    and "route server_urls_management (''/v1/keys/'' @ i @ ''/'') = Some (V_api Key_views False object_actions, [i])"
  by (simp_all add: table_defs match_lit_cons run_id [OF i] match_word [OF i] path_id_chars(1) [OF i] object_actions_def
      del: match_parts.simps(2))

lemma action_routes:
  assumes i: "path_id i"
  shows "route server_urls_management (''/v1/rules/'' @ i @ ''/request-approval/'') = Some (V_api Rule_views False [(POST, Do_request_approval)], [i])"
    and "route server_urls_management (''/v1/rules/'' @ i @ ''/approve/'') = Some (V_api Rule_views False [(POST, Do_approve)], [i])"
    and "route server_urls_management (''/v1/rules/'' @ i @ ''/shadow/'') = Some (V_api Rule_views False [(POST, Do_shadow)], [i])"
    and "route server_urls_management (''/v1/rules/'' @ i @ ''/activate/'') = Some (V_api Rule_views False [(POST, Do_activate)], [i])"
    and "route server_urls_management (''/v1/rules/'' @ i @ ''/archive/'') = Some (V_api Rule_views False [(POST, Do_archive)], [i])"
    and "route server_urls_management (''/v1/decisions/'' @ i @ ''/review/'') = Some (V_api Decision_views False [(POST, Do_review)], [i])"
    and "route server_urls_management (''/v1/keys/'' @ i @ ''/revoke/'') = Some (V_api Key_views False [(POST, Do_revoke)], [i])"
  by (simp_all add: table_defs match_lit_cons run_id [OF i] match_word [OF i] path_id_chars(1) [OF i] del: match_parts.simps(2))

lemmas management_routes = collection_routes object_routes action_routes

text \<open>The views of each table.\<close>

lemma match_lit_only: "match_parts [Lit l] s = (if s = l then Some [] else None)"
  by (auto simp: prefix_def)

lemma decision_routes:
  "route server_urls path = Some (v, args) \<Longrightarrow>
     args = [] \<and> (path, v) \<in> {(''/v1/decisions'', V_decisions), (''/healthz'', V_healthz), (''/readyz'', V_readyz), (''/metrics'', V_metrics)}"
proof (cases path)
  case (Cons c s)
  have "resolve_url server_urls s =
      (if s = ''v1/decisions'' then Some (V_decisions, []) else if s = ''healthz'' then Some (V_healthz, [])
       else if s = ''readyz'' then Some (V_readyz, []) else if s = ''metrics'' then Some (V_metrics, []) else None)"
    by (simp add: server_urls_def complylayer_urls_def match_lit_only del: match_parts.simps)
  then show "route server_urls path = Some (v, args) \<Longrightarrow> ?thesis"
    by (auto simp: route_def Cons split: if_splits)
qed (simp add: route_def)

lemma probe_routes:
  "route server_urls_management ''/v1/decisions'' = None"
  "route server_urls_management ''/healthz'' = Some (V_healthz, [])"
  "route server_urls_management ''/readyz'' = Some (V_readyz, [])"
  "route server_urls_management ''/metrics'' = Some (V_metrics, [])"
  by (simp_all add: table_defs)

text \<open>What the router's patterns lead to.\<close>

fun api_view :: "view \<Rightarrow> bool" where
  "api_view (V_api vs sfx actions) =
     (actions = [(GET, Do_list), (POST, Do_create)] \<or> actions = object_actions \<or> map fst actions = [POST])"
| "api_view (V_root sfx) = True"
| "api_view _ = False"

lemma api_views: "list_all (\<lambda>(ps, v). api_view v) (flat management_api_urls)"
  by (simp add: table_defs object_actions_def)

lemma resolve_api_view: "resolve_url management_api_urls s = Some (v, args) \<Longrightarrow> api_view v"
  using api_views by (auto simp: resolve_flat list_all_iff dest!: first_match_in)

lemma flat_map_Url: "flat (map (\<lambda>(ps, n). Url ps (f n)) xs) = map (\<lambda>(ps, n). (ps, f n)) xs"
  by (induction xs) auto

lemma resolve_dashboard_view: "resolve_url dashboard_urls s = Some (v, args) \<Longrightarrow> \<exists>n. v = V_dashboard n"
  by (auto simp: resolve_flat dashboard_urls_def flat_map_Url dest!: first_match_in)

lemma resolve_management:
  "resolve_url server_urls_management s =
     (case resolve_url management_api_urls s of
        Some r \<Rightarrow> Some r
      | None \<Rightarrow>
          (case (if prefix ''dashboard/'' s then resolve_url dashboard_urls (drop (length ''dashboard/'') s) else None) of
             Some r \<Rightarrow> Some r
           | None \<Rightarrow>
               (if s = ''healthz'' then Some (V_healthz, []) else if s = ''readyz'' then Some (V_readyz, [])
                else if s = ''metrics'' then Some (V_metrics, []) else None)))"
  by (cases "resolve_url management_api_urls s") (simp_all add: server_urls_management_def match_lit_only del: match_parts.simps split: option.split)

lemma route_actions:
  assumes "route server_urls_management path = Some (V_api vs sfx actions, args)"
  shows "api_view (V_api vs sfx actions)"
proof -
  obtain s where "resolve_url server_urls_management s = Some (V_api vs sfx actions, args)"
    using assms by (auto simp: route_def split: list.splits if_splits)
  then have "resolve_url management_api_urls s = Some (V_api vs sfx actions, args)"
    by (auto simp: resolve_management split: option.splits if_splits dest: resolve_dashboard_view)
  then show ?thesis by (rule resolve_api_view)
qed


section \<open>The dashboard's names\<close>

text \<open>\<open>reverse\<close>: the path of a named route with its arguments.\<close>

fun fill_parts :: "part list \<Rightarrow> string list \<Rightarrow> string option" where
  "fill_parts [] [] = Some []"
| "fill_parts (Lit p # ps) args = map_option ((@) p) (fill_parts ps args)"
| "fill_parts (Run k # ps) (a # args) =
     (if a \<noteq> [] \<and> list_all (in_chars k) a then map_option ((@) a) (fill_parts ps args) else None)"
| "fill_parts (Slash_opt # ps) args = fill_parts ps args"
| "fill_parts _ _ = None"

definition dashboard_reverse :: "string \<Rightarrow> string list \<Rightarrow> string option" where
  "dashboard_reverse name args =
     (case List.find (\<lambda>(ps, n). name = n) dashboard_routes of
        None \<Rightarrow> None
      | Some (ps, n) \<Rightarrow> map_option ((@) ''/dashboard/'') (fill_parts ps args))"

text \<open>The table spelled out.\<close>

definition plain_pages :: "(string \<times> string) list" where
  "plain_pages =
     [(''sign-in'', ''sign-in''), (''verify'', ''verify''), (''enrol'', ''enrol''), (''sign-out'', ''sign-out''), (''rules'', []),
      (''builder'', ''new''), (''preview'', ''preview''), (''validate'', ''validate''), (''queue'', ''queue'')]"

definition dashboard_page :: "string \<Rightarrow> string list \<Rightarrow> string \<Rightarrow> bool" where
  "dashboard_page name args s \<longleftrightarrow>
     args = [] \<and> (name, s) \<in> set plain_pages \<or>
     (\<exists>x. name = ''approval'' \<and> args = [x] \<and> x \<noteq> [] \<and> CHR ''/'' \<notin> set x \<and> s = ''rules/'' @ x)"

lemma fill_Lit: "fill_parts [Lit l] args = (if args = [] then Some l else None)"
  by (cases args) auto

lemma fill_approval:
  "fill_parts [Lit l, Run Not_slash] args = Some s \<longleftrightarrow> (\<exists>x. args = [x] \<and> x \<noteq> [] \<and> CHR ''/'' \<notin> set x \<and> s = l @ x)"
  by (cases args; cases "tl args") (auto simp: list_all_iff)

lemma match_approval:
  "match_parts [Lit l, Run Not_slash] s = Some args \<longleftrightarrow> (\<exists>x. args = [x] \<and> x \<noteq> [] \<and> CHR ''/'' \<notin> set x \<and> s = l @ x)"
proof (cases "prefix l s")
  case True
  then obtain z where z: "s = l @ z" by (auto simp: prefix_def)
  show ?thesis
  proof (cases "CHR ''/'' \<in> set z")
    case True
    then have "dropWhile (in_chars Not_slash) z \<noteq> []" by auto
    with True z show ?thesis by (auto simp: Let_def)
  next
    case False
    then have all: "takeWhile (in_chars Not_slash) z = z" "dropWhile (in_chars Not_slash) z = []"
      by (auto simp: takeWhile_eq_all_conv)
    then have "match_parts [Lit l, Run Not_slash] s = (if z = [] then None else Some [z])"
      by (simp add: z all Let_def del: in_chars.simps)
    with False z show ?thesis by auto
  qed
qed (auto simp: prefix_def)

lemma reverse_pages: "dashboard_reverse name args = Some path \<longleftrightarrow> (\<exists>s. path = ''/dashboard/'' @ s \<and> dashboard_page name args s)"
proof -
  have "dashboard_reverse name args = Some path \<longleftrightarrow> (\<exists>s. path = ''/dashboard/'' @ s \<and> dashboard_page name args s)"
    if "name \<in> {''sign-in'', ''verify'', ''enrol'', ''sign-out'', ''rules'', ''builder'', ''preview'', ''validate'', ''queue''}"
    using that
    by (elim insertE emptyE) (cases args; auto simp: dashboard_reverse_def dashboard_routes_def dashboard_page_def plain_pages_def)+
  moreover have "dashboard_reverse ''approval'' args = Some path \<longleftrightarrow> (\<exists>s. path = ''/dashboard/'' @ s \<and> dashboard_page ''approval'' args s)"
  proof -
    have "dashboard_reverse ''approval'' args = map_option ((@) ''/dashboard/'') (fill_parts [Lit ''rules/'', Run Not_slash] args)"
      by (simp add: dashboard_reverse_def dashboard_routes_def del: fill_parts.simps)
    moreover have "dashboard_page ''approval'' args s \<longleftrightarrow> fill_parts [Lit ''rules/'', Run Not_slash] args = Some s" for s
      unfolding fill_approval by (simp add: dashboard_page_def plain_pages_def)
    ultimately show ?thesis by auto
  qed
  moreover have "dashboard_reverse name args = None \<and> \<not> dashboard_page name args s"
    if "name \<notin> {''sign-in'', ''verify'', ''enrol'', ''sign-out'', ''rules'', ''builder'', ''preview'', ''validate'', ''queue''}"
      "name \<noteq> ''approval''" for s
    using that by (simp add: dashboard_reverse_def dashboard_routes_def dashboard_page_def plain_pages_def)
  ultimately show ?thesis by (metis option.distinct(1))
qed

lemma resolve_pages: "resolve_url dashboard_urls z = Some (V_dashboard name, args) \<longleftrightarrow> dashboard_page name args z"
proof (cases "z \<in> snd ` set plain_pages")
  case True
  then show ?thesis
    by (simp only: plain_pages_def list.set image_insert image_empty snd_conv, elim insertE emptyE)
      (simp_all add: dashboard_urls_def dashboard_routes_def dashboard_page_def plain_pages_def, auto)
next
  case False
  then have "resolve_url dashboard_urls z = map_option (\<lambda>args. (V_dashboard ''approval'', args)) (match_parts [Lit ''rules/'', Run Not_slash] z)"
    by (simp add: dashboard_urls_def dashboard_routes_def plain_pages_def match_lit_only del: match_parts.simps(2-) split: option.split)
  moreover have "dashboard_page name args z \<longleftrightarrow> name = ''approval'' \<and> match_parts [Lit ''rules/'', Run Not_slash] z = Some args"
    using False unfolding match_approval by (force simp: dashboard_page_def)
  ultimately show ?thesis by auto
qed

lemma route_pages: "route server_urls_management path = Some (V_dashboard name, args) \<longleftrightarrow> (\<exists>s. path = ''/dashboard/'' @ s \<and> dashboard_page name args s)"
proof -
  have no_page: "resolve_url management_api_urls s \<noteq> Some (V_dashboard name, args)" for s
    using resolve_api_view by fastforce
  have under: "resolve_url management_api_urls (''dashboard/'' @ s) = None" for s
    by (simp add: management_api_urls_def)
  have "resolve_url server_urls_management s = Some (V_dashboard name, args) \<longleftrightarrow> (\<exists>z. s = ''dashboard/'' @ z \<and> dashboard_page name args z)" for s
  proof (cases "\<exists>z. s = ''dashboard/'' @ z")
    case True
    then obtain z where z: "s = ''dashboard/'' @ z" by blast
    then show ?thesis
      using under [of z] resolve_pages [of z name args] by (cases "resolve_url dashboard_urls z") (simp_all add: resolve_management)
  next
    case False
    then have "\<not> prefix ''dashboard/'' s" by (auto simp: prefix_def)
    with False show ?thesis
      using no_page [of s] by (cases "resolve_url management_api_urls s") (simp_all add: resolve_management del: append.simps)
  qed
  then show ?thesis by (cases path) (auto simp: route_def)
qed

text \<open>An interface of named routes: what \<open>reverse\<close> spells, \<open>resolve\<close> finds, and nothing else finds it.\<close>

locale named_routes =
  fixes reverse :: "'n \<Rightarrow> 'a \<Rightarrow> string option"
    and resolve :: "string \<Rightarrow> ('n \<times> 'a) option"
  assumes reverse_resolves: "reverse n a = Some path \<longleftrightarrow> resolve path = Some (n, a)"
begin

lemma reverse_determines: "reverse n a = Some path \<Longrightarrow> reverse n' a' = Some path \<Longrightarrow> n' = n \<and> a' = a"
  by (simp add: reverse_resolves)

lemma resolve_determines: "resolve path = Some r \<Longrightarrow> resolve path' = Some r \<Longrightarrow> path' = path"
  by (cases r) (metis reverse_resolves option.inject)

lemma reversible: "resolve path = Some (n, a) \<Longrightarrow> reverse n a \<noteq> None"
  using reverse_resolves by fastforce

end

text \<open>Names and paths of the dashboard correspond one to one: a name resolves to the path that reverses it.\<close>

definition dashboard_resolve :: "string \<Rightarrow> (string \<times> string list) option" where
  "dashboard_resolve path =
     (case route server_urls_management path of Some (V_dashboard name, args) \<Rightarrow> Some (name, args) | _ \<Rightarrow> None)"

lemma dashboard_resolve_iff:
  "dashboard_resolve path = Some (name, args) \<longleftrightarrow> route server_urls_management path = Some (V_dashboard name, args)"
  by (auto simp: dashboard_resolve_def split: option.splits prod.splits view.splits)

interpretation dashboard: named_routes dashboard_reverse dashboard_resolve
  by unfold_locales (simp add: reverse_pages route_pages dashboard_resolve_iff)

theorem dashboard_names_round_trip:
  "dashboard_reverse name args = Some path \<longleftrightarrow> route server_urls_management path = Some (V_dashboard name, args)"
  using dashboard.reverse_resolves dashboard_resolve_iff by simp

end
