(* ===== verification/Routing.thy ===== *)
theory Routing
  imports Url_Tables Management Health
begin

text \<open>
  One request of the management workload (\<open>src/complylayer/api/management/views.py\<close>,
  \<open>src/complylayer/api/middleware.py\<close>): from method and path through the tables of \<open>Url_Tables\<close> to the
  endpoints of \<open>Management\<close>, and what the tables do to the URLs the README documents.

  What a body or a query holds is a \<open>payload\<close>, parsed; clients are taken to accept JSON.
\<close>


section \<open>The management workload\<close>

text \<open>What a request's body and query hold under each name a view reads.\<close>

record payload =
  pl_rule :: rule_fields
  pl_edits :: "field_edit list"
  pl_reason :: string
  pl_emergency_reason :: string
  pl_expression :: "string option"
  pl_structured :: "pyval option"
  pl_revert_to :: "pyval option"
  pl_outcome :: "string option"
  pl_review_status :: "string option"
  pl_status :: "string option"
  pl_notes :: "string option"
  pl_name :: string
  pl_values :: "pyval list"
  pl_key :: key_request

text \<open>A lookup by a text column; PostgreSQL takes no NUL. One by a numeric column: what is no number raises
  \<open>ValueError\<close>, which nothing catches. \<open>numbered\<close> is the name of the caller's list with a row number.\<close>

definition text_lookup :: "string \<Rightarrow> management_error + string" where
  "text_lookup s = (if CHR 0x00 \<in> set s then Inl M_Data else Inr s)"

definition number_lookup :: "string \<Rightarrow> management_error + int" where
  "number_lookup s = (case parse_int s of None \<Rightarrow> Inl (M_Python ValueError) | Some i \<Rightarrow> Inr i)"

definition version_lookup :: "string \<Rightarrow> management_error + nat" where
  "version_lookup s = bindE (number_lookup s) (\<lambda>i. if i < 0 then Inl M_Not_found else Inr (nat i))"

definition list_lookup :: "(int \<Rightarrow> string option) \<Rightarrow> string \<Rightarrow> management_error + string" where
  "list_lookup numbered s =
     bindE (number_lookup s) (\<lambda>i. case numbered i of None \<Rightarrow> Inl M_Not_found | Some n \<Rightarrow> Inr n)"

text \<open>The endpoint behind an action of a view set, or the error of its lookup; none where the view set's
  methods admit no request for the action. Updates are partial whatever the method; reviewing and
  revoking ask for the permission before they look anything up.\<close>

abbreviation (input) looked_up :: "management_error + 'a \<Rightarrow> ('a \<Rightarrow> request) \<Rightarrow> (management_error + request) option" where
  "looked_up r f \<equiv> Some (bindE r (\<lambda>x. Inr (f x)))"

fun rule_endpoint :: "view_action \<Rightarrow> string \<Rightarrow> payload \<Rightarrow> (management_error + request) option" where
  "rule_endpoint Do_list s pl = Some (Inr Rules_list)"
| "rule_endpoint Do_create s pl = Some (Inr (Rule_create (pl_rule pl)))"
| "rule_endpoint Do_retrieve s pl = looked_up (text_lookup s) Rule_retrieve"
| "rule_endpoint Do_update s pl = looked_up (text_lookup s) (\<lambda>i. Rule_update i (pl_edits pl))"
| "rule_endpoint Do_partial_update s pl = looked_up (text_lookup s) (\<lambda>i. Rule_update i (pl_edits pl))"
| "rule_endpoint Do_destroy s pl = looked_up (text_lookup s) (\<lambda>i. Rule_destroy i (pl_reason pl))"
| "rule_endpoint Do_validate s pl = Some (Inr (Rule_validate (pl_expression pl) (pl_structured pl)))"
| "rule_endpoint Do_request_approval s pl = looked_up (text_lookup s) Rule_request_approval"
| "rule_endpoint Do_approve s pl = looked_up (text_lookup s) (\<lambda>i. Rule_approve i (pl_reason pl))"
| "rule_endpoint Do_shadow s pl = looked_up (text_lookup s) Rule_shadow"
| "rule_endpoint Do_activate s pl = looked_up (text_lookup s) (\<lambda>i. Rule_activate i (pl_emergency_reason pl))"
| "rule_endpoint Do_archive s pl = looked_up (text_lookup s) (\<lambda>i. Rule_archive i (pl_reason pl))"
| "rule_endpoint _ s pl = None"

fun version_endpoint :: "view_action \<Rightarrow> string \<Rightarrow> payload \<Rightarrow> (management_error + request) option" where
  "version_endpoint Do_list s pl = Some (Inr Versions_list)"
| "version_endpoint Do_create s pl = Some (Inr (Version_create (pl_revert_to pl)))"
| "version_endpoint Do_retrieve s pl = looked_up (version_lookup s) Version_retrieve"
| "version_endpoint _ s pl = None"

fun decision_endpoint :: "actor \<Rightarrow> view_action \<Rightarrow> string \<Rightarrow> payload \<Rightarrow> (management_error + request) option" where
  "decision_endpoint who Do_list s pl = Some (Inr (Decisions_list (pl_outcome pl) (pl_review_status pl)))"
| "decision_endpoint who Do_create s pl = Some (Inr Decision_create)"
| "decision_endpoint who Do_retrieve s pl =
     looked_up (text_lookup s) (\<lambda>i. Decision_retrieve i (pl_outcome pl) (pl_review_status pl))"
| "decision_endpoint who Do_review s pl =
     Some (case require_action who A_REVIEW_DECISION of
             Inl d \<Rightarrow> Inl (M_Denied d)
           | Inr _ \<Rightarrow>
               bindE (text_lookup s) (\<lambda>i.
                 Inr (Decision_review i (pl_outcome pl) (pl_review_status pl) (pl_status pl) (pl_notes pl))))"
| "decision_endpoint who _ s pl = None"

fun list_endpoint :: "(int \<Rightarrow> string option) \<Rightarrow> view_action \<Rightarrow> string \<Rightarrow> payload \<Rightarrow> (management_error + request) option" where
  "list_endpoint numbered Do_list s pl = Some (Inr Lists_list)"
| "list_endpoint numbered Do_create s pl = Some (Inr (List_create (pl_name pl) (pl_values pl)))"
| "list_endpoint numbered Do_retrieve s pl = looked_up (list_lookup numbered s) List_retrieve"
| "list_endpoint numbered Do_update s pl = looked_up (list_lookup numbered s) (\<lambda>n. List_update n (pl_values pl))"
| "list_endpoint numbered Do_partial_update s pl = looked_up (list_lookup numbered s) (\<lambda>n. List_update n (pl_values pl))"
| "list_endpoint numbered Do_destroy s pl = looked_up (list_lookup numbered s) List_destroy"
| "list_endpoint numbered _ s pl = None"

fun key_endpoint :: "actor \<Rightarrow> view_action \<Rightarrow> string \<Rightarrow> payload \<Rightarrow> (management_error + request) option" where
  "key_endpoint who Do_list s pl = Some (Inr Keys_list)"
| "key_endpoint who Do_create s pl = Some (Inr (Key_create (pl_key pl)))"
| "key_endpoint who Do_retrieve s pl = looked_up (text_lookup s) Key_retrieve"
| "key_endpoint who Do_revoke s pl =
     Some (case key_denied (require_action who A_MANAGE_KEYS) of
             Inl e \<Rightarrow> Inl (M_Key e)
           | Inr _ \<Rightarrow> bindE (text_lookup s) (\<lambda>i. Inr (Key_revoke i (pl_reason pl))))"
| "key_endpoint who _ s pl = None"

definition endpoint ::
  "(int \<Rightarrow> string option) \<Rightarrow> actor \<Rightarrow> viewset \<Rightarrow> view_action \<Rightarrow> string \<Rightarrow> payload \<Rightarrow> (management_error + request) option" where
  "endpoint numbered who vs act s pl =
     (case vs of
        Rule_views \<Rightarrow> rule_endpoint act s pl
      | Version_views \<Rightarrow> version_endpoint act s pl
      | Decision_views \<Rightarrow> decision_endpoint who act s pl
      | List_views \<Rightarrow> list_endpoint numbered act s pl
      | Key_views \<Rightarrow> key_endpoint who act s pl)"

datatype reply =
    R_no_route
  | R_bad_key string
  | R_broken_key
  | R_no_credentials
  | R_not_allowed
  | R_view view "string list"
  | R_root
  | R_described
  | R_failed management_error
  | R_answered answer
  | R_moved string

text \<open>\<open>HEAD\<close> runs the action of \<open>GET\<close>. \<open>OPTIONS\<close> describes a route, and looks the object up where \<open>PUT\<close> is
  allowed, to see whether it may be written: a miss it survives, an exception it does not.\<close>

definition method_action :: "(http_method \<times> view_action) list \<Rightarrow> http_method \<Rightarrow> view_action option" where
  "method_action actions meth = map_of actions (if meth = HEAD then GET else meth)"

definition describe_route ::
  "(int \<Rightarrow> string option) \<Rightarrow> actor \<Rightarrow> viewset \<Rightarrow> (http_method \<times> view_action) list \<Rightarrow> string \<Rightarrow> payload \<Rightarrow> reply" where
  "describe_route numbered who vs actions s pl =
     (case (if PUT \<in> set (http_method_names vs) then map_of actions PUT else None) of
        None \<Rightarrow> R_described
      | Some act \<Rightarrow>
          (case endpoint numbered who vs act s pl of
             Some (Inl M_Not_found) \<Rightarrow> R_described
           | Some (Inl e) \<Rightarrow> R_failed e
           | _ \<Rightarrow> R_described))"

text \<open>What a request comes to: a reply at once, or an endpoint called for the holder of a key. Dispatching to
  a view set looks at the format, then the key, then the method.\<close>

definition api_call ::
  "(int \<Rightarrow> string option) \<Rightarrow> credentials option \<Rightarrow> http_method \<Rightarrow> viewset \<Rightarrow> bool
     \<Rightarrow> (http_method \<times> view_action) list \<Rightarrow> string list \<Rightarrow> payload \<Rightarrow> reply + credentials \<times> request" where
  "api_call numbered cred meth vs sfx actions args pl =
     (let s = (case args of x # y # _ \<Rightarrow> x | [x] \<Rightarrow> if sfx then [] else x | [] \<Rightarrow> [])
      in if sfx \<and> List.last args \<noteq> ''json'' then Inl R_no_route
         else
           (case cred of
              None \<Rightarrow> Inl R_no_credentials
            | Some c \<Rightarrow>
                if meth \<notin> set (http_method_names vs) then Inl R_not_allowed
                else if meth = OPTIONS then Inl (describe_route numbered (cd_actor c) vs actions s pl)
                else
                  (case method_action actions meth of
                     None \<Rightarrow> Inl R_not_allowed
                   | Some act \<Rightarrow>
                       (case endpoint numbered (cd_actor c) vs act s pl of
                          None \<Rightarrow> Inl R_not_allowed
                        | Some (Inl e) \<Rightarrow> Inl (R_failed e)
                        | Some (Inr rq) \<Rightarrow> Inr (c, rq)))))"

text \<open>The root of the API lists its routes, to who holds a key.\<close>

definition root_reply :: "credentials option \<Rightarrow> http_method \<Rightarrow> bool \<Rightarrow> string list \<Rightarrow> reply" where
  "root_reply cred meth sfx args =
     (if sfx \<and> args \<noteq> [''json''] then R_no_route
      else if cred = None then R_no_credentials
      else if meth = OPTIONS then R_described
      else if meth \<in> {GET, HEAD} then R_root
      else R_not_allowed)"

definition management_call ::
  "(int \<Rightarrow> string option) \<Rightarrow> credentials option \<Rightarrow> http_method \<Rightarrow> string \<Rightarrow> payload \<Rightarrow> reply + credentials \<times> request" where
  "management_call numbered cred meth path pl =
     (case route server_urls_management path of
        None \<Rightarrow> Inl R_no_route
      | Some (V_api vs sfx actions, args) \<Rightarrow> api_call numbered cred meth vs sfx actions args pl
      | Some (V_root sfx, args) \<Rightarrow> Inl (root_reply cred meth sfx args)
      | Some (v, args) \<Rightarrow> Inl (R_view v args))"

definition reply_of :: "management_error + answer \<times> management \<Rightarrow> management \<Rightarrow> reply \<times> management" where
  "reply_of r m = (case r of Inl e \<Rightarrow> (R_failed e, m) | Inr (a, m1) \<Rightarrow> (R_answered a, m1))"

definition management_dispatch ::
  "drawn \<Rightarrow> (int \<Rightarrow> string option) \<Rightarrow> credentials option \<Rightarrow> http_method \<Rightarrow> string \<Rightarrow> payload \<Rightarrow> management \<Rightarrow> reply \<times> management" where
  "management_dispatch dw numbered cred meth path pl m =
     (case management_call numbered cred meth path pl of
        Inl r \<Rightarrow> (r, m)
      | Inr (c, rq) \<Rightarrow> reply_of (handle dw c rq m) m)"

text \<open>The reply's status, where it is not that of a view outside the API.\<close>

fun reply_status :: "reply \<Rightarrow> nat option" where
  "reply_status R_no_route = Some 404"
| "reply_status (R_bad_key msg) = Some 401"
| "reply_status R_broken_key = Some 500"
| "reply_status R_no_credentials = Some 403"
| "reply_status R_not_allowed = Some 405"
| "reply_status (R_view v args) = None"
| "reply_status R_root = Some 200"
| "reply_status R_described = Some 200"
| "reply_status (R_failed e) = Some (handle_exception e)"
| "reply_status (R_answered a) = Some (fst a)"
| "reply_status (R_moved path) = Some 301"

text \<open>Behind \<open>ApiKeyMiddleware\<close>; \<open>header\<close> is empty where none was sent. In front of it \<open>CommonMiddleware\<close>
  makes of a path that is not in the table, but would be with a slash, a redirect.\<close>

definition management_serve ::
  "drawn \<Rightarrow> (string \<Rightarrow> int \<Rightarrow> string option) \<Rightarrow> rat \<Rightarrow> http_method \<Rightarrow> string \<Rightarrow> string \<Rightarrow> payload \<Rightarrow> management \<Rightarrow> reply \<times> management" where
  "management_serve dw numbered now meth path header pl m =
     (if path \<in> set EXEMPT_PATHS \<or> header = [] then management_dispatch dw (\<lambda>_. None) None meth path pl m
      else
        (case attempt (dw_crypto dw) (dw_worker dw) now header (mg_system m) of
           (Inl (AuthenticationFailed msg), sys) \<Rightarrow> (R_bad_key msg, m\<lparr>mg_system := sys\<rparr>)
         | (Inl Unknown_role, sys) \<Rightarrow> (R_broken_key, m\<lparr>mg_system := sys\<rparr>)
         | (Inr c, sys) \<Rightarrow>
             management_dispatch dw (numbered (cd_tenant_id c)) (Some c) meth path pl (m\<lparr>mg_system := sys\<rparr>)))"

definition append_slash :: "string \<Rightarrow> reply \<Rightarrow> reply" where
  "append_slash path r =
     (if reply_status r = Some 404 \<and> (path = [] \<or> List.last path \<noteq> CHR ''/'') \<and> route server_urls_management path = None
         \<and> route server_urls_management (path @ ''/'') \<noteq> None
      then R_moved (path @ ''/'') else r)"

definition management_worker ::
  "drawn \<Rightarrow> (string \<Rightarrow> int \<Rightarrow> string option) \<Rightarrow> rat \<Rightarrow> http_method \<Rightarrow> string \<Rightarrow> string \<Rightarrow> payload \<Rightarrow> management \<Rightarrow> reply \<times> management" where
  "management_worker dw numbered now meth path header pl m =
     (let (r, m1) = management_serve dw numbered now meth path header pl m in (append_slash path r, m1))"


section \<open>Isolation at every URL\<close>

lemma endpoint_key_create: "endpoint numbered who vs act s pl = Some (Inr (Key_create kr)) \<Longrightarrow> kr = pl_key pl"
  by (cases vs; cases act) (auto simp: endpoint_def bindE_def split: sum.splits if_splits)

text \<open>An endpoint is called for the holder of the key, with the body that was sent.\<close>

lemma api_call_Inr:
  "api_call numbered cred meth vs sfx actions args pl = Inr (c, rq) \<Longrightarrow> cred = Some c \<and> (\<forall>kr. rq = Key_create kr \<longrightarrow> kr = pl_key pl)"
  unfolding api_call_def Let_def using endpoint_key_create
  by (auto split: if_splits option.splits sum.splits)

lemma management_call_Inr:
  "management_call numbered cred meth path pl = Inr (c, rq) \<Longrightarrow> cred = Some c \<and> (\<forall>kr. rq = Key_create kr \<longrightarrow> kr = pl_key pl)"
  unfolding management_call_def by (auto split: option.splits prod.splits view.splits dest: api_call_Inr)

lemma fresh_for:
  "fresh_draw dw (Key_create (pl_key pl)) m \<Longrightarrow> (\<forall>kr. rq = Key_create kr \<longrightarrow> kr = pl_key pl) \<Longrightarrow> fresh_draw dw rq m"
  by (cases rq) (auto simp: fresh_draw_def)

lemma reply_of_alike:
  "alike T r r' \<Longrightarrow> same_for T m m' \<Longrightarrow> fst (reply_of r m) = fst (reply_of r' m') \<and> same_for T (snd (reply_of r m)) (snd (reply_of r' m'))"
  by (cases "(T, r, r')" rule: alike.cases) (auto simp: reply_of_def)

lemma reply_of_leaves: "leaves T m r \<Longrightarrow> same_for T m (snd (reply_of r m))"
  by (cases "(T, m, r)" rule: leaves.cases) (auto simp: reply_of_def)



definition empty_payload :: payload where
  "empty_payload =
     \<lparr>pl_rule = \<lparr>f_name = [], f_description = [], f_category = [], f_regulatory_reference = [], f_expression = [],
                 f_severity = [], f_priority = 0, f_customer_message = []\<rparr>,
      pl_edits = [], pl_reason = [], pl_emergency_reason = [], pl_expression = None, pl_structured = None, pl_revert_to = None,
      pl_outcome = None, pl_review_status = None, pl_status = None, pl_notes = None, pl_name = [], pl_values = [],
      pl_key = second_key_request\<rparr>"



section \<open>Every endpoint has its URL\<close>

text \<open>The requests of \<open>Management\<close> as they are sent; \<open>row_no\<close> is the row number of a list.\<close>

fun url_of :: "(string \<Rightarrow> int) \<Rightarrow> request \<Rightarrow> http_method \<times> string" where
  "url_of row_no Rules_list = (GET, ''/v1/rules/'')"
| "url_of row_no (Rule_retrieve i) = (GET, ''/v1/rules/'' @ i @ ''/'')"
| "url_of row_no (Rule_create f) = (POST, ''/v1/rules/'')"
| "url_of row_no (Rule_update i fs) = (PATCH, ''/v1/rules/'' @ i @ ''/'')"
| "url_of row_no (Rule_destroy i why) = (DELETE, ''/v1/rules/'' @ i @ ''/'')"
| "url_of row_no (Rule_validate e st) = (POST, ''/v1/rules/validate/'')"
| "url_of row_no (Rule_request_approval i) = (POST, ''/v1/rules/'' @ i @ ''/request-approval/'')"
| "url_of row_no (Rule_approve i why) = (POST, ''/v1/rules/'' @ i @ ''/approve/'')"
| "url_of row_no (Rule_shadow i) = (POST, ''/v1/rules/'' @ i @ ''/shadow/'')"
| "url_of row_no (Rule_activate i why) = (POST, ''/v1/rules/'' @ i @ ''/activate/'')"
| "url_of row_no (Rule_archive i why) = (POST, ''/v1/rules/'' @ i @ ''/archive/'')"
| "url_of row_no Versions_list = (GET, ''/v1/rulesets/'')"
| "url_of row_no (Version_retrieve n) = (GET, ''/v1/rulesets/'' @ str_of_int (int n) @ ''/'')"
| "url_of row_no (Version_create v) = (POST, ''/v1/rulesets/'')"
| "url_of row_no (Decisions_list out st) = (GET, ''/v1/decisions/'')"
| "url_of row_no (Decision_retrieve i out st) = (GET, ''/v1/decisions/'' @ i @ ''/'')"
| "url_of row_no Decision_create = (POST, ''/v1/decisions/'')"
| "url_of row_no (Decision_review i out st s notes) = (POST, ''/v1/decisions/'' @ i @ ''/review/'')"
| "url_of row_no Lists_list = (GET, ''/v1/lists/'')"
| "url_of row_no (List_retrieve n) = (GET, ''/v1/lists/'' @ str_of_int (row_no n) @ ''/'')"
| "url_of row_no (List_create n vs) = (POST, ''/v1/lists/'')"
| "url_of row_no (List_update n vs) = (PATCH, ''/v1/lists/'' @ str_of_int (row_no n) @ ''/'')"
| "url_of row_no (List_destroy n) = (DELETE, ''/v1/lists/'' @ str_of_int (row_no n) @ ''/'')"
| "url_of row_no Keys_list = (GET, ''/v1/keys/'')"
| "url_of row_no (Key_retrieve i) = (GET, ''/v1/keys/'' @ i @ ''/'')"
| "url_of row_no (Key_create kr) = (POST, ''/v1/keys/'')"
| "url_of row_no (Key_revoke i why) = (POST, ''/v1/keys/'' @ i @ ''/revoke/'')"

fun sent :: "request \<Rightarrow> payload \<Rightarrow> payload" where
  "sent (Rule_create f) pl = pl\<lparr>pl_rule := f\<rparr>"
| "sent (Rule_update i fs) pl = pl\<lparr>pl_edits := fs\<rparr>"
| "sent (Rule_destroy i why) pl = pl\<lparr>pl_reason := why\<rparr>"
| "sent (Rule_validate e st) pl = pl\<lparr>pl_expression := e, pl_structured := st\<rparr>"
| "sent (Rule_approve i why) pl = pl\<lparr>pl_reason := why\<rparr>"
| "sent (Rule_activate i why) pl = pl\<lparr>pl_emergency_reason := why\<rparr>"
| "sent (Rule_archive i why) pl = pl\<lparr>pl_reason := why\<rparr>"
| "sent (Version_create v) pl = pl\<lparr>pl_revert_to := v\<rparr>"
| "sent (Decisions_list out st) pl = pl\<lparr>pl_outcome := out, pl_review_status := st\<rparr>"
| "sent (Decision_retrieve i out st) pl = pl\<lparr>pl_outcome := out, pl_review_status := st\<rparr>"
| "sent (Decision_review i out st s notes) pl =
     pl\<lparr>pl_outcome := out, pl_review_status := st, pl_status := s, pl_notes := notes\<rparr>"
| "sent (List_create n vs) pl = pl\<lparr>pl_name := n, pl_values := vs\<rparr>"
| "sent (List_update n vs) pl = pl\<lparr>pl_values := vs\<rparr>"
| "sent (Key_create kr) pl = pl\<lparr>pl_key := kr\<rparr>"
| "sent (Key_revoke i why) pl = pl\<lparr>pl_reason := why\<rparr>"
| "sent _ pl = pl"

fun addressable :: "(int \<Rightarrow> string option) \<Rightarrow> (string \<Rightarrow> int) \<Rightarrow> request \<Rightarrow> bool" where
  "addressable nb row_no (Rule_retrieve i) = (path_id i \<and> i \<noteq> ''validate'')"
| "addressable nb row_no (Rule_update i fs) = (path_id i \<and> i \<noteq> ''validate'')"
| "addressable nb row_no (Rule_destroy i why) = (path_id i \<and> i \<noteq> ''validate'')"
| "addressable nb row_no (Rule_request_approval i) = path_id i"
| "addressable nb row_no (Rule_approve i why) = path_id i"
| "addressable nb row_no (Rule_shadow i) = path_id i"
| "addressable nb row_no (Rule_activate i why) = path_id i"
| "addressable nb row_no (Rule_archive i why) = path_id i"
| "addressable nb row_no (Decision_retrieve i out st) = path_id i"
| "addressable nb row_no (Decision_review i out st s notes) = path_id i"
| "addressable nb row_no (List_retrieve n) = (nb (row_no n) = Some n)"
| "addressable nb row_no (List_update n vs) = (nb (row_no n) = Some n)"
| "addressable nb row_no (List_destroy n) = (nb (row_no n) = Some n)"
| "addressable nb row_no (Key_retrieve i) = path_id i"
| "addressable nb row_no (Key_revoke i why) = path_id i"
| "addressable nb row_no _ = True"

lemma path_id_number: "path_id (str_of_int i)" "str_of_int i \<noteq> ''validate''" "number_lookup (str_of_int i) = Inr i"
proof -
  have "str_of_int i \<noteq> []" using parse_int_str_of_int [of i] by (auto simp: parse_int_def py_strip_def)
  moreover have "in_chars Not_slash_dot c \<and> c \<noteq> CHR 0x00 \<and> c \<noteq> CHR ''v''" if "c \<in> set (str_of_int i)" for c
    using str_of_int_chars [OF that] by (auto simp: char_class_defs)
  ultimately show "path_id (str_of_int i)" by (auto simp: path_id_def list_all_iff)
  have "CHR ''v'' \<notin> set (str_of_int i)" using str_of_int_chars by (fastforce simp: char_class_defs)
  then show "str_of_int i \<noteq> ''validate''" by auto
  show "number_lookup (str_of_int i) = Inr i" by (simp add: number_lookup_def parse_int_str_of_int)
qed

lemma path_id_lookup: "path_id i \<Longrightarrow> text_lookup i = Inr i"
  by (simp add: path_id_def text_lookup_def)

text \<open>Each endpoint of \<open>Management\<close> is reached at its own URL, and what is reached there is that endpoint.\<close>

theorem every_endpoint_has_its_url:
  assumes "addressable numbered row_no rq"
  shows "management_dispatch dw numbered (Some c) (fst (url_of row_no rq)) (snd (url_of row_no rq)) (sent rq pl) m
    = reply_of (handle dw c rq m) m"
  using assms
  by (cases rq)
   (simp_all add: management_dispatch_def management_call_def management_routes path_id_number api_call_def READ_AND_POST_def
      object_actions_def method_action_def endpoint_def path_id_lookup version_lookup_def list_lookup_def review_def reply_of_def
      revoke_key_endpoint_def revoke_key_def del: append.simps split: sum.split)


section \<open>What the tables do to the documented URLs\<close>

text \<open>The README names the collections without a slash. That is a redirect, which a client follows with
  \<open>GET\<close>: the rule that was to be created is not.\<close>

theorem documented_collection_is_moved:
  "management_worker dw numbered now POST ''/v1/rules'' [] pl m = (R_moved ''/v1/rules/'', m)"
proof -
  have "route server_urls_management ''/v1/rules'' = None" by (simp add: table_defs)
  then show ?thesis
    by (simp add: management_worker_def management_serve_def management_dispatch_def management_call_def append_slash_def
        collection_routes)
qed

text \<open>A version is looked up by a number; a path segment that is none is not a miss but a failure.\<close>

theorem version_that_is_no_number_fails:
  assumes "path_id s" and "parse_int s = None"
  shows "reply_status (fst (management_dispatch dw numbered (Some c) GET (''/v1/rulesets/'' @ s @ ''/'') pl m)) = Some 500"
  using assms
  by (simp add: management_dispatch_def management_call_def management_routes api_call_def READ_AND_POST_def object_actions_def
      method_action_def endpoint_def version_lookup_def number_lookup_def del: append.simps)

text \<open>Named lists are looked up by their row number, and no reply of the collection depends on it.\<close>

theorem list_numbers_are_not_shown:
  "management_dispatch dw numbered cred meth ''/v1/lists/'' pl m = management_dispatch dw numbered' cred meth ''/v1/lists/'' pl m"
proof -
  have "management_call numbered cred meth ''/v1/lists/'' pl = management_call numbered' cred meth ''/v1/lists/'' pl"
    by (cases meth) (simp_all add: management_call_def collection_routes api_call_def method_action_def endpoint_def describe_route_def
        split: option.split)
  then show ?thesis by (simp add: management_dispatch_def)
qed

text \<open>No view set of versions, decisions or keys is written to by another method than \<open>POST\<close>.\<close>

theorem only_rules_and_lists_change_in_place:
  assumes "management_call numbered (Some c) meth path pl = Inr (c, rq)" and "meth \<in> {PUT, PATCH, DELETE}"
  shows "\<exists>i fs why n vs. rq \<in> {Rule_update i fs, Rule_destroy i why, List_update n vs, List_destroy n}"
proof -
  obtain vs sfx actions args where r: "route server_urls_management path = Some (V_api vs sfx actions, args)"
    "api_call numbered (Some c) meth vs sfx actions args pl = Inr (c, rq)"
    using assms(1) by (auto simp: management_call_def split: option.splits prod.splits view.splits)
  then obtain act s where act: "meth \<in> set (http_method_names vs)" "method_action actions meth = Some act"
    "endpoint numbered (cd_actor c) vs act s pl = Some (Inr rq)"
    by (auto simp: api_call_def Let_def split: if_splits option.splits sum.splits)
  have "act \<in> {Do_update, Do_partial_update, Do_destroy}"
    using route_actions [OF r(1)] act(2) assms(2) by (auto simp: method_action_def object_actions_def split: if_splits)
  with act assms(2) show ?thesis
    by (cases vs) (auto simp: endpoint_def READ_AND_POST_def bindE_def split: sum.splits)
qed


section \<open>Pages of a collection\<close>

definition PAGE_SIZE :: nat where "PAGE_SIZE = 50"

text \<open>\<open>PageNumberPagination\<close>: the page with a number from 1.\<close>

definition page_of :: "nat \<Rightarrow> 'a list \<Rightarrow> 'a list" where
  "page_of n xs = take PAGE_SIZE (drop ((n - 1) * PAGE_SIZE) xs)"

lemma pages_of_take: "concat (map (\<lambda>n. page_of (Suc n) xs) [0..<k]) = take (k * PAGE_SIZE) xs"
proof (induction k)
  case (Suc k)
  have "take (Suc k * PAGE_SIZE) xs = take (k * PAGE_SIZE) xs @ take PAGE_SIZE (drop (k * PAGE_SIZE) xs)"
    using take_add [of "k * PAGE_SIZE" PAGE_SIZE xs] by (simp add: add.commute)
  with Suc show ?case by (simp add: page_of_def del: mult_Suc)
qed simp

text \<open>The pages in turn are the collection, nothing twice and nothing left out.\<close>

theorem pages_are_the_collection:
  assumes "length xs \<le> k * PAGE_SIZE"
  shows "concat (map (\<lambda>n. page_of (Suc n) xs) [0..<k]) = xs"
  using assms by (simp only: pages_of_take) simp

text \<open>And the collection is in one order only, in whatever order the database gives the rows: each
  view orders by a key that no two of its rows share.\<close>

lemma sort_key_unique:
  assumes "mset xs = mset ys" and "inj_on k (set xs)"
  shows "sort_key k xs = sort_key k ys"
  using assms by (simp add: sort_key_inj_key_eq)

theorem collections_have_one_order:
  assumes "mset (db_rules db) = mset (db_rules db')" and "distinct (map rr_id (db_rules db))"
    and "mset (db_versions db) = mset (db_versions db')" and "distinct (map rv_version (db_versions db))"
  shows "rule_queryset db = rule_queryset db' \<and> version_queryset db = version_queryset db'"
proof -
  have "inj_on row_key (set (db_rules db))" and "inj_on (\<lambda>v. - int (rv_version v)) (set (db_versions db))"
    using assms(2,4) by (auto simp: row_key_def distinct_map inj_on_def)
  from sort_key_unique [OF assms(1) this(1)] sort_key_unique [OF assms(3) this(2)]
  show ?thesis by (simp only: rule_queryset_def version_queryset_def simp_thms)
qed

end
