(* ===== verification/Workloads.thy ===== *)
theory Workloads
  imports Routing Preflight Dashboard_Auth
begin

text \<open>
  The two workloads of one image (\<open>src/server/settings.py\<close>, \<open>src/server/settings_management.py\<close>): the
  table and the middleware each one gets, and the entry points that start them (\<open>src/server/asgi.py\<close>,
  \<open>src/server/wsgi.py\<close>, \<open>src/manage.py\<close>).
\<close>


section \<open>Two workloads\<close>

text \<open>The table a worker's settings name.\<close>

definition root_urls :: "django_settings \<Rightarrow> view urlconf list" where
  "root_urls ds = (if ds_root_urlconf ds = ''server.urls'' then server_urls else server_urls_management)"

text \<open>A path that both workloads route is a probe, and the same one.\<close>

theorem workloads_share_only_the_probes:
  assumes "route server_urls path = Some (v, args)" and "route server_urls_management path = Some (v', args')"
  shows "path \<in> set EXEMPT_PATHS \<and> v' = v \<and> args' = args"
proof -
  have "args = []" and "path = ''/v1/decisions'' \<or> path = ''/healthz'' \<and> v = V_healthz \<or> path = ''/readyz'' \<and> v = V_readyz
      \<or> path = ''/metrics'' \<and> v = V_metrics"
    using decision_routes [OF assms(1)] by blast+
  with assms(2) show ?thesis by (elim disjE conjE) (simp_all add: probe_routes EXEMPT_PATHS_def)
qed

text \<open>A decision worker: the probes past the middleware, everything else behind it. \<open>probe\<close> is what the
  probes of \<open>Health\<close> answer.\<close>

definition decision_view :: "platform \<Rightarrow> moment \<Rightarrow> string \<Rightarrow> handler \<Rightarrow> http_request \<Rightarrow> Decision_Endpoint.world \<Rightarrow> response \<times> Decision_Endpoint.world" where
  "decision_view pf mo path h rq w =
     (case route server_urls path of
        Some (V_decisions, args) \<Rightarrow> decisions pf mo h rq w
      | _ \<Rightarrow> (Http 404 [], w))"

definition decision_worker ::
  "(string \<Rightarrow> response) \<Rightarrow> python_parser \<Rightarrow> platform \<Rightarrow> crypto \<Rightarrow> string \<Rightarrow> moment \<Rightarrow> rat \<Rightarrow> api_key_row list
     \<Rightarrow> string \<Rightarrow> http_request \<Rightarrow> worker \<Rightarrow> Decision_Endpoint.world
     \<Rightarrow> response \<times> worker \<times> Decision_Endpoint.world" where
  "decision_worker probe py pf cr salt mo clock keys path rq wk w =
     (if path \<in> set EXEMPT_PATHS then (probe path, wk, w)
      else with_middleware (decision_view pf mo path) py cr salt (mo_now mo) clock keys rq wk w)"

lemma with_middleware_view:
  assumes "\<And>h. view h rq w = view' h rq w"
  shows "with_middleware view py cr salt now clock keys rq wk w = with_middleware view' py cr salt now clock keys rq wk w"
  by (simp add: with_middleware_def assms split: prod.split sum.split auth_error.split option.split)

lemma decision_worker_decides:
  "decision_worker probe py pf cr salt mo clock keys ''/v1/decisions'' rq wk w = middleware py pf cr salt mo clock keys rq wk w"
proof -
  have "route server_urls ''/v1/decisions'' = Some (V_decisions, [])"
    by (simp add: route_def server_urls_def complylayer_urls_def)
  then show ?thesis
    by (auto simp: decision_worker_def EXEMPT_PATHS_def middleware_def decision_view_def intro: with_middleware_view)
qed

text \<open>No other path of a decision worker does anything: a URL of the management API is a 404 there to
  the holder of any key, and a 401 to anybody else.\<close>

theorem decision_worker_does_nothing_else:
  assumes "decision_worker probe py pf cr salt mo clock keys path rq wk w = (r, wk', w')"
    and "path \<noteq> ''/v1/decisions''" and "path \<notin> set EXEMPT_PATHS"
  shows "w' = w \<and> (\<forall>n b. r = Http n b \<longrightarrow> n \<in> {401, 404, 409})"
proof -
  have "decision_view pf mo path h rq w = (Http 404 [], w)" for h
    using decision_routes [of path] assms(2,3)
    by (auto simp: decision_view_def EXEMPT_PATHS_def split: option.split prod.split view.split)
  with assms(1,3) show ?thesis
    by (auto simp: decision_worker_def with_middleware_def Let_def split: prod.splits sum.splits auth_error.splits option.splits)
qed


section \<open>Middleware and probes\<close>

definition DECISION_MIDDLEWARE :: string where
  "DECISION_MIDDLEWARE = ''complylayer.api.decision_middleware.DecisionMiddleware''"

text \<open>The readiness a workload reports: its view reads what the decision middleware attached.\<close>

definition ready_probe :: "django_settings \<Rightarrow> cache_list \<Rightarrow> response" where
  "ready_probe ds cs = readyz (if DECISION_MIDDLEWARE \<in> set (ds_middleware ds) then cs else [])"

lemma decision_ready_probe: "ready_probe (decision_settings e) cs = readyz cs"
  by (simp add: ready_probe_def decision_settings_def Let_def MIDDLEWARE_def DECISION_MIDDLEWARE_def)

lemma management_middleware:
  "DECISION_MIDDLEWARE \<notin> set (ds_middleware (management_settings e))"
  "''complylayer.api.middleware.ApiKeyMiddleware'' \<in> set (ds_middleware (management_settings e))"
proof -
  have "str_contains DECISION_MIDDLEWARE ''decision_middleware''" by code_simp
  then show "DECISION_MIDDLEWARE \<notin> set (ds_middleware (management_settings e))"
    by (auto simp: management_settings_def Let_def) (simp_all add: DECISION_MIDDLEWARE_def)
qed (simp add: management_settings_def Let_def)

text \<open>A management worker routes the readiness probe and never passes it, whatever it holds.\<close>

theorem management_is_never_ready:
  "route (root_urls (management_settings e)) ''/readyz'' = Some (V_readyz, []) \<and> (\<exists>b. ready_probe (management_settings e) cs = Http 503 b)"
proof -
  have "root_urls (management_settings e) = server_urls_management"
    by (simp add: root_urls_def management_settings_def Let_def)
  then show ?thesis
    by (simp add: probe_routes ready_probe_def management_middleware readyz_def probe_cache_def)
qed


section \<open>Entry points\<close>

datatype start_error = Import_error | Improperly_configured improperly_configured

text \<open>The settings module the environment names, \<open>server.settings\<close> where it names none.\<close>

definition configured :: "environ \<Rightarrow> start_error + django_settings" where
  "configured e =
     (let settings = env e ''DJANGO_SETTINGS_MODULE'' ''server.settings''
      in if settings = ''server.settings'' then Inr (decision_settings e)
         else if settings = ''server.settings_management'' then Inr (management_settings e)
         else Inl Import_error)"

definition asgi_application :: "environ \<Rightarrow> start_error + django_settings" where
  "asgi_application e =
     bindE (configured e) (\<lambda>ds.
       case refuse_development_secrets ds of Inl x \<Rightarrow> Inl (Improperly_configured x) | Inr _ \<Rightarrow> Inr ds)"

definition wsgi_application :: "environ \<Rightarrow> start_error + django_settings" where
  "wsgi_application e = configured e"

text \<open>\<open>manage.py\<close>; \<open>execute\<close> is Django's own \<open>execute_from_command_line\<close>.\<close>

definition manage_main :: "(start_error + django_settings \<Rightarrow> string list \<Rightarrow> 'a) \<Rightarrow> environ \<Rightarrow> string list \<Rightarrow> 'a" where
  "manage_main execute e argv = execute (configured e) argv"

theorem asgi_refuses_development_secrets:
  "asgi_application e = Inr ds \<Longrightarrow> \<not> ds_debug ds \<Longrightarrow> ds_secret_key ds \<noteq> INSECURE_SECRET_KEY \<and> ds_customer_salt ds \<noteq> INSECURE_CUSTOMER_SALT"
  by (auto simp: asgi_application_def bindE_def refuse_development_secrets_def Let_def split: sum.splits if_splits)

text \<open>The other entry point asks for nothing: without any environment it serves on the published key.\<close>

theorem wsgi_serves_on_published_secrets:
  "\<exists>ds. wsgi_application Map.empty = Inr ds \<and> \<not> ds_debug ds \<and> ds_secret_key ds = INSECURE_SECRET_KEY
    \<and> (\<exists>x. asgi_application Map.empty = Inl x)"
  by (simp add: wsgi_application_def asgi_application_def configured_def env_def decision_settings_def Let_def refuse_development_secrets_def)


section \<open>Redirects of the dashboard\<close>

text \<open>Every redirect of the views is to one of them.\<close>

definition dashboard_name :: "string \<Rightarrow> string option" where
  "dashboard_name target = (if prefix ''dashboard:'' target then dashboard_reverse (drop 10 target) [] else None)"

lemma redirect_targets:
  "fst (perform sv re ev st) = Redirect n \<Longrightarrow>
     n \<in> {''dashboard:sign-in'', ''dashboard:verify'', ''dashboard:enrol'', ''dashboard:rules''}"
  by (cases ev)
    (auto simp: sign_in_def verify_view_def enrol_view_def enrolment_page_def Let_def
      split: if_splits option.splits prod.splits bool.splits)

lemma dashboard_names:
  "dashboard_name ''dashboard:sign-in'' = Some ''/dashboard/sign-in''" "dashboard_name ''dashboard:verify'' = Some ''/dashboard/verify''"
  "dashboard_name ''dashboard:enrol'' = Some ''/dashboard/enrol''" "dashboard_name ''dashboard:rules'' = Some ''/dashboard/''"
  by (simp_all add: dashboard_name_def dashboard_reverse_def dashboard_routes_def)

theorem redirects_are_routed:
  assumes "fst (perform sv re ev st) = Redirect n"
  shows "\<exists>path name. dashboard_name n = Some path \<and> route server_urls_management path = Some (V_dashboard name, [])"
proof -
  obtain path where path: "dashboard_name n = Some path"
    using redirect_targets [OF assms] dashboard_names by (elim insertE emptyE) simp_all
  then have "dashboard_reverse (drop 10 n) [] = Some path" by (simp add: dashboard_name_def split: if_splits)
  with path dashboard_names_round_trip show ?thesis by blast
qed

end
