(* ===== verification/Demo_Render.thy ===== *)
theory Demo_Render
  imports Dsl_Interpreter
begin

text \<open>
  The printing of one decision for a reader at a terminal (\<open>src/scripts/demo_render.py\<close>): the lines on
  standard output and on standard error, and how the process ends. \<open>loads\<close> is \<open>json.loads\<close>, \<open>None\<close> where it
  raises \<open>JSONDecodeError\<close>; \<open>show\<close> is \<open>str\<close> of what is neither text nor a whole number. The arrow and the
  dash are their UTF-8 bytes.
\<close>

definition ESC :: string where "ESC = [CHR 0x1B]"

definition COLOURS :: "string \<rightharpoonup> string" where
  "COLOURS = [''allow'' \<mapsto> ESC @ ''[32m'', ''flag'' \<mapsto> ESC @ ''[33m'', ''block'' \<mapsto> ESC @ ''[31m'']"

definition RESET :: string where "RESET = ESC @ ''[0m''"

definition DIM :: string where "DIM = ESC @ ''[2m''"

definition arrow :: string where "arrow = [CHR 0xE2, CHR 0x86, CHR 0x92]"

definition margin :: string where "margin = ''      ''"

record printed =
  out_lines :: "string list"
  err_lines :: "string list"
  ended :: "exn + nat"

definition in_text :: "(pyval \<Rightarrow> string) \<Rightarrow> pyval \<Rightarrow> string" where
  "in_text show v = (case v of PStr s \<Rightarrow> s | PInt i \<Rightarrow> str_of_int i | _ \<Rightarrow> show v)"

definition item :: "string \<Rightarrow> pyval \<Rightarrow> pyval dict \<Rightarrow> pyval" where
  "item k otherwise d = (case map_of d k of Some v \<Rightarrow> v | None \<Rightarrow> otherwise)"

text \<open>\<open>key in body\<close>, \<open>COLOURS.get\<close>, \<open>len\<close>, and what a loop runs over.\<close>

fun contains_key :: "string \<Rightarrow> pyval \<Rightarrow> exn + bool" where
  "contains_key k (PDict d) = Inr (map_of d k \<noteq> None)"
| "contains_key k (PList xs) = Inr (list_ex (\<lambda>x. py_eq (PStr k) x) xs)"
| "contains_key k (PStr s) = Inr (str_contains s k)"
| "contains_key k _ = Inl TypeError"

fun colour_of :: "pyval \<Rightarrow> exn + string" where
  "colour_of (PStr s) = Inr (case COLOURS s of Some c \<Rightarrow> c | None \<Rightarrow> [])"
| "colour_of (PList xs) = Inl TypeError"
| "colour_of (PDict d) = Inl TypeError"
| "colour_of _ = Inr []"

fun elements :: "pyval \<Rightarrow> exn + pyval list" where
  "elements (PList xs) = Inr xs"
| "elements (PDict d) = Inr (map (\<lambda>(k, v). PStr k) d)"
| "elements (PStr s) = Inr (map (\<lambda>c. PStr [c]) s)"
| "elements _ = Inl TypeError"

definition rule_line :: "(pyval \<Rightarrow> string) \<Rightarrow> pyval \<Rightarrow> exn + string" where
  "rule_line show rule =
     (case rule of
        PDict d \<Rightarrow>
          (let reference = item ''regulatory_reference'' PNone d;
               shown = (if truthy reference then in_text show reference else ''no reference recorded'')
           in case map_of d ''id'' of
                None \<Rightarrow> Inl KeyError
              | Some i \<Rightarrow>
                  (case map_of d ''name'' of
                     None \<Rightarrow> Inl KeyError
                   | Some n \<Rightarrow>
                       Inr (margin @ in_text show i @ ''  \"'' @ in_text show n @ ''\"   '' @ DIM @ shown @ RESET)))
      | _ \<Rightarrow> Inl AttributeError)"

text \<open>The lines of the loop, up to the one that raises.\<close>

fun rule_lines :: "(pyval \<Rightarrow> string) \<Rightarrow> pyval list \<Rightarrow> string list \<times> exn option" where
  "rule_lines show [] = ([], None)"
| "rule_lines show (r # rs) =
     (case rule_line show r of
        Inl e \<Rightarrow> ([], Some e)
      | Inr l \<Rightarrow> (let (ls, e) = rule_lines show rs in (l # ls, e)))"

definition header_line :: "(pyval \<Rightarrow> string) \<Rightarrow> string \<Rightarrow> pyval \<Rightarrow> nat \<Rightarrow> pyval dict \<Rightarrow> string" where
  "header_line show colour out n body =
     ''    '' @ arrow @ '' '' @ colour @ in_text show out @ RESET @ ''   ('' @ in_text show (item ''evaluated_rules'' (PInt 0) body)
       @ '' rules evaluated, '' @ str_of_nat n @ '' matched, '' @ in_text show (item ''latency_ms'' (PInt 0) body) @ '' ms)''"

definition closing_lines :: "(pyval \<Rightarrow> string) \<Rightarrow> pyval dict \<Rightarrow> string list" where
  "closing_lines show body =
     (let told = item ''customer_message'' PNone body
      in (if truthy told then [margin @ DIM @ ''customer:'' @ RESET @ '' \"'' @ in_text show told @ ''\"''] else [])
         @ (if truthy (item ''degraded'' PNone body)
            then [margin @ DIM @ ''degraded '' @ em_dash @ '' a fact source was unavailable'' @ RESET] else []))"

definition render_decision :: "(pyval \<Rightarrow> string) \<Rightarrow> pyval \<Rightarrow> pyval dict \<Rightarrow> printed" where
  "render_decision show out body =
     (case colour_of out of
        Inl e \<Rightarrow> \<lparr>out_lines = [], err_lines = [], ended = Inl e\<rparr>
      | Inr colour \<Rightarrow>
          (case elements (item ''matched_rules'' (PList []) body) of
             Inl e \<Rightarrow> \<lparr>out_lines = [], err_lines = [], ended = Inl e\<rparr>
           | Inr matched \<Rightarrow>
               (let first = header_line show colour out (length matched) body; (ls, e) = rule_lines show matched
                in case e of
                     Some x \<Rightarrow> \<lparr>out_lines = first # ls, err_lines = [], ended = Inl x\<rparr>
                   | None \<Rightarrow> \<lparr>out_lines = first # ls @ closing_lines show body, err_lines = [], ended = Inr 0\<rparr>)))"

text \<open>\<open>raw\<close> is what was read, stripped. Subscripting what is no dict with a string raises \<open>TypeError\<close>, and
  only dicts have \<open>get\<close>.\<close>

definition demo_render :: "(string \<Rightarrow> pyval option) \<Rightarrow> (pyval \<Rightarrow> string) \<Rightarrow> string \<Rightarrow> printed" where
  "demo_render loads show stdin =
     (let raw = py_strip stdin
      in if raw = [] then \<lparr>out_lines = [], err_lines = [margin @ ''(empty response)''], ended = Inr 1\<rparr>
         else
           (case loads raw of
              None \<Rightarrow> \<lparr>out_lines = [], err_lines = [margin @ ''(not JSON) '' @ take 200 raw], ended = Inr 1\<rparr>
            | Some body \<Rightarrow>
                (case contains_key ''outcome'' body of
                   Inl e \<Rightarrow> \<lparr>out_lines = [], err_lines = [], ended = Inl e\<rparr>
                 | Inr False \<Rightarrow>
                     (case body of
                        PDict d \<Rightarrow>
                          \<lparr>out_lines = [margin @ in_text show (item ''error'' (PStr ''unknown'') d) @ '': ''
                              @ in_text show (item ''message'' (PStr (take 160 raw)) d)], err_lines = [], ended = Inr 1\<rparr>
                      | _ \<Rightarrow> \<lparr>out_lines = [], err_lines = [], ended = Inl AttributeError\<rparr>)
                 | Inr True \<Rightarrow>
                     (case body of
                        PDict d \<Rightarrow> render_decision show (item ''outcome'' PNone d) d
                      | _ \<Rightarrow> \<lparr>out_lines = [], err_lines = [], ended = Inl TypeError\<rparr>))))"

text \<open>An exception ends the process with 1, as does a returned 1.\<close>

definition exit_status :: "printed \<Rightarrow> nat" where
  "exit_status p = (case ended p of Inl e \<Rightarrow> 1 | Inr n \<Rightarrow> n)"

lemma rule_lines_all:
  "rule_lines show rs = (ls, None) \<Longrightarrow> list_all2 (\<lambda>r l. rule_line show r = Inr l) rs ls"
  by (induction rs arbitrary: ls) (auto split: sum.splits prod.splits)

text \<open>The script fails loudly: it ends with 0 only for an object with an outcome, having printed its header,
  one line for each matched rule, each with an id and a name, and what there is to say to the customer.
  Whatever it cannot read ends with 1.\<close>

theorem demo_render_fails_loudly:
  "exit_status (demo_render loads show stdin) \<in> {0, 1}
   \<and> (exit_status (demo_render loads show stdin) = 0 \<longrightarrow>
       (\<exists>d out colour matched ls. loads (py_strip stdin) = Some (PDict d) \<and> map_of d ''outcome'' = Some out
          \<and> colour_of out = Inr colour \<and> elements (item ''matched_rules'' (PList []) d) = Inr matched
          \<and> list_all2 (\<lambda>r l. rule_line show r = Inr l) matched ls
          \<and> out_lines (demo_render loads show stdin)
              = header_line show colour out (length matched) d # ls @ closing_lines show d
          \<and> err_lines (demo_render loads show stdin) = []))"
proof -
  have status: "exit_status (render_decision show out d) \<in> {0, 1}" for out d
    by (auto simp: exit_status_def render_decision_def Let_def split: sum.split prod.split option.split)
  have zero: "\<exists>colour matched ls. colour_of out = Inr colour \<and> elements (item ''matched_rules'' (PList []) d) = Inr matched
      \<and> list_all2 (\<lambda>r l. rule_line show r = Inr l) matched ls
      \<and> out_lines (render_decision show out d) = header_line show colour out (length matched) d # ls @ closing_lines show d
      \<and> err_lines (render_decision show out d) = []" if "exit_status (render_decision show out d) = 0" for out d
    using that rule_lines_all
    by (auto simp: exit_status_def render_decision_def Let_def split: sum.splits prod.splits option.splits)
  show ?thesis
  proof (cases "py_strip stdin = []")
    case False
    show ?thesis
    proof (cases "loads (py_strip stdin)")
      case (Some body)
      show ?thesis
      proof (cases "\<exists>d out. body = PDict d \<and> map_of d ''outcome'' = Some out")
        case True
        then obtain d out where d: "body = PDict d" "map_of d ''outcome'' = Some out" by blast
        then have "demo_render loads show stdin = render_decision show out d"
          using False Some by (simp add: demo_render_def Let_def item_def)
        with d Some status zero show ?thesis by auto
      next
        case no: False
        then have "exit_status (demo_render loads show stdin) = 1"
          using False Some by (cases body) (auto simp: demo_render_def Let_def exit_status_def split: bool.split)
        then show ?thesis by simp
      qed
    qed (use False in \<open>simp add: demo_render_def Let_def exit_status_def\<close>)
  qed (simp add: demo_render_def Let_def exit_status_def)
qed

end
