(* ===== verification/Spec2Isabelle.thy ===== *)
theory Spec2Isabelle
  imports Decision_Endpoint Dsl_Structured Dashboard_Auth Reports Dashboard_Builder Dashboard_Pages Partitions Management
    Health Metrics Propagation Row_Security Dsl_Types Dsl_Errors Preflight Commands Checkpoint_Keys Watcher_Threads Memory_Store Demo_Seed Schema Routing Workloads Demo_Render
begin

text \<open>
  ComplyLayer, a decision engine for compliance rules, as a library of theories over its Python sources.

  \<^bold>\<open>The program.\<close> A compliance officer writes a rule, an expression over facts of one transaction. It is
  parsed by Python's parser between guards, validated against a closed grammar, and taken through a
  lifecycle: draft, approval by somebody else, activation, which publishes an immutable version of all
  active and shadow rules of the tenant. Every worker process holds the newest version compiled in memory
  and answers \<open>POST /v1/decisions\<close>: it authenticates the key, validates the request, counts the
  transaction in a Redis window, evaluates every rule, combines their verdicts, records the decision with
  an idempotency record, and answers. Everything that changes a control appends to a hash-chained audit
  trail, whose head operators sign. A management API, a server-rendered dashboard, a backtest over recorded
  decisions, exports, metrics, probes and commands surround this, all on a PostgreSQL database with row
  level security per tenant.

  \<^bold>\<open>Theories and sources\<close> (paths under \<open>src/complylayer\<close>).

  \<^item> \<open>Prelude\<close>, \<open>Py_Values\<close>: errors as sums, strings, dicts, Python's values and their equality; transition
    systems with invariants and logs that grow.
  \<^item> \<open>Dsl_Ast\<close>, \<open>Dsl_Parser\<close>, \<open>Dsl_Validator\<close>, \<open>Dsl_Interpreter\<close>, \<open>Dsl_Functions\<close>, \<open>Dsl_Structured\<close>,
    \<open>Dsl_Errors\<close>: \<open>dsl/limits.py\<close>, \<open>parser.py\<close>, \<open>validator.py\<close>, \<open>interpreter.py\<close>, \<open>functions.py\<close>,
    \<open>structured.py\<close>, \<open>errors.py\<close>. \<open>Dsl_Properties\<close> holds what the pipeline guarantees, \<open>Dsl_Types\<close> a type
    system the code does not have and what it excludes, \<open>Ast_Walk\<close> the traversal \<open>ast.walk\<close>.
  \<^item> \<open>Engine_Evaluation\<close>: \<open>engine/evaluation.py\<close>. \<open>Engine_Cache\<close>, \<open>Watcher_Threads\<close>, \<open>Propagation\<close>:
    \<open>engine/cache.py\<close>, one cache, the threads of one watcher, the watchers of a fleet of workers.
    \<open>Metrics\<close>: \<open>engine/metrics.py\<close>.
  \<^item> \<open>Velocity\<close>: \<open>velocity/redis_store.py\<close>.
  \<^item> \<open>Roles\<close>: \<open>tenancy/roles.py\<close>. \<open>Row_Security\<close>: \<open>tenancy/scope.py\<close>, \<open>api/middleware.py\<close> and the migrations that
    install roles, policies and triggers. \<open>Schema\<close>: \<open>models.py\<close> and the migrations that make tables.
  \<^item> \<open>Json\<close>, \<open>Audit_Trail\<close>, \<open>Checkpoint_Keys\<close>: \<open>audit/chain.py\<close>, \<open>writer.py\<close>, \<open>checkpoint.py\<close>.
  \<^item> \<open>Lifecycle\<close>: \<open>rules/lifecycle.py\<close>, one tenant's rules, versions, lists and trail as a record.
  \<^item> \<open>Api_Validation\<close>, \<open>Decision_Handler\<close>, \<open>Memory_Store\<close>, \<open>Api_Auth\<close>, \<open>Decision_Endpoint\<close>: \<open>api/validation.py\<close>,
    \<open>handler.py\<close> with \<open>store.py\<close> (its second store in \<open>Memory_Store\<close>), \<open>auth.py\<close>, \<open>decision.py\<close> with \<open>decision_middleware.py\<close>. \<open>Health\<close>: \<open>api/health.py\<close>.
    \<open>Management\<close>: \<open>api/management\<close>.
  \<^item> \<open>Throttle\<close>, \<open>Dashboard_Auth\<close>, \<open>Dashboard_Builder\<close>, \<open>Dashboard_Diff\<close>, \<open>Dashboard_Pages\<close>: \<open>dashboard/throttle.py\<close>,
    \<open>auth.py\<close>, \<open>builder.py\<close>, \<open>diff.py\<close>, \<open>states.py\<close> and \<open>views.py\<close>.
  \<^item> \<open>Backtest\<close>, \<open>Reports\<close>: \<open>backtest/replay.py\<close>, \<open>analytics.py\<close>, \<open>export.py\<close>.
  \<^item> \<open>Partitions\<close>, \<open>Preflight\<close>, \<open>Commands\<close>, \<open>Demo_Seed\<close>: \<open>partitions.py\<close>, \<open>checks.py\<close> with
    \<open>server/settings.py\<close> and \<open>server/boot.py\<close>, the commands under \<open>management/commands\<close>, \<open>db_router.py\<close>,
    \<open>templatetags\<close> and \<open>scripts/no_eval_guard.py\<close>. \<open>Demo_Render\<close>: \<open>scripts/demo_render.py\<close>.
  \<^item> \<open>Url_Tables\<close>: \<open>urls.py\<close>, \<open>api/management/urls.py\<close>, \<open>dashboard/urls.py\<close>, \<open>server/urls.py\<close>,
    \<open>server/urls_management.py\<close> and the routes the view sets declare. \<open>Routing\<close>: one request of the
    management workload from its path to the operations above. \<open>Workloads\<close>: \<open>server/settings_management.py\<close>
    against \<open>server/settings.py\<close>, and the entry points \<open>server/asgi.py\<close>, \<open>server/wsgi.py\<close> and \<open>manage.py\<close>.

  \<^bold>\<open>How state and operations correspond.\<close> A model class is a record of its columns, a table a list of rows
  in the order of insertion, a module global that is mutable a component of the state, one Redis key an
  entry of a map with its expiry. An operation is a function from the state to a result and a state; an
  exception is \<open>Inl\<close> of the error, with the state as it is when the exception leaves. Requests that
  interleave are steps of a relation (\<open>auth_step\<close>, \<open>serve\<close>, \<open>dash_step\<close>, \<open>step\<close>, \<open>key_step\<close>), a fleet of workers
  a history of events (\<open>deliver\<close>), threads the events of \<open>advance\<close>. Numbers are Python's unbounded integers;
  floats are rationals: the code computes with them in times, latencies and percentages only, and a rule
  cannot write one.

  \<^bold>\<open>What the lemmas show.\<close>

  \<^item> Rule language: validation accepts exactly the closed grammar; a guarded source nests to a bounded
    depth; a parsed rule never runs out of its step budget; evaluation depends on the facts a rule names;
    accepted calls bind their arguments; arithmetic stays within its bits; a rule built from a structure
    contains no construct of its own; a rule with a type fails for five reasons only; every rejection says
    what is wrong and what to write instead.
  \<^item> Engine: a decision is the maximum of the verdicts of the active rules with the configured fallback for
    those that fail, whatever the order of the rules, and shadow rules never change it.
  \<^item> Velocity: the window served is the log of the last seconds; a threshold is exact without a lock.
  \<^item> Audit: canonical text is injective; an altered record is found, the first one named; what a signed
    checkpoint covers cannot be rewritten.
  \<^item> Lifecycle: approvals are by two people; active rules are authorised; versions and trail only grow; what
    was published compiles again and reaches every worker that polls.
  \<^item> Decision API: exactly the closed schema is accepted; a retry gets the first answer; an outage fails
    safe; requests stay in their tenant; revocation is immediate.
  \<^item> Management API and row security: noninterference between tenants, at every URL, once by the query sets
    and once by the policies for any program at all.
  \<^item> Routing: every endpoint has its URL, the names of the dashboard and their paths are one to one, the two
    workloads share the probes only, and no other path of a decision worker does anything.
  \<^item> Dashboard: the gate opens by a code only; a confirmed factor is kept; a previewed rule decides the
    question of its shape; the approve button is there exactly if the approval is accepted.
  \<^item> Replay, backtest and export: a recorded decision is reproduced; an exact backtest is history; an export
    reads back and is inert.
  \<^item> Operations: partitions are ready; the preflight passes exactly for what is on its list; migrations make
    the tables of the models, and every table with a tenant is under a policy.

  \<^bold>\<open>Bounds and fuel.\<close> The interpreter counts steps against \<open>MAX_STEPS\<close> of the code, which is part of the
  model: a parsed rule has at most \<open>MAX_NODES\<close> nodes and takes fewer steps. No other definition runs on
  fuel but \<open>lead\<close> of \<open>Dashboard_Diff\<close>, which gets the number of digits of the reciprocal and needs no more.
  Loops are structural or carry their measure. Where the code may not return, as the poll loop of a watcher,
  a list of readings or events drives it.

  \<^bold>\<open>Parameters.\<close> Code that is not in the repository is an argument: Python's parser (\<open>python_parser\<close>), \<open>orjson\<close>,
  \<open>fromisoformat\<close>, the spelling of floats, SHA-256 and HMAC, Argon2id, the TOTP check, Ed25519, clocks, random
  identifiers and the row numbers of named lists. What is relied on of them is named: \<open>genuine\<close> pairs of keys; that a SHA-256 collision is at
  hand is an alternative in the conclusion, never a hypothesis. Of PostgreSQL, Redis, Django and its REST
  framework it is modelled what their manuals say of what is used.

  \<^bold>\<open>Interfaces.\<close> The locale \<open>step_invariant\<close> and its extension \<open>growing_log\<close> (\<open>Prelude\<close>) carry every argument
  about runs of a step relation; \<open>hash_chain\<close> (\<open>Audit_Trail\<close>) what a chain of any records proves;
  \<open>response_store\<close> (\<open>Memory_Store\<close>) the interface \<open>DecisionStore\<close>, which both stores keep, and
  \<open>first_write_wins\<close> (\<open>Decision_Endpoint\<close>) what the database adds to it, idempotency;
  \<open>velocity_contract\<close> (\<open>Dsl_Properties\<close>) the interface \<open>VelocityProvider\<close>, kept by the window of Redis and
  by its stand-in for an outage; \<open>serialised_counter\<close> (\<open>Velocity\<close>) counting without a lock;
  \<open>named_routes\<close> (\<open>Url_Tables\<close>) names against paths. Each is
  interpreted on the definitions of the model.

  \<^bold>\<open>Not modelled.\<close> Package initialisers, which only name things; reverse migrations; templates, style sheets and the site; the SDK, which is another language;
  log lines; the spelling of JSON responses of the management
  API; the background thread's scheduling beyond the events above.
  Strings are Latin-1: characters beyond it occur in messages only, as UTF-8 bytes, and where the code
  refuses what is not ASCII the first 256 characters stand for the rest. A value written to a JSON column is
  read back as it was, tuples as lists.
\<close>

end
